(* ===== verification/Dp_Prelude.thy ===== *)
theory Dp_Prelude
  imports Main "HOL-Library.Word"
begin

text \<open>
  Shared foundations of the development.

  \<^item> Machine integers: the fixed-width C types as words, and the libc byte-order functions
    on a little-endian host.
  \<^item> Return codes: the \<^verbatim>\<open>int\<close> return values of \<^verbatim>\<open>include/dp_error.h\<close>, negative for failure.
  \<^item> The DPDK interface: \<^verbatim>\<open>rte_hash\<close> and \<^verbatim>\<open>rte_malloc\<close> are third-party code and appear as
    parameters (records of functions); what their documentation promises is the predicate
    \<open>rte_hash_ok\<close>, respectively \<open>rte_malloc_ok\<close>, a hypothesis of the lemmas that need it.
  \<^item> Object tables: in dpservice a hash table maps a key to a pointer to a heap object that is
    later changed in place.  \<open>obj_view\<close> is the finite map such a table and heap represent and
    \<open>obj_ok\<close> says that every stored pointer is live and owned by one key only.
\<close>

unbundle bit_operations_syntax

named_theorems dp_hash_simps
named_theorems dp_consts

section \<open>Machine integers\<close>

type_synonym u8 = "8 word"
type_synonym u16 = "16 word"
type_synonym u32 = "32 word"
type_synonym u64 = "64 word"

text \<open>
  A \<^verbatim>\<open>uint8_t[16]\<close> address is the 128-bit word whose bits \<open>8i \<dots> 8i+7\<close> are byte \<open>i\<close>, i.e.
  what a little-endian host reads at that memory.  A \<^verbatim>\<open>uint32_t\<close> that overlays the first four
  bytes (a C union, or the index 0 of a \<^verbatim>\<open>uint32_t[4]\<close>) is its low half-word.
\<close>

type_synonym ipv6_addr = "128 word"

text \<open>libc byte order conversion (each is its own inverse, so \<^verbatim>\<open>htons\<close> = \<^verbatim>\<open>ntohs\<close>).\<close>

definition ntohs :: "u16 \<Rightarrow> u16" where
  "ntohs x = push_bit 8 x OR drop_bit 8 x"

definition ntohl :: "u32 \<Rightarrow> u32" where
  "ntohl x = push_bit 24 x OR push_bit 8 (x AND 0xFF00) OR (drop_bit 8 x AND 0xFF00) OR drop_bit 24 x"

abbreviation (input) htons :: "u16 \<Rightarrow> u16" where "htons \<equiv> ntohs"
abbreviation (input) htonl :: "u32 \<Rightarrow> u32" where "htonl \<equiv> ntohl"

lemma bit_ntohs:
  "bit (ntohs x) n \<longleftrightarrow> (if n < 8 then bit x (n + 8) else n < 16 \<and> bit x (n - 8))"
  by (auto simp: ntohs_def bit_or_iff bit_push_bit_iff bit_drop_bit_eq ac_simps dest: bit_imp_le_length)

lemma ntohs_ntohs [simp]: "ntohs (ntohs x) = x"
  by (rule bit_word_eqI) (auto simp: bit_ntohs)

lemma ntohs_inj [simp]: "ntohs x = ntohs y \<longleftrightarrow> x = y"
  by (metis ntohs_ntohs)

lemma ntohs_0 [simp]: "ntohs 0 = 0"
  by (simp add: ntohs_def)

lemma ntohl_0 [simp]: "ntohl 0 = 0"
  by (simp add: ntohl_def)

lemma bit_FF00: "bit (0xFF00 :: u32) n \<longleftrightarrow> 8 \<le> n \<and> n < 16"
proof -
  have "(0xFF00 :: u32) = push_bit 8 (mask 8)"
    by (simp add: mask_eq_exp_minus_1 push_bit_eq_mult)
  then show ?thesis
    by (simp only: bit_push_bit_iff bit_mask_iff) auto
qed

lemma bit_ntohl:
  "bit (ntohl x) n \<longleftrightarrow>
     (if n < 8 then bit x (n + 24) else if n < 16 then bit x (n + 8)
      else if n < 24 then bit x (n - 8) else n < 32 \<and> bit x (n - 24))"
proof -
  have out: "32 \<le> m \<Longrightarrow> \<not> bit x m" for m
    using bit_imp_le_length [of x m] by auto
  show ?thesis
    unfolding ntohl_def
    by (simp only: bit_or_iff bit_and_iff bit_push_bit_iff bit_drop_bit_eq bit_FF00 comp_apply)
      (auto simp: ac_simps out)
qed

lemma ntohl_ntohl [simp]: "ntohl (ntohl x) = x"
  by (rule bit_word_eqI) (auto simp: bit_ntohl)

lemma ntohl_inj [simp]: "ntohl x = ntohl y \<longleftrightarrow> x = y"
  by (metis ntohl_ntohl)

lemma ntohl_eq_0_iff [simp]: "ntohl x = 0 \<longleftrightarrow> x = 0"
  by (metis ntohl_0 ntohl_ntohl)

section \<open>Return codes\<close>

text \<open>
  \<^verbatim>\<open>RTE_MAX_ERRNO\<close> is the constant of DPDK's \<^verbatim>\<open>rte_errno.h\<close>; every \<^verbatim>\<open>errno\<close> value is below it, so
  \<^verbatim>\<open>DP_ERROR\<close> is told apart from the negated \<^verbatim>\<open>errno\<close> values DPDK returns.
\<close>

abbreviation ENOENT :: int where "ENOENT \<equiv> 2"
abbreviation RTE_MAX_ERRNO :: int where "RTE_MAX_ERRNO \<equiv> 1003"

abbreviation DP_OK :: int where "DP_OK \<equiv> 0"
abbreviation DP_ERROR :: int where "DP_ERROR \<equiv> - RTE_MAX_ERRNO"

definition DP_FAILED :: "int \<Rightarrow> bool" where
  [simp]: "DP_FAILED ret \<longleftrightarrow> ret < 0"

section \<open>The DPDK hash table\<close>

text \<open>
  A pointer is a number; \<^verbatim>\<open>NULL\<close> is the absent value of an \<open>option\<close>.  All tables of the program
  have the one C type \<^verbatim>\<open>struct rte_hash\<close>, here the type variable \<open>'t\<close>; the key type \<open>'k\<close> is
  what the table was created for.  The \<^verbatim>\<open>_with_hash\<close> variants take a precomputed
  \<^verbatim>\<open>rte_hash_hash\<close> of the same key and are the same operations.
\<close>

type_synonym ptr = nat

record ('k, 't) rte_hash =
  rh_lookup :: "'t \<Rightarrow> 'k \<Rightarrow> int + ptr"
  rh_add_data :: "'t \<Rightarrow> 'k \<Rightarrow> ptr \<Rightarrow> int \<times> 't"
  rh_add_key :: "'t \<Rightarrow> 'k \<Rightarrow> int \<times> 't"
  rh_del :: "'t \<Rightarrow> 'k \<Rightarrow> int \<times> 't"
  rh_hash :: "'t \<Rightarrow> 'k \<Rightarrow> u32"
  rh_count :: "'t \<Rightarrow> int"
  rh_iterate :: "'t \<Rightarrow> u32 \<Rightarrow> int + ('k \<times> ptr \<times> u32)"

definition rh_view :: "('k, 't) rte_hash \<Rightarrow> 't \<Rightarrow> 'k \<rightharpoonup> ptr" where
  "rh_view H t k = (case rh_lookup H t k of Inl _ \<Rightarrow> None | Inr p \<Rightarrow> Some p)"

text \<open>
  The documented behaviour: a lookup of an absent key, and only that, gives \<^verbatim>\<open>-ENOENT\<close>; an
  addition returns 0 and binds the key, or fails with a negated \<^verbatim>\<open>errno\<close> and changes nothing; a
  deletion returns the slot of a present key and unbinds it, or \<^verbatim>\<open>-ENOENT\<close>; \<^verbatim>\<open>rte_hash_add_key\<close>
  returns the slot and stores no meaningful data; \<^verbatim>\<open>rte_hash_count\<close> counts the keys.
\<close>

definition errno_ret :: "int \<Rightarrow> bool" where
  "errno_ret r \<longleftrightarrow> DP_ERROR < r \<and> r < 0"

definition rte_hash_ok :: "('k, 't) rte_hash \<Rightarrow> bool" where
  "rte_hash_ok H \<longleftrightarrow>
     (\<forall>t k e. rh_lookup H t k = Inl e \<longrightarrow> e = - ENOENT) \<and>
     (\<forall>t k p. case rh_add_data H t k p of (r, t') \<Rightarrow>
        (r = 0 \<and> rh_view H t' = (rh_view H t)(k \<mapsto> p)) \<or> (errno_ret r \<and> rh_view H t' = rh_view H t)) \<and>
     (\<forall>t k. case rh_add_key H t k of (r, t') \<Rightarrow>
        (0 \<le> r \<and> (\<exists>p. rh_view H t' = (rh_view H t)(k \<mapsto> p))) \<or> (errno_ret r \<and> rh_view H t' = rh_view H t)) \<and>
     (\<forall>t k. case rh_del H t k of (r, t') \<Rightarrow>
        rh_view H t' = (rh_view H t)(k := None) \<and> (if rh_view H t k = None then r = - ENOENT else 0 \<le> r)) \<and>
     (\<forall>t. finite (dom (rh_view H t)) \<and> rh_count H t = int (card (dom (rh_view H t))))"

text \<open>
  Iteration visits the occupied slots in slot order: a call returns the first entry at or after
  the iterator and moves the iterator behind it, or \<^verbatim>\<open>-ENOENT\<close> at the end.  Deleting a key
  leaves the slots of the others alone, so the loops that delete while they iterate are sound.
\<close>

fun slot_next :: "(nat \<times> 'k \<times> ptr) list \<Rightarrow> nat \<Rightarrow> int + ('k \<times> ptr \<times> u32)" where
  "slot_next [] i = Inl (- ENOENT)"
| "slot_next ((s, k, p) # es) i = (if i \<le> s then Inr (k, p, of_nat (Suc s)) else slot_next es i)"

definition rte_iter_ok :: "('k, 't) rte_hash \<Rightarrow> ('t \<Rightarrow> (nat \<times> 'k \<times> ptr) list) \<Rightarrow> bool" where
  "rte_iter_ok H slots \<longleftrightarrow>
     (\<forall>t. sorted_wrt (<) (map fst (slots t)) \<and> (\<forall>e \<in> set (slots t). Suc (fst e) < 2 ^ 32) \<and>
        distinct (map (fst \<circ> snd) (slots t)) \<and>
        (\<forall>k p. rh_view H t k = Some p \<longleftrightarrow> (k, p) \<in> set (map snd (slots t)))) \<and>
     (\<forall>t i. rh_iterate H t i = slot_next (slots t) (unat i)) \<and>
     (\<forall>t k. slots (snd (rh_del H t k)) = filter (\<lambda>e. fst (snd e) \<noteq> k) (slots t))"

lemma rh_lookup_Inr [dp_hash_simps]: "rh_lookup H t k = Inr p \<longleftrightarrow> rh_view H t k = Some p"
  by (auto simp: rh_view_def split: sum.splits)

lemma rh_lookup_Inl [dp_hash_simps]:
  "rte_hash_ok H \<Longrightarrow> rh_lookup H t k = Inl e \<longleftrightarrow> rh_view H t k = None \<and> e = - ENOENT"
  by (auto simp: rh_view_def rte_hash_ok_def split: sum.splits)

lemma rh_lookup_view:
  "rte_hash_ok H \<Longrightarrow> rh_lookup H t k = (case rh_view H t k of None \<Rightarrow> Inl (- ENOENT) | Some p \<Rightarrow> Inr p)"
  by (auto simp: dp_hash_simps split: option.splits)

lemma rte_hash_okD:
  assumes "rte_hash_ok H"
  shows "rh_add_data H t k p = (r, t') \<Longrightarrow>
      (r = 0 \<and> rh_view H t' = (rh_view H t)(k \<mapsto> p)) \<or> (errno_ret r \<and> rh_view H t' = rh_view H t)"
    and "rh_add_key H t k = (r, t') \<Longrightarrow>
      (0 \<le> r \<and> (\<exists>p. rh_view H t' = (rh_view H t)(k \<mapsto> p))) \<or> (errno_ret r \<and> rh_view H t' = rh_view H t)"
    and "rh_del H t k = (r, t') \<Longrightarrow>
      rh_view H t' = (rh_view H t)(k := None) \<and> (if rh_view H t k = None then r = - ENOENT else 0 \<le> r)"
proof -
  note ok = assms [unfolded rte_hash_ok_def, THEN conjunct2]
  show "rh_add_data H t k p = (r, t') \<Longrightarrow>
      (r = 0 \<and> rh_view H t' = (rh_view H t)(k \<mapsto> p)) \<or> (errno_ret r \<and> rh_view H t' = rh_view H t)"
    using ok [THEN conjunct1, rule_format, of t k p] by simp
  show "rh_add_key H t k = (r, t') \<Longrightarrow>
      (0 \<le> r \<and> (\<exists>p. rh_view H t' = (rh_view H t)(k \<mapsto> p))) \<or> (errno_ret r \<and> rh_view H t' = rh_view H t)"
    using ok [THEN conjunct2, THEN conjunct1, rule_format, of t k] by simp
  show "rh_del H t k = (r, t') \<Longrightarrow>
      rh_view H t' = (rh_view H t)(k := None) \<and> (if rh_view H t k = None then r = - ENOENT else 0 \<le> r)"
    using ok [THEN conjunct2, THEN conjunct2, THEN conjunct1, rule_format, of t k] by simp
qed

lemma rh_add_data_cases:
  assumes "rte_hash_ok H" "rh_add_data H t k p = (r, t')"
  obtains (added) "r = 0" "rh_view H t' = (rh_view H t)(k \<mapsto> p)"
    | (failed) "errno_ret r" "r < 0" "rh_view H t' = rh_view H t"
  using rte_hash_okD(1) [OF assms] by (auto simp: errno_ret_def)

lemma rh_add_key_cases:
  assumes "rte_hash_ok H" "rh_add_key H t k = (r, t')"
  obtains (added) p where "0 \<le> r" "rh_view H t' = (rh_view H t)(k \<mapsto> p)"
    | (failed) "errno_ret r" "r < 0" "rh_view H t' = rh_view H t"
  using rte_hash_okD(2) [OF assms] by (auto simp: errno_ret_def)

lemma rh_del_view:
  assumes "rte_hash_ok H" "rh_del H t k = (r, t')"
  shows "rh_view H t' = (rh_view H t)(k := None)"
    and "rh_view H t k = None \<Longrightarrow> r = - ENOENT"
    and "rh_view H t k = Some p \<Longrightarrow> 0 \<le> r"
  using rte_hash_okD(3) [OF assms] by auto

lemma rh_count_view:
  "rte_hash_ok H \<Longrightarrow> rh_count H t = int (card (dom (rh_view H t)))"
  "rte_hash_ok H \<Longrightarrow> finite (dom (rh_view H t))"
  by (simp_all add: rte_hash_ok_def)

lemma rh_count_0 [dp_hash_simps]: "rte_hash_ok H \<Longrightarrow> rh_count H t = 0 \<longleftrightarrow> rh_view H t = Map.empty"
  by (simp add: rh_count_view)

section \<open>Allocation\<close>

text \<open>
  The objects of one C structure live in a heap of their own.  \<^verbatim>\<open>rte_malloc\<close> may fail; a pointer
  it returns is not in use.  \<^verbatim>\<open>rte_free\<close> removes the object.
\<close>

type_synonym 'o heap = "ptr \<rightharpoonup> 'o"
type_synonym 'o rte_malloc = "'o heap \<Rightarrow> ptr option"

definition rte_malloc_ok :: "'o rte_malloc \<Rightarrow> bool" where
  "rte_malloc_ok M \<longleftrightarrow> (\<forall>h p. M h = Some p \<longrightarrow> h p = None)"

definition rte_free :: "'o heap \<Rightarrow> ptr \<Rightarrow> 'o heap" where
  "rte_free h p = h(p := None)"

lemma rte_malloc_fresh: "rte_malloc_ok M \<Longrightarrow> M h = Some p \<Longrightarrow> h p = None"
  by (simp add: rte_malloc_ok_def)

section \<open>Object tables\<close>

definition obj_view :: "('k, 't) rte_hash \<Rightarrow> 't \<Rightarrow> 'o heap \<Rightarrow> 'k \<rightharpoonup> 'o" where
  "obj_view H t h k = Option.bind (rh_view H t k) h"

definition obj_ok :: "('k, 't) rte_hash \<Rightarrow> 't \<Rightarrow> 'o heap \<Rightarrow> bool" where
  "obj_ok H t h \<longleftrightarrow>
     (\<forall>k p. rh_view H t k = Some p \<longrightarrow> h p \<noteq> None) \<and>
     (\<forall>k k' p. rh_view H t k = Some p \<longrightarrow> rh_view H t k' = Some p \<longrightarrow> k = k')"

lemma obj_ok_live: "obj_ok H t h \<Longrightarrow> rh_view H t k = Some p \<Longrightarrow> \<exists>v. h p = Some v"
  unfolding obj_ok_def by blast

lemma obj_ok_inj: "obj_ok H t h \<Longrightarrow> rh_view H t k = Some p \<Longrightarrow> rh_view H t k' = Some p \<Longrightarrow> k' = k"
  unfolding obj_ok_def by blast

lemma obj_okI:
  assumes "\<And>k p. rh_view H t k = Some p \<Longrightarrow> \<exists>v. h p = Some v"
    and "\<And>k k' p. rh_view H t k = Some p \<Longrightarrow> rh_view H t k' = Some p \<Longrightarrow> k = k'"
  shows "obj_ok H t h"
  unfolding obj_ok_def using assms by blast

lemma obj_ok_liveE:
  assumes "obj_ok H t h" "rh_view H t k = Some p"
  obtains v where "h p = Some v" "obj_view H t h k = Some v"
  using obj_ok_live [OF assms] assms(2) by (auto simp: obj_view_def)

lemma obj_view_None: "obj_ok H t h \<Longrightarrow> obj_view H t h k = None \<longleftrightarrow> rh_view H t k = None"
  by (cases "rh_view H t k") (auto simp: obj_view_def dest: obj_ok_live)

lemma obj_view_Some: "obj_view H t h k = Some v \<longleftrightarrow> (\<exists>p. rh_view H t k = Some p \<and> h p = Some v)"
  by (cases "rh_view H t k") (auto simp: obj_view_def)

lemma obj_fresh:
  assumes "obj_ok H t h" "h p = None"
  shows "rh_view H t k \<noteq> Some p"
  using obj_ok_live [OF assms(1)] assms(2) by force

lemma obj_view_upd_other:
  assumes "\<And>k. rh_view H t k \<noteq> Some p"
  shows "obj_view H t (h(p := x)) = obj_view H t h"
proof
  fix k
  show "obj_view H t (h(p := x)) k = obj_view H t h k"
    using assms [of k] by (cases "rh_view H t k") (auto simp: obj_view_def)
qed

lemma obj_view_cong: "rh_view H t' = rh_view H t \<Longrightarrow> obj_view H t' h = obj_view H t h"
  by (simp add: obj_view_def fun_eq_iff)

lemma obj_ok_cong: "rh_view H t' = rh_view H t \<Longrightarrow> obj_ok H t' h = obj_ok H t h"
  by (simp add: obj_ok_def)

text \<open>Bind a key to a new object; allocate an object without binding it; free it again.\<close>

lemma obj_add:
  assumes ok: "obj_ok H t h" and new: "h p = None" and t': "rh_view H t' = (rh_view H t)(k \<mapsto> p)"
  shows "obj_ok H t' (h(p \<mapsto> v))" "obj_view H t' (h(p \<mapsto> v)) = (obj_view H t h)(k \<mapsto> v)"
proof -
  note fresh = obj_fresh [OF ok new]
  show "obj_ok H t' (h(p \<mapsto> v))"
    using t' fresh by (intro obj_okI) (auto split: if_splits dest: obj_ok_live [OF ok] obj_ok_inj [OF ok])
  have "obj_view H t' (h(p \<mapsto> v)) = (obj_view H t (h(p \<mapsto> v)))(k \<mapsto> v)"
    by (auto simp: obj_view_def t' fun_eq_iff)
  then show "obj_view H t' (h(p \<mapsto> v)) = (obj_view H t h)(k \<mapsto> v)"
    by (simp add: obj_view_upd_other [OF fresh])
qed

lemma obj_alloc:
  assumes ok: "obj_ok H t h" and new: "h p = None"
  shows "obj_ok H t (h(p \<mapsto> v))" "obj_view H t (h(p \<mapsto> v)) = obj_view H t h"
  using obj_view_upd_other [OF obj_fresh [OF assms]]
  by (auto intro!: obj_okI dest: obj_ok_live [OF ok] obj_ok_inj [OF ok])

lemma rte_free_alloc [simp]: "h p = None \<Longrightarrow> rte_free (h(p \<mapsto> v)) p = h"
  by (auto simp: rte_free_def)

text \<open>Unbind a key and free its object; change the object of a key in place.\<close>

lemma obj_del:
  assumes ok: "obj_ok H t h" and k: "rh_view H t k = Some p" and t': "rh_view H t' = (rh_view H t)(k := None)"
  shows "obj_ok H t' (rte_free h p)" "obj_view H t' (rte_free h p) = (obj_view H t h)(k := None)"
proof -
  have fresh: "rh_view H t' k' \<noteq> Some p" for k'
    using obj_ok_inj [OF ok k, of k'] by (auto simp: t')
  show "obj_ok H t' (rte_free h p)"
  proof (rule obj_okI)
    fix k' q assume "rh_view H t' k' = Some q"
    then show "\<exists>v. rte_free h p q = Some v"
      using obj_ok_live [OF ok, of k' q] fresh [of k'] by (auto simp: t' rte_free_def split: if_splits)
  next
    fix k1 k2 q assume "rh_view H t' k1 = Some q" "rh_view H t' k2 = Some q"
    then show "k1 = k2"
      using obj_ok_inj [OF ok] by (auto simp: t' split: if_splits)
  qed
  show "obj_view H t' (rte_free h p) = (obj_view H t h)(k := None)"
    unfolding rte_free_def obj_view_upd_other [OF fresh] by (auto simp: obj_view_def t')
qed

lemma obj_write:
  assumes ok: "obj_ok H t h" and k: "rh_view H t k = Some p"
  shows "obj_ok H t (h(p \<mapsto> v))" "obj_view H t (h(p \<mapsto> v)) = (obj_view H t h)(k \<mapsto> v)"
proof -
  show "obj_ok H t (h(p \<mapsto> v))"
    by (auto intro!: obj_okI dest: obj_ok_live [OF ok] obj_ok_inj [OF ok])
  show "obj_view H t (h(p \<mapsto> v)) = (obj_view H t h)(k \<mapsto> v)"
  proof
    fix k'
    show "obj_view H t (h(p \<mapsto> v)) k' = ((obj_view H t h)(k \<mapsto> v)) k'"
      using k obj_ok_inj [OF ok k, of k'] by (cases "rh_view H t k'") (auto simp: obj_view_def)
  qed
qed

section \<open>Iteration\<close>

text \<open>
  The loop \<^verbatim>\<open>while ((ret = rte_hash_iterate(tbl, &key, &data, &iter)) != -ENOENT) ...\<close>.  The loop state
  \<open>'a\<close> holds the table, since some bodies delete from it; a body returns early with \<open>Inl\<close> or goes
  on with \<open>Inr\<close>; \<open>err\<close> is what the loop does with any other error of the iterator.  Nothing in
  the code bounds the loop, so not returning is the value \<open>None\<close>.
\<close>

partial_function (option) rh_foreach ::
  "('k, 't) rte_hash \<Rightarrow> ('a \<Rightarrow> 't) \<Rightarrow> (int \<Rightarrow> 'a \<Rightarrow> 'r) \<Rightarrow> ('k \<Rightarrow> ptr \<Rightarrow> 'a \<Rightarrow> 'r + 'a) \<Rightarrow> u32 \<Rightarrow> 'a \<Rightarrow> ('r + 'a) option" where
  "rh_foreach H tbl err body i a =
     (case rh_iterate H (tbl a) i of
        Inl e \<Rightarrow> if e = - ENOENT then Some (Inr a) else Some (Inl (err e a))
      | Inr (k, p, i') \<Rightarrow>
          (case body k p a of
             Inl r \<Rightarrow> Some (Inl r)
           | Inr a' \<Rightarrow> rh_foreach H tbl err body i' a'))"

declare rh_foreach.simps [code]

text \<open>The same loop over a given list of entries.\<close>

fun foreach_entry :: "('k \<Rightarrow> ptr \<Rightarrow> 'a \<Rightarrow> 'r + 'a) \<Rightarrow> (nat \<times> 'k \<times> ptr) list \<Rightarrow> 'a \<Rightarrow> 'r + 'a" where
  "foreach_entry body [] a = Inr a"
| "foreach_entry body ((_, k, p) # es) a =
     (case body k p a of Inl r \<Rightarrow> Inl r | Inr a' \<Rightarrow> foreach_entry body es a')"

lemma slot_next_dropWhile:
  "slot_next es i = (case dropWhile (\<lambda>e. fst e < i) es of
     [] \<Rightarrow> Inl (- ENOENT) | (s, k, p) # _ \<Rightarrow> Inr (k, p, of_nat (Suc s)))"
  by (induction es i rule: slot_next.induct) auto

lemma slot_next_Inr:
  "slot_next es n = Inr (k, p, i) \<Longrightarrow> \<exists>s. (s, k, p) \<in> set es \<and> n \<le> s \<and> i = of_nat (Suc s)"
  by (induction es n rule: slot_next.induct) (auto split: if_splits)

lemma unat_Suc_slot: "Suc s < 2 ^ 32 \<Longrightarrow> unat (of_nat (Suc s) :: u32) = Suc s"
  by (simp add: unat_of_nat take_bit_nat_eq_self del: of_nat_Suc)

lemma rte_iter_okD:
  assumes "rte_iter_ok H slots"
  shows "sorted_wrt (<) (map fst (slots t))" "\<forall>e \<in> set (slots t). Suc (fst e) < 2 ^ 32"
    "distinct (map (fst \<circ> snd) (slots t))"
    "rh_view H t k = Some p \<longleftrightarrow> (k, p) \<in> set (map snd (slots t))"
    "rh_iterate H t i = slot_next (slots t) (unat i)"
    "slots (snd (rh_del H t k)) = filter (\<lambda>e. fst (snd e) \<noteq> k) (slots t)"
  using assms by (simp_all add: rte_iter_ok_def)

text \<open>The loop always ends: the iterator only moves forward and is bounded.\<close>

lemma rh_foreach_terminates:
  assumes "rte_iter_ok H slots"
  shows "\<exists>res. rh_foreach H tbl err body i a = Some res"
proof (induction "2 ^ 32 - unat i" arbitrary: i a rule: less_induct)
  case less
  note it = rte_iter_okD(5) [OF assms, of "tbl a" i]
  show ?case
  proof (cases "rh_iterate H (tbl a) i")
    case (Inr r)
    obtain k p i' where r: "r = (k, p, i')" by (cases r)
    obtain s where "(s, k, p) \<in> set (slots (tbl a))" "unat i \<le> s" "i' = of_nat (Suc s)"
      using slot_next_Inr [of "slots (tbl a)" "unat i" k p i'] it Inr r by auto
    then have "unat i < unat i'"
      using rte_iter_okD(2) [OF assms, of "tbl a"] unat_Suc_slot [of s] by auto
    moreover have "unat i' < 2 ^ LENGTH(32)"
      by (rule unsigned_less)
    ultimately have dec: "2 ^ 32 - unat i' < 2 ^ 32 - unat i"
      by simp
    show ?thesis
      using less [OF dec] Inr r by (subst rh_foreach.simps) (auto split: sum.splits)
  qed (subst rh_foreach.simps, auto)
qed

text \<open>A loop whose body leaves the table alone visits every entry once, in slot order.\<close>

lemma dropWhile_Cons: "dropWhile P xs = y # ys \<Longrightarrow> y \<in> set xs \<and> \<not> P y"
  by (induction xs) (auto split: if_splits)

lemma dropWhile_sorted_Suc:
  assumes "sorted_wrt (<) (map fst es)" "dropWhile (\<lambda>e. fst e < i) es = (s, x) # rest"
  shows "dropWhile (\<lambda>e. fst e < Suc s) es = rest"
proof -
  obtain ds where es: "es = ds @ (s, x) # rest"
    using assms(2) takeWhile_dropWhile_id [of "\<lambda>e. fst e < i" es] by metis
  have "\<forall>e \<in> set ds. fst e < s" "\<forall>e \<in> set rest. s < fst e"
    using assms(1) unfolding es by (auto simp: sorted_wrt_append)
  moreover have "dropWhile (\<lambda>e. fst e < Suc s) rest = rest" if "\<forall>e \<in> set rest. s < fst e"
    using that by (cases rest) auto
  ultimately show ?thesis
    unfolding es by (subst dropWhile_append2) auto
qed

lemma rh_foreach_entries:
  assumes ok: "rte_iter_ok H slots"
    and body: "\<And>k p a a'. body k p a = Inr a' \<Longrightarrow> tbl a' = tbl a"
  shows "rh_foreach H tbl err body i a =
    Some (foreach_entry body (dropWhile (\<lambda>e. fst e < unat i) (slots (tbl a))) a)"
proof (induction "2 ^ 32 - unat i" arbitrary: i a rule: less_induct)
  case less
  let ?es = "slots (tbl a)"
  have it: "rh_iterate H (tbl a) i = slot_next ?es (unat i)"
    by (rule rte_iter_okD(5) [OF ok])
  show ?case
  proof (cases "dropWhile (\<lambda>e. fst e < unat i) ?es")
    case Nil
    then have "rh_iterate H (tbl a) i = Inl (- ENOENT)"
      by (simp add: it slot_next_dropWhile del: dropWhile_eq_Nil_conv)
    with Nil show ?thesis
      by (subst rh_foreach.simps) (simp del: dropWhile_eq_Nil_conv)
  next
    case (Cons e rest)
    obtain s k p where e: "e = (s, k, p)" by (cases e)
    have it': "rh_iterate H (tbl a) i = Inr (k, p, of_nat (Suc s))"
      using Cons e by (simp add: it slot_next_dropWhile)
    have es: "(s, k, p) \<in> set ?es" "unat i \<le> s"
      using dropWhile_Cons [OF Cons] e by auto
    have s: "Suc s < 2 ^ 32"
      using rte_iter_okD(2) [OF ok, of "tbl a"] es(1) by auto
    have rest: "dropWhile (\<lambda>e. fst e < Suc s) ?es = rest"
      using rte_iter_okD(1) [OF ok] Cons e by (intro dropWhile_sorted_Suc) auto
    have dec: "2 ^ 32 - unat (of_nat (Suc s) :: u32) < 2 ^ 32 - unat i"
      unfolding unat_Suc_slot [OF s] using s es(2) by simp
    show ?thesis
    proof (cases "body k p a")
      case (Inl r)
      then show ?thesis
        unfolding Cons e by (subst rh_foreach.simps) (simp add: it')
    next
      case (Inr a')
      then have "rh_foreach H tbl err body i a = rh_foreach H tbl err body (of_nat (Suc s)) a'"
        by (subst rh_foreach.simps) (simp add: it')
      also have "\<dots> = Some (foreach_entry body rest a')"
        unfolding less [OF dec] body [OF Inr] unat_Suc_slot [OF s] rest ..
      finally show ?thesis
        unfolding Cons e by (simp add: Inr)
    qed
  qed
qed

corollary rh_foreach_all:
  assumes "rte_iter_ok H slots"
    and "\<And>k p a a'. body k p a = Inr a' \<Longrightarrow> tbl a' = tbl a"
  shows "rh_foreach H tbl err body 0 a = Some (foreach_entry body (slots (tbl a)) a)"
  using rh_foreach_entries [OF assms, where i = 0] by simp

text \<open>
  A loop whose body may delete entries, but adds none, ends with every entry that is left visited:
  \<open>Q\<close> is what the body establishes for the entry it was called with.
\<close>

lemma slot_next_Inl:
  assumes "slot_next es n = Inl e"
  shows "e = - ENOENT" "(s, k, p) \<in> set es \<Longrightarrow> s < n"
  using assms by (induction es n rule: slot_next.induct) (auto split: if_splits)

lemma slot_next_first:
  assumes "sorted_wrt (<) (map fst es)" "slot_next es n = Inr (k, p, i)"
  shows "\<exists>s. (s, k, p) \<in> set es \<and> i = of_nat (Suc s) \<and> n \<le> s \<and>
    (\<forall>s' k' p'. (s', k', p') \<in> set es \<longrightarrow> s' < Suc s \<longrightarrow> s' < n \<or> (s', k', p') = (s, k, p))"
  using assms
proof (induction es n rule: slot_next.induct)
  case (2 s k' p' es n)
  show ?case
  proof (cases "n \<le> s")
    case True
    have "\<forall>e \<in> set es. s < fst e"
      using 2(2) by auto
    then show ?thesis
      using True 2(3) by fastforce
  next
    case False
    then show ?thesis
      using 2 by fastforce
  qed
qed simp

lemma rh_foreach_shrinking:
  assumes ok: "rte_iter_ok H slots"
    and body: "\<And>k p a. I a \<Longrightarrow> rh_view H (tbl a) k = Some p \<Longrightarrow>
      \<exists>a'. body k p a = Inr a' \<and> I a' \<and> set (slots (tbl a')) \<subseteq> set (slots (tbl a)) \<and>
        (rh_view H (tbl a') k = Some p \<longrightarrow> Q k p a') \<and>
        (\<forall>k' p'. Q k' p' a \<longrightarrow> rh_view H (tbl a') k' = Some p' \<longrightarrow> Q k' p' a')"
    and "I a" "\<And>s k p. (s, k, p) \<in> set (slots (tbl a)) \<Longrightarrow> s < unat i \<Longrightarrow> Q k p a"
  shows "\<exists>a'. rh_foreach H tbl err body i a = Some (Inr a') \<and> I a' \<and> (\<forall>k p. rh_view H (tbl a') k = Some p \<longrightarrow> Q k p a')"
  using assms(3,4)
proof (induction "2 ^ 32 - unat i" arbitrary: i a rule: less_induct)
  case less
  note it = rte_iter_okD(5) [OF ok, of "tbl a" i]
  have view: "rh_view H t k = Some p \<longleftrightarrow> (\<exists>s. (s, k, p) \<in> set (slots t))" for t k p
    using rte_iter_okD(4) [OF ok, of t k p] by force
  show ?case
  proof (cases "slot_next (slots (tbl a)) (unat i)")
    case (Inl e)
    note past = slot_next_Inl [OF this]
    have "Q k p a" if "rh_view H (tbl a) k = Some p" for k p
      using that less(3) past(2) unfolding view by blast
    then show ?thesis
      using less(2) by (subst rh_foreach.simps) (simp add: it Inl past(1))
  next
    case (Inr r)
    obtain k p i' where r: "r = (k, p, i')" by (cases r)
    obtain s where s: "(s, k, p) \<in> set (slots (tbl a))" "i' = of_nat (Suc s)" "unat i \<le> s"
      "\<And>s' k' p'. (s', k', p') \<in> set (slots (tbl a)) \<Longrightarrow> s' < Suc s \<Longrightarrow> s' < unat i \<or> (s', k', p') = (s, k, p)"
      using slot_next_first [OF rte_iter_okD(1) [OF ok]] Inr r by blast
    obtain a' where a': "body k p a = Inr a'" "I a'" "set (slots (tbl a')) \<subseteq> set (slots (tbl a))"
      "rh_view H (tbl a') k = Some p \<Longrightarrow> Q k p a'"
      "\<And>k' p'. Q k' p' a \<Longrightarrow> rh_view H (tbl a') k' = Some p' \<Longrightarrow> Q k' p' a'"
      using body [OF less(2), of k p] s(1) view by blast
    have lt: "Suc s < 2 ^ 32"
      using rte_iter_okD(2) [OF ok, of "tbl a"] s(1) by auto
    have i': "unat i' = Suc s"
      using unat_Suc_slot [OF lt] s(2) by simp
    have "Q k' p' a'" if "(s', k', p') \<in> set (slots (tbl a'))" "s' < unat i'" for s' k' p'
    proof -
      have v: "rh_view H (tbl a') k' = Some p'"
        unfolding view using that(1) by blast
      have old: "(s', k', p') \<in> set (slots (tbl a))"
        using a'(3) that(1) by (rule subsetD)
      from s(4) [OF old] that(2) i' consider "s' < unat i" | "(s', k', p') = (s, k, p)"
        by fastforce
      then show ?thesis
      proof cases
        case 1
        then show ?thesis by (rule a'(5) [OF less(3) [OF old] v])
      next
        case 2
        then show ?thesis using a'(4) v by simp
      qed
    qed
    moreover have "2 ^ 32 - unat i' < 2 ^ 32 - unat i"
      using i' s(3) lt by simp
    moreover have "rh_foreach H tbl err body i a = rh_foreach H tbl err body i' a'"
      by (subst rh_foreach.simps) (simp add: it Inr r a'(1))
    ultimately show ?thesis
      using less(1) [of i' a'] a'(2) by simp
  qed
qed

text \<open>What every round keeps holds at the end.\<close>

lemma rh_foreach_keeps:
  assumes ok: "rte_iter_ok H slots"
    and body: "\<And>k p a. I a \<Longrightarrow> rh_view H (tbl a) k = Some p \<Longrightarrow> (case body k p a of Inl r \<Rightarrow> J r | Inr a' \<Rightarrow> I a')"
    and "I a"
  shows "\<exists>res. rh_foreach H tbl err body i a = Some res \<and> (case res of Inl r \<Rightarrow> J r | Inr a' \<Rightarrow> I a')"
  using assms(3)
proof (induction "2 ^ 32 - unat i" arbitrary: i a rule: less_induct)
  case less
  note it = rte_iter_okD(5) [OF ok, of "tbl a" i]
  show ?case
  proof (cases "slot_next (slots (tbl a)) (unat i)")
    case (Inl e)
    then show ?thesis
      using less(2) slot_next_Inl(1) [OF Inl] by (subst rh_foreach.simps) (simp add: it)
  next
    case (Inr r)
    obtain k p i' where r: "r = (k, p, i')" by (cases r)
    obtain s where s: "(s, k, p) \<in> set (slots (tbl a))" "i' = of_nat (Suc s)" "unat i \<le> s"
      using slot_next_Inr [of "slots (tbl a)" "unat i" k p i'] Inr r by auto
    have lt: "Suc s < 2 ^ 32"
      using rte_iter_okD(2) [OF ok, of "tbl a"] s(1) by auto
    have dec: "2 ^ 32 - unat i' < 2 ^ 32 - unat i"
      unfolding s(2) unat_Suc_slot [OF lt] using s(3) lt by simp
    have view: "rh_view H (tbl a) k = Some p"
      using rte_iter_okD(4) [OF ok, of "tbl a" k p] s(1) by force
    show ?thesis
    proof (cases "body k p a")
      case (Inl r)
      then show ?thesis
        using body [OF less(2) view] it \<open>slot_next _ _ = _\<close> r by (subst rh_foreach.simps) simp
    next
      case (Inr a')
      then have "rh_foreach H tbl err body i a = rh_foreach H tbl err body i' a'"
        using it \<open>slot_next _ _ = _\<close> r by (subst rh_foreach.simps) simp
      then show ?thesis
        using body [OF less(2) view] less(1) [OF dec, of a'] Inr by simp
    qed
  qed
qed

section \<open>Partial correctness\<close>

text \<open>Of a result, if there is one, that it satisfies \<open>Q\<close>; the rules walk through the steps of an operation.\<close>

definition post :: "'a option \<Rightarrow> ('a \<Rightarrow> bool) \<Rightarrow> bool" where
  "post x Q \<longleftrightarrow> (\<forall>y. x = Some y \<longrightarrow> Q y)"

named_theorems vcg

lemma post_bind [vcg]: "(\<And>z. m = Some z \<Longrightarrow> post (f z) Q) \<Longrightarrow> post (Option.bind m f) Q"
  by (auto simp: post_def bind_eq_Some_conv)

lemma post_prod [vcg]: "(\<And>a b. p = (a, b) \<Longrightarrow> post (f a b) Q) \<Longrightarrow> post (case p of (a, b) \<Rightarrow> f a b) Q"
  by (cases p) simp

lemma post_if [vcg]: "(b \<Longrightarrow> post x Q) \<Longrightarrow> (\<not> b \<Longrightarrow> post y Q) \<Longrightarrow> post (if b then x else y) Q"
  by simp

lemma post_let [vcg]: "post (f a) Q \<Longrightarrow> post (Let a f) Q"
  by simp

lemma post_option [vcg]:
  "(x = None \<Longrightarrow> post n Q) \<Longrightarrow> (\<And>y. x = Some y \<Longrightarrow> post (f y) Q) \<Longrightarrow> post (case x of None \<Rightarrow> n | Some y \<Rightarrow> f y) Q"
  by (cases x) simp_all

lemma post_Some [vcg]: "Q y \<Longrightarrow> post (Some y) Q"
  by (simp add: post_def)

lemma post_None [vcg]: "post None Q"
  by (simp add: post_def)

lemma postD: "post x Q \<Longrightarrow> x = Some y \<Longrightarrow> Q y"
  by (simp add: post_def)

lemma post_mono: "post x P \<Longrightarrow> (\<And>y. P y \<Longrightarrow> Q y) \<Longrightarrow> post x Q"
  by (simp add: post_def)

end
