(* ===== verification/Dp_Error.thy ===== *)
theory Dp_Error
  imports Dp_Prelude
begin

text \<open>
  \<^verbatim>\<open>include/dp_error.h\<close> and \<^verbatim>\<open>src/dp_error.c\<close>: the gRPC error codes, their translation to the
  numbers the gRPC client sees, and the error texts.  C's \<^verbatim>\<open>int\<close> is \<open>int\<close>; no operation here
  leaves its range for the codes the program uses.
\<close>

text \<open>Internal return values of the gRPC errors lie below \<^verbatim>\<open>DP_ERROR\<close>, at \<^verbatim>\<open>_DP_GRPC_ERRCODES - number\<close>.\<close>

abbreviation DP_GRPC_ERRCODES :: int where "DP_GRPC_ERRCODES \<equiv> DP_ERROR - 1"

abbreviation DP_GRPC_OK :: int where "DP_GRPC_OK \<equiv> 0"
abbreviation DP_GRPC_ERR_BAD_REQUEST :: int where "DP_GRPC_ERR_BAD_REQUEST \<equiv> DP_GRPC_ERRCODES - 101"
abbreviation DP_GRPC_ERR_NOT_FOUND :: int where "DP_GRPC_ERR_NOT_FOUND \<equiv> DP_GRPC_ERRCODES - 201"
abbreviation DP_GRPC_ERR_ALREADY_EXISTS :: int where "DP_GRPC_ERR_ALREADY_EXISTS \<equiv> DP_GRPC_ERRCODES - 202"
abbreviation DP_GRPC_ERR_WRONG_TYPE :: int where "DP_GRPC_ERR_WRONG_TYPE \<equiv> DP_GRPC_ERRCODES - 203"
abbreviation DP_GRPC_ERR_BAD_IPVER :: int where "DP_GRPC_ERR_BAD_IPVER \<equiv> DP_GRPC_ERRCODES - 204"
abbreviation DP_GRPC_ERR_NO_VM :: int where "DP_GRPC_ERR_NO_VM \<equiv> DP_GRPC_ERRCODES - 205"
abbreviation DP_GRPC_ERR_NO_VNI :: int where "DP_GRPC_ERR_NO_VNI \<equiv> DP_GRPC_ERRCODES - 206"
abbreviation DP_GRPC_ERR_ITERATOR :: int where "DP_GRPC_ERR_ITERATOR \<equiv> DP_GRPC_ERRCODES - 207"
abbreviation DP_GRPC_ERR_OUT_OF_MEMORY :: int where "DP_GRPC_ERR_OUT_OF_MEMORY \<equiv> DP_GRPC_ERRCODES - 208"
abbreviation DP_GRPC_ERR_LIMIT_REACHED :: int where "DP_GRPC_ERR_LIMIT_REACHED \<equiv> DP_GRPC_ERRCODES - 209"
abbreviation DP_GRPC_ERR_ALREADY_ACTIVE :: int where "DP_GRPC_ERR_ALREADY_ACTIVE \<equiv> DP_GRPC_ERRCODES - 210"
abbreviation DP_GRPC_ERR_NOT_ACTIVE :: int where "DP_GRPC_ERR_NOT_ACTIVE \<equiv> DP_GRPC_ERRCODES - 211"
abbreviation DP_GRPC_ERR_ROLLBACK :: int where "DP_GRPC_ERR_ROLLBACK \<equiv> DP_GRPC_ERRCODES - 212"
abbreviation DP_GRPC_ERR_RTE_RULE_ADD :: int where "DP_GRPC_ERR_RTE_RULE_ADD \<equiv> DP_GRPC_ERRCODES - 213"
abbreviation DP_GRPC_ERR_RTE_RULE_DEL :: int where "DP_GRPC_ERR_RTE_RULE_DEL \<equiv> DP_GRPC_ERRCODES - 214"
abbreviation DP_GRPC_ERR_ROUTE_EXISTS :: int where "DP_GRPC_ERR_ROUTE_EXISTS \<equiv> DP_GRPC_ERRCODES - 301"
abbreviation DP_GRPC_ERR_ROUTE_NOT_FOUND :: int where "DP_GRPC_ERR_ROUTE_NOT_FOUND \<equiv> DP_GRPC_ERRCODES - 302"
abbreviation DP_GRPC_ERR_ROUTE_INSERT :: int where "DP_GRPC_ERR_ROUTE_INSERT \<equiv> DP_GRPC_ERRCODES - 303"
abbreviation DP_GRPC_ERR_ROUTE_BAD_PORT :: int where "DP_GRPC_ERR_ROUTE_BAD_PORT \<equiv> DP_GRPC_ERRCODES - 304"
abbreviation DP_GRPC_ERR_ROUTE_RESET :: int where "DP_GRPC_ERR_ROUTE_RESET \<equiv> DP_GRPC_ERRCODES - 305"
abbreviation DP_GRPC_ERR_DNAT_NO_DATA :: int where "DP_GRPC_ERR_DNAT_NO_DATA \<equiv> DP_GRPC_ERRCODES - 321"
abbreviation DP_GRPC_ERR_DNAT_CREATE :: int where "DP_GRPC_ERR_DNAT_CREATE \<equiv> DP_GRPC_ERRCODES - 322"
abbreviation DP_GRPC_ERR_DNAT_EXISTS :: int where "DP_GRPC_ERR_DNAT_EXISTS \<equiv> DP_GRPC_ERRCODES - 323"
abbreviation DP_GRPC_ERR_SNAT_NO_DATA :: int where "DP_GRPC_ERR_SNAT_NO_DATA \<equiv> DP_GRPC_ERRCODES - 341"
abbreviation DP_GRPC_ERR_SNAT_CREATE :: int where "DP_GRPC_ERR_SNAT_CREATE \<equiv> DP_GRPC_ERRCODES - 342"
abbreviation DP_GRPC_ERR_SNAT_EXISTS :: int where "DP_GRPC_ERR_SNAT_EXISTS \<equiv> DP_GRPC_ERRCODES - 343"
abbreviation DP_GRPC_ERR_VNI_INIT4 :: int where "DP_GRPC_ERR_VNI_INIT4 \<equiv> DP_GRPC_ERRCODES - 361"
abbreviation DP_GRPC_ERR_VNI_INIT6 :: int where "DP_GRPC_ERR_VNI_INIT6 \<equiv> DP_GRPC_ERRCODES - 362"
abbreviation DP_GRPC_ERR_VNI_FREE4 :: int where "DP_GRPC_ERR_VNI_FREE4 \<equiv> DP_GRPC_ERRCODES - 363"
abbreviation DP_GRPC_ERR_VNI_FREE6 :: int where "DP_GRPC_ERR_VNI_FREE6 \<equiv> DP_GRPC_ERRCODES - 364"
abbreviation DP_GRPC_ERR_PORT_START :: int where "DP_GRPC_ERR_PORT_START \<equiv> DP_GRPC_ERRCODES - 381"
abbreviation DP_GRPC_ERR_PORT_STOP :: int where "DP_GRPC_ERR_PORT_STOP \<equiv> DP_GRPC_ERRCODES - 382"
abbreviation DP_GRPC_ERR_PORT_METER :: int where "DP_GRPC_ERR_PORT_METER \<equiv> DP_GRPC_ERRCODES - 383"
abbreviation DP_GRPC_ERR_VNF_INSERT :: int where "DP_GRPC_ERR_VNF_INSERT \<equiv> DP_GRPC_ERRCODES - 401"
abbreviation DP_GRPC_ERR_VM_HANDLE :: int where "DP_GRPC_ERR_VM_HANDLE \<equiv> DP_GRPC_ERRCODES - 402"
abbreviation DP_GRPC_ERR_VNF_DELETE :: int where "DP_GRPC_ERR_VNF_DELETE \<equiv> DP_GRPC_ERRCODES - 403"
abbreviation DP_GRPC_ERR_NO_BACKIP :: int where "DP_GRPC_ERR_NO_BACKIP \<equiv> DP_GRPC_ERRCODES - 421"
abbreviation DP_GRPC_ERR_NO_LB :: int where "DP_GRPC_ERR_NO_LB \<equiv> DP_GRPC_ERRCODES - 422"
abbreviation DP_GRPC_ERR_NO_DROP_SUPPORT :: int where "DP_GRPC_ERR_NO_DROP_SUPPORT \<equiv> DP_GRPC_ERRCODES - 441"

text \<open>The X-macro list \<^verbatim>\<open>_DP_GRPC_ERRORS\<close>, from which the enum and the string table are generated.\<close>

definition DP_GRPC_ERRORS :: "(int \<times> string) list" where
  "DP_GRPC_ERRORS =
     [(101, ''BAD_REQUEST''), (201, ''NOT_FOUND''), (202, ''ALREADY_EXISTS''), (203, ''WRONG_TYPE''),
      (204, ''BAD_IPVER''), (205, ''NO_VM''), (206, ''NO_VNI''), (207, ''ITERATOR''),
      (208, ''OUT_OF_MEMORY''), (209, ''LIMIT_REACHED''), (210, ''ALREADY_ACTIVE''), (211, ''NOT_ACTIVE''),
      (212, ''ROLLBACK''), (213, ''RTE_RULE_ADD''), (214, ''RTE_RULE_DEL''), (301, ''ROUTE_EXISTS''),
      (302, ''ROUTE_NOT_FOUND''), (303, ''ROUTE_INSERT''), (304, ''ROUTE_BAD_PORT''), (305, ''ROUTE_RESET''),
      (321, ''DNAT_NO_DATA''), (322, ''DNAT_CREATE''), (323, ''DNAT_EXISTS''), (341, ''SNAT_NO_DATA''),
      (342, ''SNAT_CREATE''), (343, ''SNAT_EXISTS''), (361, ''VNI_INIT4''), (362, ''VNI_INIT6''),
      (363, ''VNI_FREE4''), (364, ''VNI_FREE6''), (381, ''PORT_START''), (382, ''PORT_STOP''),
      (383, ''PORT_METER''), (401, ''VNF_INSERT''), (402, ''VM_HANDLE''), (403, ''VNF_DELETE''),
      (421, ''NO_BACKIP''), (422, ''NO_LB''), (441, ''NO_DROP_SUPPORT'')]"

text \<open>The assertion guards programming errors only; \<open>None\<close> is the failed assertion.\<close>

definition dp_errcode_to_grpc_errcode :: "int \<Rightarrow> int option" where
  "dp_errcode_to_grpc_errcode dp_errcode =
     (if dp_errcode < DP_GRPC_ERRCODES then Some (- (dp_errcode - DP_GRPC_ERRCODES)) else None)"

text \<open>
  \<^verbatim>\<open>RTE_DIM(dp_grpc_error_strings)\<close> is one more than the largest index, 441; the entries between
  the codes are \<^verbatim>\<open>NULL\<close>.  The text of the release build, where the assertion is compiled out.
\<close>

definition dp_grpc_strerror :: "int \<Rightarrow> string" where
  "dp_grpc_strerror grpc_errcode =
     (if grpc_errcode = DP_GRPC_OK then ''Success''
      else if grpc_errcode < 0 \<or> 442 \<le> grpc_errcode then ''Invalid gRPC error code''
      else case map_of DP_GRPC_ERRORS grpc_errcode of
          None \<Rightarrow> ''Invalid gRPC error code''
        | Some s \<Rightarrow> s)"

definition dp_strerror :: "(int \<Rightarrow> string) \<Rightarrow> int \<Rightarrow> string" where
  "dp_strerror rte_strerror error =
     (let error = (if error < 0 then - error else error)
      in if error < RTE_MAX_ERRNO then rte_strerror error
         else if - DP_GRPC_ERRCODES \<le> error then dp_grpc_strerror (error + DP_GRPC_ERRCODES)
         else ''General dpservice error'')"

definition is_grpc_ret :: "int \<Rightarrow> bool" where
  "is_grpc_ret ret \<longleftrightarrow> ret = DP_GRPC_OK \<or> (DP_GRPC_ERRCODES - ret) \<in> fst ` set DP_GRPC_ERRORS"

lemma DP_GRPC_ERRORS_distinct: "distinct (map fst DP_GRPC_ERRORS)"
  by (simp add: DP_GRPC_ERRORS_def)

lemma DP_GRPC_ERRORS_range: "(n, s) \<in> set DP_GRPC_ERRORS \<Longrightarrow> 0 < n \<and> n < 442"
  by (auto simp: DP_GRPC_ERRORS_def)

lemma dp_grpc_strerror_listed: "(n, s) \<in> set DP_GRPC_ERRORS \<Longrightarrow> dp_grpc_strerror n = s"
  using DP_GRPC_ERRORS_range [of n s] map_of_is_SomeI [OF DP_GRPC_ERRORS_distinct, of n s]
  by (simp add: dp_grpc_strerror_def)

lemma dp_strerror_listed:
  "(n, s) \<in> set DP_GRPC_ERRORS \<Longrightarrow>
     dp_strerror rte (DP_GRPC_ERRCODES - n) = s \<and> dp_errcode_to_grpc_errcode (DP_GRPC_ERRCODES - n) = Some n"
  using DP_GRPC_ERRORS_range [of n s]
  by (auto simp: dp_strerror_def dp_errcode_to_grpc_errcode_def dp_grpc_strerror_listed)

end
