(* ===== verification/Dp_Types.thy ===== *)
theory Dp_Types
  imports Dp_Error
begin

text \<open>
  The data structures the components share: dual IP addresses (\<^verbatim>\<open>include/dp_ipaddr.h\<close>), the
  packet metadata \<open>dp_flow\<close> and its extraction from the headers (\<^verbatim>\<open>include/dp_mbuf_dyn.h\<close>), the
  conntrack keys and values (\<^verbatim>\<open>include/dp_flow.h\<close>), firewall rules (\<^verbatim>\<open>include/dp_firewall.h\<close>) and
  ports (\<^verbatim>\<open>include/dp_port.h\<close>).  A C union is one field with an accessor for each overlay;
  addresses and ports of a packet keep the network byte order they have in the source.
\<close>

section \<open>Constants of the protocols\<close>

abbreviation IPPROTO_ICMP :: u8 where "IPPROTO_ICMP \<equiv> 1"
abbreviation IPPROTO_IPIP :: u8 where "IPPROTO_IPIP \<equiv> 4"
abbreviation IPPROTO_TCP :: u8 where "IPPROTO_TCP \<equiv> 6"
abbreviation IPPROTO_UDP :: u8 where "IPPROTO_UDP \<equiv> 17"
abbreviation IPPROTO_IPV6 :: u8 where "IPPROTO_IPV6 \<equiv> 41"
abbreviation IPPROTO_ICMPV6 :: u8 where "IPPROTO_ICMPV6 \<equiv> 58"

abbreviation RTE_ETHER_TYPE_IPV4 :: u16 where "RTE_ETHER_TYPE_IPV4 \<equiv> 0x0800"
abbreviation RTE_ETHER_TYPE_IPV6 :: u16 where "RTE_ETHER_TYPE_IPV6 \<equiv> 0x86DD"

abbreviation DP_MAX_PF_PORTS :: nat where "DP_MAX_PF_PORTS \<equiv> 2"
abbreviation DP_MAX_VF_PORTS :: nat where "DP_MAX_VF_PORTS \<equiv> 126"
abbreviation DP_MAX_PORTS :: nat where "DP_MAX_PORTS \<equiv> DP_MAX_PF_PORTS + DP_MAX_VF_PORTS"

section \<open>IP addresses\<close>

text \<open>The IPv4 overlay of a 16-byte field: reading gives, writing replaces the first four bytes.\<close>

definition ip4_of :: "ipv6_addr \<Rightarrow> u32" where
  "ip4_of a = ucast a"

definition ip4_write :: "u32 \<Rightarrow> ipv6_addr \<Rightarrow> ipv6_addr" where
  "ip4_write ip a = push_bit 32 (drop_bit 32 a) OR ucast ip"

text \<open>The two \<^verbatim>\<open>uint64_t\<close> halves through which addresses are copied and compared.\<close>

definition lo64 :: "ipv6_addr \<Rightarrow> u64" where
  "lo64 a = ucast a"

definition hi64 :: "ipv6_addr \<Rightarrow> u64" where
  "hi64 a = ucast (drop_bit 64 a)"

definition join64 :: "u64 \<Rightarrow> u64 \<Rightarrow> ipv6_addr" where
  "join64 lo hi = push_bit 64 (ucast hi) OR ucast lo"

definition dp_is_ipv6_addr_zero :: "ipv6_addr \<Rightarrow> bool" where
  "dp_is_ipv6_addr_zero addr \<longleftrightarrow> lo64 addr = 0 \<and> hi64 addr = 0"

record dp_ip_address =
  ip_data :: ipv6_addr
  ip_is_v6 :: bool

abbreviation ip_ipv4 :: "dp_ip_address \<Rightarrow> u32" where
  "ip_ipv4 a \<equiv> ip4_of (ip_data a)"

abbreviation ip_ipv6 :: "dp_ip_address \<Rightarrow> ipv6_addr" where
  "ip_ipv6 a \<equiv> ip_data a"

definition dp_copy_ipaddr :: "dp_ip_address \<Rightarrow> dp_ip_address" where
  "dp_copy_ipaddr src = \<lparr> ip_data = join64 (lo64 (ip_data src)) (hi64 (ip_data src)), ip_is_v6 = ip_is_v6 src \<rparr>"

definition DP_SET_IPADDR6 :: "ipv6_addr \<Rightarrow> dp_ip_address" where
  "DP_SET_IPADDR6 ipv6 = \<lparr> ip_data = join64 (lo64 ipv6) (hi64 ipv6), ip_is_v6 = True \<rparr>"

definition DP_SET_IPADDR4 :: "u32 \<Rightarrow> dp_ip_address" where
  "DP_SET_IPADDR4 ipv4 = \<lparr> ip_data = ip4_write ipv4 0, ip_is_v6 = False \<rparr>"

section \<open>Packet metadata\<close>

datatype dp_vnf_type =
  DP_VNF_TYPE_UNDEFINED | DP_VNF_TYPE_LB_ALIAS_PFX | DP_VNF_TYPE_ALIAS_PFX | DP_VNF_TYPE_LB
  | DP_VNF_TYPE_VIP | DP_VNF_TYPE_NAT | DP_VNF_TYPE_INTERFACE_IP

datatype dp_flow_type = DP_FLOW_WEST_EAST | DP_FLOW_SOUTH_NORTH

datatype dp_pkt_offload_state = DP_FLOW_NON_OFFLOAD | DP_FLOW_OFFLOAD_INSTALL | DP_FLOW_OFFLOADED

datatype dp_flow_dir = DP_FLOW_DIR_ORG | DP_FLOW_DIR_REPLY

datatype dp_nat_type =
  DP_NAT_CHG_NONE | DP_NAT_CHG_SRC_IP | DP_NAT_CHG_DST_IP | DP_CHG_UL_DST_IP | DP_LB_RECIRC
  | DP_NAT_64_CHG_SRC_IP | DP_NAT_64_CHG_DST_IP

record dp_tun_info =
  tun_ul_src_addr6 :: ipv6_addr
  tun_ul_dst_addr6 :: ipv6_addr
  tun_l3_type :: u16
  tun_proto_id :: u8
  tun_dst_vni :: u32

text \<open>
  The union \<^verbatim>\<open>l4_info\<close>: \<open>df_dst_port\<close> and \<open>df_src_port\<close>, the first overlaid by the two bytes ICMP
  type and code, the second by the ICMP identifier.
\<close>

record dp_flow =
  df_flow_type :: dp_flow_type
  df_nat_type :: dp_nat_type
  df_flow_dir :: dp_flow_dir
  df_offload_state :: dp_pkt_offload_state
  df_vnf_type :: dp_vnf_type
  df_l3_type :: u16
  df_l3_payload_length :: u32
  df_dst_addr6 :: ipv6_addr
  df_src_addr6 :: ipv6_addr
  df_nat_addr :: u32
  df_nat_port :: u16
  df_l4_type :: u8
  df_dst_port :: u16
  df_src_port :: u16
  df_dp_flow_hash :: u32
  df_tun_info :: dp_tun_info
  df_nxt_hop :: u16
  df_conntrack :: "ptr option"
  df_virtsvc :: "ptr option"

abbreviation df_dst_addr :: "dp_flow \<Rightarrow> u32" where "df_dst_addr df \<equiv> ip4_of (df_dst_addr6 df)"
abbreviation df_src_addr :: "dp_flow \<Rightarrow> u32" where "df_src_addr df \<equiv> ip4_of (df_src_addr6 df)"

definition df_icmp_type :: "dp_flow \<Rightarrow> u8" where "df_icmp_type df = ucast (df_dst_port df)"
definition df_icmp_code :: "dp_flow \<Rightarrow> u8" where "df_icmp_code df = ucast (drop_bit 8 (df_dst_port df))"
abbreviation df_icmp_identifier :: "dp_flow \<Rightarrow> u16" where "df_icmp_identifier df \<equiv> df_src_port df"

definition icmp_type_code :: "u8 \<Rightarrow> u8 \<Rightarrow> u16" where
  "icmp_type_code ty code = push_bit 8 (ucast code) OR ucast ty"

text \<open>\<^verbatim>\<open>memset(df, 0, sizeof(*df))\<close>\<close>

definition dp_init_flow_ptr :: dp_flow where
  "dp_init_flow_ptr =
     \<lparr> df_flow_type = DP_FLOW_WEST_EAST, df_nat_type = DP_NAT_CHG_NONE, df_flow_dir = DP_FLOW_DIR_ORG,
       df_offload_state = DP_FLOW_NON_OFFLOAD, df_vnf_type = DP_VNF_TYPE_UNDEFINED,
       df_l3_type = 0, df_l3_payload_length = 0, df_dst_addr6 = 0, df_src_addr6 = 0,
       df_nat_addr = 0, df_nat_port = 0, df_l4_type = 0, df_dst_port = 0, df_src_port = 0,
       df_dp_flow_hash = 0,
       df_tun_info = \<lparr> tun_ul_src_addr6 = 0, tun_ul_dst_addr6 = 0, tun_l3_type = 0, tun_proto_id = 0, tun_dst_vni = 0 \<rparr>,
       df_nxt_hop = 0, df_conntrack = None, df_virtsvc = None \<rparr>"

record dp_pkt_mark =
  mark_id :: u32
  mark_is_recirc :: bool

text \<open>\<^verbatim>\<open>dp_pkt_id_counter\<close> is advanced atomically; the mark takes the value after the addition.\<close>

definition dp_init_pkt_mark :: "u32 \<Rightarrow> dp_pkt_mark \<times> u32" where
  "dp_init_pkt_mark dp_pkt_id_counter =
     (let c = dp_pkt_id_counter + 1 in (\<lparr> mark_id = c, mark_is_recirc = False \<rparr>, c))"

section \<open>Packet headers\<close>

record rte_ipv4_hdr =
  ipv4_version_ihl :: u8
  ipv4_type_of_service :: u8
  ipv4_total_length :: u16
  ipv4_packet_id :: u16
  ipv4_fragment_offset :: u16
  ipv4_time_to_live :: u8
  ipv4_next_proto_id :: u8
  ipv4_hdr_checksum :: u16
  ipv4_src_addr :: u32
  ipv4_dst_addr :: u32

record rte_ipv6_hdr =
  ipv6_vtc_flow :: u32
  ipv6_payload_len :: u16
  ipv6_proto :: u8
  ipv6_hop_limits :: u8
  ipv6_src_addr :: ipv6_addr
  ipv6_dst_addr :: ipv6_addr

text \<open>
  The layer-4 header as the program reads it: TCP and UDP start with the two ports, ICMP with
  type, code, checksum and identifier.
\<close>

datatype l4_hdr =
  Tcp_hdr (tcp_src_port: u16) (tcp_dst_port: u16) (tcp_flags: u8) (tcp_cksum: u16)
  | Udp_hdr (udp_src_port: u16) (udp_dst_port: u16) (udp_cksum: u16)
  | Icmp_hdr (icmp_type: u8) (icmp_code: u8) (icmp_cksum: u16) (icmp_ident: u16)

definition dp_extract_ipv4_header :: "rte_ipv4_hdr \<Rightarrow> dp_flow \<Rightarrow> dp_flow" where
  "dp_extract_ipv4_header ipv4_hdr df = df\<lparr>
     df_src_addr6 := ip4_write (ipv4_src_addr ipv4_hdr) (df_src_addr6 df),
     df_dst_addr6 := ip4_write (ipv4_dst_addr ipv4_hdr) (df_dst_addr6 df),
     df_l4_type := ipv4_next_proto_id ipv4_hdr \<rparr>"

definition dp_extract_ipv6_header :: "rte_ipv6_hdr \<Rightarrow> dp_flow \<Rightarrow> dp_flow" where
  "dp_extract_ipv6_header ipv6_hdr df = df\<lparr>
     df_dst_addr6 := ipv6_dst_addr ipv6_hdr,
     df_src_addr6 := ipv6_src_addr ipv6_hdr,
     df_l4_type := ipv6_proto ipv6_hdr \<rparr>"

definition dp_extract_underlay_header :: "rte_ipv6_hdr \<Rightarrow> dp_flow \<Rightarrow> dp_flow" where
  "dp_extract_underlay_header ipv6_hdr df = df\<lparr> df_tun_info := (df_tun_info df)\<lparr>
     tun_ul_src_addr6 := ipv6_src_addr ipv6_hdr,
     tun_ul_dst_addr6 := ipv6_dst_addr ipv6_hdr,
     tun_proto_id := ipv6_proto ipv6_hdr \<rparr> \<rparr>"

text \<open>
  The header bytes that follow are read as the type \<^verbatim>\<open>l4_type\<close> announces; \<open>l4_hdr\<close> holds them
  parsed that way.
\<close>

definition dp_extract_l4_header :: "l4_hdr \<Rightarrow> dp_flow \<Rightarrow> int \<times> dp_flow" where
  "dp_extract_l4_header h df =
     (if df_l4_type df = IPPROTO_TCP then
        (DP_OK, df\<lparr> df_dst_port := tcp_dst_port h, df_src_port := tcp_src_port h \<rparr>)
      else if df_l4_type df = IPPROTO_UDP then
        (DP_OK, df\<lparr> df_dst_port := udp_dst_port h, df_src_port := udp_src_port h \<rparr>)
      else if df_l4_type df = IPPROTO_ICMP \<or> df_l4_type df = IPPROTO_ICMPV6 then
        (DP_OK, df\<lparr> df_dst_port := icmp_type_code (icmp_type h) (icmp_code h), df_src_port := icmp_ident h \<rparr>)
      else (DP_ERROR, df))"

section \<open>Conntrack keys\<close>

text \<open>\<^verbatim>\<open>src.port_src\<close> and \<^verbatim>\<open>src.type_src\<close> are one union; ports and addresses are in host order.\<close>

record flow_key =
  fk_l3_dst :: dp_ip_address
  fk_proto :: u8
  fk_port_dst :: u16
  fk_l3_src :: dp_ip_address
  fk_vnf_type :: dp_vnf_type
  fk_port_src :: u16
  fk_vni :: u32

abbreviation fk_type_src :: "flow_key \<Rightarrow> u16" where "fk_type_src \<equiv> fk_port_src"

text \<open>The key is compared as packed memory, i.e. field by field.\<close>

definition dp_are_flows_identical :: "flow_key \<Rightarrow> flow_key \<Rightarrow> bool" where
  "dp_are_flows_identical key1 key2 \<longleftrightarrow> key1 = key2"

section \<open>Firewall rules\<close>

abbreviation DP_FWALL_MATCH_ANY_PORT :: u32 where "DP_FWALL_MATCH_ANY_PORT \<equiv> 0xFFFFFFFF"
abbreviation DP_FWALL_MATCH_ANY_ICMP_TYPE :: u32 where "DP_FWALL_MATCH_ANY_ICMP_TYPE \<equiv> 0xFFFFFFFF"
abbreviation DP_FWALL_MATCH_ANY_ICMP_CODE :: u32 where "DP_FWALL_MATCH_ANY_ICMP_CODE \<equiv> 0xFFFFFFFF"
abbreviation DP_FWALL_MATCH_ANY_PROTOCOL :: u8 where "DP_FWALL_MATCH_ANY_PROTOCOL \<equiv> 0"

datatype dp_fwall_action = DP_FWALL_DROP | DP_FWALL_ACCEPT

datatype dp_fwall_direction = DP_FWALL_INGRESS | DP_FWALL_EGRESS

record dp_port_range =
  pr_lower :: u32
  pr_upper :: u32

text \<open>
  The union \<^verbatim>\<open>filter\<close>: the port filter is the two ranges; the ICMP filter overlays the source
  range, type on \<^verbatim>\<open>lower\<close> and code on \<^verbatim>\<open>upper\<close>.
\<close>

record dp_fwall_rule =
  fr_rule_id :: string
  fr_src_ip :: dp_ip_address
  fr_dest_ip :: dp_ip_address
  fr_src_mask :: ipv6_addr
  fr_dest_mask :: ipv6_addr
  fr_priority :: u16
  fr_protocol :: u8
  fr_src_port :: dp_port_range
  fr_dst_port :: dp_port_range
  fr_action :: dp_fwall_action
  fr_dir :: dp_fwall_direction

abbreviation fr_icmp_type :: "dp_fwall_rule \<Rightarrow> u32" where "fr_icmp_type r \<equiv> pr_lower (fr_src_port r)"
abbreviation fr_icmp_code :: "dp_fwall_rule \<Rightarrow> u32" where "fr_icmp_code r \<equiv> pr_upper (fr_src_port r)"

section \<open>Conntrack values\<close>

datatype dp_flow_nat_type =
  DP_FLOW_NAT_TYPE_NONE | DP_FLOW_NAT_TYPE_VIP | DP_FLOW_NAT_TYPE_NETWORK_LOCAL | DP_FLOW_NAT_TYPE_NETWORK_NEIGH
  | DP_FLOW_NAT_AS_TARGET | DP_FLOW_LB_TYPE_LOCAL_NEIGH_TRAFFIC | DP_FLOW_LB_TYPE_RECIRC | DP_FLOW_LB_TYPE_FORWARD

datatype dp_flow_tcp_state =
  DP_FLOW_TCP_STATE_NONE | DP_FLOW_TCP_STATE_NEW_SYN | DP_FLOW_TCP_STATE_NEW_SYNACK
  | DP_FLOW_TCP_STATE_ESTABLISHED | DP_FLOW_TCP_STATE_FINWAIT | DP_FLOW_TCP_STATE_RST_FIN

abbreviation DP_FLOW_FLAG_NONE :: u8 where "DP_FLOW_FLAG_NONE \<equiv> 0x00"
abbreviation DP_FLOW_FLAG_SRC_NAT :: u8 where "DP_FLOW_FLAG_SRC_NAT \<equiv> 0x01"
abbreviation DP_FLOW_FLAG_DST_NAT :: u8 where "DP_FLOW_FLAG_DST_NAT \<equiv> 0x02"
abbreviation DP_FLOW_FLAG_DST_LB :: u8 where "DP_FLOW_FLAG_DST_LB \<equiv> 0x04"
abbreviation DP_FLOW_FLAG_FIREWALL :: u8 where "DP_FLOW_FLAG_FIREWALL \<equiv> 0x08"
abbreviation DP_FLOW_FLAG_SRC_NAT64 :: u8 where "DP_FLOW_FLAG_SRC_NAT64 \<equiv> 0x10"
abbreviation DP_FLOW_FLAG_DEFAULT :: u8 where "DP_FLOW_FLAG_DEFAULT \<equiv> 0x20"

text \<open>\<^verbatim>\<open>DP_FLOW_FLAG_NF\<close>: any of the four network functions.\<close>

abbreviation DP_FLOW_FLAG_NF :: u8 where "DP_FLOW_FLAG_NF \<equiv> 0x17"

definition has_flag :: "u8 \<Rightarrow> u8 \<Rightarrow> bool" where
  "has_flag flags f \<longleftrightarrow> flags AND f \<noteq> 0"

record flow_nf_info =
  nf_vni :: u32
  nf_icmp_err_ip_cksum :: u16
  nf_nat_type :: dp_flow_nat_type
  nf_underlay_dst :: ipv6_addr
  nf_l4_type :: u8

text \<open>
  Arrays indexed by the direction are functions of it; \<open>fv_rte_age_ctxs\<close> has
  \<^verbatim>\<open>DP_FLOW_VAL_AGE_CTX_CAPACITY\<close> slots.
\<close>

record flow_value =
  fv_flow_key :: "dp_flow_dir \<Rightarrow> flow_key"
  fv_rte_age_ctxs :: "ptr option list"
  fv_nf_info :: flow_nf_info
  fv_timestamp :: u64
  fv_timeout_value :: u32
  fv_created_port_id :: u16
  fv_flow_flags :: u8
  fv_fwall_action :: "dp_flow_dir \<Rightarrow> dp_fwall_action"
  fv_offload_orig :: dp_pkt_offload_state
  fv_offload_reply :: dp_pkt_offload_state
  fv_incoming_offloaded_pf0 :: bool
  fv_incoming_offloaded_pf1 :: bool
  fv_ref_count :: u32
  fv_tcp_state :: dp_flow_tcp_state
  fv_aged :: bool

section \<open>Ports\<close>

type_synonym mac_addr = "48 word"

record dp_iface_cfg =
  cfg_own_ip :: u32
  cfg_neigh_ip :: u32
  cfg_ip_depth :: u8
  cfg_dhcp_ipv6 :: ipv6_addr
  cfg_own_ipv6 :: ipv6_addr
  cfg_ip6_depth :: u8
  cfg_pxe_ip :: dp_ip_address
  cfg_pxe_str :: string

record dp_port_iface =
  iface_fwall_head :: "dp_fwall_rule list"
  iface_cfg :: dp_iface_cfg
  iface_vni :: u32
  iface_id :: string
  iface_ul_ipv6 :: ipv6_addr
  iface_nat_ip :: u32
  iface_nat_port_min :: u16
  iface_nat_port_max :: u16
  iface_ready :: bool
  iface_total_flow_rate_cap :: u64
  iface_public_flow_rate_cap :: u64

text \<open>Of a port's statistics only the count of NAT ports in use is read back; the meter state is the driver's.\<close>

record dp_port =
  port_is_pf :: bool
  port_port_id :: u16
  port_port_name :: string
  port_socket_id :: int
  port_link_status :: u8
  port_allocated :: bool
  port_vf_name :: string
  port_dev_name :: string
  port_peer_pf_hairpin_tx_rx_queue_offset :: u8
  port_peer_pf_port_id :: u16
  port_own_mac :: mac_addr
  port_neigh_mac :: mac_addr
  port_iface :: dp_port_iface
  port_default_jump_flow :: "ptr option"
  port_default_capture_flow :: "ptr option"
  port_captured :: bool
  port_used_port_cnt :: u16

abbreviation upd_iface :: "(dp_port_iface \<Rightarrow> dp_port_iface) \<Rightarrow> dp_port \<Rightarrow> dp_port" where
  "upd_iface f p \<equiv> p\<lparr> port_iface := f (port_iface p) \<rparr>"

text \<open>\<^verbatim>\<open>conf_ul\<close> is the configured underlay address, \<^verbatim>\<open>dp_conf_get_underlay_ip()\<close>.\<close>

definition dp_get_port_ul_ipv6 :: "ipv6_addr \<Rightarrow> dp_port \<Rightarrow> ipv6_addr" where
  "dp_get_port_ul_ipv6 conf_ul port =
     (if iface_ready (port_iface port) then iface_ul_ipv6 (port_iface port) else conf_ul)"

text \<open>The port table, an array of \<^verbatim>\<open>DP_MAX_PORTS\<close> pointers to ports.\<close>

definition dp_get_port_by_id :: "dp_port option list \<Rightarrow> u16 \<Rightarrow> dp_port option" where
  "dp_get_port_by_id tbl port_id = (if length tbl \<le> unat port_id then None else tbl ! unat port_id)"

definition dp_arp_cycle_needed :: "dp_port \<Rightarrow> bool" where
  "dp_arp_cycle_needed port \<longleftrightarrow> iface_ready (port_iface port) \<and> port_neigh_mac port = 0"

section \<open>Empty structures\<close>

text \<open>Structures without content, from which concrete examples are built; the rule accepts.\<close>

definition zero_ip :: dp_ip_address where
  "zero_ip = \<lparr> ip_data = 0, ip_is_v6 = False \<rparr>"

definition zero_flow_key :: flow_key where
  "zero_flow_key = \<lparr> fk_l3_dst = zero_ip, fk_proto = 0, fk_port_dst = 0, fk_l3_src = zero_ip,
     fk_vnf_type = DP_VNF_TYPE_UNDEFINED, fk_port_src = 0, fk_vni = 0 \<rparr>"

definition zero_flow_value :: flow_value where
  "zero_flow_value = \<lparr> fv_flow_key = (\<lambda>_. zero_flow_key), fv_rte_age_ctxs = replicate 6 None,
     fv_nf_info = \<lparr> nf_vni = 0, nf_icmp_err_ip_cksum = 0, nf_nat_type = DP_FLOW_NAT_TYPE_NONE, nf_underlay_dst = 0, nf_l4_type = 0 \<rparr>,
     fv_timestamp = 0, fv_timeout_value = 0, fv_created_port_id = 0, fv_flow_flags = 0,
     fv_fwall_action = (\<lambda>_. DP_FWALL_DROP), fv_offload_orig = DP_FLOW_NON_OFFLOAD, fv_offload_reply = DP_FLOW_NON_OFFLOAD,
     fv_incoming_offloaded_pf0 = False, fv_incoming_offloaded_pf1 = False, fv_ref_count = 0,
     fv_tcp_state = DP_FLOW_TCP_STATE_NONE, fv_aged = False \<rparr>"

definition zero_rule :: dp_fwall_rule where
  "zero_rule = \<lparr> fr_rule_id = [], fr_src_ip = zero_ip, fr_dest_ip = zero_ip, fr_src_mask = 0, fr_dest_mask = 0,
     fr_priority = 0, fr_protocol = 0, fr_src_port = \<lparr> pr_lower = 0, pr_upper = 0 \<rparr>,
     fr_dst_port = \<lparr> pr_lower = 0, pr_upper = 0 \<rparr>, fr_action = DP_FWALL_ACCEPT, fr_dir = DP_FWALL_INGRESS \<rparr>"

definition zero_port :: dp_port where
  "zero_port = \<lparr> port_is_pf = False, port_port_id = 0, port_port_name = [], port_socket_id = 0,
     port_link_status = 0, port_allocated = False, port_vf_name = [], port_dev_name = [],
     port_peer_pf_hairpin_tx_rx_queue_offset = 0, port_peer_pf_port_id = 0, port_own_mac = 0, port_neigh_mac = 0,
     port_iface = \<lparr> iface_fwall_head = [],
       iface_cfg = \<lparr> cfg_own_ip = 0, cfg_neigh_ip = 0, cfg_ip_depth = 0, cfg_dhcp_ipv6 = 0, cfg_own_ipv6 = 0,
         cfg_ip6_depth = 0, cfg_pxe_ip = zero_ip, cfg_pxe_str = [] \<rparr>,
       iface_vni = 0, iface_id = [], iface_ul_ipv6 = 0, iface_nat_ip = 0, iface_nat_port_min = 0,
       iface_nat_port_max = 0, iface_ready = False, iface_total_flow_rate_cap = 0, iface_public_flow_rate_cap = 0 \<rparr>,
     port_default_jump_flow = None, port_default_capture_flow = None, port_captured = False, port_used_port_cnt = 0 \<rparr>"

section \<open>Lemmas\<close>

lemma ip4_of_write [simp]: "ip4_of (ip4_write ip a) = ip"
  by (rule bit_word_eqI)
    (auto simp: ip4_of_def ip4_write_def bit_ucast_iff bit_or_iff bit_push_bit_iff)

lemma join64_halves [simp]: "join64 (lo64 a) (hi64 a) = a"
  by (rule bit_word_eqI)
    (auto simp: join64_def lo64_def hi64_def bit_ucast_iff bit_or_iff bit_push_bit_iff bit_drop_bit_eq not_less)

lemma dp_copy_ipaddr_id [simp]: "dp_copy_ipaddr a = a"
  by (simp add: dp_copy_ipaddr_def)

lemma dp_is_ipv6_addr_zero_iff [simp]: "dp_is_ipv6_addr_zero a \<longleftrightarrow> a = 0"
proof
  assume "dp_is_ipv6_addr_zero a"
  then have "join64 (lo64 a) (hi64 a) = join64 0 0"
    by (simp add: dp_is_ipv6_addr_zero_def)
  then show "a = 0"
    unfolding join64_halves by (simp add: join64_def)
qed (simp add: dp_is_ipv6_addr_zero_def lo64_def hi64_def)

lemma DP_SET_IPADDR_sel [simp]:
  "ip_ipv6 (DP_SET_IPADDR6 a) = a" "ip_is_v6 (DP_SET_IPADDR6 a)"
  "ip_ipv4 (DP_SET_IPADDR4 ip) = ip" "\<not> ip_is_v6 (DP_SET_IPADDR4 ip)"
  by (simp_all add: DP_SET_IPADDR6_def DP_SET_IPADDR4_def)

lemma DP_SET_IPADDR_inj [simp]:
  "DP_SET_IPADDR6 a = DP_SET_IPADDR6 b \<longleftrightarrow> a = b"
  "DP_SET_IPADDR4 x = DP_SET_IPADDR4 y \<longleftrightarrow> x = y"
  "DP_SET_IPADDR6 a \<noteq> DP_SET_IPADDR4 y"
  "DP_SET_IPADDR4 y \<noteq> DP_SET_IPADDR6 a"
  by (metis DP_SET_IPADDR_sel)+

lemma icmp_overlay [simp]:
  "df_icmp_type (df\<lparr> df_dst_port := icmp_type_code ty code \<rparr>) = ty"
  "df_icmp_code (df\<lparr> df_dst_port := icmp_type_code ty code \<rparr>) = code"
  by (rule bit_word_eqI,
      auto simp: df_icmp_type_def df_icmp_code_def icmp_type_code_def bit_ucast_iff bit_or_iff bit_push_bit_iff
        bit_drop_bit_eq dest: bit_imp_le_length)+

end
