(* ===== verification/Dp_Responder.thy ===== *)
theory Dp_Responder
  imports Dp_Types
begin

text \<open>
  \<^verbatim>\<open>src/grpc/dp_grpc_responder.c\<close> and its header: the chain of reply buffers into which a gRPC
  handler writes its messages.  A reply buffer of \<open>rep_max_size\<close> bytes holds
  \<open>rep_capacity = rep_max_size div msg_size\<close> messages; when it is full the next buffer is taken
  from the mempool and chained.  The type of a message is \<open>'m\<close>; the pointer
  \<^verbatim>\<open>dp_grpc_add_reply\<close> returns is always filled at once, so the model takes the message as an
  argument and stores it.  The mempool is DPDK's: \<open>resp_mempool\<close> lists the outcomes of the
  following calls of \<^verbatim>\<open>rte_pktmbuf_alloc\<close>.
\<close>

record 'm dpgrpc_reply =
  rep_is_chained :: bool
  rep_msg_count :: u16
  rep_err_code :: int
  rep_messages :: "'m list"

text \<open>\<open>resp_replies\<close> are the buffers before the current one, in order; \<open>resp_rep\<close> is the current one.\<close>

record 'm dp_grpc_responder =
  resp_replies :: "'m dpgrpc_reply list"
  resp_rep :: "'m dpgrpc_reply"
  resp_mempool :: "bool list"
  resp_rep_max_size :: nat
  resp_msg_size :: nat
  resp_rep_capacity :: nat
  resp_rep_msgcount :: u16

abbreviation DP_GRPC_REPLY_ARR_SIZE :: nat where "DP_GRPC_REPLY_ARR_SIZE \<equiv> 48"
abbreviation (input) UINT16_MAX :: nat where "UINT16_MAX \<equiv> 65535"

abbreviation resp_repcount :: "'m dp_grpc_responder \<Rightarrow> nat" where
  "resp_repcount r \<equiv> Suc (length (resp_replies r))"

text \<open>\<open>reply_size\<close> is \<^verbatim>\<open>sizeof(struct dpgrpc_reply)\<close>; the buffer of the request is reused.\<close>

definition dp_grpc_init_responder :: "nat \<Rightarrow> nat \<Rightarrow> bool list \<Rightarrow> 'm dp_grpc_responder" where
  "dp_grpc_init_responder reply_size rep_max_size mempool =
     \<lparr> resp_replies = [],
       resp_rep = \<lparr> rep_is_chained = False, rep_msg_count = 0, rep_err_code = 0, rep_messages = [] \<rparr>,
       resp_mempool = mempool, resp_rep_max_size = rep_max_size, resp_msg_size = reply_size,
       resp_rep_capacity = 1, resp_rep_msgcount = 0 \<rparr>"

definition dp_grpc_set_multireply :: "nat \<Rightarrow> 'm dp_grpc_responder \<Rightarrow> 'm dp_grpc_responder" where
  "dp_grpc_set_multireply msg_size r =
     r\<lparr> resp_msg_size := msg_size, resp_rep_capacity := resp_rep_max_size r div msg_size \<rparr>"

definition dp_grpc_alloc_reply :: "'m dp_grpc_responder \<Rightarrow> int \<times> 'm dp_grpc_responder" where
  "dp_grpc_alloc_reply r =
     (if UINT16_MAX < resp_rep_capacity r then (DP_ERROR, r)
      else if DP_GRPC_REPLY_ARR_SIZE \<le> resp_repcount r then (DP_ERROR, r)
      else case resp_mempool r of
          [] \<Rightarrow> (DP_ERROR, r)
        | False # rest \<Rightarrow> (DP_ERROR, r\<lparr> resp_mempool := rest \<rparr>)
        | True # rest \<Rightarrow>
            (DP_OK, r\<lparr>
               resp_replies := resp_replies r @
                 [(resp_rep r)\<lparr> rep_is_chained := True, rep_msg_count := of_nat (resp_rep_capacity r) \<rparr>],
               resp_rep := \<lparr> rep_is_chained = False, rep_msg_count = 0, rep_err_code = 0, rep_messages = [] \<rparr>,
               resp_mempool := rest,
               resp_rep_msgcount := 0 \<rparr>))"

text \<open>Writing message number \<open>rep_msgcount\<close> of the current buffer: a slot, or one past the last one.\<close>

definition put_message :: "nat \<Rightarrow> 'm \<Rightarrow> 'm list \<Rightarrow> 'm list" where
  "put_message i m ms = (if i < length ms then ms[i := m] else ms @ [m])"

definition dp_grpc_add_reply :: "'m \<Rightarrow> 'm dp_grpc_responder \<Rightarrow> bool \<times> 'm dp_grpc_responder" where
  "dp_grpc_add_reply m r =
     (let (ret, r) = (if resp_rep_capacity r \<le> unat (resp_rep_msgcount r) then dp_grpc_alloc_reply r else (DP_OK, r))
      in if DP_FAILED ret then (False, r)
         else (True, r\<lparr> resp_rep := (resp_rep r)\<lparr> rep_messages :=
                          put_message (unat (resp_rep_msgcount r)) m (rep_messages (resp_rep r)) \<rparr>,
                        resp_rep_msgcount := resp_rep_msgcount r + 1 \<rparr>))"

text \<open>The loop all listing functions share: one message per element, stopping when memory runs out.\<close>

fun dp_grpc_add_replies :: "'m list \<Rightarrow> 'm dp_grpc_responder \<Rightarrow> bool \<times> 'm dp_grpc_responder" where
  "dp_grpc_add_replies [] r = (True, r)"
| "dp_grpc_add_replies (m # ms) r =
     (let (ok, r') = dp_grpc_add_reply m r in if ok then dp_grpc_add_replies ms r' else (False, r'))"

text \<open>The replies handed to the client's ring, the error code in the first of them.\<close>

definition dp_grpc_send_response :: "int \<Rightarrow> 'm dp_grpc_responder \<Rightarrow> 'm dpgrpc_reply list" where
  "dp_grpc_send_response grpc_ret r =
     (case resp_replies r @ [(resp_rep r)\<lparr> rep_msg_count := resp_rep_msgcount r \<rparr>] of
        [] \<Rightarrow> []
      | first # rest \<Rightarrow> first\<lparr> rep_err_code := grpc_ret \<rparr> # rest)"

text \<open>What the client reads: the first \<^verbatim>\<open>msg_count\<close> messages of every reply.\<close>

definition client_messages :: "'m dpgrpc_reply list \<Rightarrow> 'm list" where
  "client_messages reps = concat (map (\<lambda>rep. take (unat (rep_msg_count rep)) (rep_messages rep)) reps)"

section \<open>Invariant\<close>

definition full_reply :: "nat \<Rightarrow> 'm dpgrpc_reply \<Rightarrow> bool" where
  "full_reply cap rep \<longleftrightarrow> unat (rep_msg_count rep) = length (rep_messages rep) \<and> length (rep_messages rep) \<le> cap"

definition responder_ok :: "'m dp_grpc_responder \<Rightarrow> bool" where
  "responder_ok r \<longleftrightarrow>
     0 < resp_rep_capacity r \<and> resp_rep_capacity r \<le> UINT16_MAX \<and>
     resp_repcount r \<le> DP_GRPC_REPLY_ARR_SIZE \<and>
     length (rep_messages (resp_rep r)) = unat (resp_rep_msgcount r) \<and>
     length (rep_messages (resp_rep r)) \<le> resp_rep_capacity r \<and>
     (\<forall>rep \<in> set (resp_replies r). full_reply (resp_rep_capacity r) rep)"

definition collected :: "'m dp_grpc_responder \<Rightarrow> 'm list" where
  "collected r = concat (map rep_messages (resp_replies r)) @ rep_messages (resp_rep r)"

lemma responder_ok_multireply:
  assumes "0 < msg_size" "msg_size \<le> rep_max_size" "rep_max_size \<le> UINT16_MAX"
  shows "responder_ok (dp_grpc_set_multireply msg_size (dp_grpc_init_responder n rep_max_size pool))"
proof -
  have "rep_max_size div msg_size \<le> UINT16_MAX"
    using div_le_dividend assms(3) by (rule order_trans)
  then show ?thesis
    using assms by (auto simp: responder_ok_def dp_grpc_set_multireply_def dp_grpc_init_responder_def div_greater_zero_iff)
qed

lemma collected_multireply [simp]:
  "collected (dp_grpc_set_multireply msg_size (dp_grpc_init_responder n rep_max_size pool)) = []"
  by (simp add: collected_def dp_grpc_set_multireply_def dp_grpc_init_responder_def)

lemma dp_grpc_alloc_reply_ok:
  assumes "responder_ok r" "dp_grpc_alloc_reply r = (ret, r')"
    "resp_rep_capacity r \<le> unat (resp_rep_msgcount r)"
  shows "responder_ok r'" "collected r' = collected r" "resp_rep_capacity r' = resp_rep_capacity r"
    "\<not> DP_FAILED ret \<Longrightarrow> resp_rep_msgcount r' = 0 \<and> rep_messages (resp_rep r') = []"
proof -
  have cap: "unat (of_nat (resp_rep_capacity r) :: u16) = resp_rep_capacity r"
    using assms(1) by (simp add: responder_ok_def unat_of_nat take_bit_nat_eq_self)
  show "responder_ok r'" "collected r' = collected r" "resp_rep_capacity r' = resp_rep_capacity r"
    "\<not> DP_FAILED ret \<Longrightarrow> resp_rep_msgcount r' = 0 \<and> rep_messages (resp_rep r') = []"
    using assms cap
    by (auto simp: dp_grpc_alloc_reply_def responder_ok_def collected_def full_reply_def
        split: if_splits list.splits bool.splits)
qed

lemma unat_Suc_u16: "unat (w :: u16) < UINT16_MAX \<Longrightarrow> unat (w + 1) = Suc (unat w)"
  by (simp add: unat_plus_if_size word_size)

lemma dp_grpc_add_reply_ok:
  assumes r: "responder_ok r" and add: "dp_grpc_add_reply m r = (ok, r')"
  shows "responder_ok r'" "collected r' = (if ok then collected r @ [m] else collected r)"
    "resp_rep_capacity r' = resp_rep_capacity r"
proof -
  obtain ret r1 where r1: "(if resp_rep_capacity r \<le> unat (resp_rep_msgcount r) then dp_grpc_alloc_reply r else (DP_OK, r)) = (ret, r1)"
    by (cases "if resp_rep_capacity r \<le> unat (resp_rep_msgcount r) then dp_grpc_alloc_reply r else (DP_OK, r)") auto
  have r1_ok: "responder_ok r1" "collected r1 = collected r" "resp_rep_capacity r1 = resp_rep_capacity r"
    using r1 r dp_grpc_alloc_reply_ok [OF r] by (auto split: if_splits)
  have room: "length (rep_messages (resp_rep r1)) < resp_rep_capacity r1" if "\<not> DP_FAILED ret"
    using r1 r that dp_grpc_alloc_reply_ok [OF r] by (auto simp: responder_ok_def split: if_splits)
  have suc: "unat (resp_rep_msgcount r1 + 1) = Suc (length (rep_messages (resp_rep r1)))" if "\<not> DP_FAILED ret"
    using room [OF that] r1_ok(1) by (subst unat_Suc_u16) (auto simp: responder_ok_def)
  show "responder_ok r'" "collected r' = (if ok then collected r @ [m] else collected r)"
    "resp_rep_capacity r' = resp_rep_capacity r"
    using add r1_ok room suc unfolding dp_grpc_add_reply_def r1
    by (auto simp: responder_ok_def collected_def put_message_def split: if_splits)
qed

lemma dp_grpc_add_replies_ok:
  assumes "responder_ok r" "dp_grpc_add_replies ms r = (ok, r')"
  shows "responder_ok r'" "\<exists>n. collected r' = collected r @ take n ms \<and> (ok \<longleftrightarrow> length ms \<le> n)"
proof -
  have "responder_ok r' \<and> (\<exists>n. collected r' = collected r @ take n ms \<and> (ok \<longleftrightarrow> length ms \<le> n))"
    using assms
  proof (induction ms arbitrary: r)
    case (Cons m ms)
    obtain ok1 r1 where r1: "dp_grpc_add_reply m r = (ok1, r1)" by fastforce
    show ?case
    proof (cases ok1)
      case True
      with Cons r1 have "responder_ok r' \<and> (\<exists>n. collected r' = collected r1 @ take n ms \<and> (ok \<longleftrightarrow> length ms \<le> n))"
        using dp_grpc_add_reply_ok(1) [OF Cons.prems(1) r1] by simp
      then obtain n where "responder_ok r'" "collected r' = collected r1 @ take n ms" "ok \<longleftrightarrow> length ms \<le> n"
        by blast
      with True r1 dp_grpc_add_reply_ok(2) [OF Cons.prems(1) r1] show ?thesis
        by (intro conjI exI [of _ "Suc n"]) auto
    next
      case False
      with Cons.prems r1 dp_grpc_add_reply_ok [OF Cons.prems(1) r1] show ?thesis
        by (auto intro!: exI [of _ 0])
    qed
  qed (auto intro: exI [of _ 0])
  then show "responder_ok r'" "\<exists>n. collected r' = collected r @ take n ms \<and> (ok \<longleftrightarrow> length ms \<le> n)"
    by auto
qed

lemma client_messages_full:
  "\<forall>rep \<in> set reps. full_reply cap rep \<Longrightarrow> client_messages reps = concat (map rep_messages reps)"
  by (induction reps) (auto simp: client_messages_def full_reply_def)

lemma client_messages_Cons_err [simp]:
  "client_messages (rep\<lparr> rep_err_code := e \<rparr> # reps) = client_messages (rep # reps)"
  by (simp add: client_messages_def)

lemma client_messages_append: "client_messages (xs @ ys) = client_messages xs @ client_messages ys"
  by (simp add: client_messages_def)

lemma client_messages_send:
  assumes "responder_ok r"
  shows "client_messages (dp_grpc_send_response ret r) = collected r"
proof -
  let ?last = "(resp_rep r)\<lparr> rep_msg_count := resp_rep_msgcount r \<rparr>"
  have "client_messages (dp_grpc_send_response ret r) = client_messages (resp_replies r @ [?last])"
    by (cases "resp_replies r") (auto simp: dp_grpc_send_response_def)
  also have "\<dots> = collected r"
    using assms client_messages_full [of "resp_replies r" "resp_rep_capacity r"]
    by (auto simp: client_messages_append collected_def responder_ok_def client_messages_def)
  finally show ?thesis .
qed

section \<open>Listing a table\<close>

text \<open>
  The loop of the functions that list a hash table: a message \<open>msg\<close> for each entry that \<open>sel\<close>
  selects, with \<^verbatim>\<open>DP_GRPC_ERR_OUT_OF_MEMORY\<close> as the early return.
\<close>

definition list_body ::
  "('k \<Rightarrow> 'o \<Rightarrow> bool) \<Rightarrow> ('k \<Rightarrow> 'o \<Rightarrow> 'm) \<Rightarrow> 'o heap \<Rightarrow> 'k \<Rightarrow> ptr \<Rightarrow> 'm dp_grpc_responder \<Rightarrow> (int \<times> 'm dp_grpc_responder) + 'm dp_grpc_responder" where
  "list_body sel msg h k p r =
     (if sel k (the (h p)) then
        let (ok, r') = dp_grpc_add_reply (msg k (the (h p))) r
        in if ok then Inr r' else Inl (DP_GRPC_ERR_OUT_OF_MEMORY, r')
      else Inr r)"

definition dp_list_table ::
  "('k, 't) rte_hash \<Rightarrow> 't \<Rightarrow> 'o heap \<Rightarrow> ('k \<Rightarrow> 'o \<Rightarrow> bool) \<Rightarrow> ('k \<Rightarrow> 'o \<Rightarrow> 'm) \<Rightarrow> nat \<Rightarrow> 'm dp_grpc_responder \<Rightarrow>
     (int \<times> 'm dp_grpc_responder) option" where
  "dp_list_table H t h sel msg msg_size responder =
     (if rh_count H t = 0 then Some (DP_GRPC_OK, responder)
      else
        case rh_foreach H (\<lambda>_. t) (\<lambda>_ r. (DP_GRPC_ERR_ITERATOR, r)) (list_body sel msg h) 0
               (dp_grpc_set_multireply msg_size responder) of
          None \<Rightarrow> None
        | Some (Inl res) \<Rightarrow> Some res
        | Some (Inr r) \<Rightarrow> Some (DP_GRPC_OK, r))"

text \<open>What a client may rely on: all the selected entries, each once, or an initial part and an error.\<close>

definition lists_view :: "('k \<rightharpoonup> 'o) \<Rightarrow> ('k \<Rightarrow> 'o \<Rightarrow> bool) \<Rightarrow> ('k \<Rightarrow> 'o \<Rightarrow> 'm) \<Rightarrow> int \<Rightarrow> 'm list \<Rightarrow> bool" where
  "lists_view view sel msg ret ms \<longleftrightarrow>
     (\<exists>entries n. distinct (map fst entries) \<and> (\<forall>k d. (k, d) \<in> set entries \<longleftrightarrow> view k = Some d \<and> sel k d) \<and>
        ms = take n (map (\<lambda>(k, d). msg k d) entries) \<and>
        ret = (if length entries \<le> n then DP_GRPC_OK else DP_GRPC_ERR_OUT_OF_MEMORY))"

lemma foreach_list_body:
  "foreach_entry (list_body sel msg h) es r =
     (let (ok, r') = dp_grpc_add_replies
            (map (\<lambda>(k, d). msg k d) (filter (\<lambda>(k, d). sel k d) (map (\<lambda>(_, k, p). (k, the (h p))) es))) r
      in if ok then Inr r' else Inl (DP_GRPC_ERR_OUT_OF_MEMORY, r'))"
proof (induction es arbitrary: r)
  case (Cons e es)
  obtain i k p where e: "e = (i, k, p)" by (cases e)
  show ?case
  proof (cases "sel k (the (h p))")
    case True
    obtain ok r' where "dp_grpc_add_reply (msg k (the (h p))) r = (ok, r')" by fastforce
    then show ?thesis
      using True Cons by (simp add: e list_body_def)
  qed (use Cons in \<open>simp add: e list_body_def\<close>)
qed simp

lemma dp_list_table_spec:
  assumes H: "rte_hash_ok H" and iter: "rte_iter_ok H slots" and ok: "obj_ok H t h"
    and size: "0 < msg_size" "msg_size \<le> rep_max_size" "rep_max_size \<le> UINT16_MAX"
  shows "\<exists>ret r. dp_list_table H t h sel msg msg_size (dp_grpc_init_responder sz rep_max_size pool) = Some (ret, r) \<and>
    lists_view (obj_view H t h) sel msg ret (client_messages (dp_grpc_send_response ret r))"
proof (cases "rh_count H t = 0")
  case True
  then have "rh_view H t = Map.empty"
    using H by (auto simp: rte_hash_ok_def)
  then have "lists_view (obj_view H t h) sel msg DP_GRPC_OK []"
    unfolding lists_view_def by (intro exI [of _ "[]"] exI [of _ 0]) (simp add: obj_view_def)
  with True show ?thesis
    by (auto simp: dp_list_table_def dp_grpc_init_responder_def dp_grpc_send_response_def client_messages_def)
next
  case False
  let ?r0 = "dp_grpc_set_multireply msg_size (dp_grpc_init_responder sz rep_max_size pool)"
  let ?entries = "filter (\<lambda>(k, d). sel k d) (map (\<lambda>(_, k, p). (k, the (h p))) (slots t))"
  obtain b r where add: "dp_grpc_add_replies (map (\<lambda>(k, d). msg k d) ?entries) ?r0 = (b, r)" by fastforce
  have loop: "rh_foreach H (\<lambda>_. t) (\<lambda>_ r. (DP_GRPC_ERR_ITERATOR, r)) (list_body sel msg h) 0 ?r0 =
      Some (if b then Inr r else Inl (DP_GRPC_ERR_OUT_OF_MEMORY, r))"
    unfolding rh_foreach_all [OF iter, of _ "\<lambda>_. t", OF refl] foreach_list_body add by simp
  have ok0: "responder_ok ?r0"
    using size by (rule responder_ok_multireply)
  obtain n where n: "collected r = take n (map (\<lambda>(k, d). msg k d) ?entries)" "b \<longleftrightarrow> length ?entries \<le> n"
    using dp_grpc_add_replies_ok(2) [OF ok0 add] by auto
  have "distinct (map fst (map (\<lambda>(_, k, p). (k, the (h p))) (slots t)))"
    using rte_iter_okD(3) [OF iter, of t] by (simp add: comp_def split_def)
  then have dist: "distinct (map fst ?entries)"
    by (rule distinct_map_filter)
  have slot: "(\<exists>i. (i, k, p) \<in> set (slots t)) \<longleftrightarrow> rh_view H t k = Some p" for k p
    using rte_iter_okD(4) [OF iter, of t k p] by force
  have "(k, d) \<in> set ?entries \<longleftrightarrow> (\<exists>p. rh_view H t k = Some p \<and> d = the (h p)) \<and> sel k d" for k d
    unfolding slot [symmetric] by force
  then have mem: "(k, d) \<in> set ?entries \<longleftrightarrow> obj_view H t h k = Some d \<and> sel k d" for k d
    using obj_ok_live [OF ok, of k] by (cases "rh_view H t k") (auto simp: obj_view_def)
  have "lists_view (obj_view H t h) sel msg (if b then DP_GRPC_OK else DP_GRPC_ERR_OUT_OF_MEMORY) (collected r)"
    unfolding lists_view_def using dist mem n by (intro exI [of _ ?entries] exI [of _ n]) auto
  then show ?thesis
    unfolding dp_list_table_def loop using False client_messages_send [OF dp_grpc_add_replies_ok(1) [OF ok0 add]]
    by (cases b) simp_all
qed

lemma lists_view_empty: "lists_view Map.empty sel msg ret ms \<Longrightarrow> ms = []"
proof -
  assume "lists_view Map.empty sel msg ret ms"
  then obtain entries n where "\<forall>k d. (k, d) \<notin> set entries" "ms = take n (map (\<lambda>(k, d). msg k d) entries)"
    unfolding lists_view_def by auto
  then show "ms = []"
    by (cases entries) auto
qed

end
