(* ===== verification/Dp_Store.thy ===== *)
theory Dp_Store
  imports Dp_Prelude
begin

text \<open>
  The contract most tables of the program share.  A keyed store has a partial \<open>put\<close> that refuses
  a bound key and a partial \<open>del\<close>; both return an \<^verbatim>\<open>int\<close>, negative for failure, and a failed
  operation leaves the abstract content \<open>view\<close> alone.  \<open>valid\<close> are the entries a caller may put, \<open>dvalid\<close> the keys it may delete.  What a client can
  conclude about a whole history of such operations is proved once here; each component
  interprets the locale on its own operations.
\<close>

datatype ('e, 'k) store_op = Put 'e | Del 'k

text \<open>Run a history of operations on the store, collecting the return values.\<close>

fun store_step :: "('e \<Rightarrow> 's \<Rightarrow> int \<times> 's) \<Rightarrow> ('k \<Rightarrow> 's \<Rightarrow> int \<times> 's) \<Rightarrow> ('e, 'k) store_op \<Rightarrow> 's \<Rightarrow> int \<times> 's" where
  "store_step put del (Put e) s = put e s"
| "store_step put del (Del k) s = del k s"

fun store_run :: "('e \<Rightarrow> 's \<Rightarrow> int \<times> 's) \<Rightarrow> ('k \<Rightarrow> 's \<Rightarrow> int \<times> 's) \<Rightarrow> ('e, 'k) store_op list \<Rightarrow> 's \<Rightarrow> int list \<times> 's" where
  "store_run put del [] s = ([], s)"
| "store_run put del (a # as) s =
     (let (r, s1) = store_step put del a s; (rs, s2) = store_run put del as s1 in (r # rs, s2))"

text \<open>The reference: a finite map on which the operations that succeeded are replayed.\<close>

fun map_step :: "('e \<Rightarrow> 'k) \<Rightarrow> ('e \<Rightarrow> 'v) \<Rightarrow> ('e, 'k) store_op \<Rightarrow> ('k \<rightharpoonup> 'v) \<Rightarrow> ('k \<rightharpoonup> 'v)" where
  "map_step key val (Put e) m = m(key e \<mapsto> val e)"
| "map_step key val (Del k) m = m(k := None)"

fun map_replay :: "('e \<Rightarrow> 'k) \<Rightarrow> ('e \<Rightarrow> 'v) \<Rightarrow> ('e, 'k) store_op list \<Rightarrow> int list \<Rightarrow> ('k \<rightharpoonup> 'v) \<Rightarrow> ('k \<rightharpoonup> 'v)" where
  "map_replay key val (a # as) (r # rs) m = map_replay key val as rs (if DP_FAILED r then m else map_step key val a m)"
| "map_replay key val _ _ m = m"

fun op_valid :: "('e \<Rightarrow> bool) \<Rightarrow> ('k \<Rightarrow> bool) \<Rightarrow> ('e, 'k) store_op \<Rightarrow> bool" where
  "op_valid valid dvalid (Put e) = valid e"
| "op_valid valid dvalid (Del k) = dvalid k"

lemma op_valid_all: "list_all (op_valid (\<lambda>_. True) (\<lambda>_. True)) as"
  unfolding list_all_iff by (metis op_valid.elims(3))

locale keyed_store =
  fixes key :: "'e \<Rightarrow> 'k"
    and val :: "'e \<Rightarrow> 'v"
    and valid :: "'e \<Rightarrow> bool"
    and dvalid :: "'k \<Rightarrow> bool"
    and inv :: "'s \<Rightarrow> bool"
    and view :: "'s \<Rightarrow> 'k \<rightharpoonup> 'v"
    and put :: "'e \<Rightarrow> 's \<Rightarrow> int \<times> 's"
    and del :: "'k \<Rightarrow> 's \<Rightarrow> int \<times> 's"
  assumes put_inv: "inv s \<Longrightarrow> valid e \<Longrightarrow> put e s = (r, s') \<Longrightarrow> inv s'"
    and put_view: "inv s \<Longrightarrow> valid e \<Longrightarrow> put e s = (r, s') \<Longrightarrow> view s' = (if DP_FAILED r then view s else (view s)(key e \<mapsto> val e))"
    and put_bound: "inv s \<Longrightarrow> valid e \<Longrightarrow> view s (key e) = Some w \<Longrightarrow> put e s = (r, s') \<Longrightarrow> DP_FAILED r"
    and del_inv: "inv s \<Longrightarrow> dvalid k \<Longrightarrow> del k s = (r, s') \<Longrightarrow> inv s'"
    and del_view: "inv s \<Longrightarrow> dvalid k \<Longrightarrow> del k s = (r, s') \<Longrightarrow> view s' = (if DP_FAILED r then view s else (view s)(k := None))"
begin

lemma step_inv: "inv s \<Longrightarrow> op_valid valid dvalid a \<Longrightarrow> store_step put del a s = (r, s') \<Longrightarrow> inv s'"
  by (cases a) (auto intro: put_inv del_inv)

lemma step_view:
  "inv s \<Longrightarrow> op_valid valid dvalid a \<Longrightarrow> store_step put del a s = (r, s') \<Longrightarrow> view s' = (if DP_FAILED r then view s else map_step key val a (view s))"
  by (cases a) (auto simp: put_view del_view)

lemma step_keeps:
  "inv s \<Longrightarrow> op_valid valid dvalid a \<Longrightarrow> view s k = Some v \<Longrightarrow> a \<noteq> Del k \<Longrightarrow> store_step put del a s = (r, s') \<Longrightarrow> view s' k = Some v"
  by (cases a) (auto simp: put_view del_view dest: put_bound)

lemma run_replay:
  assumes "inv s" "list_all (op_valid valid dvalid) as" "store_run put del as s = (rs, s')"
  shows "inv s'" "length rs = length as" "view s' = map_replay key val as rs (view s)"
proof -
  have "inv s' \<and> length rs = length as \<and> view s' = map_replay key val as rs (view s)"
    using assms
  proof (induction as arbitrary: s rs)
    case (Cons a as)
    obtain r s1 where s1: "store_step put del a s = (r, s1)" by fastforce
    obtain rs2 where s2: "store_run put del as s1 = (rs2, s')" "rs = r # rs2"
      using Cons.prems(3) by (auto simp: s1 split: prod.splits)
    have a: "op_valid valid dvalid a" "list_all (op_valid valid dvalid) as"
      using Cons.prems(2) by auto
    have "inv s' \<and> length rs2 = length as \<and> view s' = map_replay key val as rs2 (view s1)"
      by (rule Cons.IH [OF step_inv [OF Cons.prems(1) a(1) s1] a(2) s2(1)])
    then show ?case
      using step_view [OF Cons.prems(1) a(1) s1] by (auto simp: s2(2))
  qed auto
  then show "inv s'" "length rs = length as" "view s' = map_replay key val as rs (view s)"
    by auto
qed

text \<open>A binding is neither lost nor replaced as long as its key is not deleted.\<close>

lemma run_keeps:
  assumes "inv s" "list_all (op_valid valid dvalid) as" "view s k = Some v" "Del k \<notin> set as" "store_run put del as s = (rs, s')"
  shows "view s' k = Some v"
  using assms
proof (induction as arbitrary: s rs)
  case (Cons a as)
  obtain r s1 where s1: "store_step put del a s = (r, s1)" by fastforce
  obtain rs2 where s2: "store_run put del as s1 = (rs2, s')"
    using Cons.prems(5) by (auto simp: s1 split: prod.splits)
  have a: "op_valid valid dvalid a" "list_all (op_valid valid dvalid) as"
    using Cons.prems(2) by auto
  show ?case
    by (rule Cons.IH [OF step_inv [OF Cons.prems(1) a(1) s1] a(2) step_keeps [OF Cons.prems(1) a(1) Cons.prems(3) _ s1] _ s2])
      (use Cons.prems(4) in auto)
qed auto

end

text \<open>
  A store that shares its state with other data: \<open>frame\<close> is the part neither operation touches.
\<close>

locale framed_store = keyed_store key val valid dvalid inv view put del
  for key :: "'e \<Rightarrow> 'k" and val :: "'e \<Rightarrow> 'v" and valid :: "'e \<Rightarrow> bool" and dvalid :: "'k \<Rightarrow> bool" and inv :: "'s \<Rightarrow> bool"
    and view :: "'s \<Rightarrow> 'k \<rightharpoonup> 'v" and put :: "'e \<Rightarrow> 's \<Rightarrow> int \<times> 's" and del :: "'k \<Rightarrow> 's \<Rightarrow> int \<times> 's" +
  fixes frame :: "'s \<Rightarrow> 'f"
  assumes put_frame: "inv s \<Longrightarrow> valid e \<Longrightarrow> put e s = (r, s') \<Longrightarrow> frame s' = frame s"
    and del_frame: "inv s \<Longrightarrow> dvalid k \<Longrightarrow> del k s = (r, s') \<Longrightarrow> frame s' = frame s"
begin

lemma step_frame: "inv s \<Longrightarrow> op_valid valid dvalid a \<Longrightarrow> store_step put del a s = (r, s') \<Longrightarrow> frame s' = frame s"
  by (cases a) (auto simp: put_frame del_frame)

lemma run_frame:
  "inv s \<Longrightarrow> list_all (op_valid valid dvalid) as \<Longrightarrow> store_run put del as s = (rs, s') \<Longrightarrow> frame s' = frame s"
proof (induction as arbitrary: s rs)
  case (Cons a as)
  obtain r s1 where s1: "store_step put del a s = (r, s1)" by fastforce
  obtain rs2 where s2: "store_run put del as s1 = (rs2, s')"
    using Cons.prems(3) by (auto simp: s1 split: prod.splits)
  have a: "op_valid valid dvalid a" "list_all (op_valid valid dvalid) as"
    using Cons.prems(2) by auto
  show ?case
    using Cons.IH [OF step_inv [OF Cons.prems(1) a(1) s1] a(2) s2] step_frame [OF Cons.prems(1) a(1) s1] by simp
qed auto

end

end
