(* ===== verification/Dp_Firewall.thy ===== *)
theory Dp_Firewall
  imports Dp_Responder Dp_Store
begin

text \<open>
  \<^verbatim>\<open>src/dp_firewall.c\<close>: the firewall rules of an interface and the decision for a packet.  The
  \<^verbatim>\<open>TAILQ\<close> of rules of a port is the list \<open>iface_fwall_head\<close>, in queue order; \<open>alloc\<close> is whether
  \<^verbatim>\<open>rte_zmalloc\<close> succeeds.  A \<^verbatim>\<open>NULL\<close> dereference, which the code can reach, is the result
  \<open>None\<close>.  The two gRPC handlers that change the rules are here as well, since they, and not the
  list functions, keep the rule ids unique; \<open>port\<close> is what \<^verbatim>\<open>dp_get_port_with_iface_id\<close> returned.
\<close>

section \<open>The rule list\<close>

abbreviation fwall_head :: "dp_port \<Rightarrow> dp_fwall_rule list" where
  "fwall_head port \<equiv> iface_fwall_head (port_iface port)"

abbreviation set_fwall_head :: "dp_fwall_rule list \<Rightarrow> dp_port \<Rightarrow> dp_port" where
  "set_fwall_head rules port \<equiv> upd_iface (iface_fwall_head_update (\<lambda>_. rules)) port"

definition dp_init_firewall_rules :: "dp_port \<Rightarrow> dp_port" where
  "dp_init_firewall_rules port = set_fwall_head [] port"

definition dp_add_firewall_rule :: "bool \<Rightarrow> dp_fwall_rule \<Rightarrow> dp_port \<Rightarrow> int \<times> dp_port" where
  "dp_add_firewall_rule alloc new_rule port =
     (if \<not> alloc then (DP_ERROR, port)
      else (DP_OK, set_fwall_head (fwall_head port @ [new_rule]) port))"

fun fwall_delete :: "string \<Rightarrow> dp_fwall_rule list \<Rightarrow> dp_fwall_rule list option" where
  "fwall_delete rule_id [] = None"
| "fwall_delete rule_id (rule # rules) =
     (if fr_rule_id rule = rule_id then Some rules
      else map_option (Cons rule) (fwall_delete rule_id rules))"

definition dp_delete_firewall_rule :: "string \<Rightarrow> dp_port \<Rightarrow> int \<times> dp_port" where
  "dp_delete_firewall_rule rule_id port =
     (case fwall_delete rule_id (fwall_head port) of
        None \<Rightarrow> (DP_ERROR, port)
      | Some rules \<Rightarrow> (DP_OK, set_fwall_head rules port))"

fun fwall_get :: "string \<Rightarrow> dp_fwall_rule list \<Rightarrow> dp_fwall_rule option" where
  "fwall_get rule_id [] = None"
| "fwall_get rule_id (rule # rules) = (if fr_rule_id rule = rule_id then Some rule else fwall_get rule_id rules)"

definition dp_get_firewall_rule :: "string \<Rightarrow> dp_port \<Rightarrow> dp_fwall_rule option" where
  "dp_get_firewall_rule rule_id port = fwall_get rule_id (fwall_head port)"

text \<open>\<open>msg_size\<close> is \<^verbatim>\<open>sizeof(struct dpgrpc_fwrule_info)\<close>.\<close>

definition dp_list_firewall_rules :: "nat \<Rightarrow> dp_port \<Rightarrow> dp_fwall_rule dp_grpc_responder \<Rightarrow> int \<times> dp_fwall_rule dp_grpc_responder" where
  "dp_list_firewall_rules msg_size port responder =
     (let (ok, r) = dp_grpc_add_replies (fwall_head port) (dp_grpc_set_multireply msg_size responder)
      in (if ok then DP_GRPC_OK else DP_GRPC_ERR_OUT_OF_MEMORY, r))"

fun fwall_drain :: "dp_fwall_rule list \<Rightarrow> dp_fwall_rule list" where
  "fwall_drain [] = []"
| "fwall_drain (rule # rules) = fwall_drain rules"

definition dp_del_all_firewall_rules :: "dp_port \<Rightarrow> dp_port" where
  "dp_del_all_firewall_rules port = set_fwall_head (fwall_drain (fwall_head port)) port"

definition dp_process_create_fwrule :: "bool \<Rightarrow> dp_fwall_rule \<Rightarrow> dp_port option \<Rightarrow> int \<times> dp_port option" where
  "dp_process_create_fwrule alloc rule port =
     (case port of
        None \<Rightarrow> (DP_GRPC_ERR_NO_VM, None)
      | Some p \<Rightarrow>
          if dp_get_firewall_rule (fr_rule_id rule) p \<noteq> None then (DP_GRPC_ERR_ALREADY_EXISTS, Some p)
          else if fr_action rule = DP_FWALL_DROP then (DP_GRPC_ERR_NO_DROP_SUPPORT, Some p)
          else let (ret, p') = dp_add_firewall_rule alloc rule p
               in if DP_FAILED ret then (DP_GRPC_ERR_OUT_OF_MEMORY, Some p') else (DP_GRPC_OK, Some p'))"

definition dp_process_get_fwrule :: "string \<Rightarrow> dp_port option \<Rightarrow> int \<times> dp_fwall_rule option" where
  "dp_process_get_fwrule rule_id port =
     (case port of
        None \<Rightarrow> (DP_GRPC_ERR_NO_VM, None)
      | Some p \<Rightarrow>
          case dp_get_firewall_rule rule_id p of
            None \<Rightarrow> (DP_GRPC_ERR_NOT_FOUND, None)
          | Some rule \<Rightarrow> (DP_GRPC_OK, Some rule))"

definition dp_process_delete_fwrule :: "string \<Rightarrow> dp_port option \<Rightarrow> int \<times> dp_port option" where
  "dp_process_delete_fwrule rule_id port =
     (case port of
        None \<Rightarrow> (DP_GRPC_ERR_NO_VM, None)
      | Some p \<Rightarrow>
          let (ret, p') = dp_delete_firewall_rule rule_id p
          in if DP_FAILED ret then (DP_GRPC_ERR_NOT_FOUND, Some p') else (DP_GRPC_OK, Some p'))"

section \<open>Matching\<close>

text \<open>The mask is applied byte by byte; byte \<open>i\<close> of an address is at bit \<open>8i\<close>.\<close>

definition byte_at :: "nat \<Rightarrow> ipv6_addr \<Rightarrow> u8" where
  "byte_at i a = ucast (drop_bit (8 * i) a)"

definition byte_put :: "nat \<Rightarrow> u8 \<Rightarrow> ipv6_addr \<Rightarrow> ipv6_addr" where
  "byte_put i b a = (a AND NOT (push_bit (8 * i) (mask 8))) OR push_bit (8 * i) (ucast b)"

fun dp_apply_ipv6_mask_from :: "nat \<Rightarrow> ipv6_addr \<Rightarrow> ipv6_addr \<Rightarrow> ipv6_addr \<Rightarrow> ipv6_addr" where
  "dp_apply_ipv6_mask_from 0 addr msk result = result"
| "dp_apply_ipv6_mask_from (Suc i) addr msk result =
     byte_put i (byte_at i addr AND byte_at i msk) (dp_apply_ipv6_mask_from i addr msk result)"

text \<open>\<open>result\<close> is the uninitialised output buffer.\<close>

definition dp_apply_ipv6_mask :: "ipv6_addr \<Rightarrow> ipv6_addr \<Rightarrow> ipv6_addr \<Rightarrow> ipv6_addr" where
  "dp_apply_ipv6_mask addr msk result = dp_apply_ipv6_mask_from 16 addr msk result"

text \<open>
  The final part of the matcher: addresses, ports and protocol.  \<^verbatim>\<open>rte_rib6_is_equal\<close> compares two
  addresses; the masks' IPv4 overlay is their first word.
\<close>

definition fwall_match_l3_l4 :: "dp_fwall_rule \<Rightarrow> dp_flow \<Rightarrow> u8 \<Rightarrow> bool" where
  "fwall_match_l3_l4 rule df protocol =
     (let dest_ip = ntohl (df_dst_addr df);
          src_ip = ntohl (df_src_addr df);
          r_dest_ip = ip_ipv4 (fr_dest_ip rule);
          r_src_ip = ip_ipv4 (fr_src_ip rule)
      in
      if (if df_l3_type df = RTE_ETHER_TYPE_IPV4 then
            \<not> ((src_ip AND ip4_of (fr_src_mask rule)) = (r_src_ip AND ip4_of (fr_src_mask rule)) \<and>
               (dest_ip AND ip4_of (fr_dest_mask rule)) = (r_dest_ip AND ip4_of (fr_dest_mask rule)))
          else if df_l3_type df = RTE_ETHER_TYPE_IPV6 then
            \<not> (dp_apply_ipv6_mask (df_src_addr6 df) (fr_src_mask rule) 0 =
                 dp_apply_ipv6_mask (ip_ipv6 (fr_src_ip rule)) (fr_src_mask rule) 0 \<and>
               dp_apply_ipv6_mask (df_dst_addr6 df) (fr_dest_mask rule) 0 =
                 dp_apply_ipv6_mask (ip_ipv6 (fr_dest_ip rule)) (fr_dest_mask rule) 0)
          else True)
      then False
      else
        let src_port = ucast (ntohs (df_src_port df)) :: u32;
            dest_port = ucast (ntohs (df_dst_port df)) :: u32;
            src_port_lower = pr_lower (fr_src_port rule);
            src_port_upper = pr_upper (fr_src_port rule);
            dst_port_lower = pr_lower (fr_dst_port rule);
            dst_port_upper = pr_upper (fr_dst_port rule)
        in (src_port_lower = DP_FWALL_MATCH_ANY_PORT \<or> (src_port_lower \<le> src_port \<and> src_port \<le> src_port_upper)) \<and>
           (dst_port_lower = DP_FWALL_MATCH_ANY_PORT \<or> (dst_port_lower \<le> dest_port \<and> dest_port \<le> dst_port_upper)) \<and>
           (fr_protocol rule = DP_FWALL_MATCH_ANY_PROTOCOL \<or> fr_protocol rule = protocol))"

definition dp_is_rule_matching :: "dp_fwall_rule \<Rightarrow> dp_flow \<Rightarrow> bool" where
  "dp_is_rule_matching rule df =
     (let src_type = (if ip_is_v6 (fr_src_ip rule) then RTE_ETHER_TYPE_IPV6 else RTE_ETHER_TYPE_IPV4);
          dest_type = (if ip_is_v6 (fr_dest_ip rule) then RTE_ETHER_TYPE_IPV6 else RTE_ETHER_TYPE_IPV4)
      in
      if src_type \<noteq> df_l3_type df \<and> dest_type \<noteq> df_l3_type df then False
      else if df_l4_type df = IPPROTO_TCP then
        (if fr_protocol rule \<noteq> IPPROTO_TCP \<and> fr_protocol rule \<noteq> DP_FWALL_MATCH_ANY_PROTOCOL then False
         else fwall_match_l3_l4 rule df (df_l4_type df))
      else if df_l4_type df = IPPROTO_UDP then
        (if fr_protocol rule \<noteq> IPPROTO_UDP \<and> fr_protocol rule \<noteq> DP_FWALL_MATCH_ANY_PROTOCOL then False
         else fwall_match_l3_l4 rule df (df_l4_type df))
      else if df_l4_type df = IPPROTO_ICMP \<or> df_l4_type df = IPPROTO_ICMPV6 then
        (if fr_protocol rule \<noteq> IPPROTO_ICMP \<and> fr_protocol rule \<noteq> DP_FWALL_MATCH_ANY_PROTOCOL then False
         else
           let protocol = (if df_l3_type df = RTE_ETHER_TYPE_IPV6 then IPPROTO_ICMP else df_l4_type df)
           in if (fr_icmp_type rule = DP_FWALL_MATCH_ANY_ICMP_TYPE \<or> ucast (df_icmp_type df) = fr_icmp_type rule) \<and>
                 (fr_icmp_code rule = DP_FWALL_MATCH_ANY_ICMP_CODE \<or> ucast (df_icmp_code df) = fr_icmp_code rule) \<and>
                 (fr_protocol rule = DP_FWALL_MATCH_ANY_PROTOCOL \<or> fr_protocol rule = protocol)
              then True
              else fwall_match_l3_l4 rule df protocol)
      else False)"

section \<open>Decision\<close>

text \<open>
  The walk over a rule list.  \<open>cnt\<close> is the pointer \<^verbatim>\<open>egress_rule_count\<close>, \<open>None\<close> for \<^verbatim>\<open>NULL\<close>; the
  outer \<open>None\<close> of the result is the dereference of that \<^verbatim>\<open>NULL\<close>.
\<close>

fun dp_is_matched_in_fwall_list ::
  "dp_flow \<Rightarrow> dp_fwall_rule list \<Rightarrow> dp_fwall_direction \<Rightarrow> u32 option \<Rightarrow> (dp_fwall_rule option \<times> u32 option) option" where
  "dp_is_matched_in_fwall_list df [] dir cnt = Some (None, cnt)"
| "dp_is_matched_in_fwall_list df (rule # rules) dir cnt =
     (if fr_dir rule = DP_FWALL_EGRESS \<and> cnt = None then None
      else
        let cnt = (if fr_dir rule = DP_FWALL_EGRESS then map_option (\<lambda>c. c + 1) cnt else cnt)
        in if dir = fr_dir rule \<and> dp_is_rule_matching rule df then Some (Some rule, cnt)
           else dp_is_matched_in_fwall_list df rules dir cnt)"

definition dp_get_egress_action :: "dp_flow \<Rightarrow> dp_fwall_rule list \<Rightarrow> dp_fwall_action option" where
  "dp_get_egress_action df rules =
     (case dp_is_matched_in_fwall_list df rules DP_FWALL_EGRESS (Some 0) of
        None \<Rightarrow> None
      | Some (Some rule, _) \<Rightarrow> Some (fr_action rule)
      | Some (None, cnt) \<Rightarrow> Some (if cnt = Some 0 then DP_FWALL_ACCEPT else DP_FWALL_DROP))"

definition dp_get_firewall_action :: "dp_flow \<Rightarrow> dp_port \<Rightarrow> dp_port \<Rightarrow> dp_fwall_action option" where
  "dp_get_firewall_action df in_port out_port =
     (if port_is_pf out_port then dp_get_egress_action df (fwall_head in_port)
      else
        case (if port_is_pf in_port then Some DP_FWALL_ACCEPT else dp_get_egress_action df (fwall_head in_port)) of
          None \<Rightarrow> None
        | Some egress_action \<Rightarrow>
            if egress_action \<noteq> DP_FWALL_ACCEPT then Some DP_FWALL_DROP
            else
              case dp_is_matched_in_fwall_list df (fwall_head out_port) DP_FWALL_INGRESS None of
                None \<Rightarrow> None
              | Some (None, _) \<Rightarrow> Some DP_FWALL_DROP
              | Some (Some rule, _) \<Rightarrow>
                  if fr_action rule \<noteq> DP_FWALL_ACCEPT then Some DP_FWALL_DROP else Some DP_FWALL_ACCEPT)"

section \<open>Specification\<close>

text \<open>
  What the decision is meant to be: the first matching egress rule of the sender decides, without
  a match everything may leave as long as the sender has no egress rule at all; the first
  matching ingress rule of the receiver decides, without a match nothing enters.
\<close>

definition matches :: "dp_fwall_direction \<Rightarrow> dp_flow \<Rightarrow> dp_fwall_rule \<Rightarrow> bool" where
  "matches dir df rule \<longleftrightarrow> fr_dir rule = dir \<and> dp_is_rule_matching rule df"

definition egress_policy :: "dp_flow \<Rightarrow> dp_fwall_rule list \<Rightarrow> dp_fwall_action" where
  "egress_policy df rules =
     (case find (matches DP_FWALL_EGRESS df) rules of
        Some rule \<Rightarrow> fr_action rule
      | None \<Rightarrow> if \<exists>rule \<in> set rules. fr_dir rule = DP_FWALL_EGRESS then DP_FWALL_DROP else DP_FWALL_ACCEPT)"

definition ingress_policy :: "dp_flow \<Rightarrow> dp_fwall_rule list \<Rightarrow> dp_fwall_action" where
  "ingress_policy df rules =
     (case find (matches DP_FWALL_INGRESS df) rules of Some rule \<Rightarrow> fr_action rule | None \<Rightarrow> DP_FWALL_DROP)"

text \<open>The walk for ingress counts egress rules through a \<^verbatim>\<open>NULL\<close> pointer.\<close>

definition null_deref :: "dp_flow \<Rightarrow> dp_fwall_rule list \<Rightarrow> bool" where
  "null_deref df rules \<longleftrightarrow>
     (\<exists>rule \<in> set (takeWhile (\<lambda>r. \<not> matches DP_FWALL_INGRESS df r) rules). fr_dir rule = DP_FWALL_EGRESS)"

definition is_egress :: "dp_fwall_rule \<Rightarrow> bool" where
  "is_egress rule \<longleftrightarrow> fr_dir rule = DP_FWALL_EGRESS"

text \<open>The rules a port may hold: unique ids, and no drop rules.\<close>

definition fwall_ok :: "dp_port option \<Rightarrow> bool" where
  "fwall_ok port \<longleftrightarrow>
     (case port of None \<Rightarrow> True
      | Some p \<Rightarrow> distinct (map fr_rule_id (fwall_head p)) \<and> (\<forall>r \<in> set (fwall_head p). fr_action r = DP_FWALL_ACCEPT))"

definition fwall_view :: "dp_port option \<Rightarrow> string \<rightharpoonup> dp_fwall_rule" where
  "fwall_view port rule_id = Option.bind port (dp_get_firewall_rule rule_id)"

section \<open>Lemmas\<close>

subsection \<open>Masks\<close>

lemma bit_byte_put:
  assumes "j < 128"
  shows "bit (byte_put i b a) j \<longleftrightarrow> (if 8 * i \<le> j \<and> j < 8 * i + 8 then bit b (j - 8 * i) else bit a j)"
  using assms bit_imp_le_length [of b "j - 8 * i"]
  by (auto simp: byte_put_def bit_or_iff bit_and_iff bit_not_iff bit_push_bit_iff bit_mask_iff bit_ucast_iff)

lemma bit_byte_at: "j < 8 \<Longrightarrow> bit (byte_at i a) j \<longleftrightarrow> bit a (8 * i + j)"
  by (auto simp: byte_at_def bit_ucast_iff bit_drop_bit_eq)

lemma bit_dp_apply_ipv6_mask_from:
  "j < 128 \<Longrightarrow> bit (dp_apply_ipv6_mask_from n a m r) j \<longleftrightarrow> (if j < 8 * n then bit (a AND m) j else bit r j)"
proof (induction n)
  case (Suc n)
  then show ?case
    by (cases "j < 8 * n") (auto simp: bit_byte_put bit_and_iff bit_byte_at)
qed simp

lemma dp_apply_ipv6_mask_and [simp]: "dp_apply_ipv6_mask a m r = a AND m"
  unfolding dp_apply_ipv6_mask_def by (rule bit_word_eqI) (simp add: bit_dp_apply_ipv6_mask_from)

subsection \<open>The walk\<close>

lemma matched_Cons:
  "dp_is_matched_in_fwall_list df (rule # rules) dir cnt =
     (if is_egress rule \<and> cnt = None then None
      else let cnt = (if is_egress rule then map_option (\<lambda>c. c + 1) cnt else cnt)
           in if matches dir df rule then Some (Some rule, cnt)
              else dp_is_matched_in_fwall_list df rules dir cnt)"
  by (auto simp: matches_def is_egress_def Let_def)

lemma matches_ingress: "matches DP_FWALL_INGRESS df rule \<Longrightarrow> \<not> is_egress rule"
  by (simp add: matches_def is_egress_def)

lemma matched_counting:
  "dp_is_matched_in_fwall_list df rules dir (Some c) =
     Some (case find (matches dir df) rules of
         None \<Rightarrow> (None, Some (c + of_nat (length (filter is_egress rules))))
       | Some rule \<Rightarrow> (Some rule,
           Some (c + of_nat (length (filter is_egress (takeWhile (\<lambda>r. \<not> matches dir df r) rules)) + (if is_egress rule then 1 else 0)))))"
  by (induction rules arbitrary: c) (auto simp: matched_Cons simp del: dp_is_matched_in_fwall_list.simps(2) split: option.splits)

lemma matched_null:
  "dp_is_matched_in_fwall_list df rules DP_FWALL_INGRESS None =
     (if null_deref df rules then None else Some (find (matches DP_FWALL_INGRESS df) rules, None))"
  by (induction rules)
    (auto simp: matched_Cons null_deref_def is_egress_def [symmetric] Let_def
      simp del: dp_is_matched_in_fwall_list.simps(2) dest: matches_ingress)

lemma egress_action_policy:
  assumes "length rules < 2 ^ 32"
  shows "dp_get_egress_action df rules = Some (egress_policy df rules)"
proof -
  have "(of_nat (length (filter is_egress rules)) :: u32) = 0 \<longleftrightarrow> filter is_egress rules = []"
    using assms le_less_trans [OF length_filter_le [of is_egress rules] assms]
    by (auto simp: word_of_nat_eq_0_iff dvd_def)
  then have "(of_nat (length (filter is_egress rules)) :: u32) = 0 \<longleftrightarrow> \<not> (\<exists>rule \<in> set rules. fr_dir rule = DP_FWALL_EGRESS)"
    by (auto simp: filter_empty_conv is_egress_def)
  then show ?thesis
    by (auto simp: dp_get_egress_action_def egress_policy_def matched_counting split: option.splits)
qed

subsection \<open>The rule list\<close>

lemma fwall_get_append:
  "fwall_get k (rules @ [r]) = (case fwall_get k rules of None \<Rightarrow> if fr_rule_id r = k then Some r else None | Some x \<Rightarrow> Some x)"
  by (induction rules) auto

lemma fwall_get_None: "fwall_get k rules = None \<longleftrightarrow> k \<notin> fr_rule_id ` set rules"
  by (induction rules) auto

lemma fwall_delete_None: "fwall_delete k rules = None \<longleftrightarrow> fwall_get k rules = None"
  by (induction rules) auto

lemma fwall_delete_Some:
  assumes "distinct (map fr_rule_id rules)" "fwall_delete k rules = Some rules'"
  shows "rules' = filter (\<lambda>r. fr_rule_id r \<noteq> k) rules"
  using assms
proof (induction rules arbitrary: rules')
  case (Cons r rules)
  have "filter (\<lambda>x. fr_rule_id x \<noteq> fr_rule_id r) rules = rules"
    using Cons.prems(1) by (intro filter_True) (auto simp: image_iff)
  then show ?case
    using Cons by (auto split: if_splits)
qed simp

lemma fwall_get_filter: "fwall_get k' (filter (\<lambda>r. fr_rule_id r \<noteq> k) rules) = (if k' = k then None else fwall_get k' rules)"
  by (induction rules) auto

lemma fwall_drain_nil [simp]: "fwall_drain rules = []"
  by (induction rules) auto

text \<open>Both handlers on a port that exists.\<close>

lemma dp_process_create_fwrule_Some:
  "dp_process_create_fwrule alloc e (Some p) =
     (if fwall_get (fr_rule_id e) (fwall_head p) \<noteq> None then (DP_GRPC_ERR_ALREADY_EXISTS, Some p)
      else if fr_action e = DP_FWALL_DROP then (DP_GRPC_ERR_NO_DROP_SUPPORT, Some p)
      else if alloc then (DP_GRPC_OK, Some (set_fwall_head (fwall_head p @ [e]) p))
      else (DP_GRPC_ERR_OUT_OF_MEMORY, Some p))"
  by (simp add: dp_process_create_fwrule_def dp_get_firewall_rule_def dp_add_firewall_rule_def)

lemma dp_process_delete_fwrule_Some:
  assumes "fwall_ok (Some p)"
  shows "dp_process_delete_fwrule k (Some p) =
     (if fwall_get k (fwall_head p) = None then (DP_GRPC_ERR_NOT_FOUND, Some p)
      else (DP_GRPC_OK, Some (set_fwall_head (filter (\<lambda>r. fr_rule_id r \<noteq> k) (fwall_head p)) p)))"
  using assms fwall_delete_None [of k "fwall_head p"] fwall_delete_Some [of "fwall_head p" k]
  by (auto simp: dp_process_delete_fwrule_def dp_delete_firewall_rule_def fwall_ok_def split: option.splits)

lemma dp_process_fwrule_None [simp]:
  "dp_process_create_fwrule alloc e None = (DP_GRPC_ERR_NO_VM, None)"
  "dp_process_delete_fwrule k None = (DP_GRPC_ERR_NO_VM, None)"
  by (simp_all add: dp_process_create_fwrule_def dp_process_delete_fwrule_def)

lemma fwall_view_simps [simp]:
  "fwall_view None = Map.empty"
  "fwall_view (Some p) = (\<lambda>k. fwall_get k (fwall_head p))"
  by (auto simp: fwall_view_def dp_get_firewall_rule_def)

lemma fwall_ok_create:
  "fwall_ok s \<Longrightarrow> dp_process_create_fwrule alloc e s = (r, s') \<Longrightarrow> fwall_ok s'"
  by (cases s; cases "fr_action e")
    (auto simp: fwall_ok_def dp_process_create_fwrule_Some fwall_get_None split: if_splits)

lemma fwall_ok_delete: "fwall_ok s \<Longrightarrow> dp_process_delete_fwrule k s = (r, s') \<Longrightarrow> fwall_ok s'"
  by (cases s) (auto simp: dp_process_delete_fwrule_Some, auto simp: fwall_ok_def distinct_map_filter split: if_splits)

interpretation fw: keyed_store fr_rule_id "\<lambda>r. r" "\<lambda>_. True" "\<lambda>_. True" fwall_ok fwall_view
  "dp_process_create_fwrule alloc" dp_process_delete_fwrule for alloc
proof (unfold_locales, goal_cases)
  case (2 s e r s')
  then show ?case
    by (cases s) (auto simp: dp_process_create_fwrule_Some fwall_get_append fun_eq_iff split: if_splits option.splits)
next
  case (3 s e w r s')
  then show ?case
    by (cases s) (auto simp: dp_process_create_fwrule_Some)
next
  case (5 s k r s')
  then show ?case
    by (cases s) (auto simp: dp_process_delete_fwrule_Some fwall_get_filter fun_eq_iff split: if_splits)
qed (auto intro: fwall_ok_create fwall_ok_delete)

lemma allow_only_policies:
  assumes "\<forall>r \<in> set rules. fr_action r = DP_FWALL_ACCEPT"
  shows "egress_policy df rules =
      (if (\<exists>r \<in> set rules. is_egress r) \<and> \<not> (\<exists>r \<in> set rules. matches DP_FWALL_EGRESS df r) then DP_FWALL_DROP else DP_FWALL_ACCEPT)"
    and "ingress_policy df rules =
      (if \<exists>r \<in> set rules. matches DP_FWALL_INGRESS df r then DP_FWALL_ACCEPT else DP_FWALL_DROP)"
  using assms
  by (auto simp: egress_policy_def ingress_policy_def is_egress_def find_None_iff find_Some_iff split: option.splits)

lemma no_null_deref: "\<forall>r \<in> set rules. \<not> is_egress r \<Longrightarrow> \<not> null_deref df rules"
  by (auto simp: null_deref_def is_egress_def dest: set_takeWhileD)

lemma action_or_drop: "(if a \<noteq> DP_FWALL_ACCEPT then Some DP_FWALL_DROP else Some DP_FWALL_ACCEPT) = Some a"
  by (cases a) auto

lemma firewall_action_policy:
  assumes "length (fwall_head in_port) < 2 ^ 32"
  shows "dp_get_firewall_action df in_port out_port =
     (let egress = egress_policy df (fwall_head in_port)
      in if port_is_pf out_port then Some egress
         else if \<not> port_is_pf in_port \<and> egress = DP_FWALL_DROP then Some DP_FWALL_DROP
         else if null_deref df (fwall_head out_port) then None
         else Some (ingress_policy df (fwall_head out_port)))"
proof (cases "egress_policy df (fwall_head in_port)")
qed (auto simp: dp_get_firewall_action_def egress_action_policy [OF assms] matched_null ingress_policy_def
    action_or_drop Let_def split: option.splits)

section \<open>Properties\<close>

text \<open>
  C4: The decision of \<^verbatim>\<open>dp_get_firewall_action\<close> is the specified policy: towards a PF the first
  matching egress rule of the sending port decides, with accept as the default as long as the port
  has no egress rule and drop otherwise; towards a VF the packet must pass the sender's egress rules
  (unless it comes from a PF) and then the first matching ingress rule of the receiver decides, drop
  being the default.  The one exception, the result \<open>None\<close>, is the dereference of the \<^verbatim>\<open>NULL\<close>
  counter, reached exactly when the receiver has an egress rule before its first matching
  ingress rule.  The only hypothesis is that the 32-bit rule counter does not wrap around.
\<close>
theorem dp_get_firewall_action_policy:
  assumes "length (fwall_head in_port) < 2 ^ 32"
  shows "dp_get_firewall_action df in_port out_port =
     (let egress = egress_policy df (fwall_head in_port)
      in if port_is_pf out_port then Some egress
         else if \<not> port_is_pf in_port \<and> egress = DP_FWALL_DROP then Some DP_FWALL_DROP
         else if null_deref df (fwall_head out_port) then None
         else Some (ingress_policy df (fwall_head out_port)))"
  using assms by (rule firewall_action_policy)

text \<open>A receiver whose only rule is an egress rule: the decision dereferences \<^verbatim>\<open>NULL\<close>.\<close>

theorem dp_get_firewall_action_policy_witness:
  "length (fwall_head zero_port) < 2 ^ 32 \<and>
   dp_get_firewall_action dp_init_flow_ptr zero_port (set_fwall_head [zero_rule\<lparr> fr_dir := DP_FWALL_EGRESS \<rparr>] zero_port) = None"
  using dp_get_firewall_action_policy [of zero_port dp_init_flow_ptr "set_fwall_head [zero_rule\<lparr> fr_dir := DP_FWALL_EGRESS \<rparr>] zero_port"]
  by (simp add: zero_port_def zero_rule_def egress_policy_def null_deref_def matches_def)

text \<open>
  With accept rules only, which is all the gRPC interface admits, the order of the rules and
  hence their priority does not matter: two pairs of ports holding the same sets of rules decide
  alike, provided the receivers hold no egress rules.
\<close>
lemma firewall_order_irrelevant:
  assumes "fwall_ok (Some in_port)" "fwall_ok (Some in_port')" "fwall_ok (Some out_port)" "fwall_ok (Some out_port')"
    and "set (fwall_head in_port') = set (fwall_head in_port)" "set (fwall_head out_port') = set (fwall_head out_port)"
    and "port_is_pf in_port' = port_is_pf in_port" "port_is_pf out_port' = port_is_pf out_port"
    and "\<forall>r \<in> set (fwall_head out_port). fr_dir r = DP_FWALL_INGRESS"
    and "length (fwall_head in_port) < 2 ^ 32" "length (fwall_head in_port') < 2 ^ 32"
  shows "dp_get_firewall_action df in_port' out_port' = dp_get_firewall_action df in_port out_port"
proof -
  have "\<not> null_deref df (fwall_head out_port)" "\<not> null_deref df (fwall_head out_port')"
    using assms(6,9) by (auto intro!: no_null_deref simp: is_egress_def)
  with assms show ?thesis
    by (simp add: firewall_action_policy fwall_ok_def allow_only_policies Let_def)
qed

lemma firewall_order_irrelevant_witness:
  "dp_get_firewall_action dp_init_flow_ptr zero_port
     (set_fwall_head [zero_rule\<lparr> fr_rule_id := ''b'' \<rparr>, zero_rule\<lparr> fr_rule_id := ''a'' \<rparr>] zero_port) =
   dp_get_firewall_action dp_init_flow_ptr zero_port
     (set_fwall_head [zero_rule\<lparr> fr_rule_id := ''a'' \<rparr>, zero_rule\<lparr> fr_rule_id := ''b'' \<rparr>] zero_port)"
  by (rule firewall_order_irrelevant) (auto simp: fwall_ok_def zero_port_def zero_rule_def)

text \<open>
  C10: Any history of create and delete requests on an interface behaves like a map from rule ids to
  rules on which exactly the successful requests are replayed; ids stay unique and drop rules never
  get in.
\<close>
theorem fwrule_requests_refine_map:
  assumes "fwall_ok port"
    and "store_run (dp_process_create_fwrule alloc) dp_process_delete_fwrule requests port = (rets, port')"
  shows "fwall_ok port' \<and> length rets = length requests \<and>
    fwall_view port' = map_replay fr_rule_id (\<lambda>r. r) requests rets (fwall_view port)"
  using fw.run_replay [OF assms(1) _ assms(2)] op_valid_all by blast

theorem fwrule_requests_refine_map_witness:
  "let reqs = [Put zero_rule, Put zero_rule, Put (zero_rule\<lparr> fr_rule_id := ''x'' \<rparr>), Del [], Del ''y''];
       (rets, port') = store_run (dp_process_create_fwrule True) dp_process_delete_fwrule reqs (Some zero_port)
   in rets = [DP_GRPC_OK, DP_GRPC_ERR_ALREADY_EXISTS, DP_GRPC_OK, DP_GRPC_OK, DP_GRPC_ERR_NOT_FOUND] \<and>
      fwall_view port' = map_replay fr_rule_id (\<lambda>r. r) reqs rets (fwall_view (Some zero_port)) \<and>
      fwall_view port' ''x'' = Some (zero_rule\<lparr> fr_rule_id := ''x'' \<rparr>)"
proof -
  let ?reqs = "[Put zero_rule, Put zero_rule, Put (zero_rule\<lparr> fr_rule_id := ''x'' \<rparr>), Del [], Del ''y'']"
  have run: "store_run (dp_process_create_fwrule True) dp_process_delete_fwrule ?reqs (Some zero_port) =
      ([DP_GRPC_OK, DP_GRPC_ERR_ALREADY_EXISTS, DP_GRPC_OK, DP_GRPC_OK, DP_GRPC_ERR_NOT_FOUND],
       Some (set_fwall_head [zero_rule\<lparr> fr_rule_id := ''x'' \<rparr>] zero_port))"
    by (simp add: dp_process_create_fwrule_Some dp_process_delete_fwrule_def dp_delete_firewall_rule_def zero_port_def zero_rule_def)
  have "fwall_ok (Some zero_port)"
    by (simp add: fwall_ok_def zero_port_def)
  from fwrule_requests_refine_map [OF this run] run show ?thesis
    unfolding Let_def run by simp
qed

text \<open>
  What a client lists: the rules of the interface in their order, all of them when the call
  reports success, and otherwise (reply buffers exhausted) an initial part.
\<close>
lemma dp_list_firewall_rules_client:
  assumes "0 < msg_size" "msg_size \<le> rep_max_size" "rep_max_size \<le> UINT16_MAX"
    and "dp_list_firewall_rules msg_size port (dp_grpc_init_responder sz rep_max_size pool) = (ret, r)"
  shows "\<exists>n. client_messages (dp_grpc_send_response ret r) = take n (fwall_head port) \<and>
    (ret = (if length (fwall_head port) \<le> n then DP_GRPC_OK else DP_GRPC_ERR_OUT_OF_MEMORY))"
proof -
  let ?r0 = "dp_grpc_set_multireply msg_size (dp_grpc_init_responder sz rep_max_size pool)"
  obtain ok where add: "dp_grpc_add_replies (fwall_head port) ?r0 = (ok, r)" "ret = (if ok then DP_GRPC_OK else DP_GRPC_ERR_OUT_OF_MEMORY)"
    using assms(4) by (auto simp: dp_list_firewall_rules_def split: prod.splits)
  have ok0: "responder_ok ?r0"
    using assms(1-3) by (rule responder_ok_multireply)
  from dp_grpc_add_replies_ok [OF ok0 add(1)] client_messages_send [of r ret] add(2) show ?thesis
    by auto
qed

lemma dp_list_firewall_rules_client_witness:
  "\<exists>n ret r. dp_list_firewall_rules 100 (set_fwall_head [zero_rule] zero_port) (dp_grpc_init_responder 100 1000 []) = (ret, r) \<and>
     client_messages (dp_grpc_send_response ret r) = take n [zero_rule] \<and> 1 \<le> n"
proof -
  obtain ret r where r: "dp_list_firewall_rules 100 (set_fwall_head [zero_rule] zero_port) (dp_grpc_init_responder 100 1000 []) = (ret, r)"
    by fastforce
  moreover have "ret = DP_GRPC_OK"
    using r by (simp add: dp_list_firewall_rules_def dp_grpc_set_multireply_def dp_grpc_init_responder_def dp_grpc_add_reply_def)
  ultimately show ?thesis
    using dp_list_firewall_rules_client [OF _ _ _ r] by (fastforce split: if_splits)
qed

end
