(* ===== verification/Dp_Hash_List.thy ===== *)
theory Dp_Hash_List
  imports Dp_Prelude
begin

text \<open>
  A concrete hash table: a list of slots, each empty or holding an encoded key and a pointer, of
  at most \<open>list_table_size\<close> slots.  It shows that the laws assumed of DPDK (\<open>rte_hash_ok\<close>,
  \<open>rte_iter_ok\<close>, \<open>rte_malloc_ok\<close>) can hold together, and it is the parameter at which the other
  theories evaluate their definitions on concrete inputs.  A key is encoded as a list of numbers
  (\<open>enc\<close>, with its inverse \<open>dec\<close>), so that tables of every key type have the one type
  \<open>list_table\<close>.
\<close>

type_synonym list_table = "(nat list \<times> ptr) option list"

abbreviation list_table_size :: nat where "list_table_size \<equiv> 64"

text \<open>The occupied slots with their number, counted from \<open>i\<close>; a repeated key counts once.\<close>

fun slots_from :: "nat \<Rightarrow> list_table \<Rightarrow> (nat \<times> nat list \<times> ptr) list" where
  "slots_from i [] = []"
| "slots_from i (None # t) = slots_from (Suc i) t"
| "slots_from i (Some (x, p) # t) = (i, x, p) # filter (\<lambda>e. fst (snd e) \<noteq> x) (slots_from (Suc i) t)"

definition list_slots :: "('k \<Rightarrow> nat list) \<Rightarrow> (nat list \<Rightarrow> 'k) \<Rightarrow> list_table \<Rightarrow> (nat \<times> 'k \<times> ptr) list" where
  "list_slots enc dec t =
     map (\<lambda>(i, x, p). (i, dec x, p))
       (filter (\<lambda>e. enc (dec (fst (snd e))) = fst (snd e)) (slots_from 0 (take list_table_size t)))"

fun clear_slot :: "nat list \<Rightarrow> (nat list \<times> ptr) option \<Rightarrow> (nat list \<times> ptr) option" where
  "clear_slot x None = None"
| "clear_slot x (Some (y, p)) = (if y = x then None else Some (y, p))"

definition list_add :: "list_table \<Rightarrow> nat list \<Rightarrow> ptr \<Rightarrow> int \<times> list_table" where
  "list_add t x p =
     (if length t < list_table_size then (0, map (clear_slot x) t @ [Some (x, p)]) else (-28, t))"

definition list_hash :: "('k \<Rightarrow> nat list) \<Rightarrow> (nat list \<Rightarrow> 'k) \<Rightarrow> ('k, list_table) rte_hash" where
  "list_hash enc dec =
     \<lparr> rh_lookup = (\<lambda>t k. case map_of (map snd (list_slots enc dec t)) k of None \<Rightarrow> Inl (- ENOENT) | Some p \<Rightarrow> Inr p),
       rh_add_data = (\<lambda>t k p. list_add t (enc k) p),
       rh_add_key = (\<lambda>t k. list_add t (enc k) 0),
       rh_del = (\<lambda>t k. (if map_of (map snd (list_slots enc dec t)) k = None then - ENOENT else 0,
                        map (clear_slot (enc k)) t)),
       rh_hash = (\<lambda>t k. of_nat (sum_list (enc k))),
       rh_count = (\<lambda>t. int (length (list_slots enc dec t))),
       rh_iterate = (\<lambda>t i. slot_next (list_slots enc dec t) (unat i)) \<rparr>"

lemma slots_from_bounds: "e \<in> set (slots_from i t) \<Longrightarrow> i \<le> fst e \<and> fst e < i + length t"
  by (induction i t rule: slots_from.induct) fastforce+

lemma slots_from_sorted: "sorted_wrt (<) (map fst (slots_from i t))"
proof (induction i t rule: slots_from.induct)
  case (3 i x p t)
  then show ?case
    by (auto simp: sorted_wrt_map intro!: sorted_wrt_filter dest!: slots_from_bounds)
qed auto

lemma slots_from_distinct: "distinct (map (fst \<circ> snd) (slots_from i t))"
  by (induction i t rule: slots_from.induct) (auto simp: distinct_map_filter comp_def)

lemma slots_from_clear:
  "slots_from i (map (clear_slot x) t) = filter (\<lambda>e. fst (snd e) \<noteq> x) (slots_from i t)"
proof (induction i t rule: slots_from.induct)
  case (3 i y p t)
  then show ?case
    by (cases "y = x") (auto simp: conj_commute)
qed auto

lemma slots_from_append:
  assumes "\<And>p. Some (x, p) \<notin> set t"
  shows "slots_from i (t @ [Some (x, p)]) = slots_from i t @ [(i + length t, x, p)]"
  using assms by (induction i t rule: slots_from.induct) auto

lemma list_slots_clear:
  assumes dec: "\<And>k. dec (enc k) = k"
  shows "list_slots enc dec (map (clear_slot (enc k)) t) = filter (\<lambda>e. fst (snd e) \<noteq> k) (list_slots enc dec t)"
  using dec
  by (auto simp: list_slots_def take_map slots_from_clear filter_map comp_def split_def intro!: arg_cong [of _ _ "map _"] filter_cong)

lemma list_slots_keys: "distinct (map (fst \<circ> snd) (list_slots enc dec t))"
proof -
  let ?F = "filter (\<lambda>e. enc (dec (fst (snd e))) = fst (snd e)) (slots_from 0 (take list_table_size t))"
  have *: "map (fst \<circ> snd) (list_slots enc dec t) = map dec (map (fst \<circ> snd) ?F)"
    by (simp add: list_slots_def comp_def split_def)
  have "distinct (map (fst \<circ> snd) ?F)"
    by (rule distinct_map_filter [OF slots_from_distinct])
  moreover have "inj_on dec (set (map (fst \<circ> snd) ?F))"
    by (rule inj_on_inverseI [where g = enc]) auto
  ultimately show ?thesis
    unfolding * by (simp only: distinct_map)
qed

lemma list_hash_view: "rh_view (list_hash enc dec) t = map_of (map snd (list_slots enc dec t))"
  by (simp add: rh_view_def list_hash_def fun_eq_iff split: option.splits)

lemma map_of_filter_key: "map_of (map snd (filter (\<lambda>e. fst (snd e) \<noteq> k) es)) = (map_of (map snd es))(k := None)"
  by (induction es) (auto simp: fun_eq_iff)

lemma list_slots_add:
  assumes dec: "\<And>k. dec (enc k) = k" and len: "length t < list_table_size"
  shows "list_slots enc dec (map (clear_slot (enc k)) t @ [Some (enc k, p)]) =
    filter (\<lambda>e. fst (snd e) \<noteq> k) (list_slots enc dec t) @ [(length t, k, p)]"
proof -
  have "Some (enc k, q) \<notin> set (map (clear_slot (enc k)) t)" for q
  proof
    assume "Some (enc k, q) \<in> set (map (clear_slot (enc k)) t)"
    then obtain e where "clear_slot (enc k) e = Some (enc k, q)" by auto
    then show False by (cases "(enc k, e)" rule: clear_slot.cases) (auto split: if_splits)
  qed
  then show ?thesis
    using len list_slots_clear [of dec enc k t, OF dec] dec
    by (simp add: list_slots_def slots_from_append)
qed

lemma list_add_view:
  assumes dec: "\<And>k. dec (enc k) = k" and add: "list_add t (enc k) p = (r, t')"
  shows "(r = 0 \<and> rh_view (list_hash enc dec) t' = (rh_view (list_hash enc dec) t)(k \<mapsto> p)) \<or>
    (errno_ret r \<and> t' = t)"
proof (cases "length t < list_table_size")
  case True
  with add have "r = 0" "t' = map (clear_slot (enc k)) t @ [Some (enc k, p)]"
    by (simp_all add: list_add_def)
  moreover have "map_of (map snd (list_slots enc dec t')) = (map_of (map snd (list_slots enc dec t)))(k \<mapsto> p)"
    using list_slots_add [of dec enc t k p, OF dec True] calculation(2)
    by (auto simp: map_add_def fun_eq_iff map_of_filter_key split: option.splits)
  ultimately show ?thesis
    by (simp add: list_hash_view)
qed (use add in \<open>simp add: list_add_def errno_ret_def\<close>)

lemma list_hash_ok:
  assumes dec: "\<And>k. dec (enc k) = k"
  shows "rte_hash_ok (list_hash enc dec)"
proof -
  let ?H = "list_hash enc dec"
  have "rh_lookup ?H t k = Inl e \<Longrightarrow> e = - ENOENT" for t k e
    by (auto simp: list_hash_def split: option.splits)
  moreover have "case rh_add_data ?H t k p of (r, t') \<Rightarrow>
      (r = 0 \<and> rh_view ?H t' = (rh_view ?H t)(k \<mapsto> p)) \<or> (errno_ret r \<and> rh_view ?H t' = rh_view ?H t)" for t k p
    using list_add_view [of dec enc t k p, OF dec] by (auto simp: list_hash_def split: prod.splits)
  moreover have "case rh_add_key ?H t k of (r, t') \<Rightarrow>
      (0 \<le> r \<and> (\<exists>p. rh_view ?H t' = (rh_view ?H t)(k \<mapsto> p))) \<or> (errno_ret r \<and> rh_view ?H t' = rh_view ?H t)" for t k
    using list_add_view [of dec enc t k 0, OF dec] by (auto simp: list_hash_def split: prod.splits)
  moreover have "case rh_del ?H t k of (r, t') \<Rightarrow>
      rh_view ?H t' = (rh_view ?H t)(k := None) \<and> (if rh_view ?H t k = None then r = - ENOENT else 0 \<le> r)" for t k
    unfolding list_hash_view
    by (simp add: list_hash_def list_slots_clear [of dec enc, OF dec] map_of_filter_key)
  moreover have "finite (dom (rh_view ?H t))" "rh_count ?H t = int (card (dom (rh_view ?H t)))" for t
  proof -
    have "card (fst ` set (map snd (list_slots enc dec t))) = length (list_slots enc dec t)"
      using distinct_card [OF list_slots_keys [of enc dec t]] by (simp add: image_image comp_def)
    then show "rh_count ?H t = int (card (dom (rh_view ?H t)))"
      unfolding list_hash_view dom_map_of_conv_image_fst by (simp add: list_hash_def)
  qed (simp add: list_hash_view finite_dom_map_of)
  ultimately show ?thesis
    unfolding rte_hash_ok_def by blast
qed

lemma list_hash_iter_ok:
  assumes dec: "\<And>k. dec (enc k) = k"
  shows "rte_iter_ok (list_hash enc dec) (list_slots enc dec)"
proof -
  have map_fst: "map fst (list_slots enc dec t) =
      map fst (filter (\<lambda>e. enc (dec (fst (snd e))) = fst (snd e)) (slots_from 0 (take list_table_size t)))" for t
    by (simp add: list_slots_def comp_def split_def)
  have "sorted_wrt (<) (map fst (list_slots enc dec t))" for t
    unfolding map_fst using slots_from_sorted [of 0 "take list_table_size t"]
    by (simp add: sorted_wrt_map sorted_wrt_filter)
  moreover have "Suc (fst e) < 2 ^ 32" if "e \<in> set (list_slots enc dec t)" for e t
    using that slots_from_bounds [of _ 0 "take list_table_size t"] by (fastforce simp: list_slots_def)
  moreover have "(rh_view (list_hash enc dec) t k = Some p) = ((k, p) \<in> set (map snd (list_slots enc dec t)))" for t k p
    unfolding list_hash_view using list_slots_keys [of enc dec t] by (intro map_of_eq_Some_iff) simp
  moreover have "rh_iterate (list_hash enc dec) t i = slot_next (list_slots enc dec t) (unat i)" for t i
    by (simp add: list_hash_def)
  moreover have "list_slots enc dec (snd (rh_del (list_hash enc dec) t k)) =
      filter (\<lambda>e. fst (snd e) \<noteq> k) (list_slots enc dec t)" for t k
    by (simp add: list_hash_def list_slots_clear [of dec enc, OF dec])
  ultimately show ?thesis
    using list_slots_keys unfolding rte_iter_ok_def by blast
qed

text \<open>The allocator returns the first pointer not in use, out of a fixed arena.\<close>

definition first_free :: "'o rte_malloc" where
  "first_free h = find (\<lambda>p. h p = None) [1..<64]"

lemma first_free_ok: "rte_malloc_ok first_free"
  by (auto simp: rte_malloc_ok_def first_free_def find_Some_iff)

text \<open>Evaluation on small tables.\<close>

lemma list_hash_view_Nil [simp]: "rh_view (list_hash enc dec) [] = Map.empty"
  by (simp add: list_hash_view list_slots_def)

lemma list_hash_sel [simp]:
  "rh_add_data (list_hash enc dec) t k p = list_add t (enc k) p"
  "rh_add_key (list_hash enc dec) t k = list_add t (enc k) 0"
  "rh_hash (list_hash enc dec) t k = of_nat (sum_list (enc k))"
  by (simp_all add: list_hash_def)

lemma list_add_room [simp]: "length t < list_table_size \<Longrightarrow> list_add t x p = (0, map (clear_slot x) t @ [Some (x, p)])"
  by (simp add: list_add_def)

lemma first_free_empty [simp]: "first_free Map.empty = Some 1"
  by (simp add: first_free_def upt_conv_Cons)

lemma list_hash_lookup_Nil [simp]: "rh_lookup (list_hash enc dec) [] k = Inl (- ENOENT)"
  by (simp add: list_hash_def list_slots_def)

lemma list_hash_lookup_single [simp]: "dec (enc k) = k \<Longrightarrow> rh_lookup (list_hash enc dec) [Some (enc k, p)] k = Inr p"
  by (simp add: list_hash_def list_slots_def)

lemma list_hash_view_single: "dec (enc k) = k \<Longrightarrow> rh_view (list_hash enc dec) [Some (enc k, p)] = [k \<mapsto> p]"
  by (simp add: list_hash_view list_slots_def)

end
