(* ===== verification/Dp_Rib.thy ===== *)
theory Dp_Rib
  imports Dp_Types Dp_Store Dp_Hash_List
begin

text \<open>
  The DPDK route tables \<^verbatim>\<open>rte_rib\<close> and \<^verbatim>\<open>rte_rib6\<close> as \<^verbatim>\<open>src/dp_vni.c\<close> and \<^verbatim>\<open>src/dp_lpm.c\<close> use them: a
  record of the library's functions, the behaviour its documentation promises as a predicate, and
  the route map a table stands for.  A table of routes kept in a list shows that the promises can
  be kept.  The ownership lemmas say which pointers own which objects of a heap.
\<close>

section \<open>Interface\<close>

text \<open>\<^verbatim>\<open>include/dp_lpm.h\<close>: what a route to another host carries besides its next hop.\<close>

record dp_iface_route =
  ir_vni :: u32
  ir_nh_ipv6 :: ipv6_addr

text \<open>
  \<open>'a\<close> is the address type, \<open>'r\<close> the contents of a table, a node is a pointer into it.  The name of
  a new table is made of the VNI and the socket.  \<open>rb_get_nxt\<close> is the traversal of all routes more
  specific than the default route that \<^verbatim>\<open>rte_rib_get_nxt\<close> does with \<^verbatim>\<open>RTE_RIB_GET_NXT_ALL\<close>.
\<close>

record ('a, 'r) rte_rib =
  rb_create :: "u32 \<Rightarrow> int \<Rightarrow> 'r heap \<Rightarrow> (ptr \<times> 'r) option"
  rb_lookup_exact :: "'r \<Rightarrow> 'a \<Rightarrow> u8 \<Rightarrow> ptr option"
  rb_insert :: "'r \<Rightarrow> 'a \<Rightarrow> u8 \<Rightarrow> ptr option \<times> 'r"
  rb_remove :: "'r \<Rightarrow> 'a \<Rightarrow> u8 \<Rightarrow> 'r"
  rb_lookup :: "'r \<Rightarrow> 'a \<Rightarrow> ptr option"
  rb_get_nxt :: "'r \<Rightarrow> ptr option \<Rightarrow> ptr option"
  rb_get_ip :: "'r \<Rightarrow> ptr \<Rightarrow> 'a"
  rb_get_depth :: "'r \<Rightarrow> ptr \<Rightarrow> u8"
  rb_get_nh :: "'r \<Rightarrow> ptr \<Rightarrow> u64"
  rb_set_nh :: "'r \<Rightarrow> ptr \<Rightarrow> u64 \<Rightarrow> 'r"
  rb_get_ext :: "'r \<Rightarrow> ptr \<Rightarrow> dp_iface_route"
  rb_set_ext :: "'r \<Rightarrow> ptr \<Rightarrow> dp_iface_route \<Rightarrow> 'r"

definition rib_view :: "('a, 'r) rte_rib \<Rightarrow> 'r \<Rightarrow> 'a \<times> u8 \<rightharpoonup> u64 \<times> dp_iface_route" where
  "rib_view R r k = map_option (\<lambda>n. (rb_get_nh R r n, rb_get_ext R r n)) (rb_lookup_exact R r (fst k) (snd k))"

text \<open>
  What the documentation promises; \<open>pfx ip d\<close> is \<open>ip\<close> with all but its first \<open>d\<close> bits cleared.  A route
  is identified by its prefix and depth, \<^verbatim>\<open>rte_rib_lookup\<close> finds the longest one that matches.
\<close>

definition rib_ok :: "('a, 'r) rte_rib \<Rightarrow> ('a \<Rightarrow> u8 \<Rightarrow> 'a) \<Rightarrow> bool" where
  "rib_ok R pfx \<longleftrightarrow>
     (\<forall>vni sid h p r. rb_create R vni sid h = Some (p, r) \<longrightarrow> h p = None \<and> rib_view R r = Map.empty) \<and>
     (\<forall>ip d. pfx (pfx ip d) d = pfx ip d) \<and>
     (\<forall>r ip d. rb_lookup_exact R r (pfx ip d) d = rb_lookup_exact R r ip d) \<and>
     (\<forall>r ip d n. rb_lookup_exact R r ip d = Some n \<longrightarrow> rb_get_ip R r n = pfx ip d \<and> rb_get_depth R r n = d) \<and>
     (\<forall>r ip d. rb_lookup_exact R r ip d = None \<longrightarrow>
        (case rb_insert R r ip d of
           (None, r') \<Rightarrow> rib_view R r' = rib_view R r
         | (Some n, r') \<Rightarrow> rb_lookup_exact R r' ip d = Some n \<and>
             (\<forall>ip' d'. (pfx ip' d', d') \<noteq> (pfx ip d, d) \<longrightarrow> rib_view R r' (ip', d') = rib_view R r (ip', d')))) \<and>
     (\<forall>r ip d n x. rb_lookup_exact R r ip d = Some n \<longrightarrow>
        rb_lookup_exact R (rb_set_nh R r n x) = rb_lookup_exact R r \<and>
        rb_get_nh R (rb_set_nh R r n x) = (rb_get_nh R r)(n := x) \<and> rb_get_ext R (rb_set_nh R r n x) = rb_get_ext R r) \<and>
     (\<forall>r ip d n x. rb_lookup_exact R r ip d = Some n \<longrightarrow>
        rb_lookup_exact R (rb_set_ext R r n x) = rb_lookup_exact R r \<and>
        rb_get_nh R (rb_set_ext R r n x) = rb_get_nh R r \<and> rb_get_ext R (rb_set_ext R r n x) = (rb_get_ext R r)(n := x)) \<and>
     (\<forall>r ip d ip' d'. rib_view R (rb_remove R r ip d) (ip', d') =
        (if (pfx ip' d', d') = (pfx ip d, d) then None else rib_view R r (ip', d'))) \<and>
     (\<forall>r ip. case rb_lookup R r ip of
        None \<Rightarrow> (\<forall>d. rb_lookup_exact R r ip d = None)
      | Some n \<Rightarrow> (\<exists>d. rb_lookup_exact R r ip d = Some n \<and> (\<forall>d'. d < d' \<longrightarrow> rb_lookup_exact R r ip d' = None)))"

text \<open>The traversal visits the nodes of a list that holds every route but the default one exactly once.\<close>

definition rib_iter_ok :: "('a, 'r) rte_rib \<Rightarrow> ('r \<Rightarrow> ptr list) \<Rightarrow> bool" where
  "rib_iter_ok R nodes \<longleftrightarrow>
     (\<forall>r. distinct (nodes r) \<and>
        (\<forall>n. n \<in> set (nodes r) \<longleftrightarrow> (\<exists>ip d. d \<noteq> 0 \<and> rb_lookup_exact R r ip d = Some n)) \<and>
        rb_get_nxt R r None = (case nodes r of [] \<Rightarrow> None | n # _ \<Rightarrow> Some n) \<and>
        (\<forall>as n bs. nodes r = as @ n # bs \<longrightarrow> rb_get_nxt R r (Some n) = (case bs of [] \<Rightarrow> None | m # _ \<Rightarrow> Some m)))"

section \<open>Routes of a table\<close>

text \<open>
  \<^verbatim>\<open>dp_add_route\<close>, \<^verbatim>\<open>dp_add_route6\<close> and their counterparts do the same to the table they found.  The
  target address is only read for physical ports, where the callers pass one.
\<close>

definition rib_add_route :: "('a, 'r) rte_rib \<Rightarrow> dp_port \<Rightarrow> u32 \<Rightarrow> 'a \<Rightarrow> ipv6_addr option \<Rightarrow> u8 \<Rightarrow> 'r \<Rightarrow> int \<times> 'r" where
  "rib_add_route R port t_vni ip t_ip6 depth root =
     (case rb_lookup_exact R root ip depth of
        Some node \<Rightarrow> (DP_GRPC_ERR_ROUTE_EXISTS, root)
      | None \<Rightarrow>
          (case rb_insert R root ip depth of
             (None, root1) \<Rightarrow> (DP_GRPC_ERR_ROUTE_INSERT, root1)
           | (Some node, root1) \<Rightarrow>
               let root2 = rb_set_nh R root1 node (ucast (port_port_id port))
               in (DP_GRPC_OK,
                   if port_is_pf port
                   then rb_set_ext R root2 node \<lparr> ir_vni = t_vni, ir_nh_ipv6 = the t_ip6 \<rparr>
                   else root2)))"

definition rib_del_route :: "('a, 'r) rte_rib \<Rightarrow> dp_port \<Rightarrow> 'a \<Rightarrow> u8 \<Rightarrow> 'r \<Rightarrow> int \<times> 'r" where
  "rib_del_route R port ip depth root =
     (case rb_lookup_exact R root ip depth of
        None \<Rightarrow> (DP_GRPC_ERR_ROUTE_NOT_FOUND, root)
      | Some node \<Rightarrow>
          if rb_get_nh R root node \<noteq> ucast (port_port_id port) then (DP_GRPC_ERR_ROUTE_BAD_PORT, root)
          else (DP_GRPC_OK, rb_remove R root ip depth))"

section \<open>Lemmas\<close>

lemma rib_okD:
  assumes "rib_ok R pfx"
  shows rib_create: "rb_create R vni sid h = Some (p, r) \<Longrightarrow> h p = None \<and> rib_view R r = Map.empty"
    and rib_pfx_pfx: "pfx (pfx ip d) d = pfx ip d"
    and rib_exact_pfx: "rb_lookup_exact R r (pfx ip d) d = rb_lookup_exact R r ip d"
    and rib_node: "rb_lookup_exact R r ip d = Some n \<Longrightarrow> rb_get_ip R r n = pfx ip d \<and> rb_get_depth R r n = d"
    and rib_insert_None: "rb_lookup_exact R r ip d = None \<Longrightarrow> rb_insert R r ip d = (None, r') \<Longrightarrow> rib_view R r' = rib_view R r"
    and rib_insert_Some: "rb_lookup_exact R r ip d = None \<Longrightarrow> rb_insert R r ip d = (Some n, r') \<Longrightarrow>
      rb_lookup_exact R r' ip d = Some n \<and>
      (\<forall>ip' d'. (pfx ip' d', d') \<noteq> (pfx ip d, d) \<longrightarrow> rib_view R r' (ip', d') = rib_view R r (ip', d'))"
    and rib_set_nh: "rb_lookup_exact R r ip d = Some n \<Longrightarrow>
      rb_lookup_exact R (rb_set_nh R r n nh) = rb_lookup_exact R r \<and>
      rb_get_nh R (rb_set_nh R r n nh) = (rb_get_nh R r)(n := nh) \<and> rb_get_ext R (rb_set_nh R r n nh) = rb_get_ext R r"
    and rib_set_ext: "rb_lookup_exact R r ip d = Some n \<Longrightarrow>
      rb_lookup_exact R (rb_set_ext R r n x) = rb_lookup_exact R r \<and>
      rb_get_nh R (rb_set_ext R r n x) = rb_get_nh R r \<and> rb_get_ext R (rb_set_ext R r n x) = (rb_get_ext R r)(n := x)"
    and rib_remove: "rib_view R (rb_remove R r ip d) (ip', d') = (if (pfx ip' d', d') = (pfx ip d, d) then None else rib_view R r (ip', d'))"
    and rib_lookup_None: "rb_lookup R r ip = None \<Longrightarrow> rb_lookup_exact R r ip d = None"
    and rib_lookup_Some: "rb_lookup R r ip = Some n \<Longrightarrow>
      \<exists>d. rb_lookup_exact R r ip d = Some n \<and> (\<forall>d'. d < d' \<longrightarrow> rb_lookup_exact R r ip d' = None)"
proof -
  note L = assms [unfolded rib_ok_def]
  show "rb_create R vni sid h = Some (p, r) \<Longrightarrow> h p = None \<and> rib_view R r = Map.empty"
    by (rule L [THEN conjunct1, rule_format])
  note L = L [THEN conjunct2]
  show "pfx (pfx ip d) d = pfx ip d"
    by (rule L [THEN conjunct1, rule_format])
  note L = L [THEN conjunct2]
  show "rb_lookup_exact R r (pfx ip d) d = rb_lookup_exact R r ip d"
    by (rule L [THEN conjunct1, rule_format])
  note L = L [THEN conjunct2]
  show "rb_lookup_exact R r ip d = Some n \<Longrightarrow> rb_get_ip R r n = pfx ip d \<and> rb_get_depth R r n = d"
    by (rule L [THEN conjunct1, rule_format])
  note L = L [THEN conjunct2]
  note ins = L [THEN conjunct1, rule_format, of r ip d]
  then show "rb_lookup_exact R r ip d = None \<Longrightarrow> rb_insert R r ip d = (None, r') \<Longrightarrow> rib_view R r' = rib_view R r"
    "rb_lookup_exact R r ip d = None \<Longrightarrow> rb_insert R r ip d = (Some n, r') \<Longrightarrow>
      rb_lookup_exact R r' ip d = Some n \<and>
      (\<forall>ip' d'. (pfx ip' d', d') \<noteq> (pfx ip d, d) \<longrightarrow> rib_view R r' (ip', d') = rib_view R r (ip', d'))"
    by simp_all
  note L = L [THEN conjunct2]
  show "rb_lookup_exact R r ip d = Some n \<Longrightarrow>
      rb_lookup_exact R (rb_set_nh R r n nh) = rb_lookup_exact R r \<and>
      rb_get_nh R (rb_set_nh R r n nh) = (rb_get_nh R r)(n := nh) \<and> rb_get_ext R (rb_set_nh R r n nh) = rb_get_ext R r"
    by (rule L [THEN conjunct1, rule_format])
  note L = L [THEN conjunct2]
  show "rb_lookup_exact R r ip d = Some n \<Longrightarrow>
      rb_lookup_exact R (rb_set_ext R r n x) = rb_lookup_exact R r \<and>
      rb_get_nh R (rb_set_ext R r n x) = rb_get_nh R r \<and> rb_get_ext R (rb_set_ext R r n x) = (rb_get_ext R r)(n := x)"
    by (rule L [THEN conjunct1, rule_format])
  note L = L [THEN conjunct2]
  show "rib_view R (rb_remove R r ip d) (ip', d') = (if (pfx ip' d', d') = (pfx ip d, d) then None else rib_view R r (ip', d'))"
    by (rule L [THEN conjunct1, rule_format])
  note lkp = L [THEN conjunct2, rule_format, of r ip]
  then show "rb_lookup R r ip = None \<Longrightarrow> rb_lookup_exact R r ip d = None"
    "rb_lookup R r ip = Some n \<Longrightarrow> \<exists>d. rb_lookup_exact R r ip d = Some n \<and> (\<forall>d'. d < d' \<longrightarrow> rb_lookup_exact R r ip d' = None)"
    by simp_all
qed

lemma rib_view_None: "rib_view R r (ip, d) = None \<longleftrightarrow> rb_lookup_exact R r ip d = None"
  by (simp add: rib_view_def)

lemma rib_node_unique:
  assumes "rib_ok R pfx" "rb_lookup_exact R r ip d = Some n" "rb_lookup_exact R r ip' d' = Some n"
  shows "(pfx ip' d', d') = (pfx ip d, d)"
  using rib_node [OF assms(1,2)] rib_node [OF assms(1,3)] by (metis (no_types))

text \<open>Setting the next hop or the extension of a node changes the view of its prefix only.\<close>

lemma rib_view_set:
  assumes "rib_ok R pfx" "rb_lookup_exact R r ip d = Some n"
  shows "rib_view R (rb_set_nh R r n nh) (ip, d) = Some (nh, rb_get_ext R r n)"
    and "rib_view R (rb_set_ext R r n x) (ip, d) = Some (rb_get_nh R r n, x)"
    and "(pfx ip' d', d') \<noteq> (pfx ip d, d) \<Longrightarrow> rib_view R (rb_set_nh R r n nh) (ip', d') = rib_view R r (ip', d')"
    and "(pfx ip' d', d') \<noteq> (pfx ip d, d) \<Longrightarrow> rib_view R (rb_set_ext R r n x) (ip', d') = rib_view R r (ip', d')"
proof -
  note nh = rib_set_nh [OF assms, of nh] and ext = rib_set_ext [OF assms, of x]
  show "rib_view R (rb_set_nh R r n nh) (ip, d) = Some (nh, rb_get_ext R r n)"
    "rib_view R (rb_set_ext R r n x) (ip, d) = Some (rb_get_nh R r n, x)"
    using nh ext assms(2) by (simp_all add: rib_view_def)
  assume other: "(pfx ip' d', d') \<noteq> (pfx ip d, d)"
  then have "rb_lookup_exact R r ip' d' \<noteq> Some n"
    using rib_node_unique [OF assms, of ip' d'] by blast
  then show "rib_view R (rb_set_nh R r n nh) (ip', d') = rib_view R r (ip', d')"
    "rib_view R (rb_set_ext R r n x) (ip', d') = rib_view R r (ip', d')"
    using nh ext by (auto simp: rib_view_def intro: option.map_cong0)
qed

lemma rib_add_route_cases:
  assumes ok: "rib_ok R pfx" and run: "rib_add_route R port t_vni ip t_ip6 depth r = (ret, r')"
  obtains
    (exists) v where "rib_view R r (ip, depth) = Some v" "ret = DP_GRPC_ERR_ROUTE_EXISTS" "r' = r"
  | (full) "rib_view R r (ip, depth) = None" "ret = DP_GRPC_ERR_ROUTE_INSERT" "rib_view R r' = rib_view R r"
  | (added) ext where "rib_view R r (ip, depth) = None" "ret = DP_GRPC_OK"
      "rib_view R r' (ip, depth) = Some (ucast (port_port_id port), ext)"
      "port_is_pf port \<Longrightarrow> ext = \<lparr> ir_vni = t_vni, ir_nh_ipv6 = the t_ip6 \<rparr>"
      "\<And>ip' d'. (pfx ip' d', d') \<noteq> (pfx ip depth, depth) \<Longrightarrow> rib_view R r' (ip', d') = rib_view R r (ip', d')"
proof (cases "rb_lookup_exact R r ip depth")
  case (Some n)
  then show thesis
    using run by (intro exists) (auto simp: rib_add_route_def rib_view_def)
next
  case None
  obtain no r1 where ins: "rb_insert R r ip depth = (no, r1)" by fastforce
  show thesis
  proof (cases no)
    case no: None
    show thesis
      using run None ins no rib_insert_None [OF ok None ins [unfolded no]]
      by (intro full) (auto simp: rib_add_route_def rib_view_def)
  next
    case (Some n)
    note I = rib_insert_Some [OF ok None ins [unfolded Some]]
    then have n1: "rb_lookup_exact R r1 ip depth = Some n" by blast
    let ?r2 = "rb_set_nh R r1 n (ucast (port_port_id port))"
    note set_nh = rib_set_nh [OF ok n1, of "ucast (port_port_id port)"]
    then have n2: "rb_lookup_exact R ?r2 ip depth = Some n"
      using n1 by simp
    have r': "ret = DP_GRPC_OK"
      "r' = (if port_is_pf port then rb_set_ext R ?r2 n \<lparr> ir_vni = t_vni, ir_nh_ipv6 = the t_ip6 \<rparr> else ?r2)"
      using run None ins Some by (simp_all add: rib_add_route_def Let_def)
    show thesis
    proof (rule added [OF _ r'(1)])
      show "rib_view R r (ip, depth) = None"
        by (simp add: rib_view_def None)
      show "rib_view R r' (ip, depth) = Some (ucast (port_port_id port),
          if port_is_pf port then \<lparr> ir_vni = t_vni, ir_nh_ipv6 = the t_ip6 \<rparr> else rb_get_ext R r1 n)"
        using rib_view_set [OF ok n1] rib_view_set [OF ok n2] set_nh by (simp add: r')
      fix ip' d' assume other: "(pfx ip' d', d') \<noteq> (pfx ip depth, depth)"
      have "rib_view R r' (ip', d') = rib_view R r1 (ip', d')"
        using rib_view_set(3) [OF ok n1 other] rib_view_set(4) [OF ok n2 other] by (simp add: r'(2))
      then show "rib_view R r' (ip', d') = rib_view R r (ip', d')"
        using I other by simp
    qed simp
  qed
qed

lemma rib_del_route_cases:
  assumes ok: "rib_ok R pfx" and run: "rib_del_route R port ip depth r = (ret, r')"
  obtains
    (absent) "rib_view R r (ip, depth) = None" "ret = DP_GRPC_ERR_ROUTE_NOT_FOUND" "r' = r"
  | (foreign) nh ext where "rib_view R r (ip, depth) = Some (nh, ext)" "nh \<noteq> ucast (port_port_id port)"
      "ret = DP_GRPC_ERR_ROUTE_BAD_PORT" "r' = r"
  | (deleted) ext where "rib_view R r (ip, depth) = Some (ucast (port_port_id port), ext)" "ret = DP_GRPC_OK"
      "\<And>ip' d'. rib_view R r' (ip', d') = (if (pfx ip' d', d') = (pfx ip depth, depth) then None else rib_view R r (ip', d'))"
proof (cases "rb_lookup_exact R r ip depth")
  case None
  then show thesis
    using run by (intro absent) (auto simp: rib_del_route_def rib_view_def)
next
  case (Some n)
  show thesis
  proof (cases "rb_get_nh R r n = ucast (port_port_id port)")
    case False
    then show thesis
      using run Some by (intro foreign [of "rb_get_nh R r n" "rb_get_ext R r n"]) (auto simp: rib_del_route_def rib_view_def)
  next
    case True
    then have "ret = DP_GRPC_OK" "r' = rb_remove R r ip depth"
      using run Some by (auto simp: rib_del_route_def)
    then show thesis
      using True Some by (intro deleted [of "rb_get_ext R r n"]) (simp_all add: rib_view_def [of R r] rib_remove [OF ok])
  qed
qed

section \<open>The map of routes\<close>

text \<open>
  A route is named by the canonical form of its prefix.  The target of a route is only set, and only
  read, for routes through physical ports; \<open>pf\<close> says which next hops these are.
\<close>

type_synonym 'a prefix = "'a \<times> u8"
type_synonym route = "u64 \<times> dp_iface_route option"

definition route_view :: "('a, 'r) rte_rib \<Rightarrow> ('a \<Rightarrow> u8 \<Rightarrow> 'a) \<Rightarrow> (u64 \<Rightarrow> bool) \<Rightarrow> 'r \<Rightarrow> 'a prefix \<rightharpoonup> route" where
  "route_view R pfx pf r k =
     (if pfx (fst k) (snd k) = fst k
      then map_option (\<lambda>(nh, ext). (nh, if pf nh then Some ext else None)) (rib_view R r k) else None)"

definition port_route :: "dp_port \<Rightarrow> u32 \<Rightarrow> ipv6_addr option \<Rightarrow> route" where
  "port_route port t_vni t_ip6 = (ucast (port_port_id port),
     if port_is_pf port then Some \<lparr> ir_vni = t_vni, ir_nh_ipv6 = the t_ip6 \<rparr> else None)"

lemma route_view_pfx:
  assumes "rib_ok R pfx"
  shows "route_view R pfx pf r (pfx ip d, d) = map_option (\<lambda>(nh, ext). (nh, if pf nh then Some ext else None)) (rib_view R r (ip, d))"
  by (simp add: route_view_def rib_view_def rib_pfx_pfx [OF assms] rib_exact_pfx [OF assms])

lemma route_view_cong: "rib_view R r' = rib_view R r \<Longrightarrow> route_view R pfx pf r' = route_view R pfx pf r"
  by (simp add: route_view_def fun_eq_iff)

lemma route_view_canonical: "pfx ip d \<noteq> ip \<Longrightarrow> route_view R pfx pf r (ip, d) = None"
  by (simp add: route_view_def)

text \<open>A request adds or deletes one binding of the map, or fails and leaves it alone.\<close>

lemma rib_add_route_view:
  assumes ok: "rib_ok R pfx" and pf: "pf (ucast (port_port_id port)) = port_is_pf port"
    and run: "rib_add_route R port t_vni ip t_ip6 depth r = (ret, r')"
  shows "route_view R pfx pf r' = (if DP_FAILED ret then route_view R pfx pf r
      else (route_view R pfx pf r)((pfx ip depth, depth) \<mapsto> port_route port t_vni t_ip6))"
    and "DP_FAILED ret \<longleftrightarrow> ret = DP_GRPC_ERR_ROUTE_EXISTS \<or> ret = DP_GRPC_ERR_ROUTE_INSERT"
    and "ret = DP_GRPC_ERR_ROUTE_EXISTS \<longleftrightarrow> route_view R pfx pf r (pfx ip depth, depth) \<noteq> None"
    and "DP_FAILED ret \<or> ret = DP_GRPC_OK"
proof -
  note view = route_view_pfx [OF ok, of pf]
  have "route_view R pfx pf r' = (if DP_FAILED ret then route_view R pfx pf r
      else (route_view R pfx pf r)((pfx ip depth, depth) \<mapsto> port_route port t_vni t_ip6))
    \<and> (DP_FAILED ret \<longleftrightarrow> ret = DP_GRPC_ERR_ROUTE_EXISTS \<or> ret = DP_GRPC_ERR_ROUTE_INSERT)
    \<and> (ret = DP_GRPC_ERR_ROUTE_EXISTS \<longleftrightarrow> route_view R pfx pf r (pfx ip depth, depth) \<noteq> None)
    \<and> (DP_FAILED ret \<or> ret = DP_GRPC_OK)"
    using ok run
  proof (cases rule: rib_add_route_cases)
    case (exists v)
    then show ?thesis by (simp add: DP_FAILED_def view)
  next
    case full
    then show ?thesis by (simp add: DP_FAILED_def view route_view_cong [OF full(3)])
  next
    case (added ext)
    have "route_view R pfx pf r' (ip', d') = ((route_view R pfx pf r)((pfx ip depth, depth) \<mapsto> port_route port t_vni t_ip6)) (ip', d')" for ip' d'
    proof (cases "(ip', d') = (pfx ip depth, depth)")
      case True
      then show ?thesis
        using added(3,4) pf by (simp add: view port_route_def)
    next
      case False
      then show ?thesis
        using added(5) [of ip' d'] by (auto simp: route_view_def)
    qed
    then have "route_view R pfx pf r' = (route_view R pfx pf r)((pfx ip depth, depth) \<mapsto> port_route port t_vni t_ip6)"
      by (simp only: fun_eq_iff split_paired_all) simp
    with added(1,2) show ?thesis
      by (simp add: DP_FAILED_def view)
  qed
  then show "route_view R pfx pf r' = (if DP_FAILED ret then route_view R pfx pf r
      else (route_view R pfx pf r)((pfx ip depth, depth) \<mapsto> port_route port t_vni t_ip6))"
    "DP_FAILED ret \<longleftrightarrow> ret = DP_GRPC_ERR_ROUTE_EXISTS \<or> ret = DP_GRPC_ERR_ROUTE_INSERT"
    "ret = DP_GRPC_ERR_ROUTE_EXISTS \<longleftrightarrow> route_view R pfx pf r (pfx ip depth, depth) \<noteq> None"
    "DP_FAILED ret \<or> ret = DP_GRPC_OK"
    by blast+
qed

lemma rib_del_route_view:
  assumes ok: "rib_ok R pfx" and run: "rib_del_route R port ip depth r = (ret, r')"
  shows "route_view R pfx pf r' = (if DP_FAILED ret then route_view R pfx pf r else (route_view R pfx pf r)((pfx ip depth, depth) := None))"
    and "DP_FAILED ret \<or> ret = DP_GRPC_OK"
    and "ret = DP_GRPC_OK \<longleftrightarrow> (\<exists>ext. route_view R pfx pf r (pfx ip depth, depth) = Some (ucast (port_port_id port), ext))"
proof -
  note view = route_view_pfx [OF ok, of pf]
  have "route_view R pfx pf r' = (if DP_FAILED ret then route_view R pfx pf r else (route_view R pfx pf r)((pfx ip depth, depth) := None))
    \<and> (DP_FAILED ret \<or> ret = DP_GRPC_OK)
    \<and> (ret = DP_GRPC_OK \<longleftrightarrow> (\<exists>ext. route_view R pfx pf r (pfx ip depth, depth) = Some (ucast (port_port_id port), ext)))"
    using ok run
  proof (cases rule: rib_del_route_cases)
    case (deleted ext)
    have "route_view R pfx pf r' (ip', d') = ((route_view R pfx pf r)((pfx ip depth, depth) := None)) (ip', d')" for ip' d'
      using deleted(3) [of ip' d'] rib_pfx_pfx [OF ok, of ip depth] by (auto simp: route_view_def)
    then have "route_view R pfx pf r' = (route_view R pfx pf r)((pfx ip depth, depth) := None)"
      by (simp only: fun_eq_iff split_paired_all) simp
    with deleted(1,2) show ?thesis
      by (simp add: DP_FAILED_def view)
  qed (simp_all add: DP_FAILED_def view)
  then show "route_view R pfx pf r' = (if DP_FAILED ret then route_view R pfx pf r else (route_view R pfx pf r)((pfx ip depth, depth) := None))"
    "DP_FAILED ret \<or> ret = DP_GRPC_OK"
    "ret = DP_GRPC_OK \<longleftrightarrow> (\<exists>ext. route_view R pfx pf r (pfx ip depth, depth) = Some (ucast (port_port_id port), ext))"
    by blast+
qed

interpretation route_req: keyed_store
  "\<lambda>(t_vni, ip, t_ip6, depth). (pfx ip depth, depth)" "\<lambda>(t_vni, ip, t_ip6, depth). port_route port t_vni t_ip6"
  "\<lambda>_. True" "\<lambda>(ip, depth). pfx ip depth = ip"
  "\<lambda>r. rib_ok R pfx \<and> pf (ucast (port_port_id port)) = port_is_pf port" "route_view R pfx pf"
  "\<lambda>(t_vni, ip, t_ip6, depth). rib_add_route R port t_vni ip t_ip6 depth" "\<lambda>(ip, depth). rib_del_route R port ip depth"
  for R :: "('a, 'r) rte_rib" and pfx pf port
proof (unfold_locales, goal_cases)
  case (2 s e r s')
  then show ?case
    using rib_add_route_view(1) [of R pfx pf port] by (auto split: prod.splits)
next
  case (3 s e w r s')
  then show ?case
    using rib_add_route_view(2,3) [of R pfx pf port] by (auto split: prod.splits)
next
  case (5 s k r s')
  then show ?case
    using rib_del_route_view(1) [of R pfx port] by (auto split: prod.splits)
qed auto

text \<open>
  The longest match of an address in a map of routes, and that \<^verbatim>\<open>rte_rib_lookup\<close> finds its node.
\<close>

definition longest_match :: "('a \<Rightarrow> u8 \<Rightarrow> 'a) \<Rightarrow> ('a prefix \<rightharpoonup> 'v) \<Rightarrow> 'a \<Rightarrow> u8 \<Rightarrow> 'v \<Rightarrow> bool" where
  "longest_match pfx m ip d v \<longleftrightarrow> m (pfx ip d, d) = Some v \<and> (\<forall>d'. d < d' \<longrightarrow> m (pfx ip d', d') = None)"

definition no_match :: "('a \<Rightarrow> u8 \<Rightarrow> 'a) \<Rightarrow> ('a prefix \<rightharpoonup> 'v) \<Rightarrow> 'a \<Rightarrow> bool" where
  "no_match pfx m ip \<longleftrightarrow> (\<forall>d. m (pfx ip d, d) = None)"

lemma longest_match_unique:
  "longest_match pfx m ip d v \<Longrightarrow> longest_match pfx m ip d' v' \<Longrightarrow> d' = d \<and> v' = v"
  unfolding longest_match_def by (metis linorder_neqE option.distinct(1) option.inject)

lemma rib_lookup_longest:
  assumes ok: "rib_ok R pfx"
  shows "rb_lookup R r ip = None \<longleftrightarrow> no_match pfx (route_view R pfx pf r) ip"
    and "rb_lookup R r ip = Some n \<Longrightarrow> \<exists>d. rb_get_ip R r n = pfx ip d \<and>
      longest_match pfx (route_view R pfx pf r) ip d (rb_get_nh R r n, if pf (rb_get_nh R r n) then Some (rb_get_ext R r n) else None)"
proof -
  note view = route_view_pfx [OF ok, of pf r ip] rib_view_def
  have some: "\<exists>d. rb_get_ip R r n = pfx ip d \<and>
      longest_match pfx (route_view R pfx pf r) ip d (rb_get_nh R r n, if pf (rb_get_nh R r n) then Some (rb_get_ext R r n) else None)"
    if look: "rb_lookup R r ip = Some n" for n
  proof -
    obtain d where d: "rb_lookup_exact R r ip d = Some n" "\<forall>d'. d < d' \<longrightarrow> rb_lookup_exact R r ip d' = None"
      using rib_lookup_Some [OF ok look] by blast
    show ?thesis
      using d rib_node [OF ok d(1)] by (intro exI [of _ d]) (simp add: longest_match_def view)
  qed
  show "rb_lookup R r ip = None \<longleftrightarrow> no_match pfx (route_view R pfx pf r) ip"
  proof (cases "rb_lookup R r ip")
    case None
    then show ?thesis
      using rib_lookup_None [OF ok None] by (simp add: no_match_def view)
  next
    case (Some n)
    then show ?thesis
      using some [OF Some] by (auto simp: longest_match_def no_match_def)
  qed
  show "rb_lookup R r ip = Some n \<Longrightarrow> \<exists>d. rb_get_ip R r n = pfx ip d \<and>
      longest_match pfx (route_view R pfx pf r) ip d (rb_get_nh R r n, if pf (rb_get_nh R r n) then Some (rb_get_ext R r n) else None)"
    by (rule some)
qed

section \<open>Ownership\<close>

text \<open>Every object of the heap belongs to exactly one key: nothing leaks, nothing dangles, nothing is shared.\<close>

definition owns :: "('k \<rightharpoonup> ptr) \<Rightarrow> 'o heap \<Rightarrow> bool" where
  "owns P h \<longleftrightarrow> ran P = dom h \<and> inj_on P (dom P)"

lemma owns_live: "owns P h \<Longrightarrow> P k = Some p \<Longrightarrow> \<exists>x. h p = Some x"
  unfolding owns_def by (metis domD ranI)

lemma owns_owner: "owns P h \<Longrightarrow> h p = Some x \<Longrightarrow> \<exists>k. P k = Some p"
  unfolding owns_def ran_def by blast

lemma owns_inj: "owns P h \<Longrightarrow> P k = Some p \<Longrightarrow> P k' = Some p \<Longrightarrow> k' = k"
  unfolding owns_def by (metis (no_types) domI inj_onD)

lemma ownsI:
  assumes "\<And>k p. P k = Some p \<Longrightarrow> h p \<noteq> None" "\<And>p. h p \<noteq> None \<Longrightarrow> \<exists>k. P k = Some p"
    and "\<And>k k' p. P k = Some p \<Longrightarrow> P k' = Some p \<Longrightarrow> k = k'"
  shows "owns P h"
  unfolding owns_def using assms by (auto simp: ran_def inj_on_def)

lemma owns_empty [simp]: "owns Map.empty Map.empty"
  by (simp add: owns_def)

lemma owns_add:
  assumes "owns P h" "h p = None" "P k = None"
  shows "owns (P(k \<mapsto> p)) (h(p \<mapsto> x))"
proof (rule ownsI)
  fix k' p' assume "(P(k \<mapsto> p)) k' = Some p'"
  then show "(h(p \<mapsto> x)) p' \<noteq> None"
    using owns_live [OF assms(1), of k' p'] by (auto split: if_splits)
next
  fix p' assume "(h(p \<mapsto> x)) p' \<noteq> None"
  then show "\<exists>k'. (P(k \<mapsto> p)) k' = Some p'"
    using owns_owner [OF assms(1), of p'] assms(3) by (cases "p' = p") (auto, metis option.distinct(1))
next
  fix k1 k2 q assume "(P(k \<mapsto> p)) k1 = Some q" "(P(k \<mapsto> p)) k2 = Some q"
  then show "k1 = k2"
    using owns_inj [OF assms(1), of k1 q k2] owns_live [OF assms(1)] assms(2) by (auto split: if_splits) force+
qed

lemma owns_del:
  assumes "owns P h" "P k = Some p"
  shows "owns (P(k := None)) (rte_free h p)"
proof (rule ownsI)
  fix k' p' assume "(P(k := None)) k' = Some p'"
  then show "rte_free h p p' \<noteq> None"
    using owns_live [OF assms(1), of k' p'] owns_inj [OF assms, of k'] by (auto simp: rte_free_def split: if_splits)
next
  fix p' assume "rte_free h p p' \<noteq> None"
  then show "\<exists>k'. (P(k := None)) k' = Some p'"
    using owns_owner [OF assms(1), of p'] assms(2)
    by (auto simp: rte_free_def split: if_splits) (metis option.inject)
next
  fix k1 k2 q assume "(P(k := None)) k1 = Some q" "(P(k := None)) k2 = Some q"
  then show "k1 = k2"
    using owns_inj [OF assms(1), of k1 q k2] by (auto split: if_splits)
qed

lemma owns_write: "owns P h \<Longrightarrow> P k = Some p \<Longrightarrow> owns P (h(p \<mapsto> x))"
  unfolding owns_def by (auto dest: ranI)

lemma owns_replace:
  assumes "owns P h" "P k = Some p" "rte_free h p q = None"
  shows "owns (P(k \<mapsto> q)) ((rte_free h p)(q \<mapsto> x))"
  using owns_add [OF owns_del [OF assms(1,2)] assms(3), of k x] by simp

lemma owns_obj_ok: "owns (rh_view H t) h \<Longrightarrow> obj_ok H t h"
  by (rule obj_okI) (blast dest: owns_live owns_inj)+

section \<open>Prefixes\<close>

text \<open>
  The first \<open>d\<close> bits of an address.  IPv4 addresses are in host order here; an IPv6 address is an array
  of bytes, its bit \<open>n\<close> belongs to byte \<open>n div 8\<close>, of which bit 7 comes first.
\<close>

definition ip4_prefix :: "u32 \<Rightarrow> u8 \<Rightarrow> u32" where
  "ip4_prefix ip d = and ip (push_bit (32 - unat d) (- 1))"

definition ip6_prefix :: "ipv6_addr \<Rightarrow> u8 \<Rightarrow> ipv6_addr" where
  "ip6_prefix ip d = and ip (horner_sum of_bool 2 (map (\<lambda>n. 8 * (n div 8) + (7 - n mod 8) < unat d) [0..<128]))"

lemma prefix_prefix: "ip4_prefix (ip4_prefix ip d) d = ip4_prefix ip d" "ip6_prefix (ip6_prefix a d) d = ip6_prefix a d"
  by (simp_all add: ip4_prefix_def ip6_prefix_def and.assoc)

lemma ip4_prefix_bits: "bit (ip4_prefix ip d) n \<longleftrightarrow> bit ip n \<and> 32 - unat d \<le> n"
  by (auto simp: ip4_prefix_def bit_and_iff bit_not_iff bit_mask_iff dest: bit_imp_le_length)

section \<open>A table of routes in a list\<close>

type_synonym 'a list_rib = "('a \<times> u8 \<times> u64 \<times> dp_iface_route) list"

definition lr_exact :: "('a \<Rightarrow> u8 \<Rightarrow> 'a) \<Rightarrow> 'a list_rib \<Rightarrow> 'a \<Rightarrow> u8 \<Rightarrow> ptr option" where
  "lr_exact pfx r ip d = find (\<lambda>i. fst (r ! i) = pfx ip d \<and> fst (snd (r ! i)) = d) [0..<length r]"

text \<open>The entries a traversal visits: neither the default route nor hidden by an earlier entry.\<close>

definition lr_listed :: "('a \<Rightarrow> u8 \<Rightarrow> 'a) \<Rightarrow> 'a list_rib \<Rightarrow> ptr \<Rightarrow> bool" where
  "lr_listed pfx r i \<longleftrightarrow> fst (snd (r ! i)) \<noteq> 0 \<and> lr_exact pfx r (fst (r ! i)) (fst (snd (r ! i))) = Some i"

definition lr_depths :: "u8 list" where
  "lr_depths = map of_nat (rev [0..<256])"

definition list_rib :: "('a \<Rightarrow> u8 \<Rightarrow> 'a) \<Rightarrow> nat \<Rightarrow> ('a, 'a list_rib) rte_rib" where
  "list_rib pfx limit =
     \<lparr> rb_create = \<lambda>vni sid h. map_option (\<lambda>p. (p, [])) (first_free h),
       rb_lookup_exact = lr_exact pfx,
       rb_insert = \<lambda>r ip d. if limit \<le> length r then (None, r)
         else (Some (length r), r @ [(pfx ip d, d, 0, \<lparr> ir_vni = 0, ir_nh_ipv6 = 0 \<rparr>)]),
       rb_remove = \<lambda>r ip d. filter (\<lambda>e. \<not> (fst e = pfx ip d \<and> fst (snd e) = d)) r,
       rb_lookup = \<lambda>r ip. Option.bind (find (\<lambda>d. lr_exact pfx r ip d \<noteq> None) lr_depths) (lr_exact pfx r ip),
       rb_get_nxt = \<lambda>r n. find (lr_listed pfx r) [(case n of None \<Rightarrow> 0 | Some i \<Rightarrow> Suc i)..<length r],
       rb_get_ip = \<lambda>r n. fst (r ! n),
       rb_get_depth = \<lambda>r n. fst (snd (r ! n)),
       rb_get_nh = \<lambda>r n. fst (snd (snd (r ! n))),
       rb_set_nh = \<lambda>r n x. r[n := (fst (r ! n), fst (snd (r ! n)), x, snd (snd (snd (r ! n))))],
       rb_get_ext = \<lambda>r n. snd (snd (snd (r ! n))),
       rb_set_ext = \<lambda>r n x. r[n := (fst (r ! n), fst (snd (r ! n)), fst (snd (snd (r ! n))), x)] \<rparr>"

lemma lr_exact_Some: "lr_exact pfx r ip d = Some n \<Longrightarrow> n < length r \<and> fst (r ! n) = pfx ip d \<and> fst (snd (r ! n)) = d"
  unfolding lr_exact_def find_Some_iff by auto

lemma lr_exact_None: "lr_exact pfx r ip d = None \<longleftrightarrow> (\<forall>e \<in> set r. \<not> (fst e = pfx ip d \<and> fst (snd e) = d))"
  unfolding lr_exact_def find_None_iff all_set_conv_all_nth by auto

lemma lr_exact_update:
  assumes "length r' = length r" "\<And>i. i < length r \<Longrightarrow> fst (r' ! i) = fst (r ! i) \<and> fst (snd (r' ! i)) = fst (snd (r ! i))"
  shows "lr_exact pfx r' = lr_exact pfx r"
proof (intro ext)
  fix ip d
  show "lr_exact pfx r' ip d = lr_exact pfx r ip d"
    unfolding lr_exact_def assms(1) using assms(2) by (intro find_cong) auto
qed

lemma find_entry: "find P [0..<Suc (length es)] = (if P 0 then Some 0 else map_option Suc (find (\<lambda>i. P (Suc i)) [0..<length es]))"
proof -
  have "[0..<Suc (length es)] = 0 # map Suc [0..<length es]"
    by (simp add: map_Suc_upt upt_conv_Cons del: upt_Suc)
  moreover have "find P (map Suc xs) = map_option Suc (find (\<lambda>i. P (Suc i)) xs)" for xs
    by (induction xs) auto
  ultimately show ?thesis by simp
qed

text \<open>What the first entry of a prefix says; later ones are hidden.\<close>

lemma list_rib_view:
  "rib_view (list_rib pfx limit) r k = map_option (snd \<circ> snd) (find (\<lambda>e. fst e = pfx (fst k) (snd k) \<and> fst (snd e) = snd k) r)"
proof (induction r)
  case (Cons e es)
  then show ?case
    unfolding rib_view_def list_rib_def lr_exact_def
    by (simp add: find_entry option.map_comp comp_def del: upt_Suc)
qed (simp add: rib_view_def list_rib_def lr_exact_def)

lemma find_append: "find P (xs @ ys) = (case find P xs of None \<Rightarrow> find P ys | Some x \<Rightarrow> Some x)"
  by (induction xs) auto

lemma find_filter_other: "(\<And>x. P x \<Longrightarrow> Q x) \<Longrightarrow> find P (filter Q xs) = find P xs"
  by (induction xs) auto

lemma lr_depths_sorted: "d \<in> set lr_depths"
proof -
  have "unat d < 256" using unsigned_less [of d] by simp
  then show ?thesis
    unfolding lr_depths_def set_map set_rev by (intro image_eqI [of _ _ "unat d"]) auto
qed

lemma find_sorted_max:
  assumes "sorted_wrt (>) xs" "find P xs = Some x" "y \<in> set xs" "x < (y :: 'b :: linorder)"
  shows "\<not> P y"
proof -
  obtain i where i: "i < length xs" "x = xs ! i" "\<forall>j<i. \<not> P (xs ! j)"
    using assms(2) unfolding find_Some_iff by auto
  obtain j where j: "j < length xs" "y = xs ! j"
    using assms(3) by (auto simp: in_set_conv_nth)
  have "j < i"
  proof (rule ccontr)
    assume "\<not> j < i"
    then have "j = i \<or> xs ! j < xs ! i"
      using sorted_wrt_nth_less [OF assms(1), of i j] j by (cases "i = j") auto
    then show False
      using assms(4) i j by auto
  qed
  then show ?thesis
    using i j by blast
qed

lemma lr_depths_desc: "sorted_wrt (>) lr_depths"
  unfolding lr_depths_def sorted_wrt_map by (rule sorted_wrt_rev [THEN iffD2])
    (auto simp: sorted_wrt_iff_nth_less word_less_nat_alt unat_of_nat take_bit_nat_eq_self)

lemma list_rib_exact: "rb_lookup_exact (list_rib pfx limit) = lr_exact pfx"
  by (simp add: list_rib_def)

lemma lr_exact_append:
  assumes "lr_exact pfx r ip d = None"
  shows "lr_exact pfx (r @ [(pfx ip d, d, x)]) ip d = Some (length r)"
proof -
  have "find (\<lambda>i. fst ((r @ [(pfx ip d, d, x)]) ! i) = pfx ip d \<and> fst (snd ((r @ [(pfx ip d, d, x)]) ! i)) = d) [0..<length r] =
    find (\<lambda>i. fst (r ! i) = pfx ip d \<and> fst (snd (r ! i)) = d) [0..<length r]"
    by (intro find_cong) (auto simp: nth_append)
  then show ?thesis
    using assms by (simp add: lr_exact_def find_append)
qed

lemma list_rib_lookup:
  "case rb_lookup (list_rib pfx limit) r ip of
     None \<Rightarrow> \<forall>d. lr_exact pfx r ip d = None
   | Some n \<Rightarrow> \<exists>d. lr_exact pfx r ip d = Some n \<and> (\<forall>d'. d < d' \<longrightarrow> lr_exact pfx r ip d' = None)"
proof (cases "find (\<lambda>d. lr_exact pfx r ip d \<noteq> None) lr_depths")
  case None
  have "rb_lookup (list_rib pfx limit) r ip = None"
    unfolding list_rib_def by (simp only: rte_rib.simps None bind.simps)
  moreover have "\<forall>d. lr_exact pfx r ip d = None"
    using None lr_depths_sorted by (auto simp: find_None_iff)
  ultimately show ?thesis by simp
next
  case (Some d)
  then obtain n where "lr_exact pfx r ip d = Some n"
    by (auto simp: find_Some_iff)
  moreover have "rb_lookup (list_rib pfx limit) r ip = lr_exact pfx r ip d"
    unfolding list_rib_def by (simp only: rte_rib.simps Some bind.simps)
  ultimately show ?thesis
    using find_sorted_max [OF lr_depths_desc Some lr_depths_sorted] by auto
qed

lemma list_rib_set:
  assumes "lr_exact pfx r ip d = Some n"
  shows "lr_exact pfx (r[n := (fst (r ! n), fst (snd (r ! n)), x)]) = lr_exact pfx r"
    and "(\<lambda>m. fst (snd (snd (r[n := (fst (r ! n), fst (snd (r ! n)), x)] ! m)))) = (\<lambda>m. fst (snd (snd (r ! m))))(n := fst x)"
    and "(\<lambda>m. snd (snd (snd (r[n := (fst (r ! n), fst (snd (r ! n)), x)] ! m)))) = (\<lambda>m. snd (snd (snd (r ! m))))(n := snd x)"
proof -
  have n: "n < length r"
    using lr_exact_Some [OF assms] by simp
  show "lr_exact pfx (r[n := (fst (r ! n), fst (snd (r ! n)), x)]) = lr_exact pfx r"
    using n by (intro lr_exact_update) (simp_all add: nth_list_update)
  show "(\<lambda>m. fst (snd (snd (r[n := (fst (r ! n), fst (snd (r ! n)), x)] ! m)))) = (\<lambda>m. fst (snd (snd (r ! m))))(n := fst x)"
    "(\<lambda>m. snd (snd (snd (r[n := (fst (r ! n), fst (snd (r ! n)), x)] ! m)))) = (\<lambda>m. snd (snd (snd (r ! m))))(n := snd x)"
    using n by (auto simp: fun_eq_iff nth_list_update)
qed

lemma list_rib_ok:
  assumes idem: "\<And>ip d. pfx (pfx ip d) d = pfx ip d"
  shows "rib_ok (list_rib pfx limit) pfx"
  unfolding rib_ok_def list_rib_exact
proof (intro conjI allI impI, goal_cases)
  case (1 vni sid h p r)
  then show ?case by (auto simp: list_rib_def first_free_def find_Some_iff)
next
  case (2 vni sid h p r)
  then have "r = []" by (auto simp: list_rib_def)
  then show ?case by (simp add: list_rib_view fun_eq_iff)
next
  case (4 r ip d)
  then show ?case by (simp add: lr_exact_def idem)
next
  case (5 r ip d n)
  then show ?case by (simp add: list_rib_def lr_exact_Some)
next
  case (6 r ip d n)
  then show ?case by (simp add: list_rib_def lr_exact_Some)
next
  case (7 r ip d)
  then show ?case
    using lr_exact_append [OF 7]
    by (auto simp: list_rib_view find_append split: option.splits prod.splits)
      (auto simp: list_rib_def find_append split: if_splits option.splits)
next
  case (14 r ip d ip' d')
  show ?case
  proof (cases "(pfx ip' d', d') = (pfx ip d, d)")
    case True
    then show ?thesis by (auto simp: list_rib_view find_None_iff) (simp add: list_rib_def)
  next
    case False
    then have "find (\<lambda>e. fst e = pfx ip' d' \<and> fst (snd e) = d') (filter (\<lambda>e. \<not> (fst e = pfx ip d \<and> fst (snd e) = d)) r) =
      find (\<lambda>e. fst e = pfx ip' d' \<and> fst (snd e) = d') r"
      by (intro find_filter_other) auto
    with False show ?thesis
      unfolding list_rib_view by (simp only: list_rib_def rte_rib.simps fst_conv snd_conv if_False)
  qed
next
  case (15 r ip)
  show ?case by (rule list_rib_lookup)
qed (auto simp: idem list_rib_def list_rib_set)

lemma find_filter_head: "find P xs = (case filter P xs of [] \<Rightarrow> None | x # _ \<Rightarrow> Some x)"
  by (induction xs) auto

lemma filter_upt_suffix:
  assumes "filter P [0..<m] = as @ n # bs"
  shows "filter P [Suc n..<m] = bs"
proof -
  have "n \<in> set (filter P [0..<m])"
    unfolding assms by simp
  then have "[0..<m] = [0..<Suc n] @ [Suc n..<m]"
    using upt_add_eq_append [of 0 "Suc n" "m - Suc n"] by simp
  then have "filter P [Suc n..<m] = filter (\<lambda>i. n < i) (filter P [0..<m])"
    by (simp add: filter_empty_conv del: upt_Suc) (rule filter_cong, auto)
  also have "\<dots> = bs"
  proof -
    have "sorted_wrt (<) (filter P [0..<m])"
      by (rule sorted_wrt_filter) (rule sorted_wrt_upt)
    then have "\<forall>x \<in> set as. x < n" "\<forall>x \<in> set bs. n < x"
      unfolding assms by (auto simp: sorted_wrt_append)
    then show ?thesis
      unfolding assms by (auto simp: filter_empty_conv filter_id_conv)
  qed
  finally show ?thesis .
qed

lemma list_rib_iter_ok:
  assumes idem: "\<And>ip d. pfx (pfx ip d) d = pfx ip d"
  shows "rib_iter_ok (list_rib pfx limit) (\<lambda>r. filter (lr_listed pfx r) [0..<length r])"
  unfolding rib_iter_ok_def list_rib_exact
proof (intro allI conjI impI, goal_cases)
  case (2 r n)
  show ?case
  proof
    assume "n \<in> set (filter (lr_listed pfx r) [0..<length r])"
    then show "\<exists>ip d. d \<noteq> 0 \<and> lr_exact pfx r ip d = Some n"
      by (auto simp: lr_listed_def)
  next
    assume "\<exists>ip d. d \<noteq> 0 \<and> lr_exact pfx r ip d = Some n"
    then obtain ip d where d: "d \<noteq> 0" "lr_exact pfx r ip d = Some n" by blast
    then show "n \<in> set (filter (lr_listed pfx r) [0..<length r])"
      using lr_exact_Some [OF d(2)] by (simp add: lr_listed_def) (simp add: lr_exact_def idem)
  qed
next
  case (4 r as n bs)
  then show ?case
    by (simp add: list_rib_def find_filter_head filter_upt_suffix)
qed (simp_all add: list_rib_def find_filter_head)

lemma rib_ok_no_memory:
  assumes "rib_ok R pfx"
  shows "rib_ok (R\<lparr> rb_create := \<lambda>_ _ _. None \<rparr>) pfx"
proof -
  have view: "rib_view (R\<lparr> rb_create := \<lambda>_ _ _. None \<rparr>) = rib_view R"
    by (simp add: rib_view_def fun_eq_iff)
  have exact: "rb_lookup_exact (R\<lparr> rb_create := \<lambda>_ _ _. None \<rparr>) = rb_lookup_exact R"
    by simp
  show ?thesis
    using assms unfolding rib_ok_def view exact by simp
qed

end
