(* ===== verification/Dp_Nat.thy ===== *)
theory Dp_Nat
  imports Dp_Responder Dp_Store Dp_Hash_List
begin

text \<open>
  \<^verbatim>\<open>src/dp_nat.c\<close>: virtual IPs, the network NAT with its port allocation, and the list of
  neighbour NATs.  The four hash tables and their heap objects are the state \<open>nat_state\<close>; DPDK's
  functions on them are the parameter \<open>nat_env\<close>.  Logging is left out, and so are the
  functions of the file that rewrite packet headers.
\<close>

section \<open>Data\<close>

record nat_key =
  nk_ip :: u32
  nk_vni :: u32

text \<open>The union \<^verbatim>\<open>nat_ip\<close>: the IPv4 address overlays the IPv6 one.\<close>

record network_nat_entry =
  ne_nat_ip6 :: ipv6_addr
  ne_port_min :: u16
  ne_port_max :: u16
  ne_vni :: u32
  ne_dst_ipv6 :: ipv6_addr

record snat_data =
  sd_vip_ip :: u32
  sd_nat_ip :: u32
  sd_port_min :: u16
  sd_port_max :: u16
  sd_ul_vip_ip6 :: ipv6_addr
  sd_ul_nat_ip6 :: ipv6_addr
  sd_log_timestamp :: u64

record dnat_data =
  dd_dnat_ip :: u32

record netnat_portmap_key =
  pk_vni :: u32
  pk_src_ip :: dp_ip_address
  pk_iface_src_port :: u16

record netnat_portmap_data =
  pd_nat_ip :: u32
  pd_nat_port :: u16
  pd_flow_cnt :: u16

record netnat_portoverload_tbl_key =
  ok_nat_ip :: u32
  ok_nat_port :: u16
  ok_dst_ip :: u32
  ok_dst_port :: u16
  ok_l4_type :: u8

text \<open>DPDK's part of the environment: the hash functions for each table, and the allocators.\<close>

record 't nat_env =
  env_snat :: "(nat_key, 't) rte_hash"
  env_dnat :: "(nat_key, 't) rte_hash"
  env_portmap :: "(netnat_portmap_key, 't) rte_hash"
  env_overload :: "(netnat_portoverload_tbl_key, 't) rte_hash"
  env_snat_malloc :: "snat_data rte_malloc"
  env_dnat_malloc :: "dnat_data rte_malloc"
  env_portmap_malloc :: "netnat_portmap_data rte_malloc"

record 't nat_state =
  ns_snat_tbl :: 't
  ns_dnat_tbl :: 't
  ns_portmap_tbl :: 't
  ns_overload_tbl :: 't
  ns_snat_heap :: "snat_data heap"
  ns_dnat_heap :: "dnat_data heap"
  ns_portmap_heap :: "netnat_portmap_data heap"
  ns_nat_headp :: "network_nat_entry list"
  ns_full_log_delay :: u64

text \<open>\<open>create\<close> is \<^verbatim>\<open>dp_create_jhash_table\<close>: a table for the name, or \<^verbatim>\<open>NULL\<close>.\<close>

definition dp_nat_init :: "(string \<Rightarrow> 't option) \<Rightarrow> u64 \<Rightarrow> int \<times> 't nat_state option" where
  "dp_nat_init create timer_hz =
     (case create ''ipv4_snat_table'' of None \<Rightarrow> (DP_ERROR, None) | Some snat \<Rightarrow>
      case create ''ipv4_dnat_table'' of None \<Rightarrow> (DP_ERROR, None) | Some dnat \<Rightarrow>
      case create ''ipv4_netnat_portmap_table'' of None \<Rightarrow> (DP_ERROR, None) | Some portmap \<Rightarrow>
      case create ''ipv4_netnat_portoverload_tbl'' of None \<Rightarrow> (DP_ERROR, None) | Some overload \<Rightarrow>
      (DP_OK, Some \<lparr> ns_snat_tbl = snat, ns_dnat_tbl = dnat, ns_portmap_tbl = portmap, ns_overload_tbl = overload,
         ns_snat_heap = Map.empty, ns_dnat_heap = Map.empty, ns_portmap_heap = Map.empty,
         ns_nat_headp = [], ns_full_log_delay = timer_hz * 5 \<rparr>))"

section \<open>Virtual IPs and NAT of an interface\<close>

abbreviation nat_key :: "u32 \<Rightarrow> u32 \<Rightarrow> nat_key" where
  "nat_key ip vni \<equiv> \<lparr> nk_ip = ip, nk_vni = vni \<rparr>"

definition zero_snat_data :: snat_data where
  "zero_snat_data = \<lparr> sd_vip_ip = 0, sd_nat_ip = 0, sd_port_min = 0, sd_port_max = 0,
     sd_ul_vip_ip6 = 0, sd_ul_nat_ip6 = 0, sd_log_timestamp = 0 \<rparr>"

definition dp_get_iface_snat_data :: "'t nat_env \<Rightarrow> u32 \<Rightarrow> u32 \<Rightarrow> 't nat_state \<Rightarrow> ptr option" where
  "dp_get_iface_snat_data env iface_ip vni s =
     (case rh_lookup (env_snat env) (ns_snat_tbl s) (nat_key iface_ip vni) of Inl _ \<Rightarrow> None | Inr data \<Rightarrow> Some data)"

definition dp_create_snat_data :: "'t nat_env \<Rightarrow> u32 \<Rightarrow> u32 \<Rightarrow> 't nat_state \<Rightarrow> ptr option \<times> 't nat_state" where
  "dp_create_snat_data env iface_ip vni s =
     (case env_snat_malloc env (ns_snat_heap s) of
        None \<Rightarrow> (None, s)
      | Some data \<Rightarrow>
          let s1 = s\<lparr> ns_snat_heap := (ns_snat_heap s)(data \<mapsto> zero_snat_data) \<rparr>;
              (ret, tbl) = rh_add_data (env_snat env) (ns_snat_tbl s1) (nat_key iface_ip vni) data;
              s2 = s1\<lparr> ns_snat_tbl := tbl \<rparr>
          in if DP_FAILED ret then (None, s2\<lparr> ns_snat_heap := rte_free (ns_snat_heap s2) data \<rparr>)
             else (Some data, s2))"

definition dp_delete_snat_data :: "'t nat_env \<Rightarrow> u32 \<Rightarrow> u32 \<Rightarrow> ptr \<Rightarrow> 't nat_state \<Rightarrow> 't nat_state" where
  "dp_delete_snat_data env iface_ip vni data s =
     (let s1 = s\<lparr> ns_snat_heap := rte_free (ns_snat_heap s) data \<rparr>
      in s1\<lparr> ns_snat_tbl := snd (rh_del (env_snat env) (ns_snat_tbl s1) (nat_key iface_ip vni)) \<rparr>)"

definition upd_snat :: "ptr \<Rightarrow> (snat_data \<Rightarrow> snat_data) \<Rightarrow> 't nat_state \<Rightarrow> 't nat_state" where
  "upd_snat p f s = s\<lparr> ns_snat_heap := (ns_snat_heap s)(p \<mapsto> f (the (ns_snat_heap s p))) \<rparr>"

definition dp_set_iface_vip_ip :: "'t nat_env \<Rightarrow> u32 \<Rightarrow> u32 \<Rightarrow> u32 \<Rightarrow> ipv6_addr \<Rightarrow> 't nat_state \<Rightarrow> int \<times> 't nat_state" where
  "dp_set_iface_vip_ip env iface_ip vip_ip vni ul_ipv6 s =
     (case dp_get_iface_snat_data env iface_ip vni s of
        None \<Rightarrow>
          (case dp_create_snat_data env iface_ip vni s of
             (None, s1) \<Rightarrow> (DP_GRPC_ERR_SNAT_CREATE, s1)
           | (Some data, s1) \<Rightarrow> (DP_GRPC_OK, upd_snat data (\<lambda>d. d\<lparr> sd_vip_ip := vip_ip, sd_ul_vip_ip6 := ul_ipv6 \<rparr>) s1))
      | Some data \<Rightarrow>
          if sd_vip_ip (the (ns_snat_heap s data)) \<noteq> 0 then (DP_GRPC_ERR_SNAT_EXISTS, s)
          else (DP_GRPC_OK, upd_snat data (\<lambda>d. d\<lparr> sd_vip_ip := vip_ip, sd_ul_vip_ip6 := ul_ipv6 \<rparr>) s))"

definition dp_set_iface_nat_ip ::
  "'t nat_env \<Rightarrow> u32 \<Rightarrow> u32 \<Rightarrow> u32 \<Rightarrow> u16 \<Rightarrow> u16 \<Rightarrow> ipv6_addr \<Rightarrow> 't nat_state \<Rightarrow> int \<times> 't nat_state" where
  "dp_set_iface_nat_ip env iface_ip nat_ip vni min_port max_port ul_ipv6 s =
     (let fill = (\<lambda>d. d\<lparr> sd_ul_nat_ip6 := ul_ipv6, sd_nat_ip := nat_ip, sd_port_min := min_port, sd_port_max := max_port \<rparr>)
      in case dp_get_iface_snat_data env iface_ip vni s of
           None \<Rightarrow>
             (case dp_create_snat_data env iface_ip vni s of
                (None, s1) \<Rightarrow> (DP_GRPC_ERR_SNAT_CREATE, s1)
              | (Some data, s1) \<Rightarrow> (DP_GRPC_OK, upd_snat data fill s1))
         | Some data \<Rightarrow>
             if sd_nat_ip (the (ns_snat_heap s data)) \<noteq> 0 then (DP_GRPC_ERR_SNAT_EXISTS, s)
             else (DP_GRPC_OK, upd_snat data fill s))"

definition dp_del_iface_vip_ip :: "'t nat_env \<Rightarrow> u32 \<Rightarrow> u32 \<Rightarrow> 't nat_state \<Rightarrow> int \<times> 't nat_state" where
  "dp_del_iface_vip_ip env iface_ip vni s =
     (case dp_get_iface_snat_data env iface_ip vni s of
        None \<Rightarrow> (DP_GRPC_ERR_SNAT_NO_DATA, s)
      | Some data \<Rightarrow>
          if sd_nat_ip (the (ns_snat_heap s data)) \<noteq> 0 then (DP_GRPC_OK, upd_snat data (\<lambda>d. d\<lparr> sd_vip_ip := 0 \<rparr>) s)
          else (DP_GRPC_OK, dp_delete_snat_data env iface_ip vni data s))"

definition dp_del_iface_nat_ip :: "'t nat_env \<Rightarrow> u32 \<Rightarrow> u32 \<Rightarrow> 't nat_state \<Rightarrow> int \<times> 't nat_state" where
  "dp_del_iface_nat_ip env iface_ip vni s =
     (case dp_get_iface_snat_data env iface_ip vni s of
        None \<Rightarrow> (DP_GRPC_ERR_SNAT_NO_DATA, s)
      | Some data \<Rightarrow>
          if sd_vip_ip (the (ns_snat_heap s data)) \<noteq> 0
          then (DP_GRPC_OK, upd_snat data (\<lambda>d. d\<lparr> sd_nat_ip := 0, sd_port_min := 0, sd_port_max := 0 \<rparr>) s)
          else (DP_GRPC_OK, dp_delete_snat_data env iface_ip vni data s))"

section \<open>Destination NAT\<close>

definition dp_get_dnat_data :: "'t nat_env \<Rightarrow> u32 \<Rightarrow> u32 \<Rightarrow> 't nat_state \<Rightarrow> ptr option" where
  "dp_get_dnat_data env d_ip vni s =
     (case rh_lookup (env_dnat env) (ns_dnat_tbl s) (nat_key d_ip vni) of Inl _ \<Rightarrow> None | Inr data \<Rightarrow> Some data)"

definition dp_set_dnat_ip :: "'t nat_env \<Rightarrow> u32 \<Rightarrow> u32 \<Rightarrow> u32 \<Rightarrow> 't nat_state \<Rightarrow> int \<times> 't nat_state" where
  "dp_set_dnat_ip env d_ip dnat_ip vni s =
     (if dp_get_dnat_data env d_ip vni s \<noteq> None then (DP_GRPC_ERR_DNAT_EXISTS, s)
      else case env_dnat_malloc env (ns_dnat_heap s) of
          None \<Rightarrow> (DP_GRPC_ERR_DNAT_CREATE, s)
        | Some data \<Rightarrow>
            let s1 = s\<lparr> ns_dnat_heap := (ns_dnat_heap s)(data \<mapsto> \<lparr> dd_dnat_ip = 0 \<rparr>) \<rparr>;
                (ret, tbl) = rh_add_data (env_dnat env) (ns_dnat_tbl s1) (nat_key d_ip vni) data;
                s2 = s1\<lparr> ns_dnat_tbl := tbl \<rparr>
            in if DP_FAILED ret then (DP_GRPC_ERR_DNAT_CREATE, s2\<lparr> ns_dnat_heap := rte_free (ns_dnat_heap s2) data \<rparr>)
               else (DP_GRPC_OK, s2\<lparr> ns_dnat_heap := (ns_dnat_heap s2)(data \<mapsto> \<lparr> dd_dnat_ip = dnat_ip \<rparr>) \<rparr>))"

definition dp_del_dnat_ip :: "'t nat_env \<Rightarrow> u32 \<Rightarrow> u32 \<Rightarrow> 't nat_state \<Rightarrow> int \<times> 't nat_state" where
  "dp_del_dnat_ip env d_ip vni s =
     (case rh_lookup (env_dnat env) (ns_dnat_tbl s) (nat_key d_ip vni) of
        Inl _ \<Rightarrow> (DP_GRPC_ERR_DNAT_NO_DATA, s)
      | Inr data \<Rightarrow>
          let s1 = s\<lparr> ns_dnat_heap := rte_free (ns_dnat_heap s) data \<rparr>
          in (DP_GRPC_OK, s1\<lparr> ns_dnat_tbl := snd (rh_del (env_dnat env) (ns_dnat_tbl s1) (nat_key d_ip vni)) \<rparr>))"

section \<open>Neighbour NATs\<close>

text \<open>\<open>nat_ipv6\<close> is a pointer that may be \<^verbatim>\<open>NULL\<close>.\<close>

definition dp_is_network_nat_ip :: "network_nat_entry \<Rightarrow> u32 \<Rightarrow> ipv6_addr option \<Rightarrow> u32 \<Rightarrow> bool" where
  "dp_is_network_nat_ip entry nat_ipv4 nat_ipv6 vni \<longleftrightarrow>
     ne_vni entry = vni \<and>
     ((nat_ipv4 \<noteq> 0 \<and> ip4_of (ne_nat_ip6 entry) = nat_ipv4) \<or> nat_ipv6 = Some (ne_nat_ip6 entry))"

definition dp_is_network_nat_entry :: "network_nat_entry \<Rightarrow> u32 \<Rightarrow> ipv6_addr option \<Rightarrow> u32 \<Rightarrow> u16 \<Rightarrow> u16 \<Rightarrow> bool" where
  "dp_is_network_nat_entry entry nat_ipv4 nat_ipv6 vni min_port max_port \<longleftrightarrow>
     dp_is_network_nat_ip entry nat_ipv4 nat_ipv6 vni \<and> ne_port_min entry = min_port \<and> ne_port_max entry = max_port"

definition dp_is_network_nat_port :: "network_nat_entry \<Rightarrow> u32 \<Rightarrow> ipv6_addr option \<Rightarrow> u32 \<Rightarrow> u16 \<Rightarrow> bool" where
  "dp_is_network_nat_port entry nat_ipv4 nat_ipv6 vni port \<longleftrightarrow>
     dp_is_network_nat_ip entry nat_ipv4 nat_ipv6 vni \<and> ne_port_min entry \<le> port \<and> port < ne_port_max entry"

definition dp_del_vip_from_dnat :: "'t nat_env \<Rightarrow> u32 \<Rightarrow> u32 \<Rightarrow> 't nat_state \<Rightarrow> 't nat_state" where
  "dp_del_vip_from_dnat env d_ip vni s =
     (if list_ex (\<lambda>item. dp_is_network_nat_ip item d_ip None vni) (ns_nat_headp s) then s
      else snd (dp_del_dnat_ip env d_ip vni s))"

text \<open>\<open>alloc\<close> is whether \<^verbatim>\<open>rte_zmalloc\<close> succeeds.\<close>

definition dp_add_network_nat_entry ::
  "bool \<Rightarrow> u32 \<Rightarrow> ipv6_addr option \<Rightarrow> u32 \<Rightarrow> u16 \<Rightarrow> u16 \<Rightarrow> ipv6_addr \<Rightarrow> network_nat_entry list \<Rightarrow> int \<times> network_nat_entry list" where
  "dp_add_network_nat_entry alloc nat_ipv4 nat_ipv6 vni min_port max_port ul_ipv6 headp =
     (if list_ex (\<lambda>e. dp_is_network_nat_entry e nat_ipv4 nat_ipv6 vni min_port max_port) headp
      then (DP_GRPC_ERR_ALREADY_EXISTS, headp)
      else if \<not> alloc then (DP_GRPC_ERR_OUT_OF_MEMORY, headp)
      else
        let ip = (if nat_ipv4 \<noteq> 0 then ip4_write nat_ipv4 0 else 0);
            ip = (case nat_ipv6 of None \<Rightarrow> ip | Some ip6 \<Rightarrow> ip6)
        in (DP_GRPC_OK, headp @ [\<lparr> ne_nat_ip6 = ip, ne_port_min = min_port, ne_port_max = max_port,
                                    ne_vni = vni, ne_dst_ipv6 = ul_ipv6 \<rparr>]))"

fun dp_del_network_nat_entry ::
  "u32 \<Rightarrow> ipv6_addr option \<Rightarrow> u32 \<Rightarrow> u16 \<Rightarrow> u16 \<Rightarrow> network_nat_entry list \<Rightarrow> int \<times> network_nat_entry list" where
  "dp_del_network_nat_entry nat_ipv4 nat_ipv6 vni min_port max_port [] = (DP_GRPC_ERR_NOT_FOUND, [])"
| "dp_del_network_nat_entry nat_ipv4 nat_ipv6 vni min_port max_port (item # items) =
     (if dp_is_network_nat_entry item nat_ipv4 nat_ipv6 vni min_port max_port then (DP_GRPC_OK, items)
      else let (ret, items') = dp_del_network_nat_entry nat_ipv4 nat_ipv6 vni min_port max_port items
           in (ret, item # items'))"

fun dp_get_network_nat_underlay_ip ::
  "u32 \<Rightarrow> ipv6_addr option \<Rightarrow> u32 \<Rightarrow> u16 \<Rightarrow> u16 \<Rightarrow> network_nat_entry list \<Rightarrow> ipv6_addr option" where
  "dp_get_network_nat_underlay_ip nat_ipv4 nat_ipv6 vni min_port max_port [] = None"
| "dp_get_network_nat_underlay_ip nat_ipv4 nat_ipv6 vni min_port max_port (item # items) =
     (if dp_is_network_nat_entry item nat_ipv4 nat_ipv6 vni min_port max_port then Some (ne_dst_ipv6 item)
      else dp_get_network_nat_underlay_ip nat_ipv4 nat_ipv6 vni min_port max_port items)"

fun nat_find_port :: "u32 \<Rightarrow> u32 \<Rightarrow> u16 \<Rightarrow> network_nat_entry list \<Rightarrow> ipv6_addr option" where
  "nat_find_port dst_ip dst_vni dst_port [] = None"
| "nat_find_port dst_ip dst_vni dst_port (item # items) =
     (if dp_is_network_nat_port item dst_ip None dst_vni dst_port then Some (ne_dst_ipv6 item)
      else nat_find_port dst_ip dst_vni dst_port items)"

definition dp_lookup_network_nat_underlay_ip :: "dp_flow \<Rightarrow> network_nat_entry list \<Rightarrow> ipv6_addr option" where
  "dp_lookup_network_nat_underlay_ip df headp =
     (let dst_ip = ntohl (df_dst_addr df);
          dst_vni = tun_dst_vni (df_tun_info df);
          dst_port = (if df_l4_type df = IPPROTO_ICMP \<or> df_l4_type df = IPPROTO_ICMPV6
                      then ntohs (df_icmp_identifier df) else ntohs (df_dst_port df))
      in nat_find_port dst_ip dst_vni dst_port headp)"

definition dp_del_all_neigh_nat_entries_in_vni :: "u32 \<Rightarrow> network_nat_entry list \<Rightarrow> network_nat_entry list" where
  "dp_del_all_neigh_nat_entries_in_vni vni headp = filter (\<lambda>item. \<not> (ne_vni item = vni \<or> vni = 0)) headp"

text \<open>The message of a listing; the fields the code leaves alone are not part of it.\<close>

record dpgrpc_nat =
  gn_min_port :: u16
  gn_max_port :: u16
  gn_addr :: dp_ip_address
  gn_vni :: u32
  gn_ul_addr6 :: ipv6_addr

definition dp_list_nat_neigh_entries ::
  "nat \<Rightarrow> u32 \<Rightarrow> network_nat_entry list \<Rightarrow> dpgrpc_nat dp_grpc_responder \<Rightarrow> int \<times> dpgrpc_nat dp_grpc_responder" where
  "dp_list_nat_neigh_entries msg_size nat_ip headp responder =
     (let msgs = map (\<lambda>e. \<lparr> gn_min_port = ne_port_min e, gn_max_port = ne_port_max e, gn_addr = zero_ip,
                           gn_vni = ne_vni e, gn_ul_addr6 = ne_dst_ipv6 e \<rparr>)
                   (filter (\<lambda>e. ip4_of (ne_nat_ip6 e) = nat_ip) headp);
          (ok, r) = dp_grpc_add_replies msgs (dp_grpc_set_multireply msg_size responder)
      in (if ok then DP_GRPC_OK else DP_GRPC_ERR_OUT_OF_MEMORY, r))"

section \<open>Port allocation\<close>

text \<open>The last four bytes of an IPv6 address, where NAT64 keeps the IPv4 address, as a host integer.\<close>

definition nat64_dst_ip :: "ipv6_addr \<Rightarrow> u32" where
  "nat64_dst_ip a = ntohl (ucast (drop_bit 96 a))"

text \<open>
  The loop over the port range.  All arithmetic is C's: \<open>p\<close> and the port are 16 bits wide, the
  hash is 32 bits wide, and \<^verbatim>\<open>iface_src_info_hash + p\<close> wraps around.  The result is the port, 0 when
  every one tried is taken, or the error of a failed lookup.
\<close>

fun snat_port_loop ::
  "'t nat_env \<Rightarrow> 't nat_state \<Rightarrow> netnat_portoverload_tbl_key \<Rightarrow> u32 \<Rightarrow> u16 \<Rightarrow> u16 \<Rightarrow> nat \<Rightarrow> u16 \<Rightarrow> int + u16" where
  "snat_port_loop env s key hash min_port max_port 0 p = Inr 0"
| "snat_port_loop env s key hash min_port max_port (Suc n) p =
     (let tmp_port = min_port + ucast ((hash + ucast p) mod (ucast (max_port - min_port) :: u32))
      in case rh_lookup (env_overload env) (ns_overload_tbl s) (key\<lparr> ok_nat_port := tmp_port \<rparr>) of
           Inl e \<Rightarrow> if e = - ENOENT then Inr tmp_port else Inl e
         | Inr _ \<Rightarrow> snat_port_loop env s key hash min_port max_port n (p + 1))"

definition snat_find_port ::
  "'t nat_env \<Rightarrow> 't nat_state \<Rightarrow> netnat_portoverload_tbl_key \<Rightarrow> u32 \<Rightarrow> u16 \<Rightarrow> u16 \<Rightarrow> int + u16" where
  "snat_find_port env s key hash min_port max_port =
     snat_port_loop env s key hash min_port max_port (unat max_port - unat min_port) 0"

text \<open>The two keys the packet determines, \<^verbatim>\<open>nat_port\<close> of the second still to be chosen.\<close>

definition snat_keys :: "dp_flow \<Rightarrow> u32 \<Rightarrow> u32 \<Rightarrow> (netnat_portmap_key \<times> netnat_portoverload_tbl_key) option" where
  "snat_keys df nat_ip vni =
     (let icmp = (df_l4_type df = IPPROTO_ICMP \<or> df_l4_type df = IPPROTO_ICMPV6);
          iface_src_port = (if icmp then ntohs (df_icmp_identifier df) else ntohs (df_src_port df));
          dst_port = (if icmp then ntohs (df_icmp_identifier df) else ntohs (df_dst_port df));
          mk = (\<lambda>src_ip dst_ip.
            (\<lparr> pk_vni = vni, pk_src_ip = src_ip, pk_iface_src_port = iface_src_port \<rparr>,
             \<lparr> ok_nat_ip = nat_ip, ok_nat_port = 0, ok_dst_ip = dst_ip, ok_dst_port = dst_port, ok_l4_type = df_l4_type df \<rparr>))
      in if df_l3_type df = RTE_ETHER_TYPE_IPV4
         then Some (mk (DP_SET_IPADDR4 (ntohl (df_src_addr df))) (ntohl (df_dst_addr df)))
         else if df_l3_type df = RTE_ETHER_TYPE_IPV6
         then Some (mk (DP_SET_IPADDR6 (df_src_addr6 df)) (nat64_dst_ip (df_dst_addr6 df)))
         else None)"

definition upd_portmap :: "ptr \<Rightarrow> (netnat_portmap_data \<Rightarrow> netnat_portmap_data) \<Rightarrow> 't nat_state \<Rightarrow> 't nat_state" where
  "upd_portmap p f s = s\<lparr> ns_portmap_heap := (ns_portmap_heap s)(p \<mapsto> f (the (ns_portmap_heap s p))) \<rparr>"

text \<open>
  The first half: an existing mapping of this source is reused when its port is still free towards
  this destination.  The result is an early return, or the state, the allocated port (0 for none)
  and whether a new port is needed.
\<close>

definition snat_reuse_port ::
  "'t nat_env \<Rightarrow> netnat_portmap_key \<Rightarrow> netnat_portoverload_tbl_key \<Rightarrow> 't nat_state \<Rightarrow> int + ('t nat_state \<times> u16 \<times> bool)" where
  "snat_reuse_port env portmap_key overload_key s =
     (case rh_lookup (env_portmap env) (ns_portmap_tbl s) portmap_key of
        Inl ret \<Rightarrow> if ret \<noteq> - ENOENT then Inl ret else Inr (s, 0, True)
      | Inr data \<Rightarrow>
          let nat_port = pd_nat_port (the (ns_portmap_heap s data))
          in case rh_lookup (env_overload env) (ns_overload_tbl s) (overload_key\<lparr> ok_nat_port := nat_port \<rparr>) of
               Inl ret \<Rightarrow>
                 if ret = - ENOENT
                 then Inr (upd_portmap data (\<lambda>d. d\<lparr> pd_flow_cnt := pd_flow_cnt d + 1 \<rparr>) s, nat_port, False)
                 else Inl ret
             | Inr _ \<Rightarrow> Inr (s, 0, True))"

text \<open>
  \<open>snat\<close> points to the interface's NAT data, \<open>timestamp\<close> is the value of \<^verbatim>\<open>rte_rdtsc\<close>.  The
  allocation of the mapping is not checked by the code; \<open>None\<close> is its \<^verbatim>\<open>NULL\<close> dereference.
\<close>

definition dp_allocate_network_snat_port ::
  "'t nat_env \<Rightarrow> u64 \<Rightarrow> ptr \<Rightarrow> dp_flow \<Rightarrow> u32 \<Rightarrow> 't nat_state \<Rightarrow> (int \<times> 't nat_state) option" where
  "dp_allocate_network_snat_port env timestamp snat df vni s =
     (let snat_data = the (ns_snat_heap s snat)
      in case snat_keys df (sd_nat_ip snat_data) vni of
           None \<Rightarrow> Some (DP_GRPC_ERR_BAD_IPVER, s)
         | Some (portmap_key, overload_key) \<Rightarrow>
             (case snat_reuse_port env portmap_key overload_key s of
                Inl ret \<Rightarrow> Some (ret, s)
              | Inr (s1, reused_port, need_to_find_new_port) \<Rightarrow>
                  (case (if need_to_find_new_port
                         then snat_find_port env s1 overload_key
                                (rh_hash (env_portmap env) (ns_portmap_tbl s1) portmap_key)
                                (sd_port_min snat_data) (sd_port_max snat_data)
                         else Inr reused_port) of
                     Inl ret \<Rightarrow> Some (ret, s1)
                   | Inr allocated_port \<Rightarrow>
                       if need_to_find_new_port \<and> allocated_port = 0
                       then Some (DP_ERROR,
                              if sd_log_timestamp snat_data + ns_full_log_delay s1 < timestamp
                              then upd_snat snat (\<lambda>d. d\<lparr> sd_log_timestamp := timestamp \<rparr>) s1 else s1)
                       else
                         let (ret, tbl) = rh_add_key (env_overload env) (ns_overload_tbl s1)
                                            (overload_key\<lparr> ok_nat_port := allocated_port \<rparr>);
                             s2 = s1\<lparr> ns_overload_tbl := tbl \<rparr>
                         in if DP_FAILED ret then Some (ret, s2)
                            else if \<not> need_to_find_new_port then Some (uint allocated_port, s2)
                            else
                              case env_portmap_malloc env (ns_portmap_heap s2) of
                                None \<Rightarrow> None
                              | Some data \<Rightarrow>
                                  let s3 = s2\<lparr> ns_portmap_heap := (ns_portmap_heap s2)(data \<mapsto>
                                             \<lparr> pd_nat_ip = sd_nat_ip snat_data, pd_nat_port = allocated_port, pd_flow_cnt = 1 \<rparr>) \<rparr>;
                                      (ret, ptbl) = rh_add_data (env_portmap env) (ns_portmap_tbl s3) portmap_key data;
                                      s4 = s3\<lparr> ns_portmap_tbl := ptbl \<rparr>
                                  in if DP_FAILED ret then Some (ret, s4\<lparr> ns_portmap_heap := rte_free (ns_portmap_heap s4) data \<rparr>)
                                     else Some (uint allocated_port, s4))))"

section \<open>Port release\<close>

definition snat_release_keys :: "flow_value \<Rightarrow> netnat_portmap_key \<times> netnat_portoverload_tbl_key" where
  "snat_release_keys cntrack =
     (let org = fv_flow_key cntrack DP_FLOW_DIR_ORG; reply = fv_flow_key cntrack DP_FLOW_DIR_REPLY
      in (\<lparr> pk_vni = nf_vni (fv_nf_info cntrack), pk_src_ip = dp_copy_ipaddr (fk_l3_src org),
            pk_iface_src_port = (if fk_proto org = IPPROTO_ICMP \<or> fk_proto org = IPPROTO_ICMPV6
                                 then fk_port_dst org else fk_port_src org) \<rparr>,
          \<lparr> ok_nat_ip = ip_ipv4 (fk_l3_dst reply), ok_nat_port = fk_port_dst reply,
            ok_dst_ip = (if ip_is_v6 (fk_l3_dst org) then nat64_dst_ip (ip_ipv6 (fk_l3_dst org)) else ip_ipv4 (fk_l3_dst org)),
            ok_dst_port = fk_port_dst org, ok_l4_type = fk_proto org \<rparr>))"

text \<open>\<open>ports\<close> is the port table, whose counter of used NAT ports is decremented at the end.\<close>

definition dp_stats_nat_dec_used_port_cnt :: "u16 \<Rightarrow> dp_port option list \<Rightarrow> dp_port option list" where
  "dp_stats_nat_dec_used_port_cnt port_id ports =
     ports[unat port_id := map_option (\<lambda>p. p\<lparr> port_used_port_cnt := port_used_port_cnt p - 1 \<rparr>) (ports ! unat port_id)]"

definition dp_remove_network_snat_port ::
  "'t nat_env \<Rightarrow> flow_value \<Rightarrow> dp_port option list \<Rightarrow> 't nat_state \<Rightarrow> int \<times> dp_port option list \<times> 't nat_state" where
  "dp_remove_network_snat_port env cntrack ports s =
     (if ip_is_v6 (fk_l3_dst (fv_flow_key cntrack DP_FLOW_DIR_REPLY)) then (DP_ERROR, ports, s)
      else
        let (portmap_key, overload_key) = snat_release_keys cntrack;
            (ret, tbl) = rh_del (env_overload env) (ns_overload_tbl s) overload_key;
            s1 = s\<lparr> ns_overload_tbl := tbl \<rparr>
        in if DP_FAILED ret \<and> ret \<noteq> - ENOENT then (ret, ports, s1)
           else
             case rh_lookup (env_portmap env) (ns_portmap_tbl s1) portmap_key of
               Inl ret \<Rightarrow> (if ret = - ENOENT then DP_OK else ret, ports, s1)
             | Inr data \<Rightarrow>
                 let s2 = upd_portmap data (\<lambda>d. d\<lparr> pd_flow_cnt := pd_flow_cnt d - 1 \<rparr>) s1;
                     (err, s3) =
                       (if pd_flow_cnt (the (ns_portmap_heap s2 data)) = 0 then
                          let (ret, ptbl) = rh_del (env_portmap env) (ns_portmap_tbl s2) portmap_key;
                              s3 = s2\<lparr> ns_portmap_tbl := ptbl \<rparr>
                          in if DP_FAILED ret then (True, upd_portmap data (\<lambda>d. d\<lparr> pd_flow_cnt := pd_flow_cnt d + 1 \<rparr>) s3)
                             else (False, s3\<lparr> ns_portmap_heap := rte_free (ns_portmap_heap s3) data \<rparr>)
                        else (False, s2))
                 in if err then (DP_ERROR, ports, s3)
                    else if dp_get_port_by_id ports (fv_created_port_id cntrack) = None then (DP_ERROR, ports, s3)
                    else (DP_OK, dp_stats_nat_dec_used_port_cnt (fv_created_port_id cntrack) ports, s3))"

section \<open>Listing the local NATs\<close>

definition nat_local_body ::
  "'t nat_state \<Rightarrow> u32 \<Rightarrow> nat_key \<Rightarrow> ptr \<Rightarrow> dpgrpc_nat dp_grpc_responder \<Rightarrow>
     (int \<times> dpgrpc_nat dp_grpc_responder) + dpgrpc_nat dp_grpc_responder" where
  "nat_local_body s nat_ip nkey data r =
     (let d = the (ns_snat_heap s data)
      in if sd_nat_ip d = nat_ip then
           let (ok, r') = dp_grpc_add_reply \<lparr> gn_min_port = sd_port_min d, gn_max_port = sd_port_max d,
                 gn_addr = DP_SET_IPADDR4 (nk_ip nkey), gn_vni = nk_vni nkey, gn_ul_addr6 = 0 \<rparr> r
           in if ok then Inr r' else Inl (DP_GRPC_ERR_OUT_OF_MEMORY, r')
         else Inr r)"

definition dp_list_nat_local_entries ::
  "'t nat_env \<Rightarrow> nat \<Rightarrow> u32 \<Rightarrow> 't nat_state \<Rightarrow> dpgrpc_nat dp_grpc_responder \<Rightarrow> (int \<times> dpgrpc_nat dp_grpc_responder) option" where
  "dp_list_nat_local_entries env msg_size nat_ip s responder =
     (if rh_count (env_snat env) (ns_snat_tbl s) = 0 then Some (DP_GRPC_OK, responder)
      else
        case rh_foreach (env_snat env) (\<lambda>_. ns_snat_tbl s) (\<lambda>_ r. (DP_GRPC_ERR_ITERATOR, r)) (nat_local_body s nat_ip) 0
               (dp_grpc_set_multireply msg_size responder) of
          None \<Rightarrow> None
        | Some (Inl res) \<Rightarrow> Some res
        | Some (Inr r) \<Rightarrow> Some (DP_GRPC_OK, r))"

section \<open>Invariant\<close>

definition snat_view :: "'t nat_env \<Rightarrow> 't nat_state \<Rightarrow> nat_key \<rightharpoonup> snat_data" where
  "snat_view env s = obj_view (env_snat env) (ns_snat_tbl s) (ns_snat_heap s)"

definition dnat_view :: "'t nat_env \<Rightarrow> 't nat_state \<Rightarrow> nat_key \<rightharpoonup> dnat_data" where
  "dnat_view env s = obj_view (env_dnat env) (ns_dnat_tbl s) (ns_dnat_heap s)"

definition portmap_view :: "'t nat_env \<Rightarrow> 't nat_state \<Rightarrow> netnat_portmap_key \<rightharpoonup> netnat_portmap_data" where
  "portmap_view env s = obj_view (env_portmap env) (ns_portmap_tbl s) (ns_portmap_heap s)"

text \<open>The set of tuples in use: NAT address and port, destination address and port, protocol.\<close>

definition overload_used :: "'t nat_env \<Rightarrow> 't nat_state \<Rightarrow> netnat_portoverload_tbl_key set" where
  "overload_used env s = dom (rh_view (env_overload env) (ns_overload_tbl s))"

definition nat_env_ok :: "'t nat_env \<Rightarrow> bool" where
  "nat_env_ok env \<longleftrightarrow>
     rte_hash_ok (env_snat env) \<and> rte_hash_ok (env_dnat env) \<and>
     rte_hash_ok (env_portmap env) \<and> rte_hash_ok (env_overload env) \<and>
     rte_malloc_ok (env_snat_malloc env) \<and> rte_malloc_ok (env_dnat_malloc env) \<and> rte_malloc_ok (env_portmap_malloc env)"

definition nat_ok :: "'t nat_env \<Rightarrow> 't nat_state \<Rightarrow> bool" where
  "nat_ok env s \<longleftrightarrow> nat_env_ok env \<and>
     obj_ok (env_snat env) (ns_snat_tbl s) (ns_snat_heap s) \<and>
     obj_ok (env_dnat env) (ns_dnat_tbl s) (ns_dnat_heap s) \<and>
     obj_ok (env_portmap env) (ns_portmap_tbl s) (ns_portmap_heap s)"

text \<open>The two contracts the SNAT table serves: the virtual IP and the network NAT of an interface.\<close>

definition vip_view :: "'t nat_env \<Rightarrow> 't nat_state \<Rightarrow> nat_key \<rightharpoonup> u32 \<times> ipv6_addr" where
  "vip_view env s k = (case snat_view env s k of None \<Rightarrow> None
     | Some d \<Rightarrow> if sd_vip_ip d = 0 then None else Some (sd_vip_ip d, sd_ul_vip_ip6 d))"

definition netnat_view :: "'t nat_env \<Rightarrow> 't nat_state \<Rightarrow> nat_key \<rightharpoonup> u32 \<times> u16 \<times> u16 \<times> ipv6_addr" where
  "netnat_view env s k = (case snat_view env s k of None \<Rightarrow> None
     | Some d \<Rightarrow> if sd_nat_ip d = 0 then None else Some (sd_nat_ip d, sd_port_min d, sd_port_max d, sd_ul_nat_ip6 d))"

section \<open>Lemmas\<close>

subsection \<open>The SNAT table\<close>

lemma nat_okD:
  assumes "nat_ok env s"
  shows "rte_hash_ok (env_snat env)" "rte_hash_ok (env_dnat env)" "rte_hash_ok (env_portmap env)" "rte_hash_ok (env_overload env)"
    "rte_malloc_ok (env_snat_malloc env)" "rte_malloc_ok (env_dnat_malloc env)" "rte_malloc_ok (env_portmap_malloc env)"
    "obj_ok (env_snat env) (ns_snat_tbl s) (ns_snat_heap s)"
    "obj_ok (env_dnat env) (ns_dnat_tbl s) (ns_dnat_heap s)"
    "obj_ok (env_portmap env) (ns_portmap_tbl s) (ns_portmap_heap s)"
  using assms by (simp_all add: nat_ok_def nat_env_ok_def)

lemma dp_get_iface_snat_data_view:
  "dp_get_iface_snat_data env ip vni s = rh_view (env_snat env) (ns_snat_tbl s) (nat_key ip vni)"
  by (simp add: dp_get_iface_snat_data_def rh_view_def split: sum.splits)

text \<open>An operation that only touches the SNAT table and heap.\<close>

definition snat_frame :: "'t nat_state \<Rightarrow> 't nat_state \<Rightarrow> bool" where
  "snat_frame s s' \<longleftrightarrow>
     ns_dnat_tbl s' = ns_dnat_tbl s \<and> ns_dnat_heap s' = ns_dnat_heap s \<and>
     ns_portmap_tbl s' = ns_portmap_tbl s \<and> ns_portmap_heap s' = ns_portmap_heap s \<and>
     ns_overload_tbl s' = ns_overload_tbl s \<and> ns_nat_headp s' = ns_nat_headp s"

lemma snat_frame_views:
  assumes "snat_frame s s'"
  shows "dnat_view env s' = dnat_view env s" "portmap_view env s' = portmap_view env s"
    "overload_used env s' = overload_used env s" "ns_nat_headp s' = ns_nat_headp s"
  using assms by (auto simp: snat_frame_def dnat_view_def portmap_view_def overload_used_def)

lemma snat_frame_ok:
  "nat_ok env s \<Longrightarrow> snat_frame s s' \<Longrightarrow> obj_ok (env_snat env) (ns_snat_tbl s') (ns_snat_heap s') \<Longrightarrow> nat_ok env s'"
  by (auto simp: snat_frame_def nat_ok_def)

lemma snat_frame_trans: "snat_frame s s1 \<Longrightarrow> snat_frame s1 s2 \<Longrightarrow> snat_frame s s2"
  by (auto simp: snat_frame_def)

lemma dp_create_snat_data_cases:
  assumes ok: "nat_ok env s" and new: "dp_create_snat_data env ip vni s = (res, s')"
  obtains (failed) "res = None" "snat_frame s s'" "nat_ok env s'" "snat_view env s' = snat_view env s"
    | (created) p where "res = Some p" "snat_frame s s'" "nat_ok env s'"
        "snat_view env s' = (snat_view env s)(nat_key ip vni \<mapsto> zero_snat_data)"
        "rh_view (env_snat env) (ns_snat_tbl s') (nat_key ip vni) = Some p"
proof (cases "env_snat_malloc env (ns_snat_heap s)")
  case None
  then have "res = None" "s' = s"
    using new by (simp_all add: dp_create_snat_data_def)
  then show ?thesis
    using failed ok by (auto simp: snat_frame_def)
next
  case (Some p)
  obtain ret t where add: "rh_add_data (env_snat env) (ns_snat_tbl s) (nat_key ip vni) p = (ret, t)" by fastforce
  note fresh = rte_malloc_fresh [OF nat_okD(5) [OF ok] Some]
  note obj = nat_okD(8) [OF ok]
  from nat_okD(1) [OF ok] add show ?thesis
  proof (cases rule: rh_add_data_cases)
    case added
    have eq: "(res, s') = (Some p, s\<lparr> ns_snat_heap := (ns_snat_heap s)(p \<mapsto> zero_snat_data), ns_snat_tbl := t \<rparr>)"
      using new by (simp add: dp_create_snat_data_def Some add added(1))
    then have frame: "snat_frame s s'"
      by (simp add: snat_frame_def)
    show ?thesis
    proof (rule created)
      show "nat_ok env s'"
        using eq obj_add(1) [OF obj fresh added(2)] by (intro snat_frame_ok [OF ok frame]) simp
      show "snat_view env s' = (snat_view env s)(nat_key ip vni \<mapsto> zero_snat_data)"
        using eq obj_add(2) [OF obj fresh added(2)] by (simp add: snat_view_def)
    qed (use eq frame added(2) in simp_all)
  next
    case failed': failed
    have eq: "(res, s') = (None, s\<lparr> ns_snat_heap := ns_snat_heap s, ns_snat_tbl := t \<rparr>)"
      using new failed'(2) fresh by (simp add: dp_create_snat_data_def Some add)
    then have frame: "snat_frame s s'"
      by (simp add: snat_frame_def)
    show ?thesis
    proof (rule failed)
      show "nat_ok env s'"
        using eq obj by (intro snat_frame_ok [OF ok frame]) (simp add: obj_ok_cong [OF failed'(3)])
      show "snat_view env s' = snat_view env s"
        using eq by (simp add: snat_view_def obj_view_cong [OF failed'(3)])
    qed (use eq frame in simp_all)
  qed
qed

lemma upd_snat_ok:
  assumes ok: "nat_ok env s" and k: "rh_view (env_snat env) (ns_snat_tbl s) k = Some p"
    and d: "snat_view env s k = Some d"
  shows "snat_frame s (upd_snat p f s)" "nat_ok env (upd_snat p f s)"
    "snat_view env (upd_snat p f s) = (snat_view env s)(k \<mapsto> f d)"
proof -
  have hp: "ns_snat_heap s p = Some d"
    using d k by (auto simp: snat_view_def obj_view_Some)
  show frame: "snat_frame s (upd_snat p f s)"
    by (simp add: upd_snat_def snat_frame_def)
  show "nat_ok env (upd_snat p f s)"
    using obj_write(1) [OF nat_okD(8) [OF ok] k] by (intro snat_frame_ok [OF ok frame]) (simp add: upd_snat_def)
  show "snat_view env (upd_snat p f s) = (snat_view env s)(k \<mapsto> f d)"
    using obj_write(2) [OF nat_okD(8) [OF ok] k] hp by (simp add: upd_snat_def snat_view_def)
qed

lemma dp_delete_snat_data_ok:
  assumes ok: "nat_ok env s" and k: "rh_view (env_snat env) (ns_snat_tbl s) (nat_key ip vni) = Some p"
  shows "snat_frame s (dp_delete_snat_data env ip vni p s)" "nat_ok env (dp_delete_snat_data env ip vni p s)"
    "snat_view env (dp_delete_snat_data env ip vni p s) = (snat_view env s)(nat_key ip vni := None)"
proof -
  obtain r t where del: "rh_del (env_snat env) (ns_snat_tbl s) (nat_key ip vni) = (r, t)" by fastforce
  note t = obj_del [OF nat_okD(8) [OF ok] k rh_del_view(1) [OF nat_okD(1) [OF ok] del]]
  have s': "dp_delete_snat_data env ip vni p s = s\<lparr> ns_snat_tbl := t, ns_snat_heap := rte_free (ns_snat_heap s) p \<rparr>"
    using del by (simp add: dp_delete_snat_data_def)
  then show frame: "snat_frame s (dp_delete_snat_data env ip vni p s)"
    by (auto simp: snat_frame_def)
  show "nat_ok env (dp_delete_snat_data env ip vni p s)"
    using t(1) s' by (intro snat_frame_ok [OF ok frame]) simp
  show "snat_view env (dp_delete_snat_data env ip vni p s) = (snat_view env s)(nat_key ip vni := None)"
    using t(2) s' by (simp add: snat_view_def)
qed

text \<open>
  Both setters get or create the data of the interface and then fill it: the common part, with the
  test \<open>taken\<close> and the assignment \<open>f\<close>.
\<close>

definition snat_set :: "'t nat_env \<Rightarrow> u32 \<Rightarrow> u32 \<Rightarrow> (snat_data \<Rightarrow> bool) \<Rightarrow> (snat_data \<Rightarrow> snat_data) \<Rightarrow> 't nat_state \<Rightarrow> int \<times> 't nat_state" where
  "snat_set env ip vni taken f s =
     (case dp_get_iface_snat_data env ip vni s of
        None \<Rightarrow>
          (case dp_create_snat_data env ip vni s of
             (None, s1) \<Rightarrow> (DP_GRPC_ERR_SNAT_CREATE, s1)
           | (Some data, s1) \<Rightarrow> (DP_GRPC_OK, upd_snat data f s1))
      | Some data \<Rightarrow>
          if taken (the (ns_snat_heap s data)) then (DP_GRPC_ERR_SNAT_EXISTS, s)
          else (DP_GRPC_OK, upd_snat data f s))"

lemma dp_set_iface_snat_set:
  "dp_set_iface_vip_ip env ip vip vni ul s =
     snat_set env ip vni (\<lambda>d. sd_vip_ip d \<noteq> 0) (\<lambda>d. d\<lparr> sd_vip_ip := vip, sd_ul_vip_ip6 := ul \<rparr>) s"
  "dp_set_iface_nat_ip env ip nat_ip vni mn mx ul s =
     snat_set env ip vni (\<lambda>d. sd_nat_ip d \<noteq> 0)
       (\<lambda>d. d\<lparr> sd_ul_nat_ip6 := ul, sd_nat_ip := nat_ip, sd_port_min := mn, sd_port_max := mx \<rparr>) s"
  by (simp_all add: dp_set_iface_vip_ip_def dp_set_iface_nat_ip_def snat_set_def Let_def)

lemma snat_set_spec:
  assumes ok: "nat_ok env s" and set: "snat_set env ip vni taken f s = (r, s')"
  shows "snat_frame s s'" "nat_ok env s'"
    "snat_view env s' = (if DP_FAILED r then snat_view env s
       else (snat_view env s)(nat_key ip vni \<mapsto> f (case snat_view env s (nat_key ip vni) of None \<Rightarrow> zero_snat_data | Some d \<Rightarrow> d)))"
    "snat_view env s (nat_key ip vni) = Some d \<Longrightarrow> DP_FAILED r \<longleftrightarrow> taken d"
proof -
  let ?k = "nat_key ip vni"
  have "snat_frame s s' \<and> nat_ok env s' \<and>
     snat_view env s' = (if DP_FAILED r then snat_view env s
       else (snat_view env s)(?k \<mapsto> f (case snat_view env s ?k of None \<Rightarrow> zero_snat_data | Some d \<Rightarrow> d))) \<and>
     (\<forall>d. snat_view env s ?k = Some d \<longrightarrow> (DP_FAILED r \<longleftrightarrow> taken d))"
  proof (cases "rh_view (env_snat env) (ns_snat_tbl s) ?k")
    case None
    then have absent: "snat_view env s ?k = None"
      by (simp add: snat_view_def obj_view_None [OF nat_okD(8) [OF ok]])
    obtain res s1 where new: "dp_create_snat_data env ip vni s = (res, s1)" by fastforce
    from ok new show ?thesis
    proof (cases rule: dp_create_snat_data_cases)
      case failed
      then show ?thesis
        using set None new absent by (auto simp: snat_set_def dp_get_iface_snat_data_view)
    next
      case (created p)
      have s': "s' = upd_snat p f s1" "r = DP_GRPC_OK"
        using set None new created(1) by (auto simp: snat_set_def dp_get_iface_snat_data_view)
      have d: "snat_view env s1 ?k = Some zero_snat_data"
        by (simp add: created(4))
      note upd = upd_snat_ok [OF created(3) created(5) d, where f = f]
      show ?thesis
        using upd absent created(4) s' snat_frame_trans [OF created(2) upd(1)] by auto
    qed
  next
    case (Some p)
    then obtain d where d: "ns_snat_heap s p = Some d" "snat_view env s ?k = Some d"
      unfolding snat_view_def by (rule obj_ok_liveE [OF nat_okD(8) [OF ok]])
    note upd = upd_snat_ok [OF ok Some d(2), where f = f]
    show ?thesis
      using set Some d upd ok by (auto simp: snat_set_def dp_get_iface_snat_data_view snat_frame_def split: if_splits)
  qed
  then show "snat_frame s s'" "nat_ok env s'"
    "snat_view env s' = (if DP_FAILED r then snat_view env s
       else (snat_view env s)(?k \<mapsto> f (case snat_view env s ?k of None \<Rightarrow> zero_snat_data | Some d \<Rightarrow> d)))"
    "snat_view env s ?k = Some d \<Longrightarrow> DP_FAILED r \<longleftrightarrow> taken d"
    by auto
qed

text \<open>Both deleters: clear the one half of the data, or delete it when the other half is unused.\<close>

definition snat_del :: "'t nat_env \<Rightarrow> u32 \<Rightarrow> u32 \<Rightarrow> (snat_data \<Rightarrow> bool) \<Rightarrow> (snat_data \<Rightarrow> snat_data) \<Rightarrow> 't nat_state \<Rightarrow> int \<times> 't nat_state" where
  "snat_del env ip vni other f s =
     (case dp_get_iface_snat_data env ip vni s of
        None \<Rightarrow> (DP_GRPC_ERR_SNAT_NO_DATA, s)
      | Some data \<Rightarrow>
          if other (the (ns_snat_heap s data)) then (DP_GRPC_OK, upd_snat data f s)
          else (DP_GRPC_OK, dp_delete_snat_data env ip vni data s))"

lemma dp_del_iface_snat_del:
  "dp_del_iface_vip_ip env ip vni s = snat_del env ip vni (\<lambda>d. sd_nat_ip d \<noteq> 0) (\<lambda>d. d\<lparr> sd_vip_ip := 0 \<rparr>) s"
  "dp_del_iface_nat_ip env ip vni s =
     snat_del env ip vni (\<lambda>d. sd_vip_ip d \<noteq> 0) (\<lambda>d. d\<lparr> sd_nat_ip := 0, sd_port_min := 0, sd_port_max := 0 \<rparr>) s"
  by (simp_all add: dp_del_iface_vip_ip_def dp_del_iface_nat_ip_def snat_del_def)

lemma snat_del_spec:
  assumes ok: "nat_ok env s" and del: "snat_del env ip vni other f s = (r, s')"
  shows "snat_frame s s'" "nat_ok env s'" "DP_FAILED r \<longleftrightarrow> snat_view env s (nat_key ip vni) = None"
    "snat_view env s' = (case snat_view env s (nat_key ip vni) of
        None \<Rightarrow> snat_view env s
      | Some d \<Rightarrow> (snat_view env s)(nat_key ip vni := (if other d then Some (f d) else None)))"
proof -
  let ?k = "nat_key ip vni"
  have "snat_frame s s' \<and> nat_ok env s' \<and> (DP_FAILED r \<longleftrightarrow> snat_view env s ?k = None) \<and>
    snat_view env s' = (case snat_view env s ?k of None \<Rightarrow> snat_view env s
      | Some d \<Rightarrow> (snat_view env s)(?k := (if other d then Some (f d) else None)))"
  proof (cases "rh_view (env_snat env) (ns_snat_tbl s) ?k")
    case None
    then have "snat_view env s ?k = None"
      by (simp add: snat_view_def obj_view_None [OF nat_okD(8) [OF ok]])
    then show ?thesis
      using del None ok by (auto simp: snat_del_def dp_get_iface_snat_data_view snat_frame_def)
  next
    case (Some p)
    then obtain d where d: "ns_snat_heap s p = Some d" "snat_view env s ?k = Some d"
      unfolding snat_view_def by (rule obj_ok_liveE [OF nat_okD(8) [OF ok]])
    note upd = upd_snat_ok [OF ok Some d(2), where f = f]
    note rm = dp_delete_snat_data_ok [OF ok Some]
    show ?thesis
      using del Some d upd rm by (auto simp: snat_del_def dp_get_iface_snat_data_view split: if_splits)
  qed
  then show "snat_frame s s'" "nat_ok env s'" "DP_FAILED r \<longleftrightarrow> snat_view env s ?k = None"
    "snat_view env s' = (case snat_view env s ?k of None \<Rightarrow> snat_view env s
      | Some d \<Rightarrow> (snat_view env s)(?k := (if other d then Some (f d) else None)))"
    by auto
qed

text \<open>The virtual IPs and the network NATs are two keyed stores on one table.\<close>

abbreviation vip_put :: "'t nat_env \<Rightarrow> nat_key \<times> u32 \<times> ipv6_addr \<Rightarrow> 't nat_state \<Rightarrow> int \<times> 't nat_state" where
  "vip_put env \<equiv> \<lambda>(k, vip, ul). dp_set_iface_vip_ip env (nk_ip k) vip (nk_vni k) ul"

abbreviation vip_del :: "'t nat_env \<Rightarrow> nat_key \<Rightarrow> 't nat_state \<Rightarrow> int \<times> 't nat_state" where
  "vip_del env \<equiv> \<lambda>k. dp_del_iface_vip_ip env (nk_ip k) (nk_vni k)"

abbreviation netnat_put :: "'t nat_env \<Rightarrow> nat_key \<times> u32 \<times> u16 \<times> u16 \<times> ipv6_addr \<Rightarrow> 't nat_state \<Rightarrow> int \<times> 't nat_state" where
  "netnat_put env \<equiv> \<lambda>(k, nat_ip, mn, mx, ul). dp_set_iface_nat_ip env (nk_ip k) nat_ip (nk_vni k) mn mx ul"

abbreviation netnat_del :: "'t nat_env \<Rightarrow> nat_key \<Rightarrow> 't nat_state \<Rightarrow> int \<times> 't nat_state" where
  "netnat_del env \<equiv> \<lambda>k. dp_del_iface_nat_ip env (nk_ip k) (nk_vni k)"

lemma nat_key_eta [simp]: "nat_key (nk_ip k) (nk_vni k) = k"
  by simp

interpretation vip: keyed_store fst snd "\<lambda>e. fst (snd e) \<noteq> 0" "\<lambda>_. True" "nat_ok env" "vip_view env" "vip_put env" "vip_del env" for env
proof (unfold_locales, goal_cases)
  case (1 s e r s')
  then show ?case by (auto simp: dp_set_iface_snat_set intro: snat_set_spec(2) split: prod.splits)
next
  case (2 s e r s')
  obtain k vip ul where e: "e = (k, vip, ul)" by (cases e)
  have set: "snat_set env (nk_ip k) (nk_vni k) (\<lambda>d. sd_vip_ip d \<noteq> 0) (\<lambda>d. d\<lparr> sd_vip_ip := vip, sd_ul_vip_ip6 := ul \<rparr>) s = (r, s')"
    using 2 e by (simp add: dp_set_iface_snat_set)
  from snat_set_spec(3) [OF 2(1) set] show ?case
    using 2(2) e by (auto simp: vip_view_def fun_eq_iff)
next
  case (3 s e w r s')
  obtain k vip ul where e: "e = (k, vip, ul)" by (cases e)
  have set: "snat_set env (nk_ip k) (nk_vni k) (\<lambda>d. sd_vip_ip d \<noteq> 0) (\<lambda>d. d\<lparr> sd_vip_ip := vip, sd_ul_vip_ip6 := ul \<rparr>) s = (r, s')"
    using 3 e by (simp add: dp_set_iface_snat_set)
  show ?case
    using 3(3) e snat_set_spec(4) [OF 3(1) set] by (auto simp: vip_view_def split: option.splits if_splits)
next
  case (4 s k r s')
  then show ?case by (auto simp: dp_del_iface_snat_del intro: snat_del_spec(2))
next
  case (5 s k r s')
  have del: "snat_del env (nk_ip k) (nk_vni k) (\<lambda>d. sd_nat_ip d \<noteq> 0) (\<lambda>d. d\<lparr> sd_vip_ip := 0 \<rparr>) s = (r, s')"
    using 5 by (simp add: dp_del_iface_snat_del)
  from snat_del_spec(3,4) [OF 5(1) del] show ?case
    by (auto simp: vip_view_def fun_eq_iff split: option.splits)
qed

interpretation netnat: keyed_store fst snd "\<lambda>e. fst (snd e) \<noteq> 0" "\<lambda>_. True" "nat_ok env" "netnat_view env" "netnat_put env" "netnat_del env" for env
proof (unfold_locales, goal_cases)
  case (1 s e r s')
  then show ?case by (auto simp: dp_set_iface_snat_set intro: snat_set_spec(2) split: prod.splits)
next
  case (2 s e r s')
  obtain k nip mn mx ul where e: "e = (k, nip, mn, mx, ul)" by (cases e)
  have set: "snat_set env (nk_ip k) (nk_vni k) (\<lambda>d. sd_nat_ip d \<noteq> 0)
      (\<lambda>d. d\<lparr> sd_ul_nat_ip6 := ul, sd_nat_ip := nip, sd_port_min := mn, sd_port_max := mx \<rparr>) s = (r, s')"
    using 2 e by (simp add: dp_set_iface_snat_set)
  from snat_set_spec(3) [OF 2(1) set] show ?case
    using 2(2) e by (auto simp: netnat_view_def fun_eq_iff)
next
  case (3 s e w r s')
  obtain k nip mn mx ul where e: "e = (k, nip, mn, mx, ul)" by (cases e)
  have set: "snat_set env (nk_ip k) (nk_vni k) (\<lambda>d. sd_nat_ip d \<noteq> 0)
      (\<lambda>d. d\<lparr> sd_ul_nat_ip6 := ul, sd_nat_ip := nip, sd_port_min := mn, sd_port_max := mx \<rparr>) s = (r, s')"
    using 3 e by (simp add: dp_set_iface_snat_set)
  show ?case
    using 3(3) e snat_set_spec(4) [OF 3(1) set] by (auto simp: netnat_view_def split: option.splits if_splits)
next
  case (4 s k r s')
  then show ?case by (auto simp: dp_del_iface_snat_del intro: snat_del_spec(2))
next
  case (5 s k r s')
  have del: "snat_del env (nk_ip k) (nk_vni k) (\<lambda>d. sd_vip_ip d \<noteq> 0) (\<lambda>d. d\<lparr> sd_nat_ip := 0, sd_port_min := 0, sd_port_max := 0 \<rparr>) s = (r, s')"
    using 5 by (simp add: dp_del_iface_snat_del)
  from snat_del_spec(3,4) [OF 5(1) del] show ?case
    by (auto simp: netnat_view_def fun_eq_iff split: option.splits)
qed

subsection \<open>The DNAT table\<close>

definition dnat_frame :: "'t nat_state \<Rightarrow> 't nat_state \<Rightarrow> bool" where
  "dnat_frame s s' \<longleftrightarrow>
     ns_snat_tbl s' = ns_snat_tbl s \<and> ns_snat_heap s' = ns_snat_heap s \<and>
     ns_portmap_tbl s' = ns_portmap_tbl s \<and> ns_portmap_heap s' = ns_portmap_heap s \<and>
     ns_overload_tbl s' = ns_overload_tbl s \<and> ns_nat_headp s' = ns_nat_headp s"

lemma dnat_frame_ok:
  "nat_ok env s \<Longrightarrow> dnat_frame s s' \<Longrightarrow> obj_ok (env_dnat env) (ns_dnat_tbl s') (ns_dnat_heap s') \<Longrightarrow> nat_ok env s'"
  by (auto simp: dnat_frame_def nat_ok_def)

lemma dp_get_dnat_data_view:
  "dp_get_dnat_data env ip vni s = rh_view (env_dnat env) (ns_dnat_tbl s) (nat_key ip vni)"
  by (simp add: dp_get_dnat_data_def rh_view_def split: sum.splits)

lemma dp_set_dnat_ip_spec:
  assumes ok: "nat_ok env s" and set: "dp_set_dnat_ip env ip dip vni s = (r, s')"
  shows "dnat_frame s s' \<and> nat_ok env s' \<and>
    dnat_view env s' = (if DP_FAILED r then dnat_view env s else (dnat_view env s)(nat_key ip vni \<mapsto> \<lparr> dd_dnat_ip = dip \<rparr>)) \<and>
    (dnat_view env s (nat_key ip vni) \<noteq> None \<longrightarrow> DP_FAILED r)"
proof (cases "rh_view (env_dnat env) (ns_dnat_tbl s) (nat_key ip vni)")
  case (Some p)
  then show ?thesis
    using set ok by (auto simp: dp_set_dnat_ip_def dp_get_dnat_data_view dnat_frame_def)
next
  case absent: None
  note obj = nat_okD(9) [OF ok]
  have unbound: "dnat_view env s (nat_key ip vni) = None"
    using absent obj_view_None [OF obj] by (simp add: dnat_view_def)
  show ?thesis
  proof (cases "env_dnat_malloc env (ns_dnat_heap s)")
    case None
    then show ?thesis
      using set ok absent unbound by (auto simp: dp_set_dnat_ip_def dp_get_dnat_data_view dnat_frame_def)
  next
    case (Some p)
    obtain ret t where add: "rh_add_data (env_dnat env) (ns_dnat_tbl s) (nat_key ip vni) p = (ret, t)" by fastforce
    note fresh = rte_malloc_fresh [OF nat_okD(6) [OF ok] Some]
    from nat_okD(2) [OF ok] add show ?thesis
    proof (cases rule: rh_add_data_cases)
      case added
      have eq: "(r, s') = (DP_GRPC_OK, s\<lparr> ns_dnat_tbl := t, ns_dnat_heap := (ns_dnat_heap s)(p \<mapsto> \<lparr> dd_dnat_ip = dip \<rparr>) \<rparr>)"
        using set absent by (simp add: dp_set_dnat_ip_def dp_get_dnat_data_view Some add added(1))
      then have frame: "dnat_frame s s'"
        by (simp add: dnat_frame_def)
      have "nat_ok env s'"
        using eq obj_add(1) [OF obj fresh added(2)] by (intro dnat_frame_ok [OF ok frame]) simp
      then show ?thesis
        using eq frame obj_add(2) [OF obj fresh added(2)] unbound by (simp add: dnat_view_def)
    next
      case failed
      have eq: "(r, s') = (DP_GRPC_ERR_DNAT_CREATE, s\<lparr> ns_dnat_heap := ns_dnat_heap s, ns_dnat_tbl := t \<rparr>)"
        using set absent failed(2) fresh by (simp add: dp_set_dnat_ip_def dp_get_dnat_data_view Some add)
      then have frame: "dnat_frame s s'"
        by (simp add: dnat_frame_def)
      have "nat_ok env s'"
        using eq obj by (intro dnat_frame_ok [OF ok frame]) (simp add: obj_ok_cong [OF failed(3)])
      then show ?thesis
        using eq frame by (simp add: dnat_view_def obj_view_cong [OF failed(3)])
    qed
  qed
qed

lemma dp_del_dnat_ip_spec:
  assumes ok: "nat_ok env s" and del: "dp_del_dnat_ip env ip vni s = (r, s')"
  shows "dnat_frame s s' \<and> nat_ok env s' \<and> dnat_view env s' = (dnat_view env s)(nat_key ip vni := None) \<and>
    (DP_FAILED r \<longleftrightarrow> dnat_view env s (nat_key ip vni) = None)"
proof (cases "rh_view (env_dnat env) (ns_dnat_tbl s) (nat_key ip vni)")
  case None
  then have "dnat_view env s (nat_key ip vni) = None"
    using obj_view_None [OF nat_okD(9) [OF ok]] by (simp add: dnat_view_def)
  then show ?thesis
    using del None ok rh_lookup_view [OF nat_okD(2) [OF ok]] by (auto simp: dp_del_dnat_ip_def dnat_frame_def)
next
  case (Some p)
  obtain r t where rm: "rh_del (env_dnat env) (ns_dnat_tbl s) (nat_key ip vni) = (r, t)" by fastforce
  note t = obj_del [OF nat_okD(9) [OF ok] Some rh_del_view(1) [OF nat_okD(2) [OF ok] rm]]
  have eq: "dp_del_dnat_ip env ip vni s = (DP_GRPC_OK, s\<lparr> ns_dnat_heap := rte_free (ns_dnat_heap s) p, ns_dnat_tbl := t \<rparr>)"
    using Some rm by (simp add: dp_del_dnat_ip_def rh_lookup_Inr rh_lookup_view [OF nat_okD(2) [OF ok]])
  then have frame: "dnat_frame s s'"
    using del by (auto simp: dnat_frame_def)
  have "nat_ok env s'"
    using eq del t(1) by (intro dnat_frame_ok [OF ok frame]) auto
  moreover have "dnat_view env s (nat_key ip vni) \<noteq> None"
    using Some obj_view_None [OF nat_okD(9) [OF ok]] by (simp add: dnat_view_def)
  ultimately show ?thesis
    using eq del t(2) frame by (auto simp: dnat_view_def)
qed

interpretation dnat: keyed_store fst "\<lambda>e. \<lparr> dd_dnat_ip = snd e \<rparr>" "\<lambda>_. True" "\<lambda>_. True" "nat_ok env" "dnat_view env"
  "\<lambda>(k, dip). dp_set_dnat_ip env (nk_ip k) dip (nk_vni k)" "\<lambda>k. dp_del_dnat_ip env (nk_ip k) (nk_vni k)" for env
proof (unfold_locales, goal_cases)
  case (1 s e r s')
  then show ?case by (cases e) (auto dest: dp_set_dnat_ip_spec)
next
  case (2 s e r s')
  then show ?case by (cases e) (auto dest: dp_set_dnat_ip_spec)
next
  case (3 s e w r s')
  then show ?case by (cases e) (auto dest: dp_set_dnat_ip_spec)
next
  case (4 s k r s')
  then show ?case by (auto dest: dp_del_dnat_ip_spec)
next
  case (5 s k r s')
  have "dnat_view env s' = (dnat_view env s)(k := None)" "DP_FAILED r \<longleftrightarrow> dnat_view env s k = None"
    using dp_del_dnat_ip_spec [OF 5(1,3)] by simp_all
  then show ?case
    by (auto simp: fun_upd_idem_iff)
qed

subsection \<open>The neighbour NAT list\<close>

type_synonym neigh_key = "u32 \<times> u32 \<times> u16 \<times> u16"

definition entry_key :: "network_nat_entry \<Rightarrow> neigh_key" where
  "entry_key e = (ip4_of (ne_nat_ip6 e), ne_vni e, ne_port_min e, ne_port_max e)"

definition neigh_ok :: "network_nat_entry list \<Rightarrow> bool" where
  "neigh_ok headp \<longleftrightarrow> distinct (map entry_key headp)"

definition neigh_view :: "network_nat_entry list \<Rightarrow> neigh_key \<rightharpoonup> ipv6_addr" where
  "neigh_view headp = (\<lambda>(ip, vni, mn, mx). dp_get_network_nat_underlay_ip ip None vni mn mx headp)"

abbreviation neigh_put :: "bool \<Rightarrow> neigh_key \<times> ipv6_addr \<Rightarrow> network_nat_entry list \<Rightarrow> int \<times> network_nat_entry list" where
  "neigh_put alloc \<equiv> \<lambda>((ip, vni, mn, mx), ul). dp_add_network_nat_entry alloc ip None vni mn mx ul"

abbreviation neigh_del :: "neigh_key \<Rightarrow> network_nat_entry list \<Rightarrow> int \<times> network_nat_entry list" where
  "neigh_del \<equiv> \<lambda>(ip, vni, mn, mx). dp_del_network_nat_entry ip None vni mn mx"

lemma dp_is_network_nat_entry_key:
  "dp_is_network_nat_entry e ip None vni mn mx \<longleftrightarrow> ip \<noteq> 0 \<and> entry_key e = (ip, vni, mn, mx)"
  by (auto simp: dp_is_network_nat_entry_def dp_is_network_nat_ip_def entry_key_def)

lemma neigh_view_append:
  "neigh_view (es @ [e]) k = (case neigh_view es k of None \<Rightarrow> if fst k \<noteq> 0 \<and> entry_key e = k then Some (ne_dst_ipv6 e) else None | Some x \<Rightarrow> Some x)"
  by (induction es) (auto simp: neigh_view_def dp_is_network_nat_entry_key split: prod.splits)

lemma neigh_view_None: "neigh_view es k = None \<longleftrightarrow> fst k = 0 \<or> k \<notin> entry_key ` set es"
  by (induction es) (auto simp: neigh_view_def dp_is_network_nat_entry_key split: prod.splits)

lemma neigh_view_filter: "neigh_view (filter (\<lambda>e. entry_key e \<noteq> k) es) k' = (if k' = k then None else neigh_view es k')"
  by (induction es) (auto simp: neigh_view_def dp_is_network_nat_entry_key split: prod.splits)

lemma dp_del_network_nat_entry_eq:
  assumes "neigh_ok es"
  shows "neigh_del k es = (if neigh_view es k = None then (DP_GRPC_ERR_NOT_FOUND, es) else (DP_GRPC_OK, filter (\<lambda>e. entry_key e \<noteq> k) es))"
  using assms
proof (induction es)
  case Nil
  then show ?case by (auto simp: neigh_view_def split: prod.splits)
next
  case (Cons e es)
  obtain ip vni mn mx where k: "k = (ip, vni, mn, mx)" by (cases k)
  have other: "filter (\<lambda>x. entry_key x \<noteq> entry_key e) es = es"
    using Cons.prems by (intro filter_True) (auto simp: neigh_ok_def image_iff)
  show ?case
  proof (cases "ip \<noteq> 0 \<and> entry_key e = k")
    case True
    then show ?thesis
      using other k by (simp add: neigh_view_def dp_is_network_nat_entry_key)
  next
    case False
    then have "neigh_view (e # es) k = neigh_view es k"
      using k by (auto simp: neigh_view_def dp_is_network_nat_entry_key)
    moreover have "neigh_view es k = None" if "entry_key e = k"
      using False k that by (simp add: neigh_view_None)
    moreover have "neigh_del k (e # es) = (let (r, es') = neigh_del k es in (r, e # es'))"
      using False k by (auto simp: dp_is_network_nat_entry_key)
    ultimately show ?thesis
      using Cons by (auto simp: neigh_ok_def)
  qed
qed

lemma dp_add_network_nat_entry_eq:
  assumes "ip \<noteq> 0"
  shows "dp_add_network_nat_entry alloc ip None vni mn mx ul es =
    (if neigh_view es (ip, vni, mn, mx) \<noteq> None then (DP_GRPC_ERR_ALREADY_EXISTS, es)
     else if alloc then (DP_GRPC_OK, es @ [\<lparr> ne_nat_ip6 = ip4_write ip 0, ne_port_min = mn, ne_port_max = mx, ne_vni = vni, ne_dst_ipv6 = ul \<rparr>])
     else (DP_GRPC_ERR_OUT_OF_MEMORY, es))"
proof -
  have "list_ex (\<lambda>e. dp_is_network_nat_entry e ip None vni mn mx) es \<longleftrightarrow> neigh_view es (ip, vni, mn, mx) \<noteq> None"
    using assms by (force simp: neigh_view_None list_ex_iff dp_is_network_nat_entry_key)
  then show ?thesis
    using assms by (simp add: dp_add_network_nat_entry_def)
qed

interpretation neigh: keyed_store fst snd "\<lambda>e. fst (fst e) \<noteq> 0" "\<lambda>_. True" neigh_ok neigh_view "neigh_put alloc" neigh_del for alloc
proof (unfold_locales, goal_cases)
  case (1 s e r s')
  then show ?case
    by (auto simp: dp_add_network_nat_entry_eq neigh_ok_def neigh_view_None entry_key_def split: prod.splits if_splits)
next
  case (2 s e r s')
  then show ?case
    by (auto simp: dp_add_network_nat_entry_eq neigh_view_append fun_eq_iff entry_key_def split: prod.splits if_splits option.splits)
next
  case (3 s e w r s')
  then show ?case
    by (auto simp: dp_add_network_nat_entry_eq split: prod.splits)
next
  case (4 s k r s')
  then show ?case
    by (auto simp: dp_del_network_nat_entry_eq neigh_ok_def distinct_map_filter split: if_splits)
next
  case (5 s k r s')
  then show ?case
    by (auto simp: dp_del_network_nat_entry_eq neigh_view_filter fun_eq_iff split: if_splits)
qed

subsection \<open>Port search\<close>

definition snat_candidate :: "u32 \<Rightarrow> u16 \<Rightarrow> u16 \<Rightarrow> u16 \<Rightarrow> u16" where
  "snat_candidate hash min_port max_port p =
     min_port + ucast ((hash + ucast p) mod (ucast (max_port - min_port) :: u32))"

definition port_free :: "'t nat_env \<Rightarrow> 't nat_state \<Rightarrow> netnat_portoverload_tbl_key \<Rightarrow> u16 \<Rightarrow> bool" where
  "port_free env s key port \<longleftrightarrow> key\<lparr> ok_nat_port := port \<rparr> \<notin> overload_used env s"

lemma snat_port_loop_find:
  assumes "nat_ok env s"
  shows "snat_port_loop env s key hash mn mx n p =
    Inr (case find (\<lambda>i. port_free env s key (snat_candidate hash mn mx (p + of_nat i))) [0..<n] of
      None \<Rightarrow> 0 | Some i \<Rightarrow> snat_candidate hash mn mx (p + of_nat i))"
proof (induction n arbitrary: p)
  case (Suc n)
  have upt: "[0..<Suc n] = 0 # map Suc [0..<n]"
    by (simp add: map_Suc_upt upt_conv_Cons del: upt_Suc)
  have free: "port_free env s key (snat_candidate hash mn mx p) \<longleftrightarrow>
      rh_view (env_overload env) (ns_overload_tbl s) (key\<lparr> ok_nat_port := snat_candidate hash mn mx p \<rparr>) = None"
    by (simp add: port_free_def overload_used_def domIff)
  have find_map: "find P (map Suc xs) = map_option Suc (find (P \<circ> Suc) xs)" for P xs
    by (induction xs) auto
  show ?case
  proof (cases "port_free env s key (snat_candidate hash mn mx p)")
    case True
    then show ?thesis
      unfolding upt using rh_lookup_view [OF nat_okD(4) [OF assms]] free
      by (simp add: Let_def snat_candidate_def)
  next
    case False
    then show ?thesis
      unfolding upt using Suc [of "p + 1"] rh_lookup_view [OF nat_okD(4) [OF assms]] free
      by (auto simp: Let_def snat_candidate_def find_map comp_def add.assoc split: option.splits)
  qed
qed simp

lemma mod_shift_surj:
  assumes "0 < (m :: nat)" "r < m"
  shows "\<exists>i < m. (h + i) mod m = r"
proof -
  let ?i = "(r + (m - h mod m)) mod m"
  have "(h + ?i) mod m = (h mod m + (r + (m - h mod m))) mod m"
    by (simp add: mod_simps)
  also have "\<dots> = (r + m) mod m"
    using less_imp_le [OF mod_less_divisor [OF assms(1), of h]] by (intro arg_cong [of _ _ "\<lambda>x. x mod m"]) linarith
  finally show ?thesis
    using assms by (intro exI [of _ ?i]) simp
qed

lemma unat_snat_candidate:
  assumes "mn < mx"
  shows "unat (snat_candidate hash mn mx p) = unat mn + unat (hash + ucast p) mod (unat mx - unat mn)"
proof -
  let ?m = "unat mx - unat mn" and ?x = "(hash + ucast p) mod (ucast (mx - mn) :: u32)"
  have lt: "unat mn < unat mx"
    using assms by (simp add: word_less_nat_alt)
  have mx: "unat mx < 2 ^ LENGTH(16)"
    by (rule unsigned_less)
  have m: "unat (mx - mn) = ?m"
    using assms by (intro unat_sub) simp
  have "unat (ucast (mx - mn) :: u32) = ?m"
    using mx by (simp add: unsigned_ucast_eq m take_bit_nat_eq_self)
  then have x: "unat ?x = unat (hash + ucast p) mod ?m"
    by (simp add: unat_mod_distrib)
  have "unat ?x < ?m"
    unfolding x using lt by simp
  then have "unat (ucast ?x :: u16) = unat (hash + ucast p) mod ?m"
    using mx by (simp add: unsigned_ucast_eq x take_bit_nat_eq_self)
  moreover have "unat mn + unat (hash + ucast p) mod ?m < 65536"
  proof -
    have "unat (hash + ucast p) mod ?m < ?m"
      by (rule mod_less_divisor) (use lt in simp)
    moreover have "unat mx < 65536"
      using mx by simp
    ultimately show ?thesis
      using lt by linarith
  qed
  ultimately show ?thesis
    unfolding snat_candidate_def by (subst unat_plus_if') auto
qed


lemma snat_candidate_range:
  assumes "mn < mx"
  shows "mn \<le> snat_candidate hash mn mx p \<and> snat_candidate hash mn mx p < mx"
proof -
  have "unat mn < unat mx"
    using assms by (simp add: word_less_nat_alt)
  then have "unat (hash + ucast p) mod (unat mx - unat mn) < unat mx - unat mn"
    by simp
  then show ?thesis
    by (simp add: word_le_nat_alt word_less_nat_alt unat_snat_candidate [OF assms])
qed

text \<open>Unless the 32-bit hash wraps around, the candidates cover the whole range.\<close>

lemma snat_candidate_covers:
  assumes "mn < mx" "unat hash + (unat mx - unat mn) \<le> 2 ^ 32" "mn \<le> port" "port < mx"
  shows "\<exists>i < unat mx - unat mn. snat_candidate hash mn mx (of_nat i) = port"
proof -
  let ?m = "unat mx - unat mn"
  have lt: "unat mn \<le> unat port" "unat port < unat mx" "unat mx < 2 ^ LENGTH(16)"
    using assms(3,4) unsigned_less [of mx] by (simp_all add: word_le_nat_alt word_less_nat_alt)
  then have r: "unat port - unat mn < ?m"
    by (intro diff_less_mono)
  then have "0 < ?m" by linarith
  with r obtain i where i: "i < ?m" "(unat hash + i) mod ?m = unat port - unat mn"
    using mod_shift_surj by blast
  have "i < 2 ^ 16"
    using i(1) lt by simp
  then have "unat (ucast (of_nat i :: u16) :: u32) = i"
    by (simp add: unsigned_ucast_eq unat_of_nat take_bit_nat_eq_self)
  then have "unat (hash + ucast (of_nat i :: u16)) = unat hash + i"
    using assms(2) i(1) by (subst unat_plus_if') auto
  then have "unat (snat_candidate hash mn mx (of_nat i)) = unat port"
    using i(2) lt by (simp add: unat_snat_candidate [OF assms(1)])
  then show ?thesis
    using i(1) by (auto simp: word_unat_eq_iff)
qed

lemma snat_find_port_result:
  assumes ok: "nat_ok env s" and res: "snat_find_port env s key hash mn mx = res"
  obtains (full) "res = Inr 0"
    | (found) port where "res = Inr port" "port_free env s key port" "mn \<le> port" "port < mx"
proof (cases "mn < mx")
  case True
  show thesis
  proof (cases "find (\<lambda>i. port_free env s key (snat_candidate hash mn mx (0 + of_nat i))) [0..<unat mx - unat mn]")
    case None
    then show thesis
      using full res unfolding snat_find_port_def snat_port_loop_find [OF ok] by simp
  next
    case (Some i)
    then have "port_free env s key (snat_candidate hash mn mx (of_nat i))"
      by (auto simp: find_Some_iff)
    with Some res snat_candidate_range [OF True] show thesis
      unfolding snat_find_port_def snat_port_loop_find [OF ok]
      by (intro found [of "snat_candidate hash mn mx (of_nat i)"]) auto
  qed
next
  case False
  then have "unat mx - unat mn = 0"
    by (simp add: word_less_nat_alt)
  then show thesis
    using res full by (simp add: snat_find_port_def)
qed

lemma snat_find_port_complete:
  assumes ok: "nat_ok env s" and range: "0 < mn" "mn \<le> port" "port < mx"
    and hash: "unat hash + (unat mx - unat mn) \<le> 2 ^ 32" and free: "port_free env s key port"
  shows "\<exists>q. snat_find_port env s key hash mn mx = Inr q \<and> q \<noteq> 0 \<and> port_free env s key q \<and> mn \<le> q \<and> q < mx"
proof -
  have lt: "mn < mx"
    using range by simp
  let ?P = "\<lambda>i. port_free env s key (snat_candidate hash mn mx (0 + of_nat i))"
  obtain i where "i < unat mx - unat mn" "?P i"
    using snat_candidate_covers [OF lt hash range(2,3)] free by auto
  then obtain j where j: "find ?P [0..<unat mx - unat mn] = Some j"
    by (cases "find ?P [0..<unat mx - unat mn]") (auto simp: find_None_iff)
  then have "?P j"
    by (auto simp: find_Some_iff)
  moreover have "snat_find_port env s key hash mn mx = Inr (snat_candidate hash mn mx (of_nat j))"
    using j unfolding snat_find_port_def snat_port_loop_find [OF ok] by simp
  moreover note snat_candidate_range [OF lt, of hash "of_nat j"]
  ultimately show ?thesis
    using range(1) by (intro exI [of _ "snat_candidate hash mn mx (of_nat j)"]) auto
qed

subsection \<open>Port allocation and release\<close>

lemma upd_portmap_ok:
  assumes ok: "nat_ok env s" and k: "rh_view (env_portmap env) (ns_portmap_tbl s) k = Some p"
    and d: "portmap_view env s k = Some d"
  shows "nat_ok env (upd_portmap p f s)" "portmap_view env (upd_portmap p f s) = (portmap_view env s)(k \<mapsto> f d)"
    "overload_used env (upd_portmap p f s) = overload_used env s"
    "ns_portmap_heap (upd_portmap p f s) p = Some (f d)"
    "ns_portmap_tbl (upd_portmap p f s) = ns_portmap_tbl s"
    "ns_overload_tbl (upd_portmap p f s) = ns_overload_tbl s"
proof -
  have hp: "ns_portmap_heap s p = Some d"
    using d k by (auto simp: portmap_view_def obj_view_Some)
  show "nat_ok env (upd_portmap p f s)" "portmap_view env (upd_portmap p f s) = (portmap_view env s)(k \<mapsto> f d)"
    using ok obj_write [OF nat_okD(10) [OF ok] k] hp by (simp_all add: upd_portmap_def portmap_view_def nat_ok_def)
qed (use d k in \<open>auto simp: upd_portmap_def overload_used_def portmap_view_def obj_view_Some\<close>)

lemma portmap_viewE:
  assumes ok: "nat_ok env s"
  obtains (absent) "rh_view (env_portmap env) (ns_portmap_tbl s) k = None" "portmap_view env s k = None"
    | (present) p d where "rh_view (env_portmap env) (ns_portmap_tbl s) k = Some p" "portmap_view env s k = Some d" "ns_portmap_heap s p = Some d"
proof (cases "rh_view (env_portmap env) (ns_portmap_tbl s) k")
  case None
  then show thesis
    using absent obj_view_None [OF nat_okD(10) [OF ok]] by (simp add: portmap_view_def)
next
  case (Some p)
  then obtain d where "ns_portmap_heap s p = Some d" "portmap_view env s k = Some d"
    unfolding portmap_view_def by (rule obj_ok_liveE [OF nat_okD(10) [OF ok]])
  with Some present show thesis by blast
qed

text \<open>The reuse step on the abstract views.\<close>

lemma snat_reuse_port_cases:
  assumes ok: "nat_ok env s"
  obtains (reuse) p d where "rh_view (env_portmap env) (ns_portmap_tbl s) pk = Some p" "portmap_view env s pk = Some d"
      "port_free env s key (pd_nat_port d)"
      "snat_reuse_port env pk key s = Inr (upd_portmap p (\<lambda>d. d\<lparr> pd_flow_cnt := pd_flow_cnt d + 1 \<rparr>) s, pd_nat_port d, False)"
  | (search) "snat_reuse_port env pk key s = Inr (s, 0, True)"
      "case portmap_view env s pk of None \<Rightarrow> True | Some d \<Rightarrow> \<not> port_free env s key (pd_nat_port d)"
  using ok
proof (cases rule: portmap_viewE [of env s pk])
  case absent
  then show thesis
    using search rh_lookup_view [OF nat_okD(3) [OF ok]] by (simp add: snat_reuse_port_def)
next
  case (present p d)
  have free: "port_free env s key (pd_nat_port d) \<longleftrightarrow>
      rh_view (env_overload env) (ns_overload_tbl s) (key\<lparr> ok_nat_port := pd_nat_port d \<rparr>) = None"
    by (simp add: port_free_def overload_used_def domIff)
  show thesis
  proof (cases "port_free env s key (pd_nat_port d)")
    case True
    with present free reuse [of p d] show thesis
      by (simp add: snat_reuse_port_def rh_lookup_view [OF nat_okD(3) [OF ok]] rh_lookup_view [OF nat_okD(4) [OF ok]])
  next
    case False
    with present free search show thesis
      by (auto simp: snat_reuse_port_def rh_lookup_view [OF nat_okD(3) [OF ok]] rh_lookup_view [OF nat_okD(4) [OF ok]])
  qed
qed


text \<open>What a successful allocation of \<open>port\<close> means on the abstract views.\<close>

definition snat_allocated ::
  "'t nat_env \<Rightarrow> 't nat_state \<Rightarrow> snat_data \<Rightarrow> netnat_portmap_key \<Rightarrow> netnat_portoverload_tbl_key \<Rightarrow> u16 \<Rightarrow> 't nat_state \<Rightarrow> bool" where
  "snat_allocated env s sd pk key port s' \<longleftrightarrow>
     port_free env s key port \<and>
     overload_used env s' = insert (key\<lparr> ok_nat_port := port \<rparr>) (overload_used env s) \<and>
     (case portmap_view env s pk of
        Some d \<Rightarrow>
          if port_free env s key (pd_nat_port d)
          then port = pd_nat_port d \<and> portmap_view env s' = (portmap_view env s)(pk \<mapsto> d\<lparr> pd_flow_cnt := pd_flow_cnt d + 1 \<rparr>)
          else sd_port_min sd \<le> port \<and> port < sd_port_max sd \<and>
               portmap_view env s' = (portmap_view env s)(pk \<mapsto> \<lparr> pd_nat_ip = sd_nat_ip sd, pd_nat_port = port, pd_flow_cnt = 1 \<rparr>)
      | None \<Rightarrow>
          sd_port_min sd \<le> port \<and> port < sd_port_max sd \<and>
          portmap_view env s' = (portmap_view env s)(pk \<mapsto> \<lparr> pd_nat_ip = sd_nat_ip sd, pd_nat_port = port, pd_flow_cnt = 1 \<rparr>))"

lemma overload_used_add:
  assumes "nat_ok env s" "rh_add_key (env_overload env) (ns_overload_tbl s) k = (r, t)" "\<not> DP_FAILED r"
  shows "overload_used env (s\<lparr> ns_overload_tbl := t \<rparr>) = insert k (overload_used env s)"
  using nat_okD(4) [OF assms(1)] assms(2)
  by (cases rule: rh_add_key_cases) (use assms(3) in \<open>auto simp: overload_used_def\<close>)

lemma nat_ok_overload [simp]: "nat_ok env (s\<lparr> ns_overload_tbl := t \<rparr>) = nat_ok env s"
  by (simp add: nat_ok_def)

lemma portmap_view_overload [simp]: "portmap_view env (s\<lparr> ns_overload_tbl := t \<rparr>) = portmap_view env s"
  by (simp add: portmap_view_def)

text \<open>The last part of the allocation: a new mapping for the chosen port.\<close>

lemma portmap_add_cases:
  assumes ok: "nat_ok env s" and m: "env_portmap_malloc env (ns_portmap_heap s) = Some p"
    and add: "rh_add_data (env_portmap env) (ns_portmap_tbl s) pk p = (ret, t)" and ret: "\<not> DP_FAILED ret"
  shows "nat_ok env (s\<lparr> ns_portmap_heap := (ns_portmap_heap s)(p \<mapsto> d), ns_portmap_tbl := t \<rparr>)"
    "portmap_view env (s\<lparr> ns_portmap_heap := (ns_portmap_heap s)(p \<mapsto> d), ns_portmap_tbl := t \<rparr>) = (portmap_view env s)(pk \<mapsto> d)"
proof -
  note fresh = rte_malloc_fresh [OF nat_okD(7) [OF ok] m]
  have t: "rh_view (env_portmap env) t = (rh_view (env_portmap env) (ns_portmap_tbl s))(pk \<mapsto> p)"
    using nat_okD(3) [OF ok] add by (cases rule: rh_add_data_cases) (use ret in auto)
  note obj = obj_add [OF nat_okD(10) [OF ok] fresh t]
  show "nat_ok env (s\<lparr> ns_portmap_heap := (ns_portmap_heap s)(p \<mapsto> d), ns_portmap_tbl := t \<rparr>)"
    "portmap_view env (s\<lparr> ns_portmap_heap := (ns_portmap_heap s)(p \<mapsto> d), ns_portmap_tbl := t \<rparr>) = (portmap_view env s)(pk \<mapsto> d)"
    using ok obj by (simp_all add: nat_ok_def portmap_view_def)
qed

lemma allocate_reuse:
  assumes ok: "nat_ok env s" and p: "rh_view (env_portmap env) (ns_portmap_tbl s) pk = Some p"
    and d: "portmap_view env s pk = Some d" "port_free env s key (pd_nat_port d)"
    and add: "rh_add_key (env_overload env) (ns_overload_tbl s) (key\<lparr> ok_nat_port := pd_nat_port d \<rparr>) = (ret, t)" "\<not> DP_FAILED ret"
    and s': "s' = (upd_portmap p (\<lambda>d. d\<lparr> pd_flow_cnt := pd_flow_cnt d + 1 \<rparr>) s)\<lparr> ns_overload_tbl := t \<rparr>"
  shows "nat_ok env s' \<and> snat_allocated env s sd pk key (pd_nat_port d) s'"
proof -
  note upd = upd_portmap_ok [OF ok p d(1), where f = "\<lambda>d. d\<lparr> pd_flow_cnt := pd_flow_cnt d + 1 \<rparr>"]
  have "overload_used env s' = insert (key\<lparr> ok_nat_port := pd_nat_port d \<rparr>) (overload_used env s)"
    using overload_used_add [OF ok add] by (simp add: s' overload_used_def)
  then show ?thesis
    using upd d by (simp add: s' snat_allocated_def)
qed

lemma allocate_new:
  assumes ok: "nat_ok env s" and port: "port_free env s key port" "sd_port_min sd \<le> port" "port < sd_port_max sd"
    and search: "case portmap_view env s pk of None \<Rightarrow> True | Some d \<Rightarrow> \<not> port_free env s key (pd_nat_port d)"
    and add: "rh_add_key (env_overload env) (ns_overload_tbl s) (key\<lparr> ok_nat_port := port \<rparr>) = (ret, t)" "\<not> DP_FAILED ret"
    and m: "env_portmap_malloc env (ns_portmap_heap s) = Some p"
    and padd: "rh_add_data (env_portmap env) (ns_portmap_tbl s) pk p = (pret, pt)" "\<not> DP_FAILED pret"
    and s': "s' = s\<lparr> ns_overload_tbl := t, ns_portmap_heap := (ns_portmap_heap s)(p \<mapsto>
      \<lparr> pd_nat_ip = sd_nat_ip sd, pd_nat_port = port, pd_flow_cnt = 1 \<rparr>), ns_portmap_tbl := pt \<rparr>"
  shows "nat_ok env s' \<and> snat_allocated env s sd pk key port s'"
proof -
  let ?s2 = "s\<lparr> ns_overload_tbl := t \<rparr>"
  have used: "overload_used env s' = insert (key\<lparr> ok_nat_port := port \<rparr>) (overload_used env s)"
    using overload_used_add [OF ok add] by (simp add: s' overload_used_def)
  have "nat_ok env ?s2" "env_portmap_malloc env (ns_portmap_heap ?s2) = Some p"
    "rh_add_data (env_portmap env) (ns_portmap_tbl ?s2) pk p = (pret, pt)"
    using ok m padd by simp_all
  from portmap_add_cases [OF this padd(2)] show ?thesis
    using used port search by (auto simp: s' snat_allocated_def split: option.splits)
qed

lemma dp_allocate_network_snat_port_spec:
  assumes ok: "nat_ok env s" and sd: "ns_snat_heap s snat = Some sd"
    and keys: "snat_keys df (sd_nat_ip sd) vni = Some (pk, key)"
    and alloc: "dp_allocate_network_snat_port env ts snat df vni s = Some (r, s')" and r: "0 \<le> r"
  shows "\<exists>port. r = uint port \<and> nat_ok env s' \<and> snat_allocated env s sd pk key port s'"
  using ok
proof (cases rule: snat_reuse_port_cases [of env s pk key])
  case (reuse p d)
  obtain ret t where add: "rh_add_key (env_overload env) (ns_overload_tbl s) (key\<lparr> ok_nat_port := pd_nat_port d \<rparr>) = (ret, t)"
    by fastforce
  have eq: "\<not> DP_FAILED ret" "r = uint (pd_nat_port d)"
    "s' = (upd_portmap p (\<lambda>d. d\<lparr> pd_flow_cnt := pd_flow_cnt d + 1 \<rparr>) s)\<lparr> ns_overload_tbl := t \<rparr>"
    using alloc sd keys reuse add r upd_portmap_ok(6) [OF ok reuse(1,2)]
    by (auto simp: dp_allocate_network_snat_port_def Let_def split: if_splits)
  show ?thesis
    using allocate_reuse [OF ok reuse(1,2,3) add eq(1,3)] eq(2) by blast
next
  case search
  let ?hash = "rh_hash (env_portmap env) (ns_portmap_tbl s) pk"
  from ok refl show ?thesis
  proof (cases rule: snat_find_port_result [of env s key ?hash "sd_port_min sd" "sd_port_max sd"])
    case full
    then show ?thesis
      using alloc sd keys search r by (auto simp: dp_allocate_network_snat_port_def Let_def)
  next
    case (found port)
    obtain ret t where add: "rh_add_key (env_overload env) (ns_overload_tbl s) (key\<lparr> ok_nat_port := port \<rparr>) = (ret, t)"
      by fastforce
    have ne: "port \<noteq> 0" "\<not> DP_FAILED ret"
      using alloc sd keys search found r add by (auto simp: dp_allocate_network_snat_port_def Let_def split: if_splits)
    obtain p where m: "env_portmap_malloc env (ns_portmap_heap s) = Some p"
      using alloc sd keys search found add ne
      by (cases "env_portmap_malloc env (ns_portmap_heap s)") (auto simp: dp_allocate_network_snat_port_def Let_def)
    obtain pret pt where padd: "rh_add_data (env_portmap env) (ns_portmap_tbl s) pk p = (pret, pt)"
      by fastforce
    have eq: "\<not> DP_FAILED pret" "r = uint port"
      "s' = s\<lparr> ns_overload_tbl := t, ns_portmap_heap := (ns_portmap_heap s)(p \<mapsto>
        \<lparr> pd_nat_ip = sd_nat_ip sd, pd_nat_port = port, pd_flow_cnt = 1 \<rparr>), ns_portmap_tbl := pt \<rparr>"
      using alloc sd keys search found r add ne m padd
      by (auto simp: dp_allocate_network_snat_port_def Let_def split: if_splits)
    show ?thesis
      using allocate_new [OF ok found(2-4) search(2) add ne(2) m padd eq(1,3)] eq(2) by blast
  qed
qed


lemma overload_used_del:
  assumes "nat_ok env s" "rh_del (env_overload env) (ns_overload_tbl s) k = (r, t)"
  shows "overload_used env (s\<lparr> ns_overload_tbl := t \<rparr>) = overload_used env s - {k}" "DP_FAILED r \<Longrightarrow> r = - ENOENT"
proof -
  show "overload_used env (s\<lparr> ns_overload_tbl := t \<rparr>) = overload_used env s - {k}"
    using rh_del_view(1) [OF nat_okD(4) [OF assms(1)] assms(2)] by (auto simp: overload_used_def split: if_splits)
  show "r = - ENOENT" if "DP_FAILED r"
    using rh_del_view(2,3) [OF nat_okD(4) [OF assms(1)] assms(2)] that
    by (cases "rh_view (env_overload env) (ns_overload_tbl s) k") auto
qed

lemma portmap_del:
  assumes ok: "nat_ok env s" and p: "rh_view (env_portmap env) (ns_portmap_tbl s) k = Some p"
    and del: "rh_del (env_portmap env) (ns_portmap_tbl s) k = (r, t)"
  shows "nat_ok env (s\<lparr> ns_portmap_tbl := t, ns_portmap_heap := rte_free (ns_portmap_heap s) p \<rparr>)"
    "portmap_view env (s\<lparr> ns_portmap_tbl := t, ns_portmap_heap := rte_free (ns_portmap_heap s) p \<rparr>) = (portmap_view env s)(k := None)"
    "\<not> DP_FAILED r"
  using obj_del [OF nat_okD(10) [OF ok] p rh_del_view(1) [OF nat_okD(3) [OF ok] del]] ok
    rh_del_view(3) [OF nat_okD(3) [OF ok] del p]
  by (simp_all add: nat_ok_def portmap_view_def)

text \<open>The effect of a release on the two views.\<close>

definition snat_released ::
  "'t nat_env \<Rightarrow> 't nat_state \<Rightarrow> netnat_portmap_key \<Rightarrow> netnat_portoverload_tbl_key \<Rightarrow> 't nat_state \<Rightarrow> bool" where
  "snat_released env s pk key s' \<longleftrightarrow>
     overload_used env s' = overload_used env s - {key} \<and>
     portmap_view env s' =
       (case portmap_view env s pk of
          None \<Rightarrow> portmap_view env s
        | Some d \<Rightarrow> (portmap_view env s)(pk := (if pd_flow_cnt d = 1 then None else Some (d\<lparr> pd_flow_cnt := pd_flow_cnt d - 1 \<rparr>))))"

lemma dp_remove_network_snat_port_spec:
  assumes ok: "nat_ok env s" and v4: "\<not> ip_is_v6 (fk_l3_dst (fv_flow_key cntrack DP_FLOW_DIR_REPLY))"
    and keys: "snat_release_keys cntrack = (pk, key)"
    and rm: "dp_remove_network_snat_port env cntrack ports s = (r, ports', s')"
  shows "nat_ok env s' \<and> snat_released env s pk key s' \<and>
    r = (if portmap_view env s pk \<noteq> None \<and> dp_get_port_by_id ports (fv_created_port_id cntrack) = None then DP_ERROR else DP_OK)"
proof -
  obtain ret t where del: "rh_del (env_overload env) (ns_overload_tbl s) key = (ret, t)" by fastforce
  let ?s1 = "s\<lparr> ns_overload_tbl := t \<rparr>"
  have ok1: "nat_ok env ?s1" using ok by simp
  note used = overload_used_del [OF ok del]
  have lookup: "rh_lookup (env_portmap env) (ns_portmap_tbl s) pk =
      (case rh_view (env_portmap env) (ns_portmap_tbl s) pk of None \<Rightarrow> Inl (- ENOENT) | Some p \<Rightarrow> Inr p)"
    by (rule rh_lookup_view [OF nat_okD(3) [OF ok]])
  have go_on: "(ret < 0 \<and> ret \<noteq> - ENOENT) = False"
    using used(2) by auto
  from ok1 show ?thesis
  proof (cases rule: portmap_viewE [of env ?s1 pk])
    case absent
    have "dp_remove_network_snat_port env cntrack ports s = (DP_OK, ports, ?s1)"
      using absent(1) by (simp add: dp_remove_network_snat_port_def v4 keys del lookup go_on Let_def)
    then show ?thesis
      using rm used(1) ok1 absent(2) by (simp add: snat_released_def)
  next
    case (present p d)
    let ?s2 = "upd_portmap p (\<lambda>d. d\<lparr> pd_flow_cnt := pd_flow_cnt d - 1 \<rparr>) ?s1"
    note upd = upd_portmap_ok [OF ok1 present(1,2), where f = "\<lambda>d. d\<lparr> pd_flow_cnt := pd_flow_cnt d - 1 \<rparr>"]
    have p2: "rh_view (env_portmap env) (ns_portmap_tbl ?s2) pk = Some p"
      using present(1) upd(5) by simp
    obtain pret pt where pdel: "rh_del (env_portmap env) (ns_portmap_tbl s) pk = (pret, pt)" by fastforce
    then have pdel2: "rh_del (env_portmap env) (ns_portmap_tbl ?s2) pk = (pret, pt)"
      using upd(5) by simp
    note gone = portmap_del [OF upd(1) p2 pdel2]
    define s3 where "s3 = (if pd_flow_cnt d = 1
      then ?s2\<lparr> ns_portmap_tbl := pt, ns_portmap_heap := rte_free (ns_portmap_heap ?s2) p \<rparr> else ?s2)"
    have "dp_remove_network_snat_port env cntrack ports s =
      (if dp_get_port_by_id ports (fv_created_port_id cntrack) = None then (DP_ERROR, ports, s3)
       else (DP_OK, dp_stats_nat_dec_used_port_cnt (fv_created_port_id cntrack) ports, s3))"
      using present(1) gone(3) upd(4) pdel2
      by (simp add: dp_remove_network_snat_port_def v4 keys del lookup go_on s3_def Let_def)
    moreover have "nat_ok env s3" "overload_used env s3 = overload_used env s - {key}"
      using upd(1,3) gone(1) used(1) by (auto simp: s3_def overload_used_def)
    moreover have "portmap_view env s3 = (portmap_view env s)(pk := (if pd_flow_cnt d = 1 then None else Some (d\<lparr> pd_flow_cnt := pd_flow_cnt d - 1 \<rparr>)))"
      using upd(2) gone(2) by (simp add: s3_def)
    ultimately show ?thesis
      using rm present(2) by (auto simp: snat_released_def split: if_splits)
  qed
qed

end
