(* ===== verification/Dp_Vni.thy ===== *)
theory Dp_Vni
  imports Dp_Rib Dp_Nat "HOL-Library.Monad_Syntax"
begin

text \<open>
  \<^verbatim>\<open>src/dp_vni.c\<close>, \<^verbatim>\<open>include/dp_vni.h\<close> and \<^verbatim>\<open>include/dp_refcount.h\<close>: the route tables of the virtual networks
  (VNIs).  Each has a reference count; the tables are created with the first reference and freed,
  together with the neighbour NAT entries of the network, with the last one.  A use of freed memory
  is \<open>None\<close>.  The operations are followed by the invariant: counts are positive and every table
  belongs to exactly one network.
\<close>

section \<open>Data\<close>

abbreviation (input) DP_NB_SOCKETS :: nat where "DP_NB_SOCKETS \<equiv> 2"
abbreviation IPPROTO_IPIP :: int where "IPPROTO_IPIP \<equiv> 4"
abbreviation IPPROTO_IPV6 :: int where "IPPROTO_IPV6 \<equiv> 41"

text \<open>The cast to \<^verbatim>\<open>unsigned int\<close> makes negative sockets large.\<close>

definition DP_SOCKETID :: "int \<Rightarrow> nat" where
  "DP_SOCKETID socket_id = (if socket_id < 0 \<or> int DP_NB_SOCKETS \<le> socket_id then 0 else nat socket_id)"

record dp_vni_data =
  vd_ipv4 :: "ptr option list"
  vd_ipv6 :: "ptr option list"
  vd_ref_count :: u32
  vd_socket_id :: int
  vd_vni :: u32

definition zero_vni_data :: dp_vni_data where
  "zero_vni_data = \<lparr> vd_ipv4 = replicate DP_NB_SOCKETS None, vd_ipv6 = replicate DP_NB_SOCKETS None,
     vd_ref_count = 0, vd_socket_id = 0, vd_vni = 0 \<rparr>"

record ('t, 'r4, 'r6) vni_env =
  env_vni :: "(u32, 't) rte_hash"
  env_vni_malloc :: "dp_vni_data rte_malloc"
  env_rib4 :: "(u32, 'r4) rte_rib"
  env_rib6 :: "(ipv6_addr, 'r6) rte_rib"

record ('t, 'r4, 'r6) vni_state =
  vt_tbl :: 't
  vt_heap :: "dp_vni_data heap"
  vt_rib4 :: "'r4 heap"
  vt_rib6 :: "'r6 heap"

section \<open>Reference counts\<close>

text \<open>\<^verbatim>\<open>dp_ref_inc\<close> aborts the program on a count of zero.  The second result of a decrement: call \<^verbatim>\<open>release\<close>.\<close>

abbreviation (input) dp_ref_init :: u32 where "dp_ref_init \<equiv> 1"

definition dp_ref_inc :: "u32 \<Rightarrow> u32 option" where
  "dp_ref_inc refcount = (if refcount = 0 then None else Some (refcount + 1))"

definition dp_ref_dec :: "u32 \<Rightarrow> u32 \<times> bool" where
  "dp_ref_dec refcount = (refcount - 1, refcount - 1 = 0)"

section \<open>Operations\<close>

definition dp_vni_init :: "(string \<Rightarrow> 't option) \<Rightarrow> int \<times> ('t, 'r4, 'r6) vni_state option" where
  "dp_vni_init create =
     (case create ''vni_handle_table'' of
        None \<Rightarrow> (DP_ERROR, None)
      | Some t \<Rightarrow> (DP_OK, Some \<lparr> vt_tbl = t, vt_heap = Map.empty, vt_rib4 = Map.empty, vt_rib6 = Map.empty \<rparr>))"

text \<open>The table in use: the one of the socket the data was created on.\<close>

definition vd_rib4 :: "dp_vni_data \<Rightarrow> ptr option" where
  "vd_rib4 data = vd_ipv4 data ! DP_SOCKETID (vd_socket_id data)"

definition vd_rib6 :: "dp_vni_data \<Rightarrow> ptr option" where
  "vd_rib6 data = vd_ipv6 data ! DP_SOCKETID (vd_socket_id data)"

definition dp_get_vni_data :: "('t, 'r4, 'r6) vni_env \<Rightarrow> u32 \<Rightarrow> ('t, 'r4, 'r6) vni_state \<Rightarrow> (dp_vni_data \<Rightarrow> 'a) \<Rightarrow> 'a \<Rightarrow> 'a option" where
  "dp_get_vni_data env vni s f dflt =
     (case rh_lookup (env_vni env) (vt_tbl s) vni of
        Inl ret \<Rightarrow> Some dflt
      | Inr p \<Rightarrow> map_option f (vt_heap s p))"

definition dp_get_vni_route4_table :: "('t, 'r4, 'r6) vni_env \<Rightarrow> u32 \<Rightarrow> ('t, 'r4, 'r6) vni_state \<Rightarrow> ptr option option" where
  "dp_get_vni_route4_table env vni s = dp_get_vni_data env vni s vd_rib4 None"

definition dp_get_vni_route6_table :: "('t, 'r4, 'r6) vni_env \<Rightarrow> u32 \<Rightarrow> ('t, 'r4, 'r6) vni_state \<Rightarrow> ptr option option" where
  "dp_get_vni_route6_table env vni s = dp_get_vni_data env vni s vd_rib6 None"

definition dp_is_vni_route_table_available :: "('t, 'r4, 'r6) vni_env \<Rightarrow> u32 \<Rightarrow> int \<Rightarrow> ('t, 'r4, 'r6) vni_state \<Rightarrow> bool option" where
  "dp_is_vni_route_table_available env vni type s =
     dp_get_vni_data env vni s
       (\<lambda>data. type = IPPROTO_IPIP \<and> vd_rib4 data \<noteq> None \<or> type = IPPROTO_IPV6 \<and> vd_rib6 data \<noteq> None) False"

text \<open>\<^verbatim>\<open>rte_rib_free(NULL)\<close> does nothing.\<close>

definition rib_free :: "'r heap \<Rightarrow> ptr option \<Rightarrow> 'r heap" where
  "rib_free h q = (case q of None \<Rightarrow> h | Some p \<Rightarrow> rte_free h p)"

definition dp_free_rib6 :: "dp_vni_data \<Rightarrow> ('t, 'r4, 'r6) vni_state \<Rightarrow> ('t, 'r4, 'r6) vni_state" where
  "dp_free_rib6 data s = s\<lparr> vt_rib6 := rib_free (vt_rib6 s) (vd_rib6 data) \<rparr>"

definition dp_free_rib :: "dp_vni_data \<Rightarrow> ('t, 'r4, 'r6) vni_state \<Rightarrow> ('t, 'r4, 'r6) vni_state" where
  "dp_free_rib data s = s\<lparr> vt_rib4 := rib_free (vt_rib4 s) (vd_rib4 data) \<rparr>"

definition dp_free_vni_data ::
  "ptr \<Rightarrow> ('t, 'r4, 'r6) vni_state \<Rightarrow> network_nat_entry list \<Rightarrow> (('t, 'r4, 'r6) vni_state \<times> network_nat_entry list) option" where
  "dp_free_vni_data p s headp =
     do {
       data \<leftarrow> vt_heap s p;
       let s1 = dp_free_rib data (dp_free_rib6 data s);
       Some (s1\<lparr> vt_heap := rte_free (vt_heap s1) p \<rparr>, dp_del_all_neigh_nat_entries_in_vni (vd_vni data) headp)
     }"

text \<open>The new table goes into the data that \<open>p\<close> points to.\<close>

definition dp_create_rib6 ::
  "('t, 'r4, 'r6) vni_env \<Rightarrow> u32 \<Rightarrow> int \<Rightarrow> ptr \<Rightarrow> ('t, 'r4, 'r6) vni_state \<Rightarrow> (int \<times> ('t, 'r4, 'r6) vni_state) option" where
  "dp_create_rib6 env vni socket_id p s =
     (case rb_create (env_rib6 env) vni socket_id (vt_rib6 s) of
        None \<Rightarrow> Some (DP_ERROR, s)
      | Some (new_rib6, r) \<Rightarrow>
          do {
            data \<leftarrow> vt_heap s p;
            Some (DP_OK, s\<lparr> vt_heap := (vt_heap s)(p \<mapsto> data\<lparr> vd_vni := vni, vd_socket_id := socket_id,
                              vd_ipv6 := (vd_ipv6 data)[DP_SOCKETID socket_id := Some new_rib6] \<rparr>),
                            vt_rib6 := (vt_rib6 s)(new_rib6 \<mapsto> r) \<rparr>)
          })"

definition dp_create_rib ::
  "('t, 'r4, 'r6) vni_env \<Rightarrow> u32 \<Rightarrow> int \<Rightarrow> ptr \<Rightarrow> ('t, 'r4, 'r6) vni_state \<Rightarrow> (int \<times> ('t, 'r4, 'r6) vni_state) option" where
  "dp_create_rib env vni socket_id p s =
     (case rb_create (env_rib4 env) vni socket_id (vt_rib4 s) of
        None \<Rightarrow> Some (DP_ERROR, s)
      | Some (new_rib, r) \<Rightarrow>
          do {
            data \<leftarrow> vt_heap s p;
            Some (DP_OK, s\<lparr> vt_heap := (vt_heap s)(p \<mapsto> data\<lparr> vd_vni := vni, vd_socket_id := socket_id,
                              vd_ipv4 := (vd_ipv4 data)[DP_SOCKETID socket_id := Some new_rib] \<rparr>),
                            vt_rib4 := (vt_rib4 s)(new_rib \<mapsto> r) \<rparr>)
          })"

definition dp_allocate_vni_route_tables ::
  "('t, 'r4, 'r6) vni_env \<Rightarrow> u32 \<Rightarrow> int \<Rightarrow> ('t, 'r4, 'r6) vni_state \<Rightarrow> (int \<times> ('t, 'r4, 'r6) vni_state) option" where
  "dp_allocate_vni_route_tables env vni socket_id s =
     (case env_vni_malloc env (vt_heap s) of
        None \<Rightarrow> Some (DP_ERROR, s)
      | Some p \<Rightarrow>
          do {
            let s = s\<lparr> vt_heap := (vt_heap s)(p \<mapsto> zero_vni_data) \<rparr>;
            (ret4, s) \<leftarrow> dp_create_rib env vni socket_id p s;
            if DP_FAILED ret4 then Some (DP_ERROR, s\<lparr> vt_heap := rte_free (vt_heap s) p \<rparr>)
            else do {
              (ret6, s) \<leftarrow> dp_create_rib6 env vni socket_id p s;
              data \<leftarrow> vt_heap s p;
              if DP_FAILED ret6 then
                Some (DP_ERROR, dp_free_rib data s\<lparr> vt_heap := rte_free (vt_heap s) p \<rparr>)
              else do {
                let (ret, tbl) = rh_add_data (env_vni env) (vt_tbl s) vni p;
                let s = s\<lparr> vt_tbl := tbl \<rparr>;
                if DP_FAILED ret then
                  Some (DP_ERROR, dp_free_rib data (dp_free_rib6 data s)\<lparr> vt_heap := rte_free (vt_heap s) p \<rparr>)
                else Some (DP_OK, s\<lparr> vt_heap := (vt_heap s)(p \<mapsto> data\<lparr> vd_ref_count := dp_ref_init \<rparr>) \<rparr>)
              }
            }
          })"

definition dp_create_vni_route_tables ::
  "('t, 'r4, 'r6) vni_env \<Rightarrow> u32 \<Rightarrow> int \<Rightarrow> ('t, 'r4, 'r6) vni_state \<Rightarrow> (int \<times> ('t, 'r4, 'r6) vni_state) option" where
  "dp_create_vni_route_tables env vni socket_id s =
     (case rh_lookup (env_vni env) (vt_tbl s) vni of
        Inl ret \<Rightarrow>
          if ret \<noteq> - ENOENT then Some (DP_ERROR, s) else dp_allocate_vni_route_tables env vni socket_id s
      | Inr p \<Rightarrow>
          do {
            data \<leftarrow> vt_heap s p;
            ref_count \<leftarrow> dp_ref_inc (vd_ref_count data);
            Some (DP_OK, s\<lparr> vt_heap := (vt_heap s)(p \<mapsto> data\<lparr> vd_ref_count := ref_count \<rparr>) \<rparr>)
          })"

definition dp_delete_vni_route_tables ::
  "('t, 'r4, 'r6) vni_env \<Rightarrow> u32 \<Rightarrow> ('t, 'r4, 'r6) vni_state \<Rightarrow> network_nat_entry list \<Rightarrow>
   (int \<times> ('t, 'r4, 'r6) vni_state \<times> network_nat_entry list) option" where
  "dp_delete_vni_route_tables env vni s headp =
     (case rh_lookup (env_vni env) (vt_tbl s) vni of
        Inl ret \<Rightarrow> Some (ret, s, headp)
      | Inr p \<Rightarrow>
          do {
            data \<leftarrow> vt_heap s p;
            let (ref_count, freed) = dp_ref_dec (vd_ref_count data);
            let s1 = s\<lparr> vt_heap := (vt_heap s)(p \<mapsto> data\<lparr> vd_ref_count := ref_count \<rparr>) \<rparr>;
            if freed then do {
              (s2, headp2) \<leftarrow> dp_free_vni_data p s1 headp;
              let (ret, tbl) = rh_del (env_vni env) (vt_tbl s2) vni;
              Some (if DP_FAILED ret then DP_ERROR else DP_OK, s2\<lparr> vt_tbl := tbl \<rparr>, headp2)
            } else Some (DP_OK, s1, headp)
          })"

definition dp_reset_vni_data ::
  "('t, 'r4, 'r6) vni_env \<Rightarrow> u32 \<Rightarrow> ptr \<Rightarrow> ('t, 'r4, 'r6) vni_state \<Rightarrow> (int \<times> ('t, 'r4, 'r6) vni_state) option" where
  "dp_reset_vni_data env vni p s =
     do {
       data \<leftarrow> vt_heap s p;
       let socket_id = DP_SOCKETID (vd_socket_id data);
       (ret4, s) \<leftarrow> (if vd_ipv4 data ! socket_id \<noteq> None
                     then dp_create_rib env vni (int socket_id) p (s\<lparr> vt_rib4 := rib_free (vt_rib4 s) (vd_ipv4 data ! socket_id) \<rparr>)
                     else Some (DP_OK, s));
       if DP_FAILED ret4 then Some (DP_ERROR, s)
       else do {
         data \<leftarrow> vt_heap s p;
         (ret6, s) \<leftarrow> (if vd_ipv6 data ! socket_id \<noteq> None
                       then dp_create_rib6 env vni (int socket_id) p (s\<lparr> vt_rib6 := rib_free (vt_rib6 s) (vd_ipv6 data ! socket_id) \<rparr>)
                       else Some (DP_OK, s));
         Some (if DP_FAILED ret6 then DP_ERROR else DP_OK, s)
       }
     }"

definition dp_reset_vni_route_tables ::
  "('t, 'r4, 'r6) vni_env \<Rightarrow> u32 \<Rightarrow> ('t, 'r4, 'r6) vni_state \<Rightarrow> (int \<times> ('t, 'r4, 'r6) vni_state) option" where
  "dp_reset_vni_route_tables env vni s =
     (case rh_lookup (env_vni env) (vt_tbl s) vni of
        Inl ret \<Rightarrow> Some (DP_OK, s)
      | Inr p \<Rightarrow> dp_reset_vni_data env vni p s)"

text \<open>
  The loop ends only with \<^verbatim>\<open>-ENOENT\<close>; another error of the iterator would leave the key undefined,
  which is \<open>None\<close> inside the loop's result.
\<close>

definition reset_body ::
  "('t, 'r4, 'r6) vni_env \<Rightarrow> u32 \<Rightarrow> ptr \<Rightarrow> ('t, 'r4, 'r6) vni_state \<Rightarrow> (int \<times> ('t, 'r4, 'r6) vni_state) option + ('t, 'r4, 'r6) vni_state" where
  "reset_body env vni p s =
     (case dp_reset_vni_data env vni p s of
        None \<Rightarrow> Inl None
      | Some (ret, s1) \<Rightarrow> if DP_FAILED ret then Inl (Some (DP_ERROR, s1)) else Inr s1)"

definition dp_reset_all_vni_route_tables ::
  "('t, 'r4, 'r6) vni_env \<Rightarrow> ('t, 'r4, 'r6) vni_state \<Rightarrow> (int \<times> ('t, 'r4, 'r6) vni_state) option" where
  "dp_reset_all_vni_route_tables env s =
     (if rh_count (env_vni env) (vt_tbl s) = 0 then Some (DP_OK, s)
      else do {
        res \<leftarrow> rh_foreach (env_vni env) vt_tbl (\<lambda>_ _. None) (reset_body env) 0 s;
        case res of Inl r \<Rightarrow> r | Inr s1 \<Rightarrow> Some (DP_OK, s1)
      })"

section \<open>Invariant\<close>

definition vni_view :: "('t, 'r4, 'r6) vni_env \<Rightarrow> ('t, 'r4, 'r6) vni_state \<Rightarrow> u32 \<rightharpoonup> dp_vni_data" where
  "vni_view env s = obj_view (env_vni env) (vt_tbl s) (vt_heap s)"

definition rib4_of :: "('t, 'r4, 'r6) vni_env \<Rightarrow> ('t, 'r4, 'r6) vni_state \<Rightarrow> u32 \<rightharpoonup> ptr" where
  "rib4_of env s vni = Option.bind (vni_view env s vni) vd_rib4"

definition rib6_of :: "('t, 'r4, 'r6) vni_env \<Rightarrow> ('t, 'r4, 'r6) vni_state \<Rightarrow> u32 \<rightharpoonup> ptr" where
  "rib6_of env s vni = Option.bind (vni_view env s vni) vd_rib6"

definition vni_env_ok :: "('t, 'r4, 'r6) vni_env \<Rightarrow> bool" where
  "vni_env_ok env \<longleftrightarrow> rte_hash_ok (env_vni env) \<and> rte_malloc_ok (env_vni_malloc env) \<and>
     rib_ok (env_rib4 env) ip4_prefix \<and> rib_ok (env_rib6 env) ip6_prefix"

definition vni_data_ok :: "u32 \<Rightarrow> dp_vni_data \<Rightarrow> bool" where
  "vni_data_ok vni data \<longleftrightarrow> vd_vni data = vni \<and> vd_ref_count data \<noteq> 0 \<and>
     length (vd_ipv4 data) = DP_NB_SOCKETS \<and> length (vd_ipv6 data) = DP_NB_SOCKETS \<and>
     vd_rib4 data \<noteq> None \<and> vd_rib6 data \<noteq> None"

definition vni_ok :: "('t, 'r4, 'r6) vni_env \<Rightarrow> ('t, 'r4, 'r6) vni_state \<Rightarrow> bool" where
  "vni_ok env s \<longleftrightarrow> vni_env_ok env \<and> owns (rh_view (env_vni env) (vt_tbl s)) (vt_heap s) \<and>
     (\<forall>vni data. vni_view env s vni = Some data \<longrightarrow> vni_data_ok vni data) \<and>
     owns (rib4_of env s) (vt_rib4 s) \<and> owns (rib6_of env s) (vt_rib6 s)"

text \<open>The routes of a network; no network is \<open>None\<close>.\<close>

definition routes4 ::
  "('t, 'r4, 'r6) vni_env \<Rightarrow> (u64 \<Rightarrow> bool) \<Rightarrow> ('t, 'r4, 'r6) vni_state \<Rightarrow> u32 \<Rightarrow> (u32 prefix \<rightharpoonup> route) option" where
  "routes4 env pf s vni = Option.bind (rib4_of env s vni) (\<lambda>p. map_option (route_view (env_rib4 env) ip4_prefix pf) (vt_rib4 s p))"

definition routes6 ::
  "('t, 'r4, 'r6) vni_env \<Rightarrow> (u64 \<Rightarrow> bool) \<Rightarrow> ('t, 'r4, 'r6) vni_state \<Rightarrow> u32 \<Rightarrow> (ipv6_addr prefix \<rightharpoonup> route) option" where
  "routes6 env pf s vni = Option.bind (rib6_of env s vni) (\<lambda>p. map_option (route_view (env_rib6 env) ip6_prefix pf) (vt_rib6 s p))"

text \<open>How many references a network has.\<close>

definition vni_refs :: "('t, 'r4, 'r6) vni_env \<Rightarrow> ('t, 'r4, 'r6) vni_state \<Rightarrow> u32 \<Rightarrow> nat" where
  "vni_refs env s vni = (case vni_view env s vni of None \<Rightarrow> 0 | Some data \<Rightarrow> unat (vd_ref_count data))"

lemma rte_free_simps [simp]: "rte_free h p p = None" "rte_free (h(p \<mapsto> x)) p = rte_free h p" "h p = None \<Longrightarrow> rte_free h p = h"
  by (auto simp: rte_free_def)

lemma vd_rib_ref [simp]:
  "vd_rib4 (data\<lparr> vd_ref_count := n \<rparr>) = vd_rib4 data" "vd_rib6 (data\<lparr> vd_ref_count := n \<rparr>) = vd_rib6 data"
  by (simp_all add: vd_rib4_def vd_rib6_def)

lemma vni_okD:
  assumes "vni_ok env s"
  shows "vni_env_ok env" "owns (rh_view (env_vni env) (vt_tbl s)) (vt_heap s)"
    "vni_view env s vni = Some data \<Longrightarrow> vni_data_ok vni data"
    "owns (rib4_of env s) (vt_rib4 s)" "owns (rib6_of env s) (vt_rib6 s)"
    "obj_ok (env_vni env) (vt_tbl s) (vt_heap s)"
proof -
  note ok = assms [unfolded vni_ok_def]
  show "vni_env_ok env" "owns (rib4_of env s) (vt_rib4 s)" "owns (rib6_of env s) (vt_rib6 s)"
    and own: "owns (rh_view (env_vni env) (vt_tbl s)) (vt_heap s)"
    using ok by simp_all
  show "vni_view env s vni = Some data \<Longrightarrow> vni_data_ok vni data"
    using ok by simp
  show "obj_ok (env_vni env) (vt_tbl s) (vt_heap s)"
    by (rule owns_obj_ok [OF own])
qed

lemma vni_env_okD:
  assumes "vni_env_ok env"
  shows "rte_hash_ok (env_vni env)" "rte_malloc_ok (env_vni_malloc env)"
    "rib_ok (env_rib4 env) ip4_prefix" "rib_ok (env_rib6 env) ip6_prefix"
  using assms unfolding vni_env_ok_def by blast+

lemma vni_lookup:
  assumes "vni_ok env s"
  obtains (absent) "rh_lookup (env_vni env) (vt_tbl s) vni = Inl (- ENOENT)"
      "rh_view (env_vni env) (vt_tbl s) vni = None" "vni_view env s vni = None" "vni_refs env s vni = 0"
  | (present) p data where "rh_lookup (env_vni env) (vt_tbl s) vni = Inr p"
      "rh_view (env_vni env) (vt_tbl s) vni = Some p" "vt_heap s p = Some data"
      "vni_view env s vni = Some data" "vni_data_ok vni data" "vni_refs env s vni = unat (vd_ref_count data)"
proof (cases "rh_view (env_vni env) (vt_tbl s) vni")
  case None
  then have "vni_view env s vni = None"
    by (simp add: vni_view_def obj_view_def)
  with None show thesis
    using rh_lookup_view [OF vni_env_okD(1) [OF vni_okD(1) [OF assms]]] by (intro absent) (simp_all add: vni_refs_def)
next
  case (Some p)
  obtain data where data: "vt_heap s p = Some data" "vni_view env s vni = Some data"
    using obj_ok_liveE [OF vni_okD(6) [OF assms] Some] by (auto simp: vni_view_def)
  with Some show thesis
    using vni_okD(3) [OF assms data(2)]
    by (intro present [of p data]) (simp_all add: rh_lookup_Inr vni_refs_def)
qed

lemma vni_ok_cong:
  assumes "rh_view (env_vni env) (vt_tbl s') = rh_view (env_vni env) (vt_tbl s)" "vt_heap s' = vt_heap s"
    "vt_rib4 s' = vt_rib4 s" "vt_rib6 s' = vt_rib6 s"
  shows "vni_view env s' = vni_view env s" "vni_ok env s' = vni_ok env s" "routes4 env pf s' = routes4 env pf s"
    "routes6 env pf s' = routes6 env pf s" "vni_refs env s' = vni_refs env s"
proof -
  show view: "vni_view env s' = vni_view env s"
    unfolding vni_view_def assms(2) by (rule obj_view_cong [OF assms(1)])
  have ribs: "rib4_of env s' = rib4_of env s" "rib6_of env s' = rib6_of env s"
    by (rule ext, simp only: rib4_of_def rib6_of_def view)+
  show "vni_ok env s' = vni_ok env s"
    unfolding vni_ok_def view ribs assms ..
  show "routes4 env pf s' = routes4 env pf s" "routes6 env pf s' = routes6 env pf s" "vni_refs env s' = vni_refs env s"
    by (rule ext, simp only: routes4_def routes6_def vni_refs_def view ribs assms)+
qed

lemma DP_SOCKETID_less [simp]: "DP_SOCKETID n < DP_NB_SOCKETS" "DP_SOCKETID (int (DP_SOCKETID n)) = DP_SOCKETID n"
  by (auto simp: DP_SOCKETID_def)

section \<open>Creation\<close>

definition new_vni_data :: "u32 \<Rightarrow> int \<Rightarrow> ptr \<Rightarrow> ptr \<Rightarrow> dp_vni_data" where
  "new_vni_data vni socket_id p4 p6 =
     \<lparr> vd_ipv4 = (replicate DP_NB_SOCKETS None)[DP_SOCKETID socket_id := Some p4],
       vd_ipv6 = (replicate DP_NB_SOCKETS None)[DP_SOCKETID socket_id := Some p6],
       vd_ref_count = dp_ref_init, vd_socket_id = socket_id, vd_vni = vni \<rparr>"

lemma new_vni_data_ok:
  "vni_data_ok vni (new_vni_data vni socket_id p4 p6)"
  "vd_rib4 (new_vni_data vni socket_id p4 p6) = Some p4" "vd_rib6 (new_vni_data vni socket_id p4 p6) = Some p6"
  by (simp_all add: vni_data_ok_def new_vni_data_def vd_rib4_def vd_rib6_def)

lemma dp_allocate_cases:
  assumes env: "vni_env_ok env" and new: "rh_view (env_vni env) (vt_tbl s) vni = None"
  obtains
    (failed) s' where "dp_allocate_vni_route_tables env vni socket_id s = Some (DP_ERROR, s')"
      "rh_view (env_vni env) (vt_tbl s') = rh_view (env_vni env) (vt_tbl s)" "vt_heap s' = vt_heap s"
      "vt_rib4 s' = vt_rib4 s" "vt_rib6 s' = vt_rib6 s"
  | (created) s' p p4 r4 p6 r6 where "dp_allocate_vni_route_tables env vni socket_id s = Some (DP_OK, s')"
      "vt_heap s p = None" "vt_rib4 s p4 = None" "vt_rib6 s p6 = None"
      "rib_view (env_rib4 env) r4 = Map.empty" "rib_view (env_rib6 env) r6 = Map.empty"
      "rh_view (env_vni env) (vt_tbl s') = (rh_view (env_vni env) (vt_tbl s))(vni \<mapsto> p)"
      "vt_heap s' = (vt_heap s)(p \<mapsto> new_vni_data vni socket_id p4 p6)"
      "vt_rib4 s' = (vt_rib4 s)(p4 \<mapsto> r4)" "vt_rib6 s' = (vt_rib6 s)(p6 \<mapsto> r6)"
proof (cases "env_vni_malloc env (vt_heap s)")
  case None
  then show thesis
    by (intro failed [of s]) (simp_all add: dp_allocate_vni_route_tables_def)
next
  case (Some p)
  have p: "vt_heap s p = None"
    by (rule rte_malloc_fresh [OF vni_env_okD(2) [OF env] Some])
  let ?s0 = "s\<lparr> vt_heap := (vt_heap s)(p \<mapsto> zero_vni_data) \<rparr>"
  note alloc = dp_allocate_vni_route_tables_def Some DP_FAILED_def
  show thesis
  proof (cases "rb_create (env_rib4 env) vni socket_id (vt_rib4 s)")
    case None
    then have "dp_create_rib env vni socket_id p ?s0 = Some (DP_ERROR, ?s0)"
      by (simp add: dp_create_rib_def)
    then show thesis
      by (intro failed [of s]) (simp_all add: alloc p)
  next
    case c4: (Some c4)
    obtain p4 r4 where c4': "c4 = (p4, r4)" by fastforce
    note f4 = rib_create [OF vni_env_okD(3) [OF env] c4 [unfolded c4']]
    define d4 where "d4 = zero_vni_data\<lparr> vd_vni := vni, vd_socket_id := socket_id,
      vd_ipv4 := (replicate DP_NB_SOCKETS None)[DP_SOCKETID socket_id := Some p4] \<rparr>"
    have rib4: "vd_rib4 d4 = Some p4"
      by (simp add: d4_def vd_rib4_def)
    let ?s4 = "s\<lparr> vt_heap := (vt_heap s)(p \<mapsto> d4), vt_rib4 := (vt_rib4 s)(p4 \<mapsto> r4) \<rparr>"
    have step4: "dp_create_rib env vni socket_id p ?s0 = Some (DP_OK, ?s4)"
      by (simp add: dp_create_rib_def c4 c4' d4_def zero_vni_data_def)
    show thesis
    proof (cases "rb_create (env_rib6 env) vni socket_id (vt_rib6 s)")
      case None
      then have "dp_create_rib6 env vni socket_id p ?s4 = Some (DP_ERROR, ?s4)"
        by (simp add: dp_create_rib6_def)
      then show thesis
        using f4 by (intro failed [of s]) (simp_all add: alloc p step4 dp_free_rib_def rib4 rib_free_def)
    next
      case c6: (Some c6)
      obtain p6 r6 where c6': "c6 = (p6, r6)" by fastforce
      note f6 = rib_create [OF vni_env_okD(4) [OF env] c6 [unfolded c6']]
      define d6 where "d6 = d4\<lparr> vd_vni := vni, vd_socket_id := socket_id,
        vd_ipv6 := (replicate DP_NB_SOCKETS None)[DP_SOCKETID socket_id := Some p6] \<rparr>"
      have rib6: "vd_rib4 d6 = Some p4" "vd_rib6 d6 = Some p6"
        by (simp_all add: d6_def d4_def vd_rib4_def vd_rib6_def)
      let ?s6 = "s\<lparr> vt_heap := (vt_heap s)(p \<mapsto> d6), vt_rib4 := (vt_rib4 s)(p4 \<mapsto> r4), vt_rib6 := (vt_rib6 s)(p6 \<mapsto> r6) \<rparr>"
      have step6: "dp_create_rib6 env vni socket_id p ?s4 = Some (DP_OK, ?s6)"
        by (simp add: dp_create_rib6_def c6 c6' d6_def d4_def zero_vni_data_def)
      obtain ret tbl where add: "rh_add_data (env_vni env) (vt_tbl s) vni p = (ret, tbl)" by fastforce
      show thesis
        using vni_env_okD(1) [OF env] add
      proof (cases rule: rh_add_data_cases)
        case added
        have "d6\<lparr> vd_ref_count := dp_ref_init \<rparr> = new_vni_data vni socket_id p4 p6"
          by (simp add: d6_def d4_def new_vni_data_def zero_vni_data_def)
        then show thesis
          using added by (intro created [OF _ p conjunct1 [OF f4] conjunct1 [OF f6] conjunct2 [OF f4] conjunct2 [OF f6], of
                "?s6\<lparr> vt_tbl := tbl, vt_heap := (vt_heap s)(p \<mapsto> new_vni_data vni socket_id p4 p6) \<rparr>"])
            (simp_all add: alloc step4 step6 add)
      next
        case failed': failed
        then show thesis
          using f4 f6 by (intro failed [of "s\<lparr> vt_tbl := tbl \<rparr>"])
            (simp_all add: alloc p step4 step6 add dp_free_rib_def dp_free_rib6_def rib6 rib_free_def)
      qed
    qed
  qed
qed

text \<open>The effect of a new network, of a change of a network's data and of its removal on what the state stands for.\<close>

lemma vni_added:
  assumes ok: "vni_ok env s" and new: "rh_view (env_vni env) (vt_tbl s) vni = None"
    and fresh: "vt_heap s p = None" "vt_rib4 s p4 = None" "vt_rib6 s p6 = None"
    and empty: "rib_view (env_rib4 env) r4 = Map.empty" "rib_view (env_rib6 env) r6 = Map.empty"
    and s': "rh_view (env_vni env) (vt_tbl s') = (rh_view (env_vni env) (vt_tbl s))(vni \<mapsto> p)"
      "vt_heap s' = (vt_heap s)(p \<mapsto> new_vni_data vni socket_id p4 p6)"
      "vt_rib4 s' = (vt_rib4 s)(p4 \<mapsto> r4)" "vt_rib6 s' = (vt_rib6 s)(p6 \<mapsto> r6)"
  shows "vni_ok env s'" "vni_refs env s' = (vni_refs env s)(vni := 1)"
    "routes4 env pf s' = (routes4 env pf s)(vni \<mapsto> Map.empty)" "routes6 env pf s' = (routes6 env pf s)(vni \<mapsto> Map.empty)"
proof -
  have view: "vni_view env s' = (vni_view env s)(vni \<mapsto> new_vni_data vni socket_id p4 p6)"
    unfolding vni_view_def s'(2) by (rule obj_add(2) [OF vni_okD(6) [OF ok] fresh(1) s'(1)])
  have none: "vni_view env s vni = None"
    using new by (simp add: vni_view_def obj_view_def)
  have ribs: "rib4_of env s' = (rib4_of env s)(vni \<mapsto> p4)" "rib6_of env s' = (rib6_of env s)(vni \<mapsto> p6)"
    by (simp_all add: rib4_of_def rib6_of_def view new_vni_data_ok fun_eq_iff)
  have "owns (rh_view (env_vni env) (vt_tbl s')) (vt_heap s')" "owns (rib4_of env s') (vt_rib4 s')" "owns (rib6_of env s') (vt_rib6 s')"
    using owns_add [OF vni_okD(2) [OF ok] fresh(1) new] owns_add [OF vni_okD(4) [OF ok] fresh(2), of vni]
      owns_add [OF vni_okD(5) [OF ok] fresh(3), of vni]
    by (simp_all add: s' ribs rib4_of_def [of env s vni] rib6_of_def [of env s vni] none)
  then show "vni_ok env s'"
    using vni_okD(1,3) [OF ok] by (simp add: vni_ok_def view new_vni_data_ok)
  show "vni_refs env s' = (vni_refs env s)(vni := 1)"
    by (simp add: vni_refs_def view new_vni_data_def fun_eq_iff)
  have "rib4_of env s k \<noteq> Some p4" "rib6_of env s k \<noteq> Some p6" for k
    using owns_live [OF vni_okD(4) [OF ok], of k p4] owns_live [OF vni_okD(5) [OF ok], of k p6] fresh by auto
  then show "routes4 env pf s' = (routes4 env pf s)(vni \<mapsto> Map.empty)" "routes6 env pf s' = (routes6 env pf s)(vni \<mapsto> Map.empty)"
    using empty by (auto simp: routes4_def routes6_def ribs s' fun_eq_iff route_view_def intro!: Option.bind_cong)
qed

lemma vni_written:
  assumes ok: "vni_ok env s" and p: "rh_view (env_vni env) (vt_tbl s) vni = Some p" "vt_heap s p = Some data"
    and data': "vni_data_ok vni data'" "vd_rib4 data' = vd_rib4 data" "vd_rib6 data' = vd_rib6 data"
    and s': "s' = s\<lparr> vt_heap := (vt_heap s)(p \<mapsto> data') \<rparr>"
  shows "vni_ok env s'" "vni_refs env s' = (vni_refs env s)(vni := unat (vd_ref_count data'))"
    "routes4 env pf s' = routes4 env pf s" "routes6 env pf s' = routes6 env pf s"
proof -
  have view: "vni_view env s' = (vni_view env s)(vni \<mapsto> data')"
    unfolding vni_view_def s' using obj_write(2) [OF vni_okD(6) [OF ok] p(1)] by simp
  have some: "vni_view env s vni = Some data"
    using p by (simp add: vni_view_def obj_view_def)
  have ribs: "rib4_of env s' = rib4_of env s" "rib6_of env s' = rib6_of env s"
    by (auto simp: rib4_of_def rib6_of_def view some data' fun_eq_iff)
  have "owns (rh_view (env_vni env) (vt_tbl s')) (vt_heap s')"
    using owns_write [OF vni_okD(2) [OF ok] p(1)] by (simp add: s')
  then show "vni_ok env s'"
    using vni_okD(1,3,4,5) [OF ok] data'(1) by (simp add: vni_ok_def view ribs) (simp add: s')
  show "vni_refs env s' = (vni_refs env s)(vni := unat (vd_ref_count data'))"
    by (simp add: vni_refs_def view fun_eq_iff)
  show "routes4 env pf s' = routes4 env pf s" "routes6 env pf s' = routes6 env pf s"
    by (simp_all add: routes4_def routes6_def ribs fun_eq_iff) (simp_all add: s')
qed

lemma vni_removed:
  assumes ok: "vni_ok env s" and p: "rh_view (env_vni env) (vt_tbl s) vni = Some p"
    and ribs: "rib4_of env s vni = Some p4" "rib6_of env s vni = Some p6"
    and s': "rh_view (env_vni env) (vt_tbl s') = (rh_view (env_vni env) (vt_tbl s))(vni := None)"
      "vt_heap s' = rte_free (vt_heap s) p" "vt_rib4 s' = rte_free (vt_rib4 s) p4" "vt_rib6 s' = rte_free (vt_rib6 s) p6"
  shows "vni_ok env s'" "vni_refs env s' = (vni_refs env s)(vni := 0)"
    "routes4 env pf s' = (routes4 env pf s)(vni := None)" "routes6 env pf s' = (routes6 env pf s)(vni := None)"
proof -
  have view: "vni_view env s' = (vni_view env s)(vni := None)"
    unfolding vni_view_def s'(2) by (rule obj_del(2) [OF vni_okD(6) [OF ok] p s'(1)])
  have ribs': "rib4_of env s' = (rib4_of env s)(vni := None)" "rib6_of env s' = (rib6_of env s)(vni := None)"
    by (simp_all add: rib4_of_def rib6_of_def view fun_eq_iff)
  have "owns (rh_view (env_vni env) (vt_tbl s')) (vt_heap s')" "owns (rib4_of env s') (vt_rib4 s')" "owns (rib6_of env s') (vt_rib6 s')"
    using owns_del [OF vni_okD(2) [OF ok] p] owns_del [OF vni_okD(4) [OF ok] ribs(1)] owns_del [OF vni_okD(5) [OF ok] ribs(2)]
    by (simp_all add: s' ribs')
  then show "vni_ok env s'"
    using vni_okD(1,3) [OF ok] by (simp add: vni_ok_def view)
  show "vni_refs env s' = (vni_refs env s)(vni := 0)"
    by (simp add: vni_refs_def view fun_eq_iff)
  have "k \<noteq> vni \<Longrightarrow> rib4_of env s k \<noteq> Some p4" "k \<noteq> vni \<Longrightarrow> rib6_of env s k \<noteq> Some p6" for k
    using owns_inj [OF vni_okD(4) [OF ok] ribs(1), of k] owns_inj [OF vni_okD(5) [OF ok] ribs(2), of k] by auto
  then show "routes4 env pf s' = (routes4 env pf s)(vni := None)" "routes6 env pf s' = (routes6 env pf s)(vni := None)"
    by (auto simp: routes4_def routes6_def ribs' s' rte_free_def fun_eq_iff intro!: Option.bind_cong)
qed

lemma vni_replaced:
  assumes ok: "vni_ok env s" and p: "rh_view (env_vni env) (vt_tbl s) vni = Some p" "vt_heap s p = Some data"
    and ribs: "vd_rib4 data = Some p4" "vd_rib6 data = Some p6"
    and data': "vni_data_ok vni data'" "vd_rib4 data' = Some q4" "vd_rib6 data' = Some q6" "vd_ref_count data' = vd_ref_count data"
    and fresh: "rte_free (vt_rib4 s) p4 q4 = None" "rte_free (vt_rib6 s) p6 q6 = None"
    and empty: "rib_view (env_rib4 env) r4 = Map.empty" "rib_view (env_rib6 env) r6 = Map.empty"
    and s': "vt_tbl s' = vt_tbl s" "vt_heap s' = (vt_heap s)(p \<mapsto> data')"
      "vt_rib4 s' = (rte_free (vt_rib4 s) p4)(q4 \<mapsto> r4)" "vt_rib6 s' = (rte_free (vt_rib6 s) p6)(q6 \<mapsto> r6)"
  shows "vni_ok env s'" "vni_refs env s' = vni_refs env s"
    "routes4 env pf s' = (routes4 env pf s)(vni \<mapsto> Map.empty)" "routes6 env pf s' = (routes6 env pf s)(vni \<mapsto> Map.empty)"
proof -
  have view: "vni_view env s' = (vni_view env s)(vni \<mapsto> data')"
    unfolding vni_view_def s' using obj_write(2) [OF vni_okD(6) [OF ok] p(1)] by simp
  have some: "vni_view env s vni = Some data"
    using p by (simp add: vni_view_def obj_view_def)
  have old: "rib4_of env s vni = Some p4" "rib6_of env s vni = Some p6"
    by (simp_all add: rib4_of_def rib6_of_def some ribs)
  have new: "rib4_of env s' = (rib4_of env s)(vni \<mapsto> q4)" "rib6_of env s' = (rib6_of env s)(vni \<mapsto> q6)"
    by (simp_all add: rib4_of_def rib6_of_def view data' fun_eq_iff)
  have "owns (rh_view (env_vni env) (vt_tbl s')) (vt_heap s')" "owns (rib4_of env s') (vt_rib4 s')" "owns (rib6_of env s') (vt_rib6 s')"
    using owns_write [OF vni_okD(2) [OF ok] p(1)] owns_replace [OF vni_okD(4) [OF ok] old(1) fresh(1)]
      owns_replace [OF vni_okD(5) [OF ok] old(2) fresh(2)]
    by (simp_all add: s' new)
  then show "vni_ok env s'"
    using vni_okD(1,3) [OF ok] data'(1) by (simp add: vni_ok_def view)
  show "vni_refs env s' = vni_refs env s"
    using some data'(4) by (simp add: vni_refs_def view fun_eq_iff)
  have other: "k \<noteq> vni \<Longrightarrow> rib4_of env s k \<noteq> Some p4 \<and> rib4_of env s k \<noteq> Some q4"
      "k \<noteq> vni \<Longrightarrow> rib6_of env s k \<noteq> Some p6 \<and> rib6_of env s k \<noteq> Some q6" for k
    using owns_inj [OF vni_okD(4) [OF ok] old(1), of k] owns_inj [OF vni_okD(5) [OF ok] old(2), of k] fresh
      owns_live [OF vni_okD(4) [OF ok], of k q4] owns_live [OF vni_okD(5) [OF ok], of k q6]
    by (auto simp: rte_free_def split: if_splits)
  then show "routes4 env pf s' = (routes4 env pf s)(vni \<mapsto> Map.empty)" "routes6 env pf s' = (routes6 env pf s)(vni \<mapsto> Map.empty)"
    using empty by (auto simp: routes4_def routes6_def new s' rte_free_def fun_eq_iff route_view_def intro!: Option.bind_cong)
qed

section \<open>Operations on the invariant\<close>

lemma unat_inc: "unat (x :: 'a :: len word) + 1 < 2 ^ LENGTH('a) \<Longrightarrow> unat (x + 1) = unat x + 1"
  by (simp add: unat_word_ariths)

lemma dp_create_vni_cases:
  assumes ok: "vni_ok env s"
  obtains
    (failed) s' where "dp_create_vni_route_tables env vni socket_id s = Some (DP_ERROR, s')" "vni_refs env s vni = 0"
      "vni_ok env s'" "vni_refs env s' = vni_refs env s" "\<And>pf. routes4 env pf s' = routes4 env pf s" "\<And>pf. routes6 env pf s' = routes6 env pf s"
  | (created) s' where "dp_create_vni_route_tables env vni socket_id s = Some (DP_OK, s')" "vni_refs env s vni = 0"
      "vni_ok env s'" "vni_refs env s' = (vni_refs env s)(vni := 1)"
      "\<And>pf. routes4 env pf s' = (routes4 env pf s)(vni \<mapsto> Map.empty)" "\<And>pf. routes6 env pf s' = (routes6 env pf s)(vni \<mapsto> Map.empty)"
  | (shared) s' where "dp_create_vni_route_tables env vni socket_id s = Some (DP_OK, s')" "vni_refs env s vni \<noteq> 0"
      "vni_refs env s vni + 1 < 2 ^ 32 \<Longrightarrow> vni_ok env s'"
      "vni_refs env s vni + 1 < 2 ^ 32 \<Longrightarrow> vni_refs env s' = (vni_refs env s)(vni := vni_refs env s vni + 1)"
      "vni_refs env s vni + 1 < 2 ^ 32 \<Longrightarrow> (\<forall>pf. routes4 env pf s' = routes4 env pf s \<and> routes6 env pf s' = routes6 env pf s)"
  using ok
proof (cases rule: vni_lookup [of env s vni])
  case absent
  note create = dp_create_vni_route_tables_def absent(1)
  show thesis
    using vni_okD(1) [OF ok] absent(2)
  proof (cases rule: dp_allocate_cases [of env s vni socket_id])
    case (failed s')
    then show thesis
      using vni_ok_cong [OF failed(2-5)] ok absent(4) by (intro that(1) [of s']) (simp_all add: create)
  next
    case (created s' p p4 r4 p6 r6)
    then show thesis
      using vni_added [OF ok absent(2) created(2-10)] absent(4) by (intro that(2) [of s']) (simp_all add: create)
  qed
next
  case (present p data)
  let ?data = "data\<lparr> vd_ref_count := vd_ref_count data + 1 \<rparr>"
  have nz: "vd_ref_count data \<noteq> 0"
    using present(5) by (simp add: vni_data_ok_def)
  have run: "dp_create_vni_route_tables env vni socket_id s = Some (DP_OK, s\<lparr> vt_heap := (vt_heap s)(p \<mapsto> ?data) \<rparr>)"
    using nz by (simp add: dp_create_vni_route_tables_def present dp_ref_inc_def)
  have ribs: "vd_rib4 ?data = vd_rib4 data" "vd_rib6 ?data = vd_rib6 data"
    by simp_all
  have effect: "vni_ok env (s\<lparr> vt_heap := (vt_heap s)(p \<mapsto> ?data) \<rparr>)"
      "vni_refs env (s\<lparr> vt_heap := (vt_heap s)(p \<mapsto> ?data) \<rparr>) = (vni_refs env s)(vni := vni_refs env s vni + 1)"
      "\<forall>pf. routes4 env pf (s\<lparr> vt_heap := (vt_heap s)(p \<mapsto> ?data) \<rparr>) = routes4 env pf s \<and>
        routes6 env pf (s\<lparr> vt_heap := (vt_heap s)(p \<mapsto> ?data) \<rparr>) = routes6 env pf s"
    if "vni_refs env s vni + 1 < 2 ^ 32"
  proof -
    have inc: "unat (vd_ref_count data + 1) = unat (vd_ref_count data) + 1"
      using that present(6) by (intro unat_inc) simp
    then have "vni_data_ok vni ?data"
      using present(5) ribs by (auto simp: vni_data_ok_def unat_eq_zero [symmetric])
    note W = vni_written [OF ok present(2,3) this ribs refl]
    show "vni_ok env (s\<lparr> vt_heap := (vt_heap s)(p \<mapsto> ?data) \<rparr>)"
      "vni_refs env (s\<lparr> vt_heap := (vt_heap s)(p \<mapsto> ?data) \<rparr>) = (vni_refs env s)(vni := vni_refs env s vni + 1)"
      "\<forall>pf. routes4 env pf (s\<lparr> vt_heap := (vt_heap s)(p \<mapsto> ?data) \<rparr>) = routes4 env pf s \<and>
        routes6 env pf (s\<lparr> vt_heap := (vt_heap s)(p \<mapsto> ?data) \<rparr>) = routes6 env pf s"
      using W inc present(6) by simp_all
  qed
  show thesis
    by (rule that(3) [OF run _ effect]) (use nz present(6) in \<open>simp_all add: unat_eq_zero\<close>)
qed

lemma dp_delete_vni_cases:
  assumes ok: "vni_ok env s"
  obtains
    (absent) "dp_delete_vni_route_tables env vni s headp = Some (- ENOENT, s, headp)" "vni_refs env s vni = 0"
  | (shared) s' where "dp_delete_vni_route_tables env vni s headp = Some (DP_OK, s', headp)" "1 < vni_refs env s vni"
      "vni_ok env s'" "vni_refs env s' = (vni_refs env s)(vni := vni_refs env s vni - 1)"
      "\<And>pf. routes4 env pf s' = routes4 env pf s" "\<And>pf. routes6 env pf s' = routes6 env pf s"
  | (freed) s' where "dp_delete_vni_route_tables env vni s headp = Some (DP_OK, s', dp_del_all_neigh_nat_entries_in_vni vni headp)"
      "vni_refs env s vni = 1" "vni_ok env s'" "vni_refs env s' = (vni_refs env s)(vni := 0)"
      "\<And>pf. routes4 env pf s' = (routes4 env pf s)(vni := None)" "\<And>pf. routes6 env pf s' = (routes6 env pf s)(vni := None)"
  using ok
proof (cases rule: vni_lookup [of env s vni])
  case absent
  then show thesis
    by (intro that(1)) (simp_all add: dp_delete_vni_route_tables_def)
next
  case (present p data)
  let ?data = "data\<lparr> vd_ref_count := vd_ref_count data - 1 \<rparr>"
  have nz: "vd_ref_count data \<noteq> 0" and vni: "vd_vni data = vni"
    using present(5) by (simp_all add: vni_data_ok_def)
  have dec: "unat (vd_ref_count data - 1) = unat (vd_ref_count data) - 1"
    using nz by (rule unat_minus_one)
  have ribs: "vd_rib4 ?data = vd_rib4 data" "vd_rib6 ?data = vd_rib6 data"
    by simp_all
  note delete = dp_delete_vni_route_tables_def present(1,3) dp_ref_dec_def
  show thesis
  proof (cases "vd_ref_count data - 1 = 0")
    case False
    then have "vni_data_ok vni ?data"
      using present(5) ribs by (simp add: vni_data_ok_def)
    note W = vni_written [OF ok present(2,3) this ribs refl]
    have "unat (vd_ref_count data) - 1 \<noteq> 0"
      unfolding dec [symmetric] using False by (simp add: unat_eq_zero)
    then show thesis
      using W False present(6) dec by (intro that(2) [of "s\<lparr> vt_heap := (vt_heap s)(p \<mapsto> ?data) \<rparr>"]) (simp_all add: delete)
  next
    case True
    have one: "unat (vd_ref_count data) = 1"
      using True by simp
    obtain p4 p6 where r: "vd_rib4 data = Some p4" "vd_rib6 data = Some p6"
      using present(5) by (auto simp: vni_data_ok_def)
    have ptrs: "rib4_of env s vni = Some p4" "rib6_of env s vni = Some p6"
      by (simp_all add: rib4_of_def rib6_of_def present(4) r)
    obtain ret tbl where del: "rh_del (env_vni env) (vt_tbl s) vni = (ret, tbl)" by fastforce
    note D = rh_del_view [OF vni_env_okD(1) [OF vni_okD(1) [OF ok]] del]
    let ?s' = "s\<lparr> vt_tbl := tbl, vt_heap := rte_free (vt_heap s) p, vt_rib4 := rte_free (vt_rib4 s) p4, vt_rib6 := rte_free (vt_rib6 s) p6 \<rparr>"
    have run: "dp_delete_vni_route_tables env vni s headp = Some (DP_OK, ?s', dp_del_all_neigh_nat_entries_in_vni vni headp)"
      using D(3) [OF present(2)] True
      by (simp add: delete dp_free_vni_data_def dp_free_rib_def dp_free_rib6_def ribs r rib_free_def del DP_FAILED_def vni Let_def)
    show thesis
      by (rule that(3) [OF run]) (use vni_removed [OF ok present(2) ptrs, of ?s'] D(1) one present(6) in simp_all)
  qed
qed

text \<open>
  A reset of one network empties both tables.  When a new table cannot be created it fails and the
  data still points to the table that was freed.
\<close>

lemma dp_reset_vni_data_cases:
  assumes ok: "vni_ok env s" and p: "rh_view (env_vni env) (vt_tbl s) vni = Some p"
  obtains
    (reset) s' where "\<exists>sid h. rb_create (env_rib4 env) vni sid h \<noteq> None"
      "dp_reset_vni_data env vni p s = Some (DP_OK, s')" "vni_ok env s'" "vt_tbl s' = vt_tbl s"
      "vni_refs env s' = vni_refs env s"
      "\<And>pf. routes4 env pf s' = (routes4 env pf s)(vni \<mapsto> Map.empty)" "\<And>pf. routes6 env pf s' = (routes6 env pf s)(vni \<mapsto> Map.empty)"
  | (dangling4) s' p4 where "dp_reset_vni_data env vni p s = Some (DP_ERROR, s')"
      "rb_create (env_rib4 env) vni (int (DP_SOCKETID (vd_socket_id (the (vt_heap s p))))) (vt_rib4 s') = None"
      "dp_get_vni_route4_table env vni s' = Some (Some p4)" "vt_rib4 s' p4 = None"
  | (dangling6) s' p6 where "\<exists>sid h. rb_create (env_rib4 env) vni sid h \<noteq> None" "dp_reset_vni_data env vni p s = Some (DP_ERROR, s')"
      "rb_create (env_rib6 env) vni (int (DP_SOCKETID (vd_socket_id (the (vt_heap s p))))) (vt_rib6 s') = None"
      "dp_get_vni_route6_table env vni s' = Some (Some p6)" "vt_rib6 s' p6 = None"
proof -
  obtain data where data: "vt_heap s p = Some data" "vni_view env s vni = Some data"
    using obj_ok_liveE [OF vni_okD(6) [OF ok] p] by (auto simp: vni_view_def)
  note dok = vni_okD(3) [OF ok data(2)]
  obtain p4 p6 where r: "vd_rib4 data = Some p4" "vd_rib6 data = Some p6"
    using dok by (auto simp: vni_data_ok_def)
  let ?sock = "DP_SOCKETID (vd_socket_id data)"
  have slots: "vd_ipv4 data ! ?sock = Some p4" "vd_ipv6 data ! ?sock = Some p6"
    using r by (simp_all add: vd_rib4_def vd_rib6_def)
  let ?s4 = "s\<lparr> vt_rib4 := rte_free (vt_rib4 s) p4 \<rparr>"
  note reset = dp_reset_vni_data_def data(1) slots rib_free_def
  show thesis
  proof (cases "rb_create (env_rib4 env) vni (int ?sock) (rte_free (vt_rib4 s) p4)")
    case None
    show thesis
      by (rule that(2) [of ?s4 p4])
        (use None p data(1) r in \<open>simp_all add: reset dp_create_rib_def DP_FAILED_def dp_get_vni_route4_table_def dp_get_vni_data_def
          rh_lookup_Inr [THEN iffD2]\<close>)
  next
    case c4: (Some c4)
    obtain q4 r4 where c4': "c4 = (q4, r4)" by fastforce
    have ex: "\<exists>sid h. rb_create (env_rib4 env) vni sid h \<noteq> None"
      using c4 by (metis option.distinct(1))
    note f4 = rib_create [OF vni_env_okD(3) [OF vni_okD(1) [OF ok]] c4 [unfolded c4']]
    define d4 where "d4 = data\<lparr> vd_vni := vni, vd_socket_id := int ?sock, vd_ipv4 := (vd_ipv4 data)[?sock := Some q4] \<rparr>"
    let ?s4' = "s\<lparr> vt_heap := (vt_heap s)(p \<mapsto> d4), vt_rib4 := (rte_free (vt_rib4 s) p4)(q4 \<mapsto> r4) \<rparr>"
    have step4: "dp_create_rib env vni (int ?sock) p ?s4 = Some (DP_OK, ?s4')"
      by (simp add: dp_create_rib_def c4 c4' data(1) d4_def)
    have d4: "vd_ipv6 d4 ! ?sock = Some p6" "vd_rib6 d4 = Some p6"
      using slots by (simp_all add: d4_def vd_rib6_def)
    show thesis
    proof (cases "rb_create (env_rib6 env) vni (int ?sock) (rte_free (vt_rib6 s) p6)")
      case None
      show thesis
        by (rule that(3) [OF ex, of "?s4'\<lparr> vt_rib6 := rte_free (vt_rib6 s) p6 \<rparr>" p6])
          (use ex None p data(1) d4 in \<open>simp_all add: reset step4 dp_create_rib6_def DP_FAILED_def dp_get_vni_route6_table_def dp_get_vni_data_def
            rh_lookup_Inr [THEN iffD2]\<close>)
    next
      case c6: (Some c6)
      obtain q6 r6 where c6': "c6 = (q6, r6)" by fastforce
      note f6 = rib_create [OF vni_env_okD(4) [OF vni_okD(1) [OF ok]] c6 [unfolded c6']]
      define d6 where "d6 = d4\<lparr> vd_vni := vni, vd_socket_id := int ?sock, vd_ipv6 := (vd_ipv6 data)[?sock := Some q6] \<rparr>"
      let ?s6 = "?s4'\<lparr> vt_heap := (vt_heap s)(p \<mapsto> d6), vt_rib6 := (rte_free (vt_rib6 s) p6)(q6 \<mapsto> r6) \<rparr>"
      have step6: "dp_create_rib6 env vni (int ?sock) p (?s4'\<lparr> vt_rib6 := rte_free (vt_rib6 s) p6 \<rparr>) = Some (DP_OK, ?s6)"
        by (simp add: dp_create_rib6_def c6 c6' d6_def d4_def)
      have d6: "vni_data_ok vni d6" "vd_rib4 d6 = Some q4" "vd_rib6 d6 = Some q6" "vd_ref_count d6 = vd_ref_count data"
        using dok by (simp_all add: vni_data_ok_def d6_def d4_def vd_rib4_def vd_rib6_def)
      note R = vni_replaced [OF ok p data(1) r d6 conjunct1 [OF f4] conjunct1 [OF f6] conjunct2 [OF f4] conjunct2 [OF f6], of ?s6]
      have "dp_reset_vni_data env vni p s = Some (DP_OK, ?s6)"
        using step6 by (simp add: reset step4 d4 DP_FAILED_def)
      then show thesis
        using R by (intro that(1) [of ?s6, OF ex]) simp_all
    qed
  qed
qed

end
