(* ===== verification/Dp_Vnf.thy ===== *)
theory Dp_Vnf
  imports Dp_Responder Dp_Hash_List
begin

text \<open>
  \<^verbatim>\<open>src/dp_vnf.c\<close>: the virtual network functions behind the underlay addresses of this host.  The
  handle table maps an underlay address to the function, the value table maps the function (all
  its bytes are the key) back to the address.  The operations are followed by the invariant that
  ties the two tables together and the properties.
\<close>

section \<open>Data\<close>

record dp_vnf_prefix =
  vp_ol :: dp_ip_address
  vp_length :: u8

record dp_vnf =
  vnf_type :: dp_vnf_type
  vnf_vni :: u32
  vnf_port_id :: u16
  vnf_alias_pfx :: dp_vnf_prefix

record 't vnf_env =
  env_vnf_handle :: "(ipv6_addr, 't) rte_hash"
  env_vnf_value :: "(dp_vnf, 't) rte_hash"
  env_vnf_malloc :: "dp_vnf rte_malloc"
  env_vnf_ul_malloc :: "ipv6_addr rte_malloc"

record 't vnf_state =
  vs_handle_tbl :: 't
  vs_value_tbl :: 't
  vs_handle_heap :: "dp_vnf heap"
  vs_value_heap :: "ipv6_addr heap"

section \<open>Operations\<close>

definition dp_vnf_init :: "(string \<Rightarrow> 't option) \<Rightarrow> int \<times> 't vnf_state option" where
  "dp_vnf_init create =
     (case create ''vnf_handle_table'' of
        None \<Rightarrow> (DP_ERROR, None)
      | Some ht \<Rightarrow>
          (case create ''vnf_value_table'' of
             None \<Rightarrow> (DP_ERROR, None)
           | Some vt \<Rightarrow> (DP_OK, Some \<lparr> vs_handle_tbl = ht, vs_value_tbl = vt, vs_handle_heap = Map.empty, vs_value_heap = Map.empty \<rparr>)))"

definition dp_fill_vnf_data :: "dp_vnf_type \<Rightarrow> u16 \<Rightarrow> u32 \<Rightarrow> dp_ip_address \<Rightarrow> u8 \<Rightarrow> dp_vnf" where
  "dp_fill_vnf_data type port_id vni src prefix_len =
     \<lparr> vnf_type = type, vnf_vni = vni, vnf_port_id = port_id,
       vnf_alias_pfx = \<lparr> vp_ol = dp_copy_ipaddr src, vp_length = prefix_len \<rparr> \<rparr>"

definition dp_add_vnf_value :: "'t vnf_env \<Rightarrow> dp_vnf \<Rightarrow> ipv6_addr \<Rightarrow> 't vnf_state \<Rightarrow> int \<times> 't vnf_state" where
  "dp_add_vnf_value env vnf ul_addr6 s =
     (case env_vnf_ul_malloc env (vs_value_heap s) of
        None \<Rightarrow> (DP_ERROR, s)
      | Some p \<Rightarrow>
          let s1 = s\<lparr> vs_value_heap := (vs_value_heap s)(p \<mapsto> ul_addr6) \<rparr>;
              (ret, tbl) = rh_add_data (env_vnf_value env) (vs_value_tbl s1) vnf p;
              s2 = s1\<lparr> vs_value_tbl := tbl \<rparr>
          in if DP_FAILED ret then (DP_ERROR, s2\<lparr> vs_value_heap := rte_free (vs_value_heap s2) p \<rparr>)
             else (DP_OK, s2))"

definition dp_delete_vnf_value :: "'t vnf_env \<Rightarrow> dp_vnf \<Rightarrow> 't vnf_state \<Rightarrow> int \<times> 't vnf_state" where
  "dp_delete_vnf_value env vnf s =
     (case rh_lookup (env_vnf_value env) (vs_value_tbl s) vnf of
        Inl _ \<Rightarrow> (DP_ERROR, s)
      | Inr p \<Rightarrow>
          let (ret, tbl) = rh_del (env_vnf_value env) (vs_value_tbl s) vnf;
              s1 = s\<lparr> vs_value_tbl := tbl \<rparr>
          in if DP_FAILED ret then (ret, s1)
             else (DP_OK, s1\<lparr> vs_value_heap := rte_free (vs_value_heap s1) p \<rparr>))"

definition dp_vnf_value_exists :: "'t vnf_env \<Rightarrow> dp_vnf \<Rightarrow> 't vnf_state \<Rightarrow> bool" where
  "dp_vnf_value_exists env vnf s =
     (case rh_lookup (env_vnf_value env) (vs_value_tbl s) vnf of Inl _ \<Rightarrow> False | Inr _ \<Rightarrow> True)"

definition dp_del_vnf :: "'t vnf_env \<Rightarrow> ipv6_addr \<Rightarrow> 't vnf_state \<Rightarrow> int \<times> 't vnf_state" where
  "dp_del_vnf env ul_addr6 s =
     (case rh_lookup (env_vnf_handle env) (vs_handle_tbl s) ul_addr6 of
        Inl ret \<Rightarrow> (ret, s)
      | Inr p \<Rightarrow>
          let (ret, tbl) = rh_del (env_vnf_handle env) (vs_handle_tbl s) ul_addr6;
              s1 = s\<lparr> vs_handle_tbl := tbl \<rparr>
          in if DP_FAILED ret then (ret, s1)
             else
               let (ret, s2) = dp_delete_vnf_value env (the (vs_handle_heap s1 p)) s1;
                   s3 = s2\<lparr> vs_handle_heap := rte_free (vs_handle_heap s2) p \<rparr>
               in if DP_FAILED ret then (ret, s3) else (DP_OK, s3))"

definition dp_add_vnf ::
  "'t vnf_env \<Rightarrow> ipv6_addr \<Rightarrow> dp_vnf_type \<Rightarrow> u16 \<Rightarrow> u32 \<Rightarrow> dp_ip_address \<Rightarrow> u8 \<Rightarrow> 't vnf_state \<Rightarrow> int \<times> 't vnf_state" where
  "dp_add_vnf env ul_addr6 type port_id vni prefix prefix_len s =
     (if rh_lookup (env_vnf_handle env) (vs_handle_tbl s) ul_addr6 \<noteq> Inl (- ENOENT) then (DP_ERROR, s)
      else
        case env_vnf_malloc env (vs_handle_heap s) of
          None \<Rightarrow> (DP_ERROR, s)
        | Some p \<Rightarrow>
            let vnf = dp_fill_vnf_data type port_id vni prefix prefix_len;
                s1 = s\<lparr> vs_handle_heap := (vs_handle_heap s)(p \<mapsto> vnf) \<rparr>;
                (ret, tbl) = rh_add_data (env_vnf_handle env) (vs_handle_tbl s1) ul_addr6 p;
                s2 = s1\<lparr> vs_handle_tbl := tbl \<rparr>
            in if DP_FAILED ret then (DP_ERROR, s2\<lparr> vs_handle_heap := rte_free (vs_handle_heap s2) p \<rparr>)
               else
                 let (ret, s3) = dp_add_vnf_value env vnf ul_addr6 s2
                 in if DP_FAILED ret then (DP_ERROR, snd (dp_del_vnf env ul_addr6 s3))
                    else (DP_OK, s3))"

definition dp_get_vnf :: "'t vnf_env \<Rightarrow> ipv6_addr \<Rightarrow> 't vnf_state \<Rightarrow> dp_vnf option" where
  "dp_get_vnf env ul_addr6 s =
     (case rh_lookup (env_vnf_handle env) (vs_handle_tbl s) ul_addr6 of
        Inl _ \<Rightarrow> None
      | Inr p \<Rightarrow> Some (the (vs_handle_heap s p)))"

definition dp_vnf_lbprefix_exists :: "'t vnf_env \<Rightarrow> u16 \<Rightarrow> u32 \<Rightarrow> dp_ip_address \<Rightarrow> u8 \<Rightarrow> 't vnf_state \<Rightarrow> bool" where
  "dp_vnf_lbprefix_exists env port_id vni prefix_ip prefix_len s =
     dp_vnf_value_exists env (dp_fill_vnf_data DP_VNF_TYPE_LB_ALIAS_PFX port_id vni prefix_ip prefix_len) s"

definition dp_del_vnf_by_value ::
  "'t vnf_env \<Rightarrow> dp_vnf_type \<Rightarrow> u16 \<Rightarrow> u32 \<Rightarrow> dp_ip_address \<Rightarrow> u8 \<Rightarrow> 't vnf_state \<Rightarrow> int \<times> 't vnf_state" where
  "dp_del_vnf_by_value env type port_id vni prefix_ip prefix_len s =
     (case rh_lookup (env_vnf_value env) (vs_value_tbl s) (dp_fill_vnf_data type port_id vni prefix_ip prefix_len) of
        Inl ret \<Rightarrow> (if ret = - ENOENT then DP_GRPC_ERR_NOT_FOUND else DP_GRPC_ERR_VNF_DELETE, s)
      | Inr p \<Rightarrow>
          let (ret, s1) = dp_del_vnf env (the (vs_value_heap s p)) s
          in if DP_FAILED ret
             then (if ret = - ENOENT then DP_GRPC_ERR_NOT_FOUND else DP_GRPC_ERR_VNF_DELETE, s1)
             else (DP_OK, s1))"

text \<open>The message of a listing: prefix and underlay address of a route.\<close>

record dpgrpc_route =
  gr_vni :: u32
  gr_trgt_vni :: u32
  gr_pfx_addr :: dp_ip_address
  gr_pfx_length :: u8
  gr_trgt_addr :: dp_ip_address

definition vnf_prefix_body ::
  "'t vnf_state \<Rightarrow> u16 \<Rightarrow> dp_vnf_type \<Rightarrow> ipv6_addr \<Rightarrow> ptr \<Rightarrow> dpgrpc_route dp_grpc_responder \<Rightarrow>
     (int \<times> dpgrpc_route dp_grpc_responder) + dpgrpc_route dp_grpc_responder" where
  "vnf_prefix_body s port_id type ul_addr6 p r =
     (let vnf = the (vs_handle_heap s p)
      in if port_id \<noteq> vnf_port_id vnf \<or> vnf_type vnf \<noteq> type then Inr r
         else
           let (ok, r') = dp_grpc_add_reply \<lparr> gr_vni = 0, gr_trgt_vni = 0,
                 gr_pfx_addr = dp_copy_ipaddr (vp_ol (vnf_alias_pfx vnf)), gr_pfx_length = vp_length (vnf_alias_pfx vnf),
                 gr_trgt_addr = DP_SET_IPADDR6 ul_addr6 \<rparr> r
           in if ok then Inr r' else Inl (DP_GRPC_ERR_OUT_OF_MEMORY, r'))"

definition dp_list_vnf_alias_prefixes ::
  "'t vnf_env \<Rightarrow> nat \<Rightarrow> u16 \<Rightarrow> dp_vnf_type \<Rightarrow> 't vnf_state \<Rightarrow> dpgrpc_route dp_grpc_responder \<Rightarrow>
     (int \<times> dpgrpc_route dp_grpc_responder) option" where
  "dp_list_vnf_alias_prefixes env msg_size port_id type s responder =
     (if rh_count (env_vnf_handle env) (vs_handle_tbl s) = 0 then Some (DP_GRPC_OK, responder)
      else
        case rh_foreach (env_vnf_handle env) (\<lambda>_. vs_handle_tbl s) (\<lambda>_ r. (DP_GRPC_ERR_ITERATOR, r))
               (vnf_prefix_body s port_id type) 0 (dp_grpc_set_multireply msg_size responder) of
          None \<Rightarrow> None
        | Some (Inl res) \<Rightarrow> Some res
        | Some (Inr r) \<Rightarrow> Some (DP_GRPC_OK, r))"

section \<open>Invariant\<close>

definition handle_view :: "'t vnf_env \<Rightarrow> 't vnf_state \<Rightarrow> ipv6_addr \<rightharpoonup> dp_vnf" where
  "handle_view env s = obj_view (env_vnf_handle env) (vs_handle_tbl s) (vs_handle_heap s)"

definition value_view :: "'t vnf_env \<Rightarrow> 't vnf_state \<Rightarrow> dp_vnf \<rightharpoonup> ipv6_addr" where
  "value_view env s = obj_view (env_vnf_value env) (vs_value_tbl s) (vs_value_heap s)"

definition vnf_env_ok :: "'t vnf_env \<Rightarrow> bool" where
  "vnf_env_ok env \<longleftrightarrow> rte_hash_ok (env_vnf_handle env) \<and> rte_hash_ok (env_vnf_value env) \<and>
     rte_malloc_ok (env_vnf_malloc env) \<and> rte_malloc_ok (env_vnf_ul_malloc env)"

text \<open>
  Every entry of the value table points back into the handle table.  The converse holds for
  the types whose functions are unique: load balancers of one VNI, for example, share one value.
\<close>

definition vnf_ok :: "'t vnf_env \<Rightarrow> dp_vnf_type set \<Rightarrow> 't vnf_state \<Rightarrow> bool" where
  "vnf_ok env uniq s \<longleftrightarrow> vnf_env_ok env \<and>
     obj_ok (env_vnf_handle env) (vs_handle_tbl s) (vs_handle_heap s) \<and>
     obj_ok (env_vnf_value env) (vs_value_tbl s) (vs_value_heap s) \<and>
     (\<forall>v ul. value_view env s v = Some ul \<longrightarrow> handle_view env s ul = Some v) \<and>
     (\<forall>v ul. handle_view env s ul = Some v \<longrightarrow> vnf_type v \<in> uniq \<longrightarrow> value_view env s v = Some ul)"

lemma vnf_okD:
  assumes "vnf_ok env uniq s"
  shows "rte_hash_ok (env_vnf_handle env)" "rte_hash_ok (env_vnf_value env)"
    "rte_malloc_ok (env_vnf_malloc env)" "rte_malloc_ok (env_vnf_ul_malloc env)"
    "obj_ok (env_vnf_handle env) (vs_handle_tbl s) (vs_handle_heap s)"
    "obj_ok (env_vnf_value env) (vs_value_tbl s) (vs_value_heap s)"
    "value_view env s v = Some ul \<Longrightarrow> handle_view env s ul = Some v"
    "handle_view env s ul = Some v \<Longrightarrow> vnf_type v \<in> uniq \<Longrightarrow> value_view env s v = Some ul"
  using assms unfolding vnf_ok_def vnf_env_ok_def by blast+

text \<open>The tables on their own, without the tie between them.\<close>

definition vnf_tables_ok :: "'t vnf_env \<Rightarrow> 't vnf_state \<Rightarrow> bool" where
  "vnf_tables_ok env s \<longleftrightarrow> vnf_env_ok env \<and>
     obj_ok (env_vnf_handle env) (vs_handle_tbl s) (vs_handle_heap s) \<and>
     obj_ok (env_vnf_value env) (vs_value_tbl s) (vs_value_heap s)"

lemma vnf_tables_okD:
  assumes "vnf_tables_ok env s"
  shows "rte_hash_ok (env_vnf_handle env)" "rte_hash_ok (env_vnf_value env)"
    "rte_malloc_ok (env_vnf_malloc env)" "rte_malloc_ok (env_vnf_ul_malloc env)"
    "obj_ok (env_vnf_handle env) (vs_handle_tbl s) (vs_handle_heap s)"
    "obj_ok (env_vnf_value env) (vs_value_tbl s) (vs_value_heap s)"
  using assms by (simp_all add: vnf_tables_ok_def vnf_env_ok_def)

lemma vnf_ok_tables: "vnf_ok env uniq s \<Longrightarrow> vnf_tables_ok env s"
  unfolding vnf_ok_def vnf_tables_ok_def by blast

lemma dp_add_vnf_value_cases:
  assumes ok: "vnf_tables_ok env s" and add: "dp_add_vnf_value env vnf ul s = (r, s')"
  obtains (added) "r = DP_OK" "vnf_tables_ok env s'" "handle_view env s' = handle_view env s"
      "value_view env s' = (value_view env s)(vnf \<mapsto> ul)" "vs_handle_tbl s' = vs_handle_tbl s" "vs_handle_heap s' = vs_handle_heap s"
    | (failed) "r = DP_ERROR" "vnf_tables_ok env s'" "handle_view env s' = handle_view env s"
      "value_view env s' = value_view env s" "vs_handle_tbl s' = vs_handle_tbl s" "vs_handle_heap s' = vs_handle_heap s"
proof (cases "env_vnf_ul_malloc env (vs_value_heap s)")
  case None
  then show thesis
    using add ok failed by (simp add: dp_add_vnf_value_def)
next
  case (Some p)
  note new = rte_malloc_fresh [OF vnf_tables_okD(4) [OF ok] Some]
  obtain ret t where t: "rh_add_data (env_vnf_value env) (vs_value_tbl s) vnf p = (ret, t)" by fastforce
  from vnf_tables_okD(2) [OF ok] t show thesis
  proof (cases rule: rh_add_data_cases)
    case added': added
    have s': "r = DP_OK" "s' = s\<lparr> vs_value_heap := (vs_value_heap s)(p \<mapsto> ul), vs_value_tbl := t \<rparr>"
      using add Some t added' by (simp_all add: dp_add_vnf_value_def)
    show thesis
      using obj_add [OF vnf_tables_okD(6) [OF ok] new added'(2), of ul] ok s'
      by (intro added) (simp_all add: vnf_tables_ok_def handle_view_def value_view_def)
  next
    case failed': failed
    have s': "r = DP_ERROR" "s' = s\<lparr> vs_value_tbl := t \<rparr>"
      using add Some t failed' new by (simp_all add: dp_add_vnf_value_def)
    show thesis
      using ok s' by (intro failed)
        (simp_all add: vnf_tables_ok_def handle_view_def value_view_def obj_ok_cong [OF failed'(3)] obj_view_cong [OF failed'(3)])
  qed
qed

lemma dp_delete_vnf_value_eq:
  assumes ok: "vnf_tables_ok env s" and del: "dp_delete_vnf_value env vnf s = (r, s')"
  shows "r = (if value_view env s vnf = None then DP_ERROR else DP_OK)" "vnf_tables_ok env s'"
    "handle_view env s' = handle_view env s" "value_view env s' = (value_view env s)(vnf := None)"
    "vs_handle_tbl s' = vs_handle_tbl s" "vs_handle_heap s' = vs_handle_heap s"
proof -
  note lookup = rh_lookup_view [OF vnf_tables_okD(2) [OF ok], of "vs_value_tbl s" vnf]
  note none = obj_view_None [OF vnf_tables_okD(6) [OF ok], of vnf]
  have "r = (if value_view env s vnf = None then DP_ERROR else DP_OK) \<and> vnf_tables_ok env s' \<and>
    handle_view env s' = handle_view env s \<and> value_view env s' = (value_view env s)(vnf := None) \<and>
    vs_handle_tbl s' = vs_handle_tbl s \<and> vs_handle_heap s' = vs_handle_heap s"
  proof (cases "rh_view (env_vnf_value env) (vs_value_tbl s) vnf")
    case None
    then show ?thesis
      using del ok lookup none by (auto simp: dp_delete_vnf_value_def value_view_def fun_upd_idem_iff)
  next
    case (Some p)
    obtain ret t where t: "rh_del (env_vnf_value env) (vs_value_tbl s) vnf = (ret, t)" by fastforce
    note d = rh_del_view [OF vnf_tables_okD(2) [OF ok] t]
    have s': "r = DP_OK" "s' = s\<lparr> vs_value_tbl := t, vs_value_heap := rte_free (vs_value_heap s) p \<rparr>"
      using del Some lookup t d(3) [OF Some] by (simp_all add: dp_delete_vnf_value_def)
    show ?thesis
      using obj_del [OF vnf_tables_okD(6) [OF ok] Some d(1)] ok s' none Some
      by (simp add: vnf_tables_ok_def handle_view_def value_view_def)
  qed
  then show "r = (if value_view env s vnf = None then DP_ERROR else DP_OK)" "vnf_tables_ok env s'"
    "handle_view env s' = handle_view env s" "value_view env s' = (value_view env s)(vnf := None)"
    "vs_handle_tbl s' = vs_handle_tbl s" "vs_handle_heap s' = vs_handle_heap s"
    by auto
qed

lemma dp_del_vnf_eq:
  assumes ok: "vnf_tables_ok env s" and del: "dp_del_vnf env ul s = (r, s')"
  shows "vnf_tables_ok env s'" "handle_view env s' = (handle_view env s)(ul := None)"
    "value_view env s' = (case handle_view env s ul of None \<Rightarrow> value_view env s | Some v \<Rightarrow> (value_view env s)(v := None))"
    "r = (case handle_view env s ul of None \<Rightarrow> - ENOENT | Some v \<Rightarrow> if value_view env s v = None then DP_ERROR else DP_OK)"
proof -
  note lookup = rh_lookup_view [OF vnf_tables_okD(1) [OF ok], of "vs_handle_tbl s" ul]
  note none = obj_view_None [OF vnf_tables_okD(5) [OF ok], of ul]
  have "vnf_tables_ok env s' \<and> handle_view env s' = (handle_view env s)(ul := None) \<and>
    value_view env s' = (case handle_view env s ul of None \<Rightarrow> value_view env s | Some v \<Rightarrow> (value_view env s)(v := None)) \<and>
    r = (case handle_view env s ul of None \<Rightarrow> - ENOENT | Some v \<Rightarrow> if value_view env s v = None then DP_ERROR else DP_OK)"
  proof (cases "rh_view (env_vnf_handle env) (vs_handle_tbl s) ul")
    case None
    then show ?thesis
      using del ok lookup none by (auto simp: dp_del_vnf_def handle_view_def fun_upd_idem_iff)
  next
    case (Some p)
    obtain v where v: "vs_handle_heap s p = Some v" "handle_view env s ul = Some v"
      unfolding handle_view_def by (rule obj_ok_liveE [OF vnf_tables_okD(5) [OF ok] Some])
    obtain ret t where t: "rh_del (env_vnf_handle env) (vs_handle_tbl s) ul = (ret, t)" by fastforce
    note d = rh_del_view [OF vnf_tables_okD(1) [OF ok] t]
    let ?s1 = "s\<lparr> vs_handle_tbl := t \<rparr>"
    obtain r2 s2 where vdel: "dp_delete_vnf_value env v ?s1 = (r2, s2)" by fastforce
    have "obj_ok (env_vnf_handle env) t (vs_handle_heap s)"
      using vnf_tables_okD(5) [OF ok] unfolding obj_ok_def d(1) by (simp add: domIff)
    then have ok1: "vnf_tables_ok env ?s1"
      using ok by (simp add: vnf_tables_ok_def)
    note e = dp_delete_vnf_value_eq [OF ok1 vdel]
    have s': "r = r2" "s' = s2\<lparr> vs_handle_heap := rte_free (vs_handle_heap s2) p \<rparr>"
      using del Some lookup t d(3) [OF Some] v(1) vdel e(1) by (simp_all add: dp_del_vnf_def split: if_splits)
    note o = obj_del [OF vnf_tables_okD(5) [OF ok] Some d(1)]
    have "value_view env ?s1 = value_view env s"
      by (simp add: value_view_def)
    then show ?thesis
      using e o s' v(2) by (simp add: vnf_tables_ok_def handle_view_def value_view_def)
  qed
  then show "vnf_tables_ok env s'" "handle_view env s' = (handle_view env s)(ul := None)"
    "value_view env s' = (case handle_view env s ul of None \<Rightarrow> value_view env s | Some v \<Rightarrow> (value_view env s)(v := None))"
    "r = (case handle_view env s ul of None \<Rightarrow> - ENOENT | Some v \<Rightarrow> if value_view env s v = None then DP_ERROR else DP_OK)"
    by auto
qed

lemma dp_get_vnf_view: "vnf_tables_ok env s \<Longrightarrow> dp_get_vnf env ul s = handle_view env s ul"
  using obj_ok_live [OF vnf_tables_okD(5), of env s ul]
  by (auto simp: dp_get_vnf_def handle_view_def obj_view_def rh_lookup_view [OF vnf_tables_okD(1)] split: option.splits)

lemma dp_vnf_value_exists_view: "vnf_tables_ok env s \<Longrightarrow> dp_vnf_value_exists env v s \<longleftrightarrow> value_view env s v \<noteq> None"
  by (auto simp: dp_vnf_value_exists_def value_view_def obj_view_None [OF vnf_tables_okD(6)]
      rh_lookup_view [OF vnf_tables_okD(2)] split: option.splits)

lemma dp_add_vnf_cases:
  assumes ok: "vnf_tables_ok env s" and add: "dp_add_vnf env ul type port_id vni prefix len s = (r, s')"
    and v: "v = dp_fill_vnf_data type port_id vni prefix len"
  obtains (added) "r = DP_OK" "vnf_tables_ok env s'" "handle_view env s ul = None"
      "handle_view env s' = (handle_view env s)(ul \<mapsto> v)" "value_view env s' = (value_view env s)(v \<mapsto> ul)"
    | (failed) "r = DP_ERROR" "vnf_tables_ok env s'" "handle_view env s' = handle_view env s"
      "value_view env s' = value_view env s \<or> handle_view env s ul = None \<and> value_view env s' = (value_view env s)(v := None)"
proof (cases "rh_view (env_vnf_handle env) (vs_handle_tbl s) ul")
  case (Some p)
  then show thesis
    using add ok failed rh_lookup_view [OF vnf_tables_okD(1) [OF ok]] by (simp add: dp_add_vnf_def)
next
  case None
  note lookup = rh_lookup_view [OF vnf_tables_okD(1) [OF ok], of "vs_handle_tbl s" ul]
  have absent: "handle_view env s ul = None"
    using None obj_view_None [OF vnf_tables_okD(5) [OF ok]] by (simp add: handle_view_def)
  show thesis
  proof (cases "env_vnf_malloc env (vs_handle_heap s)")
    case None': None
    then show thesis
      using add None lookup ok failed by (simp add: dp_add_vnf_def)
  next
    case (Some p)
    note new = rte_malloc_fresh [OF vnf_tables_okD(3) [OF ok] Some]
    obtain ret t where t: "rh_add_data (env_vnf_handle env) (vs_handle_tbl s) ul p = (ret, t)" by fastforce
    from vnf_tables_okD(1) [OF ok] t show thesis
    proof (cases rule: rh_add_data_cases)
      case failed': failed
      have "r = DP_ERROR" "s' = s\<lparr> vs_handle_tbl := t \<rparr>"
        using add None lookup Some t failed' new by (simp_all add: dp_add_vnf_def)
      then show thesis
        using ok by (intro failed)
          (simp_all add: vnf_tables_ok_def handle_view_def value_view_def obj_ok_cong [OF failed'(3)] obj_view_cong [OF failed'(3)])
    next
      case added': added
      let ?s2 = "s\<lparr> vs_handle_heap := (vs_handle_heap s)(p \<mapsto> v), vs_handle_tbl := t \<rparr>"
      obtain r3 s3 where val: "dp_add_vnf_value env v ul ?s2 = (r3, s3)" by fastforce
      have o: "vnf_tables_ok env ?s2" "handle_view env ?s2 = (handle_view env s)(ul \<mapsto> v)" "value_view env ?s2 = value_view env s"
        using obj_add [OF vnf_tables_okD(5) [OF ok] new added'(2), of v] ok
        by (simp_all add: vnf_tables_ok_def handle_view_def value_view_def)
      have s': "(r, s') = (if DP_FAILED r3 then (DP_ERROR, snd (dp_del_vnf env ul s3)) else (DP_OK, s3))"
        using add None lookup Some t added' val v by (simp add: dp_add_vnf_def)
      from o(1) val show thesis
      proof (cases rule: dp_add_vnf_value_cases)
        case added'': added
        then show thesis
          using s' o absent by (intro added) simp_all
      next
        case failed'': failed
        obtain r4 s4 where del: "dp_del_vnf env ul s3 = (r4, s4)" by fastforce
        note d = dp_del_vnf_eq [OF failed''(2) del]
        have "handle_view env s4 = handle_view env s" "value_view env s4 = (value_view env s)(v := None)"
          using d failed'' o absent by (simp_all add: fun_upd_idem_iff)
        then show thesis
          using s' failed''(1) del d(1) absent by (intro failed) simp_all
      qed
    qed
  qed
qed

lemma dp_add_vnf_ok:
  assumes ok: "vnf_ok env uniq s" and add: "dp_add_vnf env ul type port_id vni prefix len s = (r, s')"
    and fresh: "type \<in> uniq \<Longrightarrow> value_view env s (dp_fill_vnf_data type port_id vni prefix len) = None"
  shows "vnf_ok env uniq s'"
proof -
  define v where "v = dp_fill_vnf_data type port_id vni prefix len"
  have v: "vnf_type v \<in> uniq \<Longrightarrow> value_view env s v = None"
    using fresh by (simp add: v_def dp_fill_vnf_data_def)
  note ok1 = vnf_ok_tables [OF ok]
  have env: "vnf_env_ok env"
    using ok by (simp only: vnf_ok_def)
  from ok1 add v_def have "vnf_tables_ok env s' \<and>
    (\<forall>v ul. value_view env s' v = Some ul \<longrightarrow> handle_view env s' ul = Some v) \<and>
    (\<forall>v ul. handle_view env s' ul = Some v \<longrightarrow> vnf_type v \<in> uniq \<longrightarrow> value_view env s' v = Some ul)"
  proof (cases rule: dp_add_vnf_cases)
    case added
    have "handle_view env s' ul' = Some v'" if "value_view env s' v' = Some ul'" for v' ul'
      using that vnf_okD(7) [OF ok, of v' ul'] added(3) unfolding added(4,5) by (auto split: if_splits)
    moreover have "value_view env s' v' = Some ul'" if "handle_view env s' ul' = Some v'" "vnf_type v' \<in> uniq" for v' ul'
      using that vnf_okD(8) [OF ok, of ul' v'] v unfolding added(4,5) by (auto split: if_splits)
    ultimately show ?thesis
      using added(2) by blast
  next
    case failed
    have "handle_view env s' ul' = Some v'" if "value_view env s' v' = Some ul'" for v' ul'
      using that vnf_okD(7) [OF ok, of v' ul'] failed(4) unfolding failed(3) by (auto split: if_splits)
    moreover have "value_view env s' v' = Some ul'" if "handle_view env s' ul' = Some v'" "vnf_type v' \<in> uniq" for v' ul'
      using that vnf_okD(8) [OF ok, of ul' v'] v failed(4) unfolding failed(3) by (auto split: if_splits)
    ultimately show ?thesis
      using failed(2) by blast
  qed
  then show ?thesis
    using env unfolding vnf_ok_def vnf_tables_ok_def by blast
qed

lemma dp_del_vnf_ok:
  assumes ok: "vnf_ok env uniq s" and del: "dp_del_vnf env ul s = (r, s')"
  shows "vnf_ok env uniq s'"
proof -
  note d = dp_del_vnf_eq [OF vnf_ok_tables [OF ok] del]
  have "handle_view env s' ul' = Some v'" if "value_view env s' v' = Some ul'" for v' ul'
    using that vnf_okD(7) [OF ok, of v' ul'] unfolding d(2,3) by (auto split: if_splits option.splits)
  moreover have "value_view env s' v' = Some ul'" if "handle_view env s' ul' = Some v'" "vnf_type v' \<in> uniq" for v' ul'
    using that vnf_okD(8) [OF ok, of ul' v'] vnf_okD(8) [OF ok, of ul v'] unfolding d(2,3) by (auto split: if_splits option.splits)
  ultimately show ?thesis
    using d(1) unfolding vnf_ok_def vnf_tables_ok_def by blast
qed

lemma dp_del_vnf_by_value_eq:
  assumes ok: "vnf_ok env uniq s" and del: "dp_del_vnf_by_value env type port_id vni prefix len s = (r, s')"
    and v: "v = dp_fill_vnf_data type port_id vni prefix len"
  shows "vnf_ok env uniq s'" "r = (if value_view env s v = None then DP_GRPC_ERR_NOT_FOUND else DP_OK)"
    "value_view env s' = (value_view env s)(v := None)"
    "handle_view env s' = (case value_view env s v of None \<Rightarrow> handle_view env s | Some ul \<Rightarrow> (handle_view env s)(ul := None))"
proof -
  note ok1 = vnf_ok_tables [OF ok]
  note lookup = rh_lookup_view [OF vnf_okD(2) [OF ok], of "vs_value_tbl s" v]
  have "vnf_ok env uniq s' \<and> r = (if value_view env s v = None then DP_GRPC_ERR_NOT_FOUND else DP_OK) \<and>
    value_view env s' = (value_view env s)(v := None) \<and>
    handle_view env s' = (case value_view env s v of None \<Rightarrow> handle_view env s | Some ul \<Rightarrow> (handle_view env s)(ul := None))"
  proof (cases "rh_view (env_vnf_value env) (vs_value_tbl s) v")
    case None
    then have "value_view env s v = None"
      using obj_view_None [OF vnf_okD(6) [OF ok]] by (simp add: value_view_def)
    then show ?thesis
      using None lookup del ok v by (auto simp: dp_del_vnf_by_value_def fun_eq_iff)
  next
    case (Some p)
    then obtain ul where ul: "vs_value_heap s p = Some ul" "value_view env s v = Some ul"
      unfolding value_view_def by (rule obj_ok_liveE [OF vnf_okD(6) [OF ok]])
    obtain r1 s1 where d: "dp_del_vnf env ul s = (r1, s1)" by fastforce
    have h: "handle_view env s ul = Some v"
      by (rule vnf_okD(7) [OF ok ul(2)])
    note e = dp_del_vnf_eq [OF ok1 d]
    have "(r, s') = (DP_OK, s1)"
      using del Some lookup v ul d e(4) h by (simp add: dp_del_vnf_by_value_def)
    then show ?thesis
      using dp_del_vnf_ok [OF ok d] e h ul(2) by simp
  qed
  then show "vnf_ok env uniq s'" "r = (if value_view env s v = None then DP_GRPC_ERR_NOT_FOUND else DP_OK)"
    "value_view env s' = (value_view env s)(v := None)"
    "handle_view env s' = (case value_view env s v of None \<Rightarrow> handle_view env s | Some ul \<Rightarrow> (handle_view env s)(ul := None))"
    by auto
qed

section \<open>A concrete environment\<close>

definition enc_vnf :: "dp_vnf \<Rightarrow> nat list" where
  "enc_vnf v = [case vnf_type v of DP_VNF_TYPE_UNDEFINED \<Rightarrow> 0 | DP_VNF_TYPE_LB_ALIAS_PFX \<Rightarrow> 1 | DP_VNF_TYPE_ALIAS_PFX \<Rightarrow> 2
       | DP_VNF_TYPE_LB \<Rightarrow> 3 | DP_VNF_TYPE_VIP \<Rightarrow> 4 | DP_VNF_TYPE_NAT \<Rightarrow> 5 | DP_VNF_TYPE_INTERFACE_IP \<Rightarrow> 6,
     unat (vnf_vni v), unat (vnf_port_id v), unat (ip_data (vp_ol (vnf_alias_pfx v))), of_bool (ip_is_v6 (vp_ol (vnf_alias_pfx v))),
     unat (vp_length (vnf_alias_pfx v))]"

definition dec_vnf :: "nat list \<Rightarrow> dp_vnf" where
  "dec_vnf xs = \<lparr> vnf_type = [DP_VNF_TYPE_UNDEFINED, DP_VNF_TYPE_LB_ALIAS_PFX, DP_VNF_TYPE_ALIAS_PFX, DP_VNF_TYPE_LB,
       DP_VNF_TYPE_VIP, DP_VNF_TYPE_NAT, DP_VNF_TYPE_INTERFACE_IP] ! (xs ! 0),
     vnf_vni = of_nat (xs ! 1), vnf_port_id = of_nat (xs ! 2),
     vnf_alias_pfx = \<lparr> vp_ol = \<lparr> ip_data = of_nat (xs ! 3), ip_is_v6 = (xs ! 4 = 1) \<rparr>, vp_length = of_nat (xs ! 5) \<rparr> \<rparr>"

definition enc_ipv6 :: "ipv6_addr \<Rightarrow> nat list" where "enc_ipv6 a = [unat a]"
definition dec_ipv6 :: "nat list \<Rightarrow> ipv6_addr" where "dec_ipv6 xs = of_nat (xs ! 0)"

lemma dec_enc_vnf [simp]: "dec_vnf (enc_vnf v) = v" "dec_ipv6 (enc_ipv6 a) = a"
  by (cases "vnf_type v"; simp add: dec_vnf_def enc_vnf_def) (simp add: dec_ipv6_def enc_ipv6_def)

definition list_vnf_env :: "list_table vnf_env" where
  "list_vnf_env = \<lparr> env_vnf_handle = list_hash enc_ipv6 dec_ipv6, env_vnf_value = list_hash enc_vnf dec_vnf,
     env_vnf_malloc = first_free, env_vnf_ul_malloc = first_free \<rparr>"

definition empty_vnf_state :: "list_table vnf_state" where
  "empty_vnf_state = \<lparr> vs_handle_tbl = [], vs_value_tbl = [], vs_handle_heap = Map.empty, vs_value_heap = Map.empty \<rparr>"

lemma empty_vnf_views: "handle_view list_vnf_env empty_vnf_state = Map.empty" "value_view list_vnf_env empty_vnf_state = Map.empty"
  by (simp_all add: handle_view_def value_view_def obj_view_def list_vnf_env_def empty_vnf_state_def fun_eq_iff)

lemma empty_vnf_ok: "vnf_ok list_vnf_env uniq empty_vnf_state"
  unfolding vnf_ok_def empty_vnf_views
  by (simp add: vnf_env_ok_def obj_ok_def list_vnf_env_def empty_vnf_state_def list_hash_ok first_free_ok)

definition example_vnf_state :: "list_table vnf_state" where
  "example_vnf_state = snd (dp_add_vnf list_vnf_env 7 DP_VNF_TYPE_ALIAS_PFX 3 100 (DP_SET_IPADDR4 10) 24 empty_vnf_state)"

lemma example_vnf_add: "dp_add_vnf list_vnf_env 7 DP_VNF_TYPE_ALIAS_PFX 3 100 (DP_SET_IPADDR4 10) 24 empty_vnf_state = (DP_OK, example_vnf_state)"
  by (simp add: example_vnf_state_def dp_add_vnf_def dp_add_vnf_value_def empty_vnf_state_def list_vnf_env_def Let_def)

section \<open>Properties\<close>

text \<open>The life of the tables.  A function of a unique type is added only after a test that it is not there.\<close>

inductive vnf_step :: "'t vnf_env \<Rightarrow> dp_vnf_type set \<Rightarrow> 't vnf_state \<Rightarrow> 't vnf_state \<Rightarrow> bool" for env uniq where
  added: "\<lbrakk> type \<in> uniq \<longrightarrow> \<not> dp_vnf_value_exists env (dp_fill_vnf_data type port_id vni prefix len) s;
     dp_add_vnf env ul type port_id vni prefix len s = (r, s') \<rbrakk> \<Longrightarrow> vnf_step env uniq s s'"
| deleted: "dp_del_vnf env ul s = (r, s') \<Longrightarrow> vnf_step env uniq s s'"
| deleted_by_value: "dp_del_vnf_by_value env type port_id vni prefix len s = (r, s') \<Longrightarrow> vnf_step env uniq s s'"

lemma vnf_step_ok: "vnf_step env uniq s s' \<Longrightarrow> vnf_ok env uniq s \<Longrightarrow> vnf_ok env uniq s'"
proof (induction rule: vnf_step.induct)
  case (added type port_id vni prefix len s ul r s')
  then show ?case
    using dp_vnf_value_exists_view [OF vnf_ok_tables [OF added(3)]] by (intro dp_add_vnf_ok [OF added(3,2)]) auto
qed (auto intro: dp_del_vnf_ok dp_del_vnf_by_value_eq(1) [OF _ _ refl])

text \<open>
  Every value entry points to an address that has exactly this function, and for a type that is only
  added after a test of the value table the two tables are inverse to each other.
\<close>
lemma vnf_tables_inverse:
  assumes ok: "vnf_ok env {type} s"
  shows "(value_view env s v = Some ul \<longrightarrow> dp_get_vnf env ul s = Some v) \<and>
    (vnf_type v = type \<longrightarrow> (dp_get_vnf env ul s = Some v \<longleftrightarrow> value_view env s v = Some ul)) \<and>
    (dp_vnf_value_exists env (dp_fill_vnf_data type port_id vni ip len) s \<longleftrightarrow>
       (\<exists>!ul. dp_get_vnf env ul s = Some (dp_fill_vnf_data type port_id vni ip len)))"
proof -
  have tie: "value_view env s v = Some ul \<Longrightarrow> dp_get_vnf env ul s = Some v"
    "vnf_type v = type \<Longrightarrow> dp_get_vnf env ul s = Some v \<longleftrightarrow> value_view env s v = Some ul" for v ul
    using vnf_okD(7) [OF ok, of v ul] vnf_okD(8) [OF ok, of ul v] unfolding dp_get_vnf_view [OF vnf_ok_tables [OF ok]] by blast+
  moreover have "dp_vnf_value_exists env v s \<longleftrightarrow> (\<exists>!ul. dp_get_vnf env ul s = Some v)" if "vnf_type v = type" for v
    unfolding dp_vnf_value_exists_view [OF vnf_ok_tables [OF ok]] tie(2) [OF that] by auto
  ultimately show ?thesis
    by (simp add: dp_fill_vnf_data_def)
qed

lemma dp_vnf_init_ok:
  assumes "vnf_env_ok env" "dp_vnf_init create = (DP_OK, Some s)"
    and "\<And>name t. create name = Some t \<Longrightarrow> rh_view (env_vnf_handle env) t = Map.empty \<and> rh_view (env_vnf_value env) t = Map.empty"
  shows "vnf_ok env uniq s"
  using assms by (auto simp: dp_vnf_init_def vnf_ok_def obj_ok_def handle_view_def value_view_def obj_view_def split: option.splits)

text \<open>
  Deleting a prefix by value removes exactly the function found under that value, from both
  tables, and reports \<^verbatim>\<open>DP_GRPC_ERR_NOT_FOUND\<close> and changes nothing when there is none.
\<close>
lemma dp_del_vnf_by_value_correct:
  assumes "vnf_ok env uniq s" "dp_del_vnf_by_value env type port_id vni prefix len s = (r, s')"
  shows "let v = dp_fill_vnf_data type port_id vni prefix len in
    r = (if value_view env s v = None then DP_GRPC_ERR_NOT_FOUND else DP_OK) \<and>
    value_view env s' = (value_view env s)(v := None) \<and>
    handle_view env s' = (case value_view env s v of None \<Rightarrow> handle_view env s | Some ul \<Rightarrow> (handle_view env s)(ul := None)) \<and>
    vnf_ok env uniq s'"
  using dp_del_vnf_by_value_eq [OF assms refl] by (simp add: Let_def)

lemma dp_del_vnf_by_value_correct_witness:
  "\<exists>s'. dp_del_vnf_by_value list_vnf_env DP_VNF_TYPE_NAT 3 100 (DP_SET_IPADDR4 0) 0 empty_vnf_state = (DP_GRPC_ERR_NOT_FOUND, s') \<and>
     value_view list_vnf_env s' = Map.empty"
proof -
  obtain r s' where d: "dp_del_vnf_by_value list_vnf_env DP_VNF_TYPE_NAT 3 100 (DP_SET_IPADDR4 0) 0 empty_vnf_state = (r, s')"
    by fastforce
  from dp_del_vnf_by_value_correct [OF empty_vnf_ok d] d show ?thesis
    by (auto simp: Let_def empty_vnf_views fun_eq_iff)
qed

text \<open>
  Listing the prefixes of an interface ends and delivers one message with prefix and underlay
  address for each function of the given type and port, or stops early with an error when the
  reply buffers run out.
\<close>
lemma dp_list_vnf_alias_prefixes_client:
  assumes "vnf_tables_ok env s" "rte_iter_ok (env_vnf_handle env) slots"
    and "0 < msg_size" "msg_size \<le> rep_max_size" "rep_max_size \<le> UINT16_MAX"
  shows "\<exists>ret r. dp_list_vnf_alias_prefixes env msg_size port_id type s (dp_grpc_init_responder sz rep_max_size pool) = Some (ret, r) \<and>
    lists_view (handle_view env s) (\<lambda>_ v. vnf_port_id v = port_id \<and> vnf_type v = type)
      (\<lambda>ul v. \<lparr> gr_vni = 0, gr_trgt_vni = 0, gr_pfx_addr = dp_copy_ipaddr (vp_ol (vnf_alias_pfx v)),
         gr_pfx_length = vp_length (vnf_alias_pfx v), gr_trgt_addr = DP_SET_IPADDR6 ul \<rparr>)
      ret (client_messages (dp_grpc_send_response ret r))"
proof -
  have body: "vnf_prefix_body s port_id type = list_body (\<lambda>_ v. vnf_port_id v = port_id \<and> vnf_type v = type)
      (\<lambda>ul v. \<lparr> gr_vni = 0, gr_trgt_vni = 0, gr_pfx_addr = dp_copy_ipaddr (vp_ol (vnf_alias_pfx v)),
         gr_pfx_length = vp_length (vnf_alias_pfx v), gr_trgt_addr = DP_SET_IPADDR6 ul \<rparr>) (vs_handle_heap s)"
    by (auto simp: fun_eq_iff vnf_prefix_body_def list_body_def Let_def)
  show ?thesis
    unfolding dp_list_vnf_alias_prefixes_def body dp_list_table_def [symmetric] handle_view_def
    by (rule dp_list_table_spec [OF vnf_tables_okD(1) [OF assms(1)] assms(2) vnf_tables_okD(5) [OF assms(1)] assms(3-5)])
qed

lemma dp_list_vnf_alias_prefixes_client_witness:
  "\<exists>ret r. dp_list_vnf_alias_prefixes list_vnf_env 100 3 DP_VNF_TYPE_ALIAS_PFX example_vnf_state (dp_grpc_init_responder 100 1000 []) = Some (ret, r)"
proof -
  from vnf_ok_tables [OF empty_vnf_ok] example_vnf_add refl have "vnf_tables_ok list_vnf_env example_vnf_state"
    by (cases rule: dp_add_vnf_cases) simp_all
  moreover have "rte_iter_ok (env_vnf_handle list_vnf_env) (list_slots enc_ipv6 dec_ipv6)"
    by (simp add: list_vnf_env_def list_hash_iter_ok)
  ultimately show ?thesis
    using dp_list_vnf_alias_prefixes_client [of list_vnf_env example_vnf_state "list_slots enc_ipv6 dec_ipv6" 100 1000 3 DP_VNF_TYPE_ALIAS_PFX 100 "[]"]
    by auto
qed

end
