(* ===== verification/Dp_Flow_Key.thy ===== *)
theory Dp_Flow_Key
  imports Dp_Vni Dp_Vnf
begin

text \<open>
  The conntrack key of a packet (\<^verbatim>\<open>src/dp_flow.c\<close>, key construction and inversion) and the helpers of
  \<^verbatim>\<open>src/rte_flow/dp_rte_flow.c\<close> that read and rewrite the layer-4 headers.  The lemmas: inversion is
  an involution on the keys of TCP, UDP and echo traffic, a reply packet has the inverted key, and
  rewriting the ICMP identifier keeps the checksum right.
\<close>

unbundle bit_operations_syntax

section \<open>Packets\<close>

abbreviation (input) RTE_IP_ICMP_ECHO_REPLY :: u8 where "RTE_IP_ICMP_ECHO_REPLY \<equiv> 0"
abbreviation (input) RTE_IP_ICMP_ECHO_REQUEST :: u8 where "RTE_IP_ICMP_ECHO_REQUEST \<equiv> 8"
abbreviation (input) DP_ICMPV6_ECHO_REQUEST :: u8 where "DP_ICMPV6_ECHO_REQUEST \<equiv> 128"
abbreviation (input) DP_ICMPV6_ECHO_REPLY :: u8 where "DP_ICMPV6_ECHO_REPLY \<equiv> 129"
abbreviation (input) DP_IP_ICMP_TYPE_ERROR :: u8 where "DP_IP_ICMP_TYPE_ERROR \<equiv> 3"
abbreviation (input) DP_IP_ICMP_CODE_DST_PROTO_UNREACHABLE :: u8 where "DP_IP_ICMP_CODE_DST_PROTO_UNREACHABLE \<equiv> 2"
abbreviation (input) DP_IP_ICMP_CODE_DST_PORT_UNREACHABLE :: u8 where "DP_IP_ICMP_CODE_DST_PORT_UNREACHABLE \<equiv> 3"
abbreviation (input) DP_IP_ICMP_CODE_FRAGMENT_NEEDED :: u8 where "DP_IP_ICMP_CODE_FRAGMENT_NEEDED \<equiv> 4"
abbreviation (input) DP_L4_PORT_DIR_SRC :: u8 where "DP_L4_PORT_DIR_SRC \<equiv> 1"
abbreviation (input) DP_L4_PORT_DIR_DST :: u8 where "DP_L4_PORT_DIR_DST \<equiv> 2"

text \<open>
  Of a packet buffer the program reads the port it came in on and the headers: \<open>mb_l4_hdr\<close> is what
  follows the IP header, \<open>mb_err_ipv4_hdr\<close> what follows the ICMP header, and the last two fields the
  four bytes at the end of that header, where \<^verbatim>\<open>ihl\<close> says it ends.
\<close>

record rte_mbuf =
  mb_port :: u16
  mb_ipv4_hdr :: rte_ipv4_hdr
  mb_l4_hdr :: l4_hdr
  mb_err_ipv4_hdr :: rte_ipv4_hdr
  mb_err_src_port :: u16
  mb_err_dst_port :: u16

record dp_icmp_err_ip_info =
  ei_err_ipv4_hdr :: "rte_ipv4_hdr option"
  ei_l4_src_port :: u16
  ei_l4_dst_port :: u16

definition dp_get_icmp_err_ip_hdr :: "rte_mbuf \<Rightarrow> dp_flow \<Rightarrow> dp_icmp_err_ip_info \<Rightarrow> dp_icmp_err_ip_info" where
  "dp_get_icmp_err_ip_hdr m df info =
     (if df_l4_type df = IPPROTO_ICMP \<and> icmp_type (mb_l4_hdr m) = DP_IP_ICMP_TYPE_ERROR then
        let hdr = mb_err_ipv4_hdr m; info1 = info\<lparr> ei_err_ipv4_hdr := Some hdr \<rparr>
        in if ipv4_next_proto_id hdr = IPPROTO_TCP \<or> ipv4_next_proto_id hdr = IPPROTO_UDP
           then info1\<lparr> ei_l4_src_port := mb_err_src_port m, ei_l4_dst_port := mb_err_dst_port m \<rparr>
           else info1
      else info)"

text \<open>The pointer into the packet becomes the header it points to; the port is written to the packet.\<close>

definition dp_change_icmp_err_l4_src_port ::
  "rte_mbuf \<Rightarrow> dp_icmp_err_ip_info \<Rightarrow> u16 \<Rightarrow> rte_mbuf \<times> dp_icmp_err_ip_info" where
  "dp_change_icmp_err_l4_src_port m info new_val =
     (if icmp_type (mb_l4_hdr m) = DP_IP_ICMP_TYPE_ERROR then
        let hdr = mb_err_ipv4_hdr m; info1 = info\<lparr> ei_err_ipv4_hdr := Some hdr \<rparr>
        in if ipv4_next_proto_id hdr = IPPROTO_TCP \<or> ipv4_next_proto_id hdr = IPPROTO_UDP
           then (m\<lparr> mb_err_src_port := htons new_val \<rparr>, info1)
           else (m, info1)
      else (m, info))"

text \<open>
  TCP and UDP have their ports at the same place; on an ICMP header the first 16 bits are type and
  code, the next ones the checksum.
\<close>

fun l4_set_src_port :: "u16 \<Rightarrow> l4_hdr \<Rightarrow> l4_hdr" where
  "l4_set_src_port v (Tcp_hdr s d f c) = Tcp_hdr v d f c"
| "l4_set_src_port v (Udp_hdr s d c) = Udp_hdr v d c"
| "l4_set_src_port v (Icmp_hdr ty co c i) = Icmp_hdr (ucast v) (ucast (drop_bit 8 v)) c i"

fun l4_set_dst_port :: "u16 \<Rightarrow> l4_hdr \<Rightarrow> l4_hdr" where
  "l4_set_dst_port v (Tcp_hdr s d f c) = Tcp_hdr s v f c"
| "l4_set_dst_port v (Udp_hdr s d c) = Udp_hdr s v c"
| "l4_set_dst_port v (Icmp_hdr ty co c i) = Icmp_hdr ty co v i"

definition dp_change_l4_hdr_port :: "rte_mbuf \<Rightarrow> u8 \<Rightarrow> u16 \<Rightarrow> rte_mbuf" where
  "dp_change_l4_hdr_port m port_type new_val =
     m\<lparr> mb_l4_hdr := (if port_type = DP_L4_PORT_DIR_SRC then l4_set_src_port (htons new_val) (mb_l4_hdr m)
                      else l4_set_dst_port (htons new_val) (mb_l4_hdr m)) \<rparr>"

text \<open>The incremental update of the one's complement checksum, in 32-bit arithmetic.\<close>

definition cksum_fold :: "u32 \<Rightarrow> u32" where
  "cksum_fold c = (c AND 0xffff) + drop_bit 16 c"

definition icmp_cksum_update :: "u16 \<Rightarrow> u16 \<Rightarrow> u16 \<Rightarrow> u16" where
  "icmp_cksum_update old_cksum old_identifier identifier =
     (let c1 = NOT (ucast old_cksum :: u32) AND 0xffff;
          c2 = c1 + (NOT (ucast old_identifier) AND 0xffff);
          c3 = c2 + (ucast identifier AND 0xffff)
      in ucast (NOT (cksum_fold (cksum_fold c3)) AND 0xffff))"

definition dp_change_icmp_identifier :: "rte_mbuf \<Rightarrow> u16 \<Rightarrow> rte_mbuf" where
  "dp_change_icmp_identifier m new_val =
     (let h = mb_l4_hdr m; ident = htons new_val
      in m\<lparr> mb_l4_hdr := Icmp_hdr (icmp_type h) (icmp_code h)
              (icmp_cksum_update (icmp_cksum h) (icmp_ident h) ident) ident \<rparr>)"

section \<open>Building the key\<close>

text \<open>The first 12 bytes of the address are \<^verbatim>\<open>DP_NAT64_PREFIX\<close>, 64:ff9b::/96.\<close>

definition dp_is_ip6_in_nat64_range :: "ipv6_addr \<Rightarrow> bool" where
  "dp_is_ip6_in_nat64_range ipv6_addr \<longleftrightarrow> take_bit 96 ipv6_addr = 0x9bff6400"

text \<open>The key is an output argument: fields that are not written keep what was there.\<close>

definition dp_build_icmp_flow_key :: "dp_flow \<Rightarrow> rte_mbuf \<Rightarrow> flow_key \<Rightarrow> int \<times> flow_key" where
  "dp_build_icmp_flow_key df m key =
     (if df_icmp_type df = RTE_IP_ICMP_ECHO_REPLY \<or> df_icmp_type df = RTE_IP_ICMP_ECHO_REQUEST then
        (DP_OK, key\<lparr> fk_port_dst := ntohs (df_icmp_identifier df), fk_port_src := ucast (df_icmp_type df) \<rparr>)
      else if df_icmp_type df = DP_IP_ICMP_TYPE_ERROR then
        if df_icmp_code df \<noteq> DP_IP_ICMP_CODE_DST_PROTO_UNREACHABLE
           \<and> df_icmp_code df \<noteq> DP_IP_ICMP_CODE_DST_PORT_UNREACHABLE
           \<and> df_icmp_code df \<noteq> DP_IP_ICMP_CODE_FRAGMENT_NEEDED
        then (DP_ERROR, key)
        else
          let info = dp_get_icmp_err_ip_hdr m df \<lparr> ei_err_ipv4_hdr = None, ei_l4_src_port = 0, ei_l4_dst_port = 0 \<rparr>
          in (case ei_err_ipv4_hdr info of
                None \<Rightarrow> (DP_ERROR, key)
              | Some hdr \<Rightarrow>
                  if ei_l4_src_port info = 0 \<or> ei_l4_dst_port info = 0 then (DP_ERROR, key)
                  else (DP_OK, key\<lparr> fk_l3_dst := DP_SET_IPADDR4 (ntohl (ipv4_src_addr hdr)),
                                    fk_l3_src := DP_SET_IPADDR4 (ntohl (ipv4_dst_addr hdr)),
                                    fk_proto := ipv4_next_proto_id hdr,
                                    fk_port_dst := ntohs (ei_l4_src_port info),
                                    fk_port_src := ntohs (ei_l4_dst_port info) \<rparr>))
      else (DP_ERROR, key))"

definition dp_mark_vnf_type ::
  "'t nat_env \<Rightarrow> 't vnf_env \<Rightarrow> 't nat_state \<Rightarrow> 't vnf_state \<Rightarrow> dp_flow \<Rightarrow> dp_port \<Rightarrow> flow_key \<Rightarrow> flow_key" where
  "dp_mark_vnf_type nenv venv ns vs df port key =
     (if port_is_pf port then
        if df_vnf_type df = DP_VNF_TYPE_NAT \<or> df_vnf_type df = DP_VNF_TYPE_LB_ALIAS_PFX
        then key\<lparr> fk_vnf_type := df_vnf_type df \<rparr>
        else key\<lparr> fk_vnf_type := DP_VNF_TYPE_UNDEFINED \<rparr>
      else if ip_is_v6 (fk_l3_src key) \<and> ip_is_v6 (fk_l3_dst key) then
        if dp_is_ip6_in_nat64_range (ip_ipv6 (fk_l3_dst key)) then key\<lparr> fk_vnf_type := DP_VNF_TYPE_NAT \<rparr> else key
      else
        let s_data = dp_get_iface_snat_data nenv (ip_ipv4 (fk_l3_src key)) (fk_vni key) ns
        in if (case s_data of None \<Rightarrow> False | Some p \<Rightarrow> sd_nat_ip (the (ns_snat_heap ns p)) \<noteq> 0)
           then key\<lparr> fk_vnf_type := DP_VNF_TYPE_NAT \<rparr>
           else if dp_vnf_lbprefix_exists venv (port_port_id port) (fk_vni key) (fk_l3_src key) 32 vs
           then key\<lparr> fk_vnf_type := DP_VNF_TYPE_LB_ALIAS_PFX \<rparr>
           else key\<lparr> fk_vnf_type := DP_VNF_TYPE_UNDEFINED \<rparr>)"

definition dp_build_flow_key ::
  "'t nat_env \<Rightarrow> 't vnf_env \<Rightarrow> 't nat_state \<Rightarrow> 't vnf_state \<Rightarrow> dp_port \<Rightarrow> rte_mbuf \<Rightarrow> dp_flow \<Rightarrow> flow_key \<Rightarrow> int \<times> flow_key" where
  "dp_build_flow_key nenv venv ns vs port m df key =
     (if df_l3_type df \<noteq> RTE_ETHER_TYPE_IPV4 \<and> df_l3_type df \<noteq> RTE_ETHER_TYPE_IPV6 then (DP_ERROR, key)
      else
        let k1 = (if df_l3_type df = RTE_ETHER_TYPE_IPV4
                  then key\<lparr> fk_l3_dst := DP_SET_IPADDR4 (ntohl (df_dst_addr df)),
                            fk_l3_src := DP_SET_IPADDR4 (ntohl (df_src_addr df)) \<rparr>
                  else key\<lparr> fk_l3_dst := DP_SET_IPADDR6 (df_dst_addr6 df),
                            fk_l3_src := DP_SET_IPADDR6 (df_src_addr6 df) \<rparr>);
            k2 = k1\<lparr> fk_proto := df_l4_type df \<rparr>;
            k3 = k2\<lparr> fk_vni := (if port_is_pf port then tun_dst_vni (df_tun_info df) else iface_vni (port_iface port)) \<rparr>;
            k4 = dp_mark_vnf_type nenv venv ns vs df port k3
        in if df_l4_type df = IPPROTO_TCP \<or> df_l4_type df = IPPROTO_UDP then
             (DP_OK, k4\<lparr> fk_port_dst := ntohs (df_dst_port df), fk_port_src := ntohs (df_src_port df) \<rparr>)
           else if df_l4_type df = IPPROTO_ICMP then dp_build_icmp_flow_key df m k4
           else if df_l4_type df = IPPROTO_ICMPV6 then
             (DP_OK, k4\<lparr> fk_port_dst := ntohs (df_icmp_identifier df), fk_port_src := ucast (df_icmp_type df) \<rparr>)
           else (DP_ERROR, k4))"

definition dp_invert_flow_key :: "flow_key \<Rightarrow> flow_key" where
  "dp_invert_flow_key key =
     (let (port_src, port_dst) =
        (if fk_proto key = IPPROTO_TCP \<or> fk_proto key = IPPROTO_UDP then (fk_port_dst key, fk_port_src key)
         else if fk_proto key = IPPROTO_ICMP then
           (if fk_type_src key = ucast RTE_IP_ICMP_ECHO_REPLY then ucast RTE_IP_ICMP_ECHO_REQUEST
            else if fk_type_src key = ucast RTE_IP_ICMP_ECHO_REQUEST then ucast RTE_IP_ICMP_ECHO_REPLY
            else 0, fk_port_dst key)
         else if fk_proto key = IPPROTO_ICMPV6 then
           (if fk_type_src key = ucast DP_ICMPV6_ECHO_REPLY then ucast DP_ICMPV6_ECHO_REQUEST
            else if fk_type_src key = ucast DP_ICMPV6_ECHO_REQUEST then ucast DP_ICMPV6_ECHO_REPLY
            else 0, fk_port_dst key)
         else (0, 0))
      in \<lparr> fk_l3_dst = dp_copy_ipaddr (fk_l3_src key), fk_proto = fk_proto key, fk_port_dst = port_dst,
           fk_l3_src = dp_copy_ipaddr (fk_l3_dst key), fk_vnf_type = fk_vnf_type key, fk_port_src = port_src,
           fk_vni = fk_vni key \<rparr>)"

section \<open>Inversion\<close>

text \<open>
  The keys that inversion gives back: ports, the two echo types, and keys without port or type,
  where only the addresses change places.
\<close>

definition invertible_key :: "flow_key \<Rightarrow> bool" where
  "invertible_key key \<longleftrightarrow>
     (if fk_proto key = IPPROTO_TCP \<or> fk_proto key = IPPROTO_UDP then True
      else if fk_proto key = IPPROTO_ICMP then fk_type_src key = 0 \<or> fk_type_src key = 8
      else if fk_proto key = IPPROTO_ICMPV6 then fk_type_src key \<in> {0, 128, 129}
      else fk_port_src key = 0 \<and> fk_port_dst key = 0)"

lemma invert_fields [simp]:
  "fk_l3_dst (dp_invert_flow_key key) = fk_l3_src key"
  "fk_l3_src (dp_invert_flow_key key) = fk_l3_dst key"
  "fk_proto (dp_invert_flow_key key) = fk_proto key"
  "fk_vnf_type (dp_invert_flow_key key) = fk_vnf_type key"
  "fk_vni (dp_invert_flow_key key) = fk_vni key"
  by (simp_all add: dp_invert_flow_key_def split: prod.splits)

lemma invert_ports:
  "fk_port_src (dp_invert_flow_key key) =
     (if fk_proto key = IPPROTO_TCP \<or> fk_proto key = IPPROTO_UDP then fk_port_dst key
      else if fk_proto key = IPPROTO_ICMP then if fk_type_src key = 0 then 8 else 0
      else if fk_proto key = IPPROTO_ICMPV6 then
        if fk_type_src key = 129 then 128 else if fk_type_src key = 128 then 129 else 0
      else 0)"
  "fk_port_dst (dp_invert_flow_key key) =
     (if fk_proto key = IPPROTO_TCP \<or> fk_proto key = IPPROTO_UDP then fk_port_src key
      else if fk_proto key = IPPROTO_ICMP \<or> fk_proto key = IPPROTO_ICMPV6 then fk_port_dst key else 0)"
  by (auto simp: dp_invert_flow_key_def)

lemma flow_key_eqI:
  "\<lbrakk> fk_l3_dst a = fk_l3_dst b; fk_l3_src a = fk_l3_src b; fk_proto a = fk_proto b; fk_vnf_type a = fk_vnf_type b;
     fk_vni a = fk_vni b; fk_port_src a = fk_port_src b; fk_port_dst a = fk_port_dst b \<rbrakk> \<Longrightarrow> a = (b :: flow_key)"
  by (cases a; cases b) simp

text \<open>inverting a flow key twice gives the key back exactly for TCP, UDP, ICMP and ICMPv6 echo
  requests and replies, and for keys without port or type.  Keys of other ICMP types do not survive
  the round trip.\<close>

lemma dp_invert_flow_key_involution:
  "dp_invert_flow_key (dp_invert_flow_key key) = key \<longleftrightarrow> invertible_key key"
proof
  assume "dp_invert_flow_key (dp_invert_flow_key key) = key"
  then have "fk_port_src (dp_invert_flow_key (dp_invert_flow_key key)) = fk_port_src key"
    "fk_port_dst (dp_invert_flow_key (dp_invert_flow_key key)) = fk_port_dst key"
    by simp_all
  then show "invertible_key key"
    by (auto simp: invertible_key_def invert_ports split: if_splits)
next
  assume "invertible_key key"
  then show "dp_invert_flow_key (dp_invert_flow_key key) = key"
    by (intro flow_key_eqI) (auto simp: invertible_key_def invert_ports split: if_splits)
qed

section \<open>Keys of packets\<close>

text \<open>The in-packet data that decides the virtual network function without looking at the old key.\<close>

definition vnf_type_decided :: "dp_port \<Rightarrow> dp_flow \<Rightarrow> bool" where
  "vnf_type_decided port df \<longleftrightarrow>
     port_is_pf port \<or> df_l3_type df \<noteq> RTE_ETHER_TYPE_IPV6 \<or> dp_is_ip6_in_nat64_range (df_dst_addr6 df)"

lemma set_ipaddr_is_v6 [simp]:
  "\<not> ip_is_v6 (DP_SET_IPADDR4 a)" "ip_is_v6 (DP_SET_IPADDR6 b)" "ip_ipv6 (DP_SET_IPADDR6 b) = b"
  by (simp_all add: DP_SET_IPADDR4_def DP_SET_IPADDR6_def)

lemma vnf_type_mark:
  "dp_mark_vnf_type nenv venv ns vs df port key =
     key\<lparr> fk_vnf_type := fk_vnf_type (dp_mark_vnf_type nenv venv ns vs df port key) \<rparr>"
  by (simp add: dp_mark_vnf_type_def Let_def)

lemma mark_decided:
  assumes "port_is_pf port \<or> \<not> ip_is_v6 (fk_l3_src key) \<or> \<not> ip_is_v6 (fk_l3_dst key) \<or> dp_is_ip6_in_nat64_range (ip_ipv6 (fk_l3_dst key))"
    and "fk_l3_src key' = fk_l3_src key" "fk_l3_dst key' = fk_l3_dst key" "fk_vni key' = fk_vni key"
  shows "fk_vnf_type (dp_mark_vnf_type nenv venv ns vs df port key') = fk_vnf_type (dp_mark_vnf_type nenv venv ns vs df port key)"
  using assms by (auto simp: dp_mark_vnf_type_def Let_def)

lemma mark_undecided:
  assumes "\<not> port_is_pf port" "ip_is_v6 (fk_l3_src key)" "ip_is_v6 (fk_l3_dst key)" "\<not> dp_is_ip6_in_nat64_range (ip_ipv6 (fk_l3_dst key))"
  shows "dp_mark_vnf_type nenv venv ns vs df port key = key"
  using assms by (simp add: dp_mark_vnf_type_def)

text \<open>The key with the addresses, protocol and network of the packet, before the marking.\<close>

definition key_addrs :: "dp_port \<Rightarrow> dp_flow \<Rightarrow> flow_key \<Rightarrow> flow_key" where
  "key_addrs port df key = key\<lparr>
     fk_l3_dst := (if df_l3_type df = RTE_ETHER_TYPE_IPV4 then DP_SET_IPADDR4 (ntohl (df_dst_addr df)) else DP_SET_IPADDR6 (df_dst_addr6 df)),
     fk_l3_src := (if df_l3_type df = RTE_ETHER_TYPE_IPV4 then DP_SET_IPADDR4 (ntohl (df_src_addr df)) else DP_SET_IPADDR6 (df_src_addr6 df)),
     fk_proto := df_l4_type df,
     fk_vni := (if port_is_pf port then tun_dst_vni (df_tun_info df) else iface_vni (port_iface port)) \<rparr>"

text \<open>The layer-4 part of the construction on a marked key.\<close>

definition key_ports :: "rte_mbuf \<Rightarrow> dp_flow \<Rightarrow> flow_key \<Rightarrow> int \<times> flow_key" where
  "key_ports m df k =
     (if df_l4_type df = IPPROTO_TCP \<or> df_l4_type df = IPPROTO_UDP then
        (DP_OK, k\<lparr> fk_port_dst := ntohs (df_dst_port df), fk_port_src := ntohs (df_src_port df) \<rparr>)
      else if df_l4_type df = IPPROTO_ICMP then dp_build_icmp_flow_key df m k
      else if df_l4_type df = IPPROTO_ICMPV6 then
        (DP_OK, k\<lparr> fk_port_dst := ntohs (df_icmp_identifier df), fk_port_src := ucast (df_icmp_type df) \<rparr>)
      else (DP_ERROR, k))"

lemma dp_build_flow_key_steps:
  "dp_build_flow_key nenv venv ns vs port m df key =
     (if df_l3_type df \<noteq> RTE_ETHER_TYPE_IPV4 \<and> df_l3_type df \<noteq> RTE_ETHER_TYPE_IPV6 then (DP_ERROR, key)
      else key_ports m df (dp_mark_vnf_type nenv venv ns vs df port (key_addrs port df key)))"
  by (simp add: dp_build_flow_key_def key_ports_def key_addrs_def Let_def)

lemma dp_build_icmp_flow_key_complete:
  assumes "dp_build_icmp_flow_key df m k = (DP_OK, r)"
    and "fk_l3_src k' = fk_l3_src k" "fk_l3_dst k' = fk_l3_dst k" "fk_vni k' = fk_vni k" "fk_proto k' = fk_proto k"
  shows "dp_build_icmp_flow_key df m k' = (DP_OK, r\<lparr> fk_vnf_type := fk_vnf_type k' \<rparr>)" "fk_vnf_type r = fk_vnf_type k"
proof -
  obtain a b c d e f g a' b' c' d' e' f' g' where
    k: "k = \<lparr> fk_l3_dst = a, fk_proto = b, fk_port_dst = c, fk_l3_src = d, fk_vnf_type = e, fk_port_src = f, fk_vni = g \<rparr>" and
    k': "k' = \<lparr> fk_l3_dst = a', fk_proto = b', fk_port_dst = c', fk_l3_src = d', fk_vnf_type = e', fk_port_src = f', fk_vni = g' \<rparr>"
    by (cases k; cases k') blast
  show "dp_build_icmp_flow_key df m k' = (DP_OK, r\<lparr> fk_vnf_type := fk_vnf_type k' \<rparr>)" "fk_vnf_type r = fk_vnf_type k"
    using assms unfolding k k' dp_build_icmp_flow_key_def Let_def
    by (simp_all split: if_splits option.splits) (auto split: if_splits option.splits)
qed

lemma key_ports_complete:
  assumes "key_ports m df k = (DP_OK, r)"
    and "fk_l3_src k' = fk_l3_src k" "fk_l3_dst k' = fk_l3_dst k" "fk_vni k' = fk_vni k" "fk_proto k' = fk_proto k"
  shows "key_ports m df k' = (DP_OK, r\<lparr> fk_vnf_type := fk_vnf_type k' \<rparr>)" "fk_vnf_type r = fk_vnf_type k"
proof -
  consider "df_l4_type df = IPPROTO_TCP \<or> df_l4_type df = IPPROTO_UDP" | "df_l4_type df = IPPROTO_ICMP" | "df_l4_type df = IPPROTO_ICMPV6"
    using assms(1) by (auto simp: key_ports_def split: if_splits)
  then have "key_ports m df k' = (DP_OK, r\<lparr> fk_vnf_type := fk_vnf_type k' \<rparr>) \<and> fk_vnf_type r = fk_vnf_type k"
  proof cases
    case 2
    then show ?thesis
      using dp_build_icmp_flow_key_complete [of df m k r k'] assms by (simp add: key_ports_def)
  qed (use assms in \<open>cases k; cases k'; auto simp: key_ports_def\<close>)+
  then show "key_ports m df k' = (DP_OK, r\<lparr> fk_vnf_type := fk_vnf_type k' \<rparr>)" "fk_vnf_type r = fk_vnf_type k"
    by simp_all
qed

text \<open>C28: a packet for which the key is built has one key, whatever the buffer held before, exactly when
  it came from a physical port, is not IPv6, or goes to the NAT64 prefix.  For any other IPv6 packet
  of a virtual function the marking of the virtual network function is skipped and the type of the
  packet that last used the buffer stays in the key.\<close>

theorem dp_build_flow_key_determined:
  assumes "fst (dp_build_flow_key nenv venv ns vs port m df key) = DP_OK"
  shows "(\<forall>key'. dp_build_flow_key nenv venv ns vs port m df key' = dp_build_flow_key nenv venv ns vs port m df key)
     \<longleftrightarrow> vnf_type_decided port df"
proof -
  let ?mark = "\<lambda>k. dp_mark_vnf_type nenv venv ns vs df port (key_addrs port df k)"
  obtain r where r: "dp_build_flow_key nenv venv ns vs port m df key = (DP_OK, r)"
    using assms by (metis prod.collapse)
  have l3: "df_l3_type df = RTE_ETHER_TYPE_IPV4 \<or> df_l3_type df = RTE_ETHER_TYPE_IPV6"
    and ports: "key_ports m df (?mark key) = (DP_OK, r)"
    using r by (auto simp: dp_build_flow_key_steps split: if_splits)
  have same: "fk_l3_src (?mark k) = fk_l3_src (?mark key)" "fk_l3_dst (?mark k) = fk_l3_dst (?mark key)"
    "fk_vni (?mark k) = fk_vni (?mark key)" "fk_proto (?mark k) = fk_proto (?mark key)" for k
    by (subst (1 2) vnf_type_mark, simp add: key_addrs_def)+
  have build: "dp_build_flow_key nenv venv ns vs port m df k = (DP_OK, r\<lparr> fk_vnf_type := fk_vnf_type (?mark k) \<rparr>)" for k
    using l3 key_ports_complete(1) [OF ports same, of k] by (auto simp: dp_build_flow_key_steps)
  have mark: "fk_vnf_type r = fk_vnf_type (?mark key)"
    by (rule key_ports_complete(2) [OF ports refl refl refl refl])
  show ?thesis
  proof (cases "vnf_type_decided port df")
    case True
    have "fk_vnf_type (?mark k) = fk_vnf_type (?mark key)" for k
      using True l3 by (intro mark_decided) (auto simp: vnf_type_decided_def key_addrs_def)
    then show ?thesis
      using True by (simp add: build)
  next
    case False
    then have "?mark k = key_addrs port df k" for k
      using l3 by (intro mark_undecided) (auto simp: vnf_type_decided_def key_addrs_def)
    then have "fk_vnf_type (snd (dp_build_flow_key nenv venv ns vs port m df (key\<lparr> fk_vnf_type := t \<rparr>))) = t" for t
      by (simp add: build key_addrs_def)
    then have "\<not> (\<forall>key'. dp_build_flow_key nenv venv ns vs port m df key' = dp_build_flow_key nenv venv ns vs port m df key)"
      by (metis dp_vnf_type.distinct(1))
    then show ?thesis
      using False by simp
  qed
qed

text \<open>An IPv6 packet of a virtual function: it is tracked, and its key depends on the buffer.\<close>

definition example_v6_df :: dp_flow where
  "example_v6_df = dp_init_flow_ptr\<lparr> df_l3_type := RTE_ETHER_TYPE_IPV6, df_l4_type := IPPROTO_TCP, df_src_addr6 := 1, df_dst_addr6 := 2 \<rparr>"

theorem dp_build_flow_key_determined_witness:
  "\<forall>nenv venv ns vs m. fst (dp_build_flow_key nenv venv ns vs zero_port m example_v6_df zero_flow_key) = DP_OK \<and>
     \<not> (\<forall>key'. dp_build_flow_key nenv venv ns vs zero_port m example_v6_df key'
            = dp_build_flow_key nenv venv ns vs zero_port m example_v6_df zero_flow_key)"
proof (intro allI)
  fix nenv venv ns vs m
  have ok: "fst (dp_build_flow_key nenv venv ns vs zero_port m example_v6_df zero_flow_key) = DP_OK"
    by (simp add: dp_build_flow_key_def example_v6_df_def dp_init_flow_ptr_def Let_def)
  moreover have "\<not> vnf_type_decided zero_port example_v6_df"
    by (simp add: vnf_type_decided_def zero_port_def example_v6_df_def dp_init_flow_ptr_def dp_is_ip6_in_nat64_range_def take_bit_eq_mod)
  ultimately show "fst (dp_build_flow_key nenv venv ns vs zero_port m example_v6_df zero_flow_key) = DP_OK \<and>
     \<not> (\<forall>key'. dp_build_flow_key nenv venv ns vs zero_port m example_v6_df key'
            = dp_build_flow_key nenv venv ns vs zero_port m example_v6_df zero_flow_key)"
    using dp_build_flow_key_determined [OF ok] by blast
qed

text \<open>
  The reply to a packet: addresses and ports change places; an echo request is answered with the
  reply type and the same identifier.
\<close>

definition reply_packet :: "dp_flow \<Rightarrow> dp_flow \<Rightarrow> bool" where
  "reply_packet df rdf \<longleftrightarrow>
     df_l3_type rdf = df_l3_type df \<and> df_l4_type rdf = df_l4_type df \<and>
     df_src_addr6 rdf = df_dst_addr6 df \<and> df_dst_addr6 rdf = df_src_addr6 df \<and>
     (if df_l4_type df = IPPROTO_TCP \<or> df_l4_type df = IPPROTO_UDP
      then df_src_port rdf = df_dst_port df \<and> df_dst_port rdf = df_src_port df
      else if df_l4_type df = IPPROTO_ICMP
      then df_icmp_identifier rdf = df_icmp_identifier df \<and> df_icmp_type df = RTE_IP_ICMP_ECHO_REQUEST \<and> df_icmp_type rdf = RTE_IP_ICMP_ECHO_REPLY
      else df_l4_type df = IPPROTO_ICMPV6 \<and> df_icmp_identifier rdf = df_icmp_identifier df \<and>
           df_icmp_type df = DP_ICMPV6_ECHO_REQUEST \<and> df_icmp_type rdf = DP_ICMPV6_ECHO_REPLY)"

lemma key_addrs_fields:
  "fk_l3_dst (key_addrs port df key) = (if df_l3_type df = RTE_ETHER_TYPE_IPV4 then DP_SET_IPADDR4 (ntohl (df_dst_addr df)) else DP_SET_IPADDR6 (df_dst_addr6 df))"
  "fk_l3_src (key_addrs port df key) = (if df_l3_type df = RTE_ETHER_TYPE_IPV4 then DP_SET_IPADDR4 (ntohl (df_src_addr df)) else DP_SET_IPADDR6 (df_src_addr6 df))"
  "fk_proto (key_addrs port df key) = df_l4_type df"
  by (simp_all add: key_addrs_def)

lemma key_ports_reply:
  assumes "key_ports m df k = (DP_OK, key)" "key_ports m' rdf k' = (DP_OK, key')" "reply_packet df rdf"
    and "fk_l3_src k' = fk_l3_dst k" "fk_l3_dst k' = fk_l3_src k" "fk_proto k = df_l4_type df" "fk_proto k' = df_l4_type df"
  shows "key' = (dp_invert_flow_key key)\<lparr> fk_vnf_type := fk_vnf_type key', fk_vni := fk_vni key' \<rparr>"
  by (rule flow_key_eqI)
    (use assms in \<open>auto simp: key_ports_def dp_build_icmp_flow_key_def reply_packet_def invert_ports split: if_splits\<close>)

text \<open>The reply has the inverted key, up to network and virtual network function, which the in-port decides.\<close>

lemma reply_key:
  assumes key: "dp_build_flow_key nenv venv ns vs port m df k0 = (DP_OK, key)"
    and rkey: "dp_build_flow_key nenv venv ns' vs' port' m' rdf k0' = (DP_OK, key')" and reply: "reply_packet df rdf"
  shows "key' = (dp_invert_flow_key key)\<lparr> fk_vnf_type := fk_vnf_type key', fk_vni := fk_vni key' \<rparr>"
proof -
  let ?k = "dp_mark_vnf_type nenv venv ns vs df port (key_addrs port df k0)"
  let ?k' = "dp_mark_vnf_type nenv venv ns' vs' rdf port' (key_addrs port' rdf k0')"
  have ports: "key_ports m df ?k = (DP_OK, key)" "key_ports m' rdf ?k' = (DP_OK, key')"
    using key rkey by (auto simp: dp_build_flow_key_steps split: if_splits)
  have fields: "fk_l3_src ?k = fk_l3_src (key_addrs port df k0)" "fk_l3_dst ?k = fk_l3_dst (key_addrs port df k0)" "fk_proto ?k = df_l4_type df"
    "fk_l3_src ?k' = fk_l3_src (key_addrs port' rdf k0')" "fk_l3_dst ?k' = fk_l3_dst (key_addrs port' rdf k0')" "fk_proto ?k' = df_l4_type rdf"
    by (subst vnf_type_mark, simp add: key_addrs_fields)+
  show ?thesis
    using reply by (intro key_ports_reply [OF ports reply]) (auto simp: fields key_addrs_fields reply_packet_def)
qed

section \<open>The ICMP checksum\<close>

lemma low16: "(c :: u32) AND 0xffff = take_bit 16 c"
  by (simp add: take_bit_eq_mask mask_eq_exp_minus_1)

lemma unat_ucast32: "unat (ucast x :: u32) = unat (x :: u16)"
  using unsigned_less [where ?'b = 16 and ?'a = nat, of x] by (simp add: unsigned_ucast_eq take_bit_nat_eq_self)

lemma unat16_le: "unat (x :: u16) \<le> 65535"
  using unsigned_less [where ?'b = 16 and ?'a = nat, of x] by simp

lemma unat_not16: "unat (NOT (ucast x :: u32) AND 0xffff) = 65535 - unat (x :: u16)"
proof -
  have "NOT (ucast x :: u32) AND 0xffff = ucast (NOT x)"
    unfolding low16 by (simp add: unsigned_not_eq)
  moreover have "NOT x = - 1 - x"
    by (simp add: not_eq_complement)
  then have "unat (NOT x) = unat (- 1 :: u16) - unat x"
    by (simp add: unat_sub)
  ultimately show ?thesis
    by (simp add: unat_ucast32 unsigned_minus_1_eq_mask mask_eq_exp_minus_1)
qed

lemma cksum_fold_mod:
  "unat (cksum_fold c) mod 65535 = unat c mod 65535"
  "unat c \<le> 3 * 65535 \<Longrightarrow> unat (cksum_fold c) \<le> 65537"
  "unat c \<le> 65537 \<Longrightarrow> unat (cksum_fold c) \<le> 65535"
proof -
  have lt: "unat c < 2 ^ 32"
    using unsigned_less [where ?'b = 32 and ?'a = nat, of c] by simp
  have "unat (c AND 0xffff) = unat c mod 65536"
    unfolding low16 unsigned_take_bit_eq by (simp add: take_bit_eq_mod)
  moreover have "unat (drop_bit 16 c) = unat c div 65536"
    unfolding unat_drop_bit_eq by (simp add: drop_bit_eq_div)
  ultimately have fold: "unat (cksum_fold c) = unat c mod 65536 + unat c div 65536"
    using lt by (simp add: cksum_fold_def unat_add_lem [THEN iffD1])
  define q r where "q = unat c div 65536" and "r = unat c mod 65536"
  then have c: "unat c = (r + q) + q * 65535" and fold': "unat (cksum_fold c) = r + q" and r: "r \<le> 65535"
    using fold by (simp_all add: less_Suc_eq_le [symmetric])
  show "unat (cksum_fold c) mod 65535 = unat c mod 65535"
    unfolding c fold' by (rule mod_mult_self1 [symmetric])
  show "unat (cksum_fold c) \<le> 65537" if "unat c \<le> 3 * 65535"
    using that r unfolding c fold' by simp
  show "unat (cksum_fold c) \<le> 65535" if "unat c \<le> 65537"
    using that r unfolding c fold' by (cases "q = 0") simp_all
qed

lemma unat_low16: "unat (ucast x AND 0xffff :: u32) = unat (x :: u16)"
  using unat16_le [of x] unfolding low16 unsigned_take_bit_eq unat_ucast32 by (simp add: take_bit_nat_eq_self)

lemma unat_sum3:
  assumes "unat x = 65535 - a" "unat y = 65535 - b" "unat z = unat (c :: u16)"
  shows "unat (x + y + z :: u32) = (65535 - a) + (65535 - b) + unat c"
proof -
  have "(65535 - a) + (65535 - b) + unat c < 2 ^ LENGTH(32)"
    using unat16_le [of c] by simp
  then show ?thesis
    unfolding unat_word_ariths(1) assms mod_add_left_eq by (rule mod_less)
qed

lemma unat_not_low16:
  assumes "unat s \<le> 65535"
  shows "unat (ucast (NOT (s :: u32) AND 0xffff) :: u16) = 65535 - unat s"
proof -
  have "ucast (ucast s :: u16) = s"
    using assms by (intro word_unat_eq_iff [THEN iffD2], unfold unat_ucast32) (simp add: unsigned_ucast_eq take_bit_nat_eq_self)
  then have "unat (NOT s AND 0xffff) = 65535 - unat s"
    using unat_not16 [of "ucast s :: u16"] assms unat_ucast32 [of "ucast s"] by simp
  then show ?thesis
    by (simp add: unsigned_ucast_eq take_bit_nat_eq_self)
qed

lemma ones_complement_update:
  assumes "s \<le> 65535" "s mod 65535 = c3 mod 65535" "c \<le> 65535" "old \<le> 65535" "new \<le> 65535"
    and "c3 = (65535 - c) + (65535 - old) + new"
  shows "(65535 - s + new) mod 65535 = (c + old) mod (65535 :: nat)"
proof -
  have "int (s mod 65535) = int (c3 mod 65535)"
    using assms(2) by (rule arg_cong)
  then have "65535 dvd int s - int c3"
    by (intro mod_eq_dvd_iff [THEN iffD1]) (simp only: of_nat_mod of_nat_numeral)
  then have "65535 dvd (int c3 - int s) - 65535"
    unfolding dvd_diff_commute [of _ "int s"] by (rule dvd_diff) simp
  moreover have "(int c3 - int s) - 65535 = int (65535 - s + new) - int (c + old)"
    using assms by (simp add: of_nat_diff)
  ultimately have "int (65535 - s + new) mod 65535 = int (c + old) mod 65535"
    by (intro mod_eq_dvd_iff [THEN iffD2]) (simp only:)
  then have "int ((65535 - s + new) mod 65535) = int ((c + old) mod 65535)"
    by (simp only: of_nat_mod of_nat_numeral)
  then show ?thesis
    by (simp only: of_nat_eq_iff)
qed

text \<open>C29: rewriting the identifier of an ICMP header keeps its checksum right: the sum of the header's
  16-bit words modulo 65535, which a receiver checks, is what it was, whatever the rest of the
  message sums to; and type and code are kept.\<close>

theorem dp_change_icmp_identifier_cksum:
  "(let h = mb_l4_hdr m; h' = mb_l4_hdr (dp_change_icmp_identifier m new_val)
    in icmp_ident h' = htons new_val \<and> icmp_type h' = icmp_type h \<and> icmp_code h' = icmp_code h \<and>
       (unat (icmp_cksum h') + unat (icmp_ident h') + rest) mod 65535 = (unat (icmp_cksum h) + unat (icmp_ident h) + rest) mod 65535)"
proof -
  define c old new where "c = icmp_cksum (mb_l4_hdr m)" "old = icmp_ident (mb_l4_hdr m)" "new = htons new_val"
  define c3 :: u32 where "c3 = (NOT (ucast c) AND 0xffff) + (NOT (ucast old) AND 0xffff) + (ucast new AND 0xffff)"
  define s where "s = cksum_fold (cksum_fold c3)"
  note bounds = unat16_le [of c] unat16_le [of old] unat16_le [of new]
  have c3: "unat c3 = (65535 - unat c) + (65535 - unat old) + unat new"
    unfolding c3_def by (rule unat_sum3) (simp_all only: unat_not16 unat_low16)
  have "unat (cksum_fold c3) \<le> 65537"
    using c3 bounds by (intro cksum_fold_mod(2)) simp
  then have s: "unat s \<le> 65535" "unat s mod 65535 = unat c3 mod 65535"
    by (simp_all add: s_def cksum_fold_mod)
  have "unat (icmp_cksum_update c old new) = 65535 - unat s"
    using unat_not_low16 [OF s(1)] unfolding icmp_cksum_update_def Let_def s_def c3_def .
  then have "(unat (icmp_cksum_update c old new) + unat new) mod 65535 = (unat c + unat old) mod 65535"
    using ones_complement_update [OF s bounds c3] by (simp only:)
  then have "(unat (icmp_cksum_update c old new) + unat new + rest) mod 65535 = (unat c + unat old + rest) mod 65535"
    by (metis mod_add_left_eq)
  then show ?thesis
    by (simp add: dp_change_icmp_identifier_def c_old_new_def Let_def)
qed

end
