(* ===== verification/Dp_Nat_Correct.thy ===== *)
theory Dp_Nat_Correct
  imports Dp_Nat Dp_Hash_List
begin

text \<open>
  The properties of the NAT tables of \<open>Dp_Nat\<close>: the life of the tables as a step relation whose
  invariant is that no two live flows share a translated tuple, success and completeness of the
  port search, release, independence of virtual IPs and network NATs, neighbour lookup and
  listing; with a concrete environment on which they are instantiated.
\<close>

section \<open>Independence of the two halves of the NAT data\<close>

text \<open>Everything but the data of the interfaces: destination NAT, port tables, neighbour list.\<close>

definition other_nat_views ::
  "'t nat_env \<Rightarrow> 't nat_state \<Rightarrow> (nat_key \<rightharpoonup> dnat_data) \<times> (netnat_portmap_key \<rightharpoonup> netnat_portmap_data) \<times> netnat_portoverload_tbl_key set \<times> network_nat_entry list" where
  "other_nat_views env s = (dnat_view env s, portmap_view env s, overload_used env s, ns_nat_headp s)"

lemma snat_frame_other: "snat_frame s s' \<Longrightarrow> other_nat_views env s' = other_nat_views env s"
  by (simp add: other_nat_views_def snat_frame_views)

interpretation vipf: framed_store fst snd "\<lambda>e. fst (snd e) \<noteq> 0" "\<lambda>_. True" "nat_ok env" "vip_view env" "vip_put env" "vip_del env"
  "\<lambda>s. (netnat_view env s, other_nat_views env s)" for env
proof (unfold_locales, goal_cases)
  case (1 s e r s')
  obtain k vip ul where e: "e = (k, vip, ul)" by (cases e)
  have set: "snat_set env (nk_ip k) (nk_vni k) (\<lambda>d. sd_vip_ip d \<noteq> 0) (\<lambda>d. d\<lparr> sd_vip_ip := vip, sd_ul_vip_ip6 := ul \<rparr>) s = (r, s')"
    using 1 e by (simp add: dp_set_iface_snat_set)
  from snat_set_spec(3) [OF 1(1) set] snat_frame_other [OF snat_set_spec(1) [OF 1(1) set]] show ?case
    by (auto simp: netnat_view_def fun_eq_iff zero_snat_data_def split: option.splits)
next
  case (2 s k r s')
  have del: "snat_del env (nk_ip k) (nk_vni k) (\<lambda>d. sd_nat_ip d \<noteq> 0) (\<lambda>d. d\<lparr> sd_vip_ip := 0 \<rparr>) s = (r, s')"
    using 2 by (simp add: dp_del_iface_snat_del)
  from snat_del_spec(4) [OF 2(1) del] snat_frame_other [OF snat_del_spec(1) [OF 2(1) del]] show ?case
    by (auto simp: netnat_view_def fun_eq_iff split: option.splits)
qed

interpretation netnatf: framed_store fst snd "\<lambda>e. fst (snd e) \<noteq> 0" "\<lambda>_. True" "nat_ok env" "netnat_view env" "netnat_put env" "netnat_del env"
  "\<lambda>s. (vip_view env s, other_nat_views env s)" for env
proof (unfold_locales, goal_cases)
  case (1 s e r s')
  obtain k nip mn mx ul where e: "e = (k, nip, mn, mx, ul)" by (cases e)
  have set: "snat_set env (nk_ip k) (nk_vni k) (\<lambda>d. sd_nat_ip d \<noteq> 0)
      (\<lambda>d. d\<lparr> sd_ul_nat_ip6 := ul, sd_nat_ip := nip, sd_port_min := mn, sd_port_max := mx \<rparr>) s = (r, s')"
    using 1 e by (simp add: dp_set_iface_snat_set)
  from snat_set_spec(3) [OF 1(1) set] snat_frame_other [OF snat_set_spec(1) [OF 1(1) set]] show ?case
    by (auto simp: vip_view_def fun_eq_iff zero_snat_data_def split: option.splits)
next
  case (2 s k r s')
  have del: "snat_del env (nk_ip k) (nk_vni k) (\<lambda>d. sd_vip_ip d \<noteq> 0) (\<lambda>d. d\<lparr> sd_nat_ip := 0, sd_port_min := 0, sd_port_max := 0 \<rparr>) s = (r, s')"
    using 2 by (simp add: dp_del_iface_snat_del)
  from snat_del_spec(4) [OF 2(1) del] snat_frame_other [OF snat_del_spec(1) [OF 2(1) del]] show ?case
    by (auto simp: vip_view_def fun_eq_iff split: option.splits)
qed

section \<open>Failed allocations\<close>

lemma nat_ok_upd_snat: "nat_ok env s \<Longrightarrow> ns_snat_heap s p = Some d \<Longrightarrow> nat_ok env (upd_snat p f s)"
  by (auto simp: nat_ok_def upd_snat_def obj_ok_def)

lemma overload_used_failed:
  assumes "nat_ok env s" "rh_add_key (env_overload env) (ns_overload_tbl s) k = (ret, t)" "DP_FAILED ret"
  shows "overload_used env (s\<lparr> ns_overload_tbl := t \<rparr>) = overload_used env s"
  using nat_okD(4) [OF assms(1)] assms(2,3) by (cases rule: rh_add_key_cases) (auto simp: overload_used_def)

lemma portmap_add_failed:
  assumes ok: "nat_ok env s" and m: "env_portmap_malloc env (ns_portmap_heap s) = Some p"
    and add: "rh_add_data (env_portmap env) (ns_portmap_tbl s) pk p = (ret, t)" and ret: "DP_FAILED ret"
  shows "nat_ok env (s\<lparr> ns_portmap_tbl := t, ns_portmap_heap := rte_free ((ns_portmap_heap s)(p \<mapsto> d)) p \<rparr>)"
proof -
  note fresh = rte_malloc_fresh [OF nat_okD(7) [OF ok] m]
  have "rh_view (env_portmap env) t = rh_view (env_portmap env) (ns_portmap_tbl s)"
    using nat_okD(3) [OF ok] add by (cases rule: rh_add_data_cases) (use ret in auto)
  moreover have "rte_free ((ns_portmap_heap s)(p \<mapsto> d)) p = ns_portmap_heap s"
    using fresh by (auto simp: rte_free_def fun_eq_iff)
  ultimately show ?thesis
    using ok by (simp add: nat_ok_def obj_ok_def)
qed

text \<open>The states in which a search that found a port can still fail.\<close>

lemma allocate_found_failed:
  assumes ok: "nat_ok env s" and add: "rh_add_key (env_overload env) (ns_overload_tbl s) k = (ret, t)"
    and s': "s' = s \<or> s' = upd_snat snat f s \<or> (DP_FAILED ret \<and> s' = s\<lparr> ns_overload_tbl := t \<rparr>) \<or>
      (\<exists>p pret pt d. \<not> DP_FAILED ret \<and> env_portmap_malloc env (ns_portmap_heap s) = Some p \<and>
        rh_add_data (env_portmap env) (ns_portmap_tbl s) pk p = (pret, pt) \<and> DP_FAILED pret \<and>
        s' = s\<lparr> ns_overload_tbl := t, ns_portmap_tbl := pt, ns_portmap_heap := rte_free ((ns_portmap_heap s)(p \<mapsto> d)) p \<rparr>)"
    and sd: "ns_snat_heap s snat = Some sd"
  shows "nat_ok env s' \<and> overload_used env s \<subseteq> overload_used env s'"
  using s'
proof (elim disjE exE conjE)
  fix p pret pt d
  assume ret: "\<not> DP_FAILED ret" and m: "env_portmap_malloc env (ns_portmap_heap s) = Some p"
    and padd: "rh_add_data (env_portmap env) (ns_portmap_tbl s) pk p = (pret, pt)" "DP_FAILED pret"
    and s': "s' = s\<lparr> ns_overload_tbl := t, ns_portmap_tbl := pt, ns_portmap_heap := rte_free ((ns_portmap_heap s)(p \<mapsto> d)) p \<rparr>"
  have "nat_ok env (s\<lparr> ns_overload_tbl := t \<rparr>)" "env_portmap_malloc env (ns_portmap_heap (s\<lparr> ns_overload_tbl := t \<rparr>)) = Some p"
    "rh_add_data (env_portmap env) (ns_portmap_tbl (s\<lparr> ns_overload_tbl := t \<rparr>)) pk p = (pret, pt)"
    using ok m padd by simp_all
  from portmap_add_failed [OF this padd(2)] overload_used_add [OF ok add ret] show ?thesis
    by (auto simp: s' overload_used_def)
qed (use ok sd overload_used_failed [OF ok add] in \<open>auto simp: overload_used_def upd_snat_def intro: nat_ok_upd_snat [unfolded upd_snat_def]\<close>)

lemma dp_allocate_network_snat_port_failed:
  assumes ok: "nat_ok env s" and sd: "ns_snat_heap s snat = Some sd"
    and alloc: "dp_allocate_network_snat_port env ts snat df vni s = Some (r, s')" and r: "DP_FAILED r"
  shows "nat_ok env s' \<and> overload_used env s \<subseteq> overload_used env s'"
proof (cases "snat_keys df (sd_nat_ip sd) vni")
  case None
  then show ?thesis
    using alloc sd ok by (auto simp: dp_allocate_network_snat_port_def)
next
  case (Some ks)
  obtain pk key where keys: "snat_keys df (sd_nat_ip sd) vni = Some (pk, key)"
    using Some by (cases ks) auto
  let ?hash = "rh_hash (env_portmap env) (ns_portmap_tbl s) pk"
  from ok show ?thesis
  proof (cases rule: snat_reuse_port_cases [of env s pk key])
    case (reuse p d)
    let ?s1 = "upd_portmap p (\<lambda>d. d\<lparr> pd_flow_cnt := pd_flow_cnt d + 1 \<rparr>) s"
    note upd = upd_portmap_ok [OF ok reuse(1,2), where f = "\<lambda>d. d\<lparr> pd_flow_cnt := pd_flow_cnt d + 1 \<rparr>"]
    obtain ret t where add: "rh_add_key (env_overload env) (ns_overload_tbl ?s1) (key\<lparr> ok_nat_port := pd_nat_port d \<rparr>) = (ret, t)"
      by fastforce
    have "s' = ?s1\<lparr> ns_overload_tbl := t \<rparr>" "DP_FAILED ret"
      using alloc sd keys reuse add r by (auto simp: dp_allocate_network_snat_port_def Let_def split: if_splits)
    then show ?thesis
      using upd overload_used_failed [OF upd(1) add] by simp
  next
    case search
    from ok refl show ?thesis
    proof (cases rule: snat_find_port_result [of env s key ?hash "sd_port_min sd" "sd_port_max sd"])
      case full
      then have "s' = s \<or> s' = upd_snat snat (\<lambda>d. d\<lparr> sd_log_timestamp := ts \<rparr>) s"
        using alloc sd keys search by (auto simp: dp_allocate_network_snat_port_def Let_def split: if_splits)
      then show ?thesis
        using ok nat_ok_upd_snat [OF ok sd] by (auto simp: overload_used_def upd_snat_def)
    next
      case (found port)
      obtain ret t where add: "rh_add_key (env_overload env) (ns_overload_tbl s) (key\<lparr> ok_nat_port := port \<rparr>) = (ret, t)"
        by fastforce
      show ?thesis
        using alloc sd keys search found add ok r
        by (intro allocate_found_failed [OF ok add, where pk = pk and snat = snat and sd = sd and f = "\<lambda>d. d\<lparr> sd_log_timestamp := ts \<rparr>"]) (auto simp: dp_allocate_network_snat_port_def Let_def split: if_splits option.splits prod.splits)
    qed
  qed
qed

section \<open>Exclusive tuples\<close>

text \<open>
  The life of the tables: allocations, releases and reconfiguration in any order.  The second
  component records the translated tuples of the flows that are alive.
\<close>

inductive nat_step :: "'t nat_env \<Rightarrow> 't nat_state \<times> netnat_portoverload_tbl_key list \<Rightarrow> 't nat_state \<times> netnat_portoverload_tbl_key list \<Rightarrow> bool"
  for env where
  allocated: "\<lbrakk> ns_snat_heap s snat = Some sd; snat_keys df (sd_nat_ip sd) vni = Some (pk, key);
     dp_allocate_network_snat_port env ts snat df vni s = Some (r, s'); 0 \<le> r \<rbrakk>
     \<Longrightarrow> nat_step env (s, live) (s', key\<lparr> ok_nat_port := of_int r \<rparr> # live)"
| refused: "\<lbrakk> ns_snat_heap s snat = Some sd; dp_allocate_network_snat_port env ts snat df vni s = Some (r, s'); DP_FAILED r \<rbrakk>
     \<Longrightarrow> nat_step env (s, live) (s', live)"
| released: "\<lbrakk> \<not> ip_is_v6 (fk_l3_dst (fv_flow_key cntrack DP_FLOW_DIR_REPLY)); snat_release_keys cntrack = (pk, key);
     dp_remove_network_snat_port env cntrack ports s = (r, ports', s') \<rbrakk>
     \<Longrightarrow> nat_step env (s, live) (s', removeAll key live)"
| vip_set: "dp_set_iface_vip_ip env ip vip vni ul s = (r, s') \<Longrightarrow> nat_step env (s, live) (s', live)"
| vip_deleted: "dp_del_iface_vip_ip env ip vni s = (r, s') \<Longrightarrow> nat_step env (s, live) (s', live)"
| nat_set: "dp_set_iface_nat_ip env ip nip vni mn mx ul s = (r, s') \<Longrightarrow> nat_step env (s, live) (s', live)"
| nat_deleted: "dp_del_iface_nat_ip env ip vni s = (r, s') \<Longrightarrow> nat_step env (s, live) (s', live)"

inductive_cases nat_stepE: "nat_step env a b"

definition nat_exclusive :: "'t nat_env \<Rightarrow> 't nat_state \<times> netnat_portoverload_tbl_key list \<Rightarrow> bool" where
  "nat_exclusive env a \<longleftrightarrow> nat_ok env (fst a) \<and> distinct (snd a) \<and> set (snd a) \<subseteq> overload_used env (fst a)"

lemma nat_exclusive_config:
  "nat_exclusive env (s, live) \<Longrightarrow> snat_set env ip vni taken f s = (r, s') \<Longrightarrow> nat_exclusive env (s', live)"
  "nat_exclusive env (s, live) \<Longrightarrow> snat_del env ip vni other f s = (r, s') \<Longrightarrow> nat_exclusive env (s', live)"
  using snat_set_spec(1,2) [of env s ip vni taken f r s'] snat_del_spec(1,2) [of env s ip vni other f r s']
  by (auto simp: nat_exclusive_def snat_frame_views)

lemma nat_step_exclusive:
  assumes "nat_step env a b" "nat_exclusive env a"
  shows "nat_exclusive env b"
  using assms
proof (cases rule: nat_step.cases)
  case (allocated s snat sd df vni pk key ts r s' live)
  have ok: "nat_ok env s" using assms(2) allocated by (simp add: nat_exclusive_def)
  obtain port where "r = uint port" "nat_ok env s'" "snat_allocated env s sd pk key port s'"
    using dp_allocate_network_snat_port_spec [OF ok allocated(3-6)] by blast
  then show ?thesis
    using assms(2) allocated(1,2) by (auto simp: nat_exclusive_def snat_allocated_def port_free_def)
next
  case (refused s snat sd ts df vni r s' live)
  then show ?thesis
    using assms(2) dp_allocate_network_snat_port_failed [of env s snat sd ts df vni r s'] by (auto simp: nat_exclusive_def)
next
  case (released cntrack pk key ports s r ports' s' live)
  then show ?thesis
    using assms(2) dp_remove_network_snat_port_spec [of env s cntrack pk key ports r ports' s']
    by (auto simp: nat_exclusive_def snat_released_def distinct_removeAll)
qed (auto simp: dp_set_iface_snat_set dp_del_iface_snat_del
  intro: nat_exclusive_config)

lemma nat_reachable_exclusive:
  "(nat_step env)\<^sup>*\<^sup>* a b \<Longrightarrow> nat_exclusive env a \<Longrightarrow> nat_exclusive env b"
  by (induction rule: rtranclp_induct) (auto intro: nat_step_exclusive)

section \<open>Success of an allocation\<close>

lemma dp_allocate_network_snat_port_live:
  assumes ok: "nat_ok env s" and sd: "ns_snat_heap s snat = Some sd"
    and keys: "snat_keys df (sd_nat_ip sd) vni = Some (pk, key)"
    and new: "portmap_view env s pk = None"
    and range: "0 < sd_port_min sd" "sd_port_min sd \<le> port" "port < sd_port_max sd" "port_free env s key port"
    and hash: "unat (rh_hash (env_portmap env) (ns_portmap_tbl s) pk) + (unat (sd_port_max sd) - unat (sd_port_min sd)) \<le> 2 ^ 32"
    and room: "\<And>k. fst (rh_add_key (env_overload env) (ns_overload_tbl s) k) \<ge> 0"
      "\<And>p. fst (rh_add_data (env_portmap env) (ns_portmap_tbl s) pk p) \<ge> 0"
      "env_portmap_malloc env (ns_portmap_heap s) \<noteq> None"
  shows "\<exists>r s'. dp_allocate_network_snat_port env ts snat df vni s = Some (r, s') \<and> 0 \<le> r"
proof -
  let ?hash = "rh_hash (env_portmap env) (ns_portmap_tbl s) pk"
  obtain q where q: "snat_find_port env s key ?hash (sd_port_min sd) (sd_port_max sd) = Inr q" "q \<noteq> 0"
    using snat_find_port_complete [OF ok range(1-3) hash range(4)] by blast
  have reuse: "snat_reuse_port env pk key s = Inr (s, 0, True)"
    using new by (cases rule: snat_reuse_port_cases [OF ok, of pk key]) auto
  obtain r1 t1 where add: "rh_add_key (env_overload env) (ns_overload_tbl s) (key\<lparr> ok_nat_port := q \<rparr>) = (r1, t1)" "0 \<le> r1"
    using room(1) by (metis prod.collapse)
  obtain p where m: "env_portmap_malloc env (ns_portmap_heap s) = Some p"
    using room(3) by blast
  obtain r2 t2 where padd: "rh_add_data (env_portmap env) (ns_portmap_tbl s) pk p = (r2, t2)" "0 \<le> r2"
    using room(2) by (metis prod.collapse)
  show ?thesis
    using q reuse add m padd sd keys by (simp add: dp_allocate_network_snat_port_def Let_def)
qed

section \<open>A concrete environment\<close>

text \<open>The tables of \<open>Dp_Hash_List\<close> as the NAT tables, with an encoding for each key.\<close>

definition enc_nat_key :: "nat_key \<Rightarrow> nat list" where
  "enc_nat_key k = [unat (nk_ip k), unat (nk_vni k)]"

definition dec_nat_key :: "nat list \<Rightarrow> nat_key" where
  "dec_nat_key xs = nat_key (of_nat (xs ! 0)) (of_nat (xs ! 1))"

definition enc_portmap_key :: "netnat_portmap_key \<Rightarrow> nat list" where
  "enc_portmap_key k = [unat (pk_vni k), unat (ip_data (pk_src_ip k)), of_bool (ip_is_v6 (pk_src_ip k)), unat (pk_iface_src_port k)]"

definition dec_portmap_key :: "nat list \<Rightarrow> netnat_portmap_key" where
  "dec_portmap_key xs = \<lparr> pk_vni = of_nat (xs ! 0),
     pk_src_ip = \<lparr> ip_data = of_nat (xs ! 1), ip_is_v6 = (xs ! 2 = 1) \<rparr>, pk_iface_src_port = of_nat (xs ! 3) \<rparr>"

definition enc_overload_key :: "netnat_portoverload_tbl_key \<Rightarrow> nat list" where
  "enc_overload_key k = [unat (ok_nat_ip k), unat (ok_nat_port k), unat (ok_dst_ip k), unat (ok_dst_port k), unat (ok_l4_type k)]"

definition dec_overload_key :: "nat list \<Rightarrow> netnat_portoverload_tbl_key" where
  "dec_overload_key xs = \<lparr> ok_nat_ip = of_nat (xs ! 0), ok_nat_port = of_nat (xs ! 1), ok_dst_ip = of_nat (xs ! 2),
     ok_dst_port = of_nat (xs ! 3), ok_l4_type = of_nat (xs ! 4) \<rparr>"

definition list_nat_env :: "list_table nat_env" where
  "list_nat_env = \<lparr> env_snat = list_hash enc_nat_key dec_nat_key, env_dnat = list_hash enc_nat_key dec_nat_key,
     env_portmap = list_hash enc_portmap_key dec_portmap_key, env_overload = list_hash enc_overload_key dec_overload_key,
     env_snat_malloc = first_free, env_dnat_malloc = first_free, env_portmap_malloc = first_free \<rparr>"

definition empty_nat_state :: "list_table nat_state" where
  "empty_nat_state = \<lparr> ns_snat_tbl = [], ns_dnat_tbl = [], ns_portmap_tbl = [], ns_overload_tbl = [],
     ns_snat_heap = Map.empty, ns_dnat_heap = Map.empty, ns_portmap_heap = Map.empty, ns_nat_headp = [], ns_full_log_delay = 0 \<rparr>"

lemma dec_enc_nat [simp]:
  "dec_nat_key (enc_nat_key k) = k" "dec_portmap_key (enc_portmap_key pk) = pk" "dec_overload_key (enc_overload_key ok) = ok"
  by (simp_all add: dec_nat_key_def enc_nat_key_def dec_portmap_key_def enc_portmap_key_def dec_overload_key_def enc_overload_key_def)

lemma list_nat_env_ok: "nat_env_ok list_nat_env"
  by (simp add: nat_env_ok_def list_nat_env_def list_hash_ok first_free_ok)

lemma empty_nat_ok: "nat_ok list_nat_env empty_nat_state"
  by (simp add: nat_ok_def list_nat_env_ok) (simp add: obj_ok_def empty_nat_state_def list_nat_env_def)

text \<open>An interface with the NAT address 20 and the ports 5000 to 5009, before any flow.\<close>

definition example_snat :: snat_data where
  "example_snat = zero_snat_data\<lparr> sd_nat_ip := 20, sd_port_min := 5000, sd_port_max := 5010 \<rparr>"

definition example_nat_state :: "list_table nat_state" where
  "example_nat_state = empty_nat_state\<lparr> ns_snat_heap := [7 \<mapsto> example_snat], ns_snat_tbl := [Some ([10, 100], 7)] \<rparr>"

lemma example_nat_view: "snat_view list_nat_env example_nat_state = [nat_key 10 100 \<mapsto> example_snat]"
  "overload_used list_nat_env example_nat_state = {}" "portmap_view list_nat_env example_nat_state = Map.empty"
  "ns_snat_heap example_nat_state 7 = Some example_snat"
  by (auto simp: snat_view_def overload_used_def portmap_view_def obj_view_def fun_eq_iff example_nat_state_def empty_nat_state_def list_nat_env_def
      list_hash_view list_slots_def enc_nat_key_def dec_nat_key_def)

lemma example_nat_ok: "nat_ok list_nat_env example_nat_state"
proof -
  have "rh_view (env_snat list_nat_env) (ns_snat_tbl example_nat_state) = [nat_key 10 100 \<mapsto> 7]"
    by (auto simp: fun_eq_iff example_nat_state_def empty_nat_state_def list_nat_env_def
      list_hash_view list_slots_def enc_nat_key_def dec_nat_key_def)
  then have "obj_ok (env_snat list_nat_env) (ns_snat_tbl example_nat_state) (ns_snat_heap example_nat_state)"
    by (auto simp: obj_ok_def example_nat_view(4) split: if_splits)
  with empty_nat_ok show ?thesis
    by (simp add: nat_ok_def example_nat_state_def)
qed

definition example_nat_packet :: dp_flow where
  "example_nat_packet = dp_init_flow_ptr\<lparr> df_l3_type := RTE_ETHER_TYPE_IPV4, df_l4_type := IPPROTO_TCP,
     df_src_addr6 := ip4_write 0x0A000000 0, df_src_port := 0x0104, df_dst_addr6 := ip4_write 0x08080808 0, df_dst_port := 0x5000 \<rparr>"

lemma example_snat_keys:
  "snat_keys example_nat_packet 20 100 =
     Some (\<lparr> pk_vni = 100, pk_src_ip = DP_SET_IPADDR4 10, pk_iface_src_port = 0x0401 \<rparr>,
           \<lparr> ok_nat_ip = 20, ok_nat_port = 0, ok_dst_ip = 0x08080808, ok_dst_port = 80, ok_l4_type = IPPROTO_TCP \<rparr>)"
  by (simp add: snat_keys_def example_nat_packet_def dp_init_flow_ptr_def ntohl_def ntohs_def)

abbreviation example_pk :: netnat_portmap_key where
  "example_pk \<equiv> \<lparr> pk_vni = 100, pk_src_ip = DP_SET_IPADDR4 10, pk_iface_src_port = 0x0401 \<rparr>"

abbreviation example_key :: netnat_portoverload_tbl_key where
  "example_key \<equiv> \<lparr> ok_nat_ip = 20, ok_nat_port = 0, ok_dst_ip = 0x08080808, ok_dst_port = 80, ok_l4_type = IPPROTO_TCP \<rparr>"

lemma example_nat_keys: "snat_keys example_nat_packet (sd_nat_ip example_snat) 100 = Some (example_pk, example_key)"
  by (simp add: example_snat_keys example_snat_def zero_snat_data_def)

lemma example_nat_range: "0 < sd_port_min example_snat" "sd_port_min example_snat \<le> 5000" "5000 < sd_port_max example_snat"
  by (simp_all add: example_snat_def zero_snat_data_def)

lemma example_nat_room:
  "portmap_view list_nat_env example_nat_state example_pk = None"
  "port_free list_nat_env example_nat_state example_key 5000"
  "unat (rh_hash (env_portmap list_nat_env) (ns_portmap_tbl example_nat_state) example_pk) +
     (unat (sd_port_max example_snat) - unat (sd_port_min example_snat)) \<le> 2 ^ 32"
  "0 \<le> fst (rh_add_key (env_overload list_nat_env) (ns_overload_tbl example_nat_state) k)"
  "0 \<le> fst (rh_add_data (env_portmap list_nat_env) (ns_portmap_tbl example_nat_state) example_pk p)"
  "env_portmap_malloc list_nat_env (ns_portmap_heap example_nat_state) \<noteq> None"
  by (simp_all add: example_nat_view port_free_def)
    (simp_all add: list_nat_env_def example_nat_state_def empty_nat_state_def enc_portmap_key_def example_snat_def zero_snat_data_def DP_SET_IPADDR4_def ip4_write_def)

lemma example_allocation:
  "\<exists>r s'. dp_allocate_network_snat_port list_nat_env 0 7 example_nat_packet 100 example_nat_state = Some (r, s') \<and> 0 \<le> r"
  by (rule dp_allocate_network_snat_port_live [OF example_nat_ok example_nat_view(4) example_nat_keys
        example_nat_room(1) example_nat_range example_nat_room(2-)])

section \<open>Properties\<close>

text \<open>
  C1: In every state the NAT tables reach by allocations (successful or not), releases and
  reconfiguration, in any order, the translated tuples (NAT address, NAT port, destination address
  and port, protocol) of the flows that are alive are pairwise distinct, and each of them is held in
  the overload table: two flows never share a tuple.
\<close>
theorem nat_tuples_exclusive:
  assumes "nat_ok env s0" "(nat_step env)\<^sup>*\<^sup>* (s0, []) (s, live)"
  shows "distinct live \<and> set live \<subseteq> overload_used env s \<and> nat_ok env s"
  using nat_reachable_exclusive [OF assms(2)] assms(1) by (simp add: nat_exclusive_def)

theorem nat_tuples_exclusive_witness:
  "\<exists>s key. (nat_step list_nat_env)\<^sup>*\<^sup>* (example_nat_state, []) (s, [key]) \<and> key \<in> overload_used list_nat_env s"
proof -
  obtain r s where alloc: "dp_allocate_network_snat_port list_nat_env 0 7 example_nat_packet 100 example_nat_state = Some (r, s)" "0 \<le> r"
    using example_allocation by blast
  from nat_step.allocated [OF example_nat_view(4) example_nat_keys alloc] obtain key
    where "(nat_step list_nat_env)\<^sup>*\<^sup>* (example_nat_state, []) (s, [key])"
    by blast
  with nat_tuples_exclusive [OF example_nat_ok this] show ?thesis
    by auto
qed

text \<open>
  C2: What an allocation does.  When it succeeds it returns a port whose tuple was free and is taken
  afterwards.  A source with a mapping keeps its port as long as that port is free towards the new
  destination, and the mapping counts one flow more; otherwise the port comes from the range of
  the interface and the source gets a fresh mapping with one flow.  When it fails no tuple is freed.
\<close>
theorem nat_allocation:
  assumes "nat_ok env s" "ns_snat_heap s snat = Some sd" "snat_keys df (sd_nat_ip sd) vni = Some (pk, key)"
    and "dp_allocate_network_snat_port env ts snat df vni s = Some (r, s')"
  shows "nat_ok env s' \<and>
    (if DP_FAILED r then overload_used env s \<subseteq> overload_used env s'
     else \<exists>port. r = uint port \<and> snat_allocated env s sd pk key port s')"
  using dp_allocate_network_snat_port_spec [OF assms] dp_allocate_network_snat_port_failed [OF assms(1,2,4)] by auto

theorem nat_allocation_witness:
  "\<exists>r s' (port :: u16). dp_allocate_network_snat_port list_nat_env 0 7 example_nat_packet 100 example_nat_state = Some (r, s') \<and>
     r = uint port \<and> 5000 \<le> port \<and> port < 5010"
proof -
  obtain r s where alloc: "dp_allocate_network_snat_port list_nat_env 0 7 example_nat_packet 100 example_nat_state = Some (r, s)" "0 \<le> r"
    using example_allocation by blast
  from nat_allocation [OF example_nat_ok example_nat_view(4) example_nat_keys alloc(1)] alloc show ?thesis
    by (auto simp: snat_allocated_def example_nat_view(3) example_snat_def zero_snat_data_def)
qed

text \<open>
  C3: The port search finds a port: a source without a mapping is served whenever the range of
  the interface starts above 0, some port of it is free towards the destination, the tables have
  room, and the hash of the source does not pass 2^32 when the size of the range is added.  (When
  it does, the search can miss the one port that is free: \<open>snat_find_port_wraps\<close> shows such a case.)
\<close>
theorem nat_allocation_succeeds:
  assumes "nat_ok env s" "ns_snat_heap s snat = Some sd" "snat_keys df (sd_nat_ip sd) vni = Some (pk, key)"
    and "portmap_view env s pk = None"
    and "0 < sd_port_min sd" "sd_port_min sd \<le> port" "port < sd_port_max sd" "port_free env s key port"
    and "unat (rh_hash (env_portmap env) (ns_portmap_tbl s) pk) + (unat (sd_port_max sd) - unat (sd_port_min sd)) \<le> 2 ^ 32"
    and "\<And>k. 0 \<le> fst (rh_add_key (env_overload env) (ns_overload_tbl s) k)"
      "\<And>p. 0 \<le> fst (rh_add_data (env_portmap env) (ns_portmap_tbl s) pk p)"
      "env_portmap_malloc env (ns_portmap_heap s) \<noteq> None"
  shows "\<exists>r s'. dp_allocate_network_snat_port env ts snat df vni s = Some (r, s') \<and> 0 \<le> r"
  using assms by (rule dp_allocate_network_snat_port_live)

theorem nat_allocation_succeeds_witness:
  "\<exists>r s'. dp_allocate_network_snat_port list_nat_env 1 7 example_nat_packet 100 example_nat_state = Some (r, s') \<and> 0 \<le> r"
  by (rule nat_allocation_succeeds [OF example_nat_ok example_nat_view(4) example_nat_keys
        example_nat_room(1) example_nat_range example_nat_room(2-)])

text \<open>
  The 32-bit sum in the port search wraps around.  For a source whose hash is \<open>0xFFFFFFFF\<close> and
  a range of three ports the first port is tried twice and the third never: with the first two in
  use the search reports a full range although the third is free.
\<close>
lemma snat_find_port_wraps:
  assumes "nat_ok env s" "0 < mn" "mn < mn + 3"
    and "\<not> port_free env s key mn" "\<not> port_free env s key (mn + 1)"
  shows "snat_find_port env s key 0xFFFFFFFF mn (mn + 3) = Inr 0"
proof -
  have n: "unat (mn + 3) - unat mn = 3"
    using assms(3) by (simp add: unat_plus_if' word_less_nat_alt split: if_splits)
  have "snat_candidate 0xFFFFFFFF mn (mn + 3) 0 = mn" "snat_candidate 0xFFFFFFFF mn (mn + 3) 1 = mn"
    "snat_candidate 0xFFFFFFFF mn (mn + 3) 2 = mn + 1"
    by (simp_all add: snat_candidate_def)
  then show ?thesis
    using assms(4,5) unfolding snat_find_port_def n snat_port_loop_find [OF assms(1)]
    by (simp add: upt_rec)
qed

text \<open>Two of the three ports 5000 to 5002 of an address in use.\<close>

definition wrap_key :: "u16 \<Rightarrow> netnat_portoverload_tbl_key" where
  "wrap_key port = \<lparr> ok_nat_ip = 1, ok_nat_port = port, ok_dst_ip = 2, ok_dst_port = 3, ok_l4_type = 6 \<rparr>"

definition wrap_state :: "list_table nat_state" where
  "wrap_state = empty_nat_state\<lparr> ns_overload_tbl := [Some (enc_overload_key (wrap_key 5000), 0), Some (enc_overload_key (wrap_key 5001), 0)] \<rparr>"

lemma wrap_state_used: "overload_used list_nat_env wrap_state = {wrap_key 5000, wrap_key 5001}"
  by (auto simp: overload_used_def wrap_state_def empty_nat_state_def list_nat_env_def list_hash_view list_slots_def
      enc_overload_key_def dec_overload_key_def wrap_key_def)

lemma snat_find_port_wraps_witness:
  "snat_find_port list_nat_env wrap_state (wrap_key 0) 0xFFFFFFFF 5000 5003 = Inr 0 \<and>
     port_free list_nat_env wrap_state (wrap_key 0) 5002"
proof -
  have "nat_ok list_nat_env wrap_state"
    using empty_nat_ok by (simp add: wrap_state_def)
  from snat_find_port_wraps [OF this, of 5000 "wrap_key 0"] show ?thesis
    by (simp add: port_free_def wrap_state_used) (simp add: wrap_key_def)
qed

text \<open>
  C12: Releasing what was allocated restores the tables: the release of the flow that an allocation
  has just served returns \<^verbatim>\<open>DP_OK\<close> and leaves every tuple and every mapping as before the
  allocation, provided the source had no mapping, or one that still counts a flow and whose port
  the allocation could reuse.
\<close>
theorem nat_allocate_release:
  assumes "nat_ok env s" "ns_snat_heap s snat = Some sd" "snat_keys df (sd_nat_ip sd) vni = Some (pk, key)"
    and "dp_allocate_network_snat_port env ts snat df vni s = Some (r, s1)" "0 \<le> r"
    and "portmap_view env s pk = None \<or>
      (\<exists>d. portmap_view env s pk = Some d \<and> port_free env s key (pd_nat_port d) \<and> pd_flow_cnt d \<noteq> 0)"
    and "\<not> ip_is_v6 (fk_l3_dst (fv_flow_key cntrack DP_FLOW_DIR_REPLY))"
      "snat_release_keys cntrack = (pk, key\<lparr> ok_nat_port := of_int r \<rparr>)"
    and "dp_get_port_by_id ports (fv_created_port_id cntrack) \<noteq> None"
  shows "\<exists>ports' s2. dp_remove_network_snat_port env cntrack ports s1 = (DP_OK, ports', s2) \<and>
    overload_used env s2 = overload_used env s \<and> portmap_view env s2 = portmap_view env s"
proof -
  obtain port where port: "r = uint port" "nat_ok env s1" "snat_allocated env s sd pk key port s1"
    using dp_allocate_network_snat_port_spec [OF assms(1-5)] by blast
  obtain r2 ports' s2 where rm: "dp_remove_network_snat_port env cntrack ports s1 = (r2, ports', s2)"
    by (cases "dp_remove_network_snat_port env cntrack ports s1")
  have rel: "snat_released env s1 pk (key\<lparr> ok_nat_port := port \<rparr>) s2" "r2 = DP_OK"
    using dp_remove_network_snat_port_spec [OF port(2) assms(7,8) rm] assms(9) port(1) by auto
  then have "overload_used env s2 = overload_used env s"
    using port(3) by (auto simp: snat_allocated_def snat_released_def port_free_def)
  moreover have "portmap_view env s2 = portmap_view env s"
    using rel(1) port(3) assms(6) by (auto simp: snat_allocated_def snat_released_def fun_eq_iff)
  ultimately show ?thesis
    using rm rel(2) by blast
qed

definition example_cntrack :: "u16 \<Rightarrow> flow_value" where
  "example_cntrack port = zero_flow_value\<lparr>
     fv_nf_info := (fv_nf_info zero_flow_value)\<lparr> nf_vni := 100 \<rparr>,
     fv_flow_key := (\<lambda>dir. case dir of
        DP_FLOW_DIR_ORG \<Rightarrow> zero_flow_key\<lparr> fk_l3_src := DP_SET_IPADDR4 10, fk_port_src := 0x0401, fk_l3_dst := DP_SET_IPADDR4 0x08080808,
          fk_port_dst := 80, fk_proto := IPPROTO_TCP \<rparr>
      | _ \<Rightarrow> zero_flow_key\<lparr> fk_l3_dst := DP_SET_IPADDR4 20, fk_port_dst := port, fk_proto := IPPROTO_TCP \<rparr>) \<rparr>"

lemma example_cntrack_keys: "snat_release_keys (example_cntrack port) = (example_pk, example_key\<lparr> ok_nat_port := port \<rparr>)"
  by (simp add: snat_release_keys_def example_cntrack_def zero_flow_value_def zero_flow_key_def dp_copy_ipaddr_def DP_SET_IPADDR4_def)

theorem nat_allocate_release_witness:
  "\<exists>r s1 ports' s2. dp_allocate_network_snat_port list_nat_env 0 7 example_nat_packet 100 example_nat_state = Some (r, s1) \<and>
     dp_remove_network_snat_port list_nat_env (example_cntrack (of_int r)) [Some zero_port] s1 = (DP_OK, ports', s2) \<and>
     overload_used list_nat_env s2 = {}"
proof -
  obtain r s1 where alloc: "dp_allocate_network_snat_port list_nat_env 0 7 example_nat_packet 100 example_nat_state = Some (r, s1)" "0 \<le> r"
    using example_allocation by blast
  have "dp_get_port_by_id [Some zero_port] (fv_created_port_id (example_cntrack (of_int r))) \<noteq> None"
    "\<not> ip_is_v6 (fk_l3_dst (fv_flow_key (example_cntrack (of_int r)) DP_FLOW_DIR_REPLY))"
    by (simp_all add: dp_get_port_by_id_def example_cntrack_def zero_flow_value_def)
  from nat_allocate_release [OF example_nat_ok example_nat_view(4) example_nat_keys alloc _ this(2) example_cntrack_keys this(1)]
  show ?thesis
    using alloc by (auto simp: example_nat_view)
qed

text \<open>
  C13: Virtual IPs behave like a map of their own.  Any history of set and delete requests for
  virtual IPs behaves like a map from (interface address, VNI) to the virtual IP and its
  underlay address on which exactly the successful requests are replayed.  It changes neither the
  network NATs, which live in the same objects, nor destination NAT, port tables or neighbours.
\<close>
theorem vip_requests_refine_map:
  assumes "nat_ok env s" "list_all (op_valid (\<lambda>e. fst (snd e) \<noteq> 0) (\<lambda>_. True)) requests"
    and "store_run (vip_put env) (vip_del env) requests s = (rets, s')"
  shows "nat_ok env s' \<and> vip_view env s' = map_replay fst snd requests rets (vip_view env s) \<and>
    netnat_view env s' = netnat_view env s \<and> other_nat_views env s' = other_nat_views env s"
  using vip.run_replay [OF assms] vipf.run_frame [OF assms] by simp

theorem vip_requests_refine_map_witness:
  "let reqs = [Put (nat_key 10 100, 5, 6), Put (nat_key 10 100, 7, 8), Del (nat_key 11 100)];
       (rets, s') = store_run (vip_put list_nat_env) (vip_del list_nat_env) reqs example_nat_state
   in vip_view list_nat_env s' = map_replay fst snd reqs rets (vip_view list_nat_env example_nat_state) \<and>
      netnat_view list_nat_env s' (nat_key 10 100) = Some (20, 5000, 5010, 0)"
proof -
  let ?reqs = "[Put (nat_key 10 100, 5, 6), Put (nat_key 10 100, 7, 8), Del (nat_key 11 100)] :: (nat_key \<times> u32 \<times> ipv6_addr, nat_key) store_op list"
  obtain rets s' where run: "store_run (vip_put list_nat_env) (vip_del list_nat_env) ?reqs example_nat_state = (rets, s')"
    by (cases "store_run (vip_put list_nat_env) (vip_del list_nat_env) ?reqs example_nat_state")
  have "netnat_view list_nat_env example_nat_state (nat_key 10 100) = Some (20, 5000, 5010, 0)"
    by (simp add: netnat_view_def example_nat_view example_snat_def zero_snat_data_def)
  with vip_requests_refine_map [OF example_nat_ok _ run] show ?thesis
    unfolding Let_def run by simp
qed

text \<open>
  C14: Network NATs behave like a map of their own: the same for set and delete requests of NAT
  address, port range and underlay address, which never change a virtual IP.
\<close>
theorem netnat_requests_refine_map:
  assumes "nat_ok env s" "list_all (op_valid (\<lambda>e. fst (snd e) \<noteq> 0) (\<lambda>_. True)) requests"
    and "store_run (netnat_put env) (netnat_del env) requests s = (rets, s')"
  shows "nat_ok env s' \<and> netnat_view env s' = map_replay fst snd requests rets (netnat_view env s) \<and>
    vip_view env s' = vip_view env s \<and> other_nat_views env s' = other_nat_views env s"
  using netnat.run_replay [OF assms] netnatf.run_frame [OF assms] by simp

theorem netnat_requests_refine_map_witness:
  "let reqs = [Put (nat_key 10 100, 20, 1, 9, 6), Del (nat_key 10 100), Put (nat_key 10 100, 21, 1, 9, 6)];
       (rets, s') = store_run (netnat_put list_nat_env) (netnat_del list_nat_env) reqs example_nat_state
   in netnat_view list_nat_env s' = map_replay fst snd reqs rets (netnat_view list_nat_env example_nat_state) \<and>
      vip_view list_nat_env s' (nat_key 10 100) = None"
proof -
  let ?reqs = "[Put (nat_key 10 100, 20, 1, 9, 6), Del (nat_key 10 100), Put (nat_key 10 100, 21, 1, 9, 6)] ::
    (nat_key \<times> u32 \<times> u16 \<times> u16 \<times> ipv6_addr, nat_key) store_op list"
  obtain rets s' where run: "store_run (netnat_put list_nat_env) (netnat_del list_nat_env) ?reqs example_nat_state = (rets, s')"
    by (cases "store_run (netnat_put list_nat_env) (netnat_del list_nat_env) ?reqs example_nat_state")
  have "vip_view list_nat_env example_nat_state (nat_key 10 100) = None"
    by (simp add: vip_view_def example_nat_view example_snat_def zero_snat_data_def)
  with netnat_requests_refine_map [OF example_nat_ok _ run] show ?thesis
    unfolding Let_def run by simp
qed

section \<open>Neighbour lookup\<close>

definition flow_nat_port :: "dp_flow \<Rightarrow> u16" where
  "flow_nat_port df =
     (if df_l4_type df = IPPROTO_ICMP \<or> df_l4_type df = IPPROTO_ICMPV6 then ntohs (df_icmp_identifier df) else ntohs (df_dst_port df))"

definition neigh_disjoint :: "network_nat_entry list \<Rightarrow> bool" where
  "neigh_disjoint headp \<longleftrightarrow>
     (\<forall>a \<in> set headp. \<forall>b \<in> set headp. a \<noteq> b \<and> ip4_of (ne_nat_ip6 a) = ip4_of (ne_nat_ip6 b) \<and> ne_vni a = ne_vni b
        \<longrightarrow> ne_port_max a \<le> ne_port_min b \<or> ne_port_max b \<le> ne_port_min a)"

lemma nat_find_port_Some:
  "nat_find_port ip vni port headp = Some ul \<Longrightarrow>
     \<exists>e \<in> set headp. dp_is_network_nat_port e ip None vni port \<and> ne_dst_ipv6 e = ul"
  by (induction headp) (auto split: if_splits)

lemma nat_find_port_unique:
  assumes "e \<in> set headp" "dp_is_network_nat_port e ip None vni port"
    and "\<And>e'. e' \<in> set headp \<Longrightarrow> dp_is_network_nat_port e' ip None vni port \<Longrightarrow> e' = e"
  shows "nat_find_port ip vni port headp = Some (ne_dst_ipv6 e)"
proof -
  have "nat_find_port ip vni port headp \<noteq> None"
    using assms(1,2) by (induction headp) auto
  then obtain ul where ul: "nat_find_port ip vni port headp = Some ul" by blast
  then show ?thesis
    using nat_find_port_Some [OF ul] assms(3) by metis
qed

lemma neigh_view_Some:
  "neigh_view headp (ip, vni, mn, mx) = Some ul \<Longrightarrow> \<exists>e \<in> set headp. entry_key e = (ip, vni, mn, mx) \<and> ip \<noteq> 0 \<and> ne_dst_ipv6 e = ul"
  by (induction headp) (auto simp: neigh_view_def dp_is_network_nat_entry_key split: if_splits)

lemma neigh_viewI:
  assumes "neigh_ok headp" "e \<in> set headp" "ip4_of (ne_nat_ip6 e) \<noteq> 0"
  shows "neigh_view headp (entry_key e) = Some (ne_dst_ipv6 e)"
  using assms
  by (induction headp) (auto simp: neigh_view_def neigh_ok_def dp_is_network_nat_entry_key entry_key_def image_iff)

text \<open>
  The lookup for a packet sent to the NAT address of a neighbour returns an underlay address
  exactly when that address is registered for a port range of this NAT address and VNI that
  contains the destination port (the identifier, for ICMP), as long as ranges of one address do not
  overlap.
\<close>
lemma neigh_nat_lookup:
  assumes "neigh_ok headp" "neigh_disjoint headp" "df_dst_addr df \<noteq> 0"
  shows "dp_lookup_network_nat_underlay_ip df headp = Some ul \<longleftrightarrow>
    (\<exists>mn mx. neigh_view headp (ntohl (df_dst_addr df), tun_dst_vni (df_tun_info df), mn, mx) = Some ul \<and>
       mn \<le> flow_nat_port df \<and> flow_nat_port df < mx)"
    (is "?L \<longleftrightarrow> ?R")
proof -
  let ?ip = "ntohl (df_dst_addr df)" and ?vni = "tun_dst_vni (df_tun_info df)"
  have ip: "?ip \<noteq> 0"
    using assms(3) by (metis ntohl_ntohl ntohl_0)
  have find: "dp_lookup_network_nat_underlay_ip df headp = nat_find_port ?ip ?vni (flow_nat_port df) headp"
    by (simp add: dp_lookup_network_nat_underlay_ip_def flow_nat_port_def Let_def)
  have match: "dp_is_network_nat_port e ?ip None ?vni (flow_nat_port df) \<longleftrightarrow>
      ip4_of (ne_nat_ip6 e) = ?ip \<and> ne_vni e = ?vni \<and> ne_port_min e \<le> flow_nat_port df \<and> flow_nat_port df < ne_port_max e" for e
    using ip by (auto simp: dp_is_network_nat_port_def dp_is_network_nat_ip_def)
  show ?thesis
  proof
    assume ?L
    then obtain e where "e \<in> set headp" "dp_is_network_nat_port e ?ip None ?vni (flow_nat_port df)" "ne_dst_ipv6 e = ul"
      unfolding find by (blast dest: nat_find_port_Some)
    then show ?R
      using neigh_viewI [OF assms(1), of e] ip by (auto simp: match entry_key_def)
  next
    assume ?R
    then obtain mn mx where view: "neigh_view headp (?ip, ?vni, mn, mx) = Some ul" and port: "mn \<le> flow_nat_port df" "flow_nat_port df < mx"
      by blast
    obtain e where e: "e \<in> set headp" "entry_key e = (?ip, ?vni, mn, mx)" "ne_dst_ipv6 e = ul"
      using neigh_view_Some [OF view] by blast
    have m: "dp_is_network_nat_port e ?ip None ?vni (flow_nat_port df)"
      using e(2) port unfolding match by (simp add: entry_key_def)
    have "e' = e" if "e' \<in> set headp" "dp_is_network_nat_port e' ?ip None ?vni (flow_nat_port df)" for e'
    proof (rule ccontr)
      assume "e' \<noteq> e"
      then have "ne_port_max e' \<le> ne_port_min e \<or> ne_port_max e \<le> ne_port_min e'"
        using assms(2) e(1) that m unfolding neigh_disjoint_def match by simp
      then show False
        using that(2) m unfolding match by (elim disjE conjE) order+
    qed
    from nat_find_port_unique [OF e(1) m this] show ?L
      unfolding find e(3) .
  qed
qed

definition example_neighbours :: "network_nat_entry list" where
  "example_neighbours =
     [\<lparr> ne_nat_ip6 = ip4_write 20 0, ne_port_min = 1, ne_port_max = 500, ne_vni = 100, ne_dst_ipv6 = 7 \<rparr>,
      \<lparr> ne_nat_ip6 = ip4_write 20 0, ne_port_min = 500, ne_port_max = 900, ne_vni = 100, ne_dst_ipv6 = 8 \<rparr>]"

lemma neigh_nat_lookup_witness:
  "let df = dp_init_flow_ptr\<lparr> df_dst_addr6 := ip4_write 0x14000000 0, df_l4_type := IPPROTO_TCP, df_dst_port := 0xF401,
         df_tun_info := (df_tun_info dp_init_flow_ptr)\<lparr> tun_dst_vni := 100 \<rparr> \<rparr>
   in dp_lookup_network_nat_underlay_ip df example_neighbours = Some 8"
proof -
  let ?df = "dp_init_flow_ptr\<lparr> df_dst_addr6 := ip4_write 0x14000000 0, df_l4_type := IPPROTO_TCP, df_dst_port := 0xF401,
         df_tun_info := (df_tun_info dp_init_flow_ptr)\<lparr> tun_dst_vni := 100 \<rparr> \<rparr>"
  have "neigh_ok example_neighbours" "neigh_disjoint example_neighbours" "df_dst_addr ?df \<noteq> 0"
    by (auto simp: example_neighbours_def neigh_ok_def neigh_disjoint_def entry_key_def)
  from neigh_nat_lookup [OF this, of 8] show ?thesis
    unfolding Let_def by (simp, intro exI [of _ 500] exI [of _ 900])
      (simp add: flow_nat_port_def example_neighbours_def neigh_view_def dp_is_network_nat_entry_key entry_key_def ntohl_def ntohs_def)
qed

text \<open>
  C15: Neighbour NATs behave like a map from (NAT address, VNI, port range) to the underlay
  address: any history of add and delete requests replays exactly the successful ones, and no key
  is ever listed twice.
\<close>
theorem neigh_nat_requests_refine_map:
  assumes "neigh_ok headp" "list_all (op_valid (\<lambda>e. fst (fst e) \<noteq> 0) (\<lambda>_. True)) requests"
    and "store_run (neigh_put alloc) neigh_del requests headp = (rets, headp')"
  shows "neigh_ok headp' \<and> neigh_view headp' = map_replay fst snd requests rets (neigh_view headp)"
  using neigh.run_replay [OF assms] by simp

theorem neigh_nat_requests_refine_map_witness:
  "let reqs = [Put ((20, 100, 1, 500), 7), Put ((20, 100, 1, 500), 9), Del (20, 100, 500, 900)];
       (rets, headp') = store_run (neigh_put True) neigh_del reqs []
   in rets = [DP_GRPC_OK, DP_GRPC_ERR_ALREADY_EXISTS, DP_GRPC_ERR_NOT_FOUND] \<and>
      neigh_view headp' = map_replay fst snd reqs rets (neigh_view [])"
proof -
  let ?reqs = "[Put ((20, 100, 1, 500), 7), Put ((20, 100, 1, 500), 9), Del (20, 100, 500, 900)] :: (neigh_key \<times> ipv6_addr, neigh_key) store_op list"
  have run: "store_run (neigh_put True) neigh_del ?reqs [] =
    ([DP_GRPC_OK, DP_GRPC_ERR_ALREADY_EXISTS, DP_GRPC_ERR_NOT_FOUND],
     [\<lparr> ne_nat_ip6 = ip4_write 20 0, ne_port_min = 1, ne_port_max = 500, ne_vni = 100, ne_dst_ipv6 = 7 \<rparr>])"
    by (simp add: dp_add_network_nat_entry_def dp_is_network_nat_entry_key entry_key_def)
  from neigh_nat_requests_refine_map [OF _ _ run] show ?thesis
    unfolding Let_def run by (simp add: neigh_ok_def)
qed

text \<open>
  Listing the local NATs of an address always ends, and delivers to the client one
  message for each interface behind that address, with its port range; only when the reply
  buffers run out does it stop early, with an error.
\<close>
lemma dp_list_nat_local_entries_client:
  assumes "nat_ok env s" "rte_iter_ok (env_snat env) slots"
    and "0 < msg_size" "msg_size \<le> rep_max_size" "rep_max_size \<le> UINT16_MAX"
  shows "\<exists>ret r. dp_list_nat_local_entries env msg_size nat_ip s (dp_grpc_init_responder sz rep_max_size pool) = Some (ret, r) \<and>
    lists_view (snat_view env s) (\<lambda>_ d. sd_nat_ip d = nat_ip)
      (\<lambda>k d. \<lparr> gn_min_port = sd_port_min d, gn_max_port = sd_port_max d, gn_addr = DP_SET_IPADDR4 (nk_ip k), gn_vni = nk_vni k, gn_ul_addr6 = 0 \<rparr>)
      ret (client_messages (dp_grpc_send_response ret r))"
proof -
  have body: "nat_local_body s nat_ip = list_body (\<lambda>_ d. sd_nat_ip d = nat_ip)
      (\<lambda>k d. \<lparr> gn_min_port = sd_port_min d, gn_max_port = sd_port_max d, gn_addr = DP_SET_IPADDR4 (nk_ip k), gn_vni = nk_vni k, gn_ul_addr6 = 0 \<rparr>)
      (ns_snat_heap s)"
    by (simp add: fun_eq_iff nat_local_body_def list_body_def Let_def)
  show ?thesis
    unfolding dp_list_nat_local_entries_def body dp_list_table_def [symmetric] snat_view_def
    by (rule dp_list_table_spec [OF nat_okD(1) [OF assms(1)] assms(2) nat_okD(8) [OF assms(1)] assms(3-5)])
qed

lemma dp_list_nat_local_entries_client_witness:
  "\<exists>ret r. dp_list_nat_local_entries list_nat_env 100 20 example_nat_state (dp_grpc_init_responder 100 1000 []) = Some (ret, r) \<and>
     length (client_messages (dp_grpc_send_response ret r)) \<le> 1"
proof -
  have "rte_iter_ok (env_snat list_nat_env) (list_slots enc_nat_key dec_nat_key)"
    by (simp add: list_nat_env_def list_hash_iter_ok)
  from dp_list_nat_local_entries_client [OF example_nat_ok this, of 100 1000 20 100 "[]"] obtain ret r entries n
    where r: "dp_list_nat_local_entries list_nat_env 100 20 example_nat_state (dp_grpc_init_responder 100 1000 []) = Some (ret, r)"
      and e: "distinct (map fst entries)" "\<forall>k d. (k, d) \<in> set entries \<longleftrightarrow> snat_view list_nat_env example_nat_state k = Some d \<and> sd_nat_ip d = 20"
      and ms: "length (client_messages (dp_grpc_send_response ret r)) \<le> length entries"
    unfolding lists_view_def by auto
  have "set (map fst entries) \<subseteq> {nat_key 10 100}"
    using e(2) by (auto simp: example_nat_view split: if_splits)
  then have "card (set (map fst entries)) \<le> card {nat_key 10 100}"
    by (intro card_mono) auto
  then have "length entries \<le> 1"
    using distinct_card [OF e(1)] by simp
  with r ms show ?thesis
    by force
qed

end
