(* ===== verification/Dp_Flow.thy ===== *)
theory Dp_Flow
  imports Dp_Flow_Key Dp_Nat_Correct
begin

text \<open>
  \<^verbatim>\<open>src/dp_flow.c\<close>: the flow table of connection tracking.  A flow value is registered under the keys of
  its two directions and is reference counted: one reference for the table, one for each hardware
  rule (age context) that carries the flow.  The last reference frees it: the NAT port is
  released, both keys are deleted and the lookup cache is flushed.  A use of freed memory is \<open>None\<close>.
  The lemmas cover the freeing of one flow and the loops that remove flows while they iterate over
  the table.
\<close>

section \<open>Data\<close>

abbreviation (input) DP_FLOW_VAL_AGE_CTX_CAPACITY :: nat where "DP_FLOW_VAL_AGE_CTX_CAPACITY \<equiv> 6"

record flow_age_ctx =
  ac_cntrack :: "ptr option"
  ac_rte_flow :: "ptr option"
  ac_ref_index_in_cntrack :: u8
  ac_port_id :: u8
  ac_handle :: "ptr option"

text \<open>
  The static variables of \<^verbatim>\<open>src/dp_cntrack.c\<close>: the keys of the packet at hand and of the one before
  take turns in the two slots of \<^verbatim>\<open>key_cache\<close>, and \<^verbatim>\<open>prev_key\<close> and \<^verbatim>\<open>curr_key\<close> point to them.
\<close>

record cntrack_cache =
  cc_key_cache :: "flow_key list"
  cc_key_cache_index :: u32
  cc_prev_key :: "nat option"
  cc_curr_key :: nat
  cc_cached_flow_val :: "ptr option"

text \<open>
  The environment adds to DPDK's tables and allocator the query of a hardware rule's age: return
  code and \<^verbatim>\<open>sec_since_last_hit\<close> for a port and an action handle.
\<close>

record 't flow_env =
  fe_flow :: "(flow_key, 't) rte_hash"
  fe_flow_malloc :: "flow_value rte_malloc"
  fe_nat :: "'t nat_env"
  fe_vnf :: "'t vnf_env"
  fe_age_query :: "u8 \<Rightarrow> ptr \<Rightarrow> int \<times> u32"

text \<open>
  The state the conntrack code reads and writes.  Both \<^verbatim>\<open>dp_flow.c\<close> and \<^verbatim>\<open>dp_cntrack.c\<close> keep the
  configured \<^verbatim>\<open>offload_mode_enabled\<close>; it is one field here.  \<open>fs_pf_ports\<close> are the port ids of
  \<^verbatim>\<open>_dp_pf_ports\<close>; a port is identified by its id.
\<close>

record 't flow_state =
  fs_flow_tbl :: 't
  fs_flow_heap :: "flow_value heap"
  fs_age_heap :: "flow_age_ctx heap"
  fs_offload :: bool
  fs_cache :: cntrack_cache
  fs_nat :: "'t nat_state"
  fs_vnf :: "'t vnf_state"
  fs_ports :: "dp_port option list"
  fs_pf_ports :: "u16 list"

section \<open>The table\<close>

definition dp_flow_init ::
  "(string \<Rightarrow> 't option) \<Rightarrow> bool \<Rightarrow> ('t, 'z) flow_state_scheme \<Rightarrow> int \<times> ('t, 'z) flow_state_scheme" where
  "dp_flow_init create offload_enabled s =
     (case create ''ipv4_flow_table'' of
        None \<Rightarrow> (DP_ERROR, s)
      | Some t \<Rightarrow> (DP_OK, s\<lparr> fs_flow_tbl := t, fs_offload := offload_enabled \<rparr>))"

definition dp_cntrack_flush_cache :: "('t, 'z) flow_state_scheme \<Rightarrow> ('t, 'z) flow_state_scheme" where
  "dp_cntrack_flush_cache s = s\<lparr> fs_cache := (fs_cache s)\<lparr> cc_prev_key := None, cc_cached_flow_val := None \<rparr> \<rparr>"

text \<open>A failed deletion is only logged.\<close>

definition dp_delete_flow_no_flush ::
  "('t, 'e) flow_env_scheme \<Rightarrow> flow_key \<Rightarrow> ('t, 'z) flow_state_scheme \<Rightarrow> ('t, 'z) flow_state_scheme" where
  "dp_delete_flow_no_flush env key s = s\<lparr> fs_flow_tbl := snd (rh_del (fe_flow env) (fs_flow_tbl s) key) \<rparr>"

definition dp_delete_flow ::
  "('t, 'e) flow_env_scheme \<Rightarrow> flow_key \<Rightarrow> ('t, 'z) flow_state_scheme \<Rightarrow> ('t, 'z) flow_state_scheme" where
  "dp_delete_flow env key s = dp_cntrack_flush_cache (dp_delete_flow_no_flush env key s)"

definition dp_add_flow ::
  "('t, 'e) flow_env_scheme \<Rightarrow> flow_key \<Rightarrow> ptr \<Rightarrow> ('t, 'z) flow_state_scheme \<Rightarrow> int \<times> ('t, 'z) flow_state_scheme" where
  "dp_add_flow env key flow_val s =
     (let (ret, t) = rh_add_data (fe_flow env) (fs_flow_tbl s) key flow_val; s1 = s\<lparr> fs_flow_tbl := t \<rparr>
      in if DP_FAILED ret then (ret, s1) else (DP_OK, s1))"

definition dp_get_flow :: "('t, 'e) flow_env_scheme \<Rightarrow> flow_key \<Rightarrow> ('t, 'z) flow_state_scheme \<Rightarrow> int + ptr" where
  "dp_get_flow env key s = rh_lookup (fe_flow env) (fs_flow_tbl s) key"

definition dp_get_conntrack_flow_hash_value :: "('t, 'e) flow_env_scheme \<Rightarrow> flow_key \<Rightarrow> ('t, 'z) flow_state_scheme \<Rightarrow> u32" where
  "dp_get_conntrack_flow_hash_value env key s = rh_hash (fe_flow env) (fs_flow_tbl s) key"

section \<open>Freeing a flow\<close>

definition dp_free_network_nat_port ::
  "('t, 'e) flow_env_scheme \<Rightarrow> flow_value \<Rightarrow> ('t, 'z) flow_state_scheme \<Rightarrow> ('t, 'z) flow_state_scheme" where
  "dp_free_network_nat_port env cntrack s =
     (if nf_nat_type (fv_nf_info cntrack) = DP_FLOW_NAT_TYPE_NETWORK_LOCAL then
        let (_, ports, ns) = dp_remove_network_snat_port (fe_nat env) cntrack (fs_ports s) (fs_nat s)
        in s\<lparr> fs_ports := ports, fs_nat := ns \<rparr>
      else s)"

definition dp_free_flow ::
  "('t, 'e) flow_env_scheme \<Rightarrow> ptr \<Rightarrow> ('t, 'z) flow_state_scheme \<Rightarrow> ('t, 'z) flow_state_scheme option" where
  "dp_free_flow env p s =
     do {
       cntrack \<leftarrow> fs_flow_heap s p;
       let s1 = dp_free_network_nat_port env cntrack s;
       let s2 = dp_delete_flow_no_flush env (fv_flow_key cntrack DP_FLOW_DIR_ORG) s1;
       let s3 = dp_delete_flow_no_flush env (fv_flow_key cntrack DP_FLOW_DIR_REPLY) s2;
       let s4 = dp_cntrack_flush_cache s3;
       Some (s4\<lparr> fs_flow_heap := rte_free (fs_flow_heap s4) p \<rparr>)
     }"

text \<open>\<^verbatim>\<open>dp_ref_dec(&flow_val->ref_count)\<close> with \<^verbatim>\<open>dp_free_flow\<close> as the release function.\<close>

definition flow_ref_dec ::
  "('t, 'e) flow_env_scheme \<Rightarrow> ptr \<Rightarrow> ('t, 'z) flow_state_scheme \<Rightarrow> ('t, 'z) flow_state_scheme option" where
  "flow_ref_dec env p s =
     do {
       v \<leftarrow> fs_flow_heap s p;
       let (ref_count, freed) = dp_ref_dec (fv_ref_count v);
       let s1 = s\<lparr> fs_flow_heap := (fs_flow_heap s)(p \<mapsto> v\<lparr> fv_ref_count := ref_count \<rparr>) \<rparr>;
       (if freed then dp_free_flow env p s1 else Some s1)
     }"

section \<open>Hardware rules of a flow\<close>

text \<open>The first free slot of the flow takes the context, which records its index.\<close>

fun free_ctx_slot :: "ptr option list \<Rightarrow> nat option" where
  "free_ctx_slot [] = None"
| "free_ctx_slot (c # cs) = (if c = None then Some 0 else map_option Suc (free_ctx_slot cs))"

definition dp_add_rte_age_ctx ::
  "ptr \<Rightarrow> ptr \<Rightarrow> ('t, 'z) flow_state_scheme \<Rightarrow> (int \<times> ('t, 'z) flow_state_scheme) option" where
  "dp_add_rte_age_ctx p c s =
     do {
       v \<leftarrow> fs_flow_heap s p;
       (case free_ctx_slot (fv_rte_age_ctxs v) of
          None \<Rightarrow> Some (DP_ERROR, s)
        | Some i \<Rightarrow>
            do {
              ctx \<leftarrow> fs_age_heap s c;
              Some (DP_OK, s\<lparr> fs_flow_heap := (fs_flow_heap s)(p \<mapsto> v\<lparr> fv_rte_age_ctxs := (fv_rte_age_ctxs v)[i := Some c] \<rparr>),
                              fs_age_heap := (fs_age_heap s)(c \<mapsto> ctx\<lparr> ac_ref_index_in_cntrack := of_nat i \<rparr>) \<rparr>)
            })
     }"

definition dp_del_rte_age_ctx ::
  "ptr \<Rightarrow> flow_age_ctx \<Rightarrow> ('t, 'z) flow_state_scheme \<Rightarrow> (int \<times> ('t, 'z) flow_state_scheme) option" where
  "dp_del_rte_age_ctx p ctx s =
     (if DP_FLOW_VAL_AGE_CTX_CAPACITY \<le> unat (ac_ref_index_in_cntrack ctx) then Some (DP_ERROR, s)
      else
        do {
          v \<leftarrow> fs_flow_heap s p;
          Some (DP_OK, s\<lparr> fs_flow_heap := (fs_flow_heap s)(p \<mapsto>
            v\<lparr> fv_rte_age_ctxs := (fv_rte_age_ctxs v)[unat (ac_ref_index_in_cntrack ctx) := None] \<rparr>) \<rparr>)
        })"

text \<open>The rule and its action are destroyed in the driver; failures there are only logged.\<close>

definition dp_destroy_rte_flow_agectx ::
  "('t, 'e) flow_env_scheme \<Rightarrow> ptr option \<Rightarrow> ('t, 'z) flow_state_scheme \<Rightarrow> ('t, 'z) flow_state_scheme option" where
  "dp_destroy_rte_flow_agectx env agectx s =
     (case agectx of
        None \<Rightarrow> Some s
      | Some c \<Rightarrow>
          do {
            ctx0 \<leftarrow> fs_age_heap s c;
            let ctx = ctx0\<lparr> ac_handle := None, ac_rte_flow := None \<rparr>;
            let s1 = s\<lparr> fs_age_heap := (fs_age_heap s)(c \<mapsto> ctx) \<rparr>;
            s2 \<leftarrow> (case ac_cntrack ctx of
                      None \<Rightarrow> Some s1
                    | Some p \<Rightarrow>
                        do {
                          (_, s') \<leftarrow> dp_del_rte_age_ctx p ctx s1;
                          flow_ref_dec env p s'
                        });
            Some (s2\<lparr> fs_age_heap := rte_free (fs_age_heap s2) c \<rparr>)
          })"

fun destroy_agectxs ::
  "('t, 'e) flow_env_scheme \<Rightarrow> ptr option list \<Rightarrow> ('t, 'z) flow_state_scheme \<Rightarrow> ('t, 'z) flow_state_scheme option" where
  "destroy_agectxs env [] s = Some s"
| "destroy_agectxs env (c # cs) s = do { s1 \<leftarrow> dp_destroy_rte_flow_agectx env c s; destroy_agectxs env cs s1 }"

text \<open>
  \<open>n_total\<close> is the driver's count of aged rules of the port, \<open>alloc\<close> whether the array for them was
  allocated, \<open>fetched\<close> and \<open>contexts\<close> the result of the second query.
\<close>

definition dp_process_aged_flows ::
  "('t, 'e) flow_env_scheme \<Rightarrow> int \<Rightarrow> bool \<Rightarrow> int \<Rightarrow> ptr option list \<Rightarrow> ('t, 'z) flow_state_scheme \<Rightarrow> ('t, 'z) flow_state_scheme option" where
  "dp_process_aged_flows env n_total alloc fetched contexts s =
     (if n_total \<le> 0 then Some s
      else if \<not> alloc then Some s
      else destroy_agectxs env (take (nat (if DP_FAILED fetched then 0 else fetched)) contexts) s)"

text \<open>The loops over the slots of a flow read the flow in every round.\<close>

fun remove_slots ::
  "('t, 'e) flow_env_scheme \<Rightarrow> ptr \<Rightarrow> nat list \<Rightarrow> ('t, 'z) flow_state_scheme \<Rightarrow> ('t, 'z) flow_state_scheme option" where
  "remove_slots env p [] s = Some s"
| "remove_slots env p (i # is) s =
     do {
       v \<leftarrow> fs_flow_heap s p;
       s1 \<leftarrow> dp_destroy_rte_flow_agectx env (fv_rte_age_ctxs v ! i) s;
       remove_slots env p is s1
     }"

definition dp_rte_flow_remove ::
  "('t, 'e) flow_env_scheme \<Rightarrow> ptr \<Rightarrow> ('t, 'z) flow_state_scheme \<Rightarrow> ('t, 'z) flow_state_scheme option" where
  "dp_rte_flow_remove env p s = remove_slots env p [0..<DP_FLOW_VAL_AGE_CTX_CAPACITY] s"

fun query_slots ::
  "('t, 'e) flow_env_scheme \<Rightarrow> ptr \<Rightarrow> nat list \<Rightarrow> ('t, 'z) flow_state_scheme \<Rightarrow> (int \<times> ('t, 'z) flow_state_scheme) option" where
  "query_slots env p [] s = Some (DP_OK, s)"
| "query_slots env p (i # is) s =
     do {
       v \<leftarrow> fs_flow_heap s p;
       (case fv_rte_age_ctxs v ! i of
          None \<Rightarrow> query_slots env p is s
        | Some c \<Rightarrow>
            do {
              ctx \<leftarrow> fs_age_heap s c;
              (case ac_handle ctx of
                 None \<Rightarrow> query_slots env p is s
               | Some h \<Rightarrow>
                   let (ret, sec_since_last_hit) = fe_age_query env (ac_port_id ctx) h
                   in if DP_FAILED ret then Some (ret, s)
                      else if fv_timeout_value v \<le> sec_since_last_hit then
                        do { s1 \<leftarrow> dp_destroy_rte_flow_agectx env (Some c) s; query_slots env p is s1 }
                      else query_slots env p is s)
            })
     }"

definition dp_rte_flow_query_and_remove ::
  "('t, 'e) flow_env_scheme \<Rightarrow> ptr \<Rightarrow> ('t, 'z) flow_state_scheme \<Rightarrow> (int \<times> ('t, 'z) flow_state_scheme) option" where
  "dp_rte_flow_query_and_remove env p s = query_slots env p [0..<DP_FLOW_VAL_AGE_CTX_CAPACITY] s"

section \<open>Aging and removal\<close>

definition dp_age_out_flow ::
  "('t, 'e) flow_env_scheme \<Rightarrow> ptr \<Rightarrow> ('t, 'z) flow_state_scheme \<Rightarrow> ('t, 'z) flow_state_scheme option" where
  "dp_age_out_flow env p s =
     do {
       v \<leftarrow> fs_flow_heap s p;
       flow_ref_dec env p (s\<lparr> fs_flow_heap := (fs_flow_heap s)(p \<mapsto> v\<lparr> fv_aged := True \<rparr>) \<rparr>)
     }"

definition dp_remove_flow ::
  "('t, 'e) flow_env_scheme \<Rightarrow> ptr \<Rightarrow> ('t, 'z) flow_state_scheme \<Rightarrow> ('t, 'z) flow_state_scheme option" where
  "dp_remove_flow env p s =
     do {
       s1 \<leftarrow> (if fs_offload s then dp_rte_flow_remove env p s else Some s);
       dp_age_out_flow env p s1
     }"

text \<open>
  The loops over the flow table.  The outer option: the loop returns; the inner: no freed memory
  was used.  A failing iterator ends the loop.
\<close>

definition flow_foreach ::
  "('t, 'e) flow_env_scheme \<Rightarrow> (flow_key \<Rightarrow> ptr \<Rightarrow> ('t, 'z) flow_state_scheme \<Rightarrow> ('t, 'z) flow_state_scheme option) \<Rightarrow>
    ('t, 'z) flow_state_scheme \<Rightarrow> ('t, 'z) flow_state_scheme option option" where
  "flow_foreach env body s =
     map_option (\<lambda>r. case r of Inl res \<Rightarrow> res | Inr s' \<Rightarrow> Some s')
       (rh_foreach (fe_flow env) fs_flow_tbl (\<lambda>_ s'. Some s')
          (\<lambda>k p s'. case body k p s' of None \<Rightarrow> Inl None | Some s'' \<Rightarrow> Inr s'') 0 s)"

definition flow_expired :: "u64 \<Rightarrow> u64 \<Rightarrow> flow_value \<Rightarrow> bool" where
  "flow_expired now timer_hz v \<longleftrightarrow> timer_hz * ucast (fv_timeout_value v) < now - fv_timestamp v \<and> \<not> fv_aged v"

definition dp_process_aged_flows_non_offload ::
  "('t, 'e) flow_env_scheme \<Rightarrow> u64 \<Rightarrow> u64 \<Rightarrow> ('t, 'z) flow_state_scheme \<Rightarrow> ('t, 'z) flow_state_scheme option option" where
  "dp_process_aged_flows_non_offload env current_timestamp timer_hz s =
     flow_foreach env (\<lambda>k p s.
       do {
         s1 \<leftarrow> (if fs_offload s \<and> fk_proto k = IPPROTO_TCP then map_option snd (dp_rte_flow_query_and_remove env p s) else Some s);
         v \<leftarrow> fs_flow_heap s1 p;
         (if flow_expired current_timestamp timer_hz v then dp_age_out_flow env p s1 else Some s1)
       }) s"

text \<open>Removal of the flows that a test on key and value selects.\<close>

definition remove_flows ::
  "('t, 'e) flow_env_scheme \<Rightarrow> (flow_key \<Rightarrow> flow_value \<Rightarrow> bool) \<Rightarrow> ('t, 'z) flow_state_scheme \<Rightarrow> ('t, 'z) flow_state_scheme option option" where
  "remove_flows env sel s =
     flow_foreach env (\<lambda>k p s. do { v \<leftarrow> fs_flow_heap s p; (if sel k v then dp_remove_flow env p s else Some s) }) s"

definition nat_flow_of :: "u16 \<Rightarrow> dp_flow_nat_type \<Rightarrow> flow_key \<Rightarrow> flow_value \<Rightarrow> bool" where
  "nat_flow_of port_id nat_type k v \<longleftrightarrow> fv_created_port_id v = port_id \<and> nf_nat_type (fv_nf_info v) = nat_type"

definition neighnat_flow_of :: "u32 \<Rightarrow> u32 \<Rightarrow> u16 \<Rightarrow> u16 \<Rightarrow> flow_key \<Rightarrow> flow_value \<Rightarrow> bool" where
  "neighnat_flow_of ipv4 vni min_port max_port k v \<longleftrightarrow>
     fk_vni k = vni \<and> \<not> ip_is_v6 (fk_l3_dst k) \<and> ip_ipv4 (fk_l3_dst k) = ipv4 \<and> min_port \<le> fk_port_dst k \<and> fk_port_dst k < max_port"

definition iface_flow_of :: "u16 \<Rightarrow> u32 \<Rightarrow> u32 \<Rightarrow> flow_key \<Rightarrow> flow_value \<Rightarrow> bool" where
  "iface_flow_of port_id ipv4 vni k v \<longleftrightarrow>
     fv_created_port_id v = port_id
     \<or> fk_vni k = vni \<and> \<not> ip_is_v6 (fk_l3_dst (fv_flow_key v DP_FLOW_DIR_ORG))
       \<and> ip_ipv4 (fk_l3_dst (fv_flow_key v DP_FLOW_DIR_ORG)) = ipv4"

definition dp_remove_nat_flows ::
  "('t, 'e) flow_env_scheme \<Rightarrow> u16 \<Rightarrow> dp_flow_nat_type \<Rightarrow> ('t, 'z) flow_state_scheme \<Rightarrow> ('t, 'z) flow_state_scheme option option" where
  "dp_remove_nat_flows env port_id nat_type s = remove_flows env (nat_flow_of port_id nat_type) s"

definition dp_remove_neighnat_flows ::
  "('t, 'e) flow_env_scheme \<Rightarrow> u32 \<Rightarrow> u32 \<Rightarrow> u16 \<Rightarrow> u16 \<Rightarrow> ('t, 'z) flow_state_scheme \<Rightarrow> ('t, 'z) flow_state_scheme option option" where
  "dp_remove_neighnat_flows env ipv4 vni min_port max_port s = remove_flows env (neighnat_flow_of ipv4 vni min_port max_port) s"

definition dp_remove_iface_flows ::
  "('t, 'e) flow_env_scheme \<Rightarrow> u16 \<Rightarrow> u32 \<Rightarrow> u32 \<Rightarrow> ('t, 'z) flow_state_scheme \<Rightarrow> ('t, 'z) flow_state_scheme option option" where
  "dp_remove_iface_flows env port_id ipv4 vni s = remove_flows env (iface_flow_of port_id ipv4 vni) s"

section \<open>The flow table and its invariant\<close>

definition flow_view :: "('t, 'e) flow_env_scheme \<Rightarrow> ('t, 'z) flow_state_scheme \<Rightarrow> flow_key \<rightharpoonup> ptr" where
  "flow_view env s = rh_view (fe_flow env) (fs_flow_tbl s)"

definition flow_keys :: "flow_value \<Rightarrow> flow_key set" where
  "flow_keys v = {fv_flow_key v DP_FLOW_DIR_ORG, fv_flow_key v DP_FLOW_DIR_REPLY}"

definition flush :: "cntrack_cache \<Rightarrow> cntrack_cache" where
  "flush c = c\<lparr> cc_prev_key := None, cc_cached_flow_val := None \<rparr>"

text \<open>The cache holds, if anything, a flow that the table has under the cached key.\<close>

definition cache_ok :: "(flow_key \<rightharpoonup> ptr) \<Rightarrow> cntrack_cache \<Rightarrow> bool" where
  "cache_ok tbl c \<longleftrightarrow> length (cc_key_cache c) = 2 \<and> cc_curr_key c = unat (cc_key_cache_index c mod 2) \<and>
     (\<forall>i. cc_prev_key c = Some i \<longrightarrow> i < 2 \<and> i \<noteq> cc_curr_key c \<and>
        (\<exists>p. cc_cached_flow_val c = Some p \<and> tbl (cc_key_cache c ! i) = Some p))"

text \<open>No entry of the table dangles: its flow is alive and the entry's key is one of the flow's two.\<close>

definition flow_ok :: "('t, 'e) flow_env_scheme \<Rightarrow> ('t, 'z) flow_state_scheme \<Rightarrow> bool" where
  "flow_ok env s \<longleftrightarrow> rte_hash_ok (fe_flow env) \<and> rte_malloc_ok (fe_flow_malloc env) \<and> nat_ok (fe_nat env) (fs_nat s) \<and>
     (\<forall>k p. flow_view env s k = Some p \<longrightarrow> (\<exists>v. fs_flow_heap s p = Some v \<and> k \<in> flow_keys v)) \<and>
     cache_ok (flow_view env s) (fs_cache s)"

lemma flow_okD:
  assumes "flow_ok env s"
  shows "rte_hash_ok (fe_flow env)" "nat_ok (fe_nat env) (fs_nat s)"
    "flow_view env s k = Some p \<Longrightarrow> \<exists>v. fs_flow_heap s p = Some v \<and> k \<in> flow_keys v"
    "cache_ok (flow_view env s) (fs_cache s)" "rte_malloc_ok (fe_flow_malloc env)"
  using assms by (simp_all add: flow_ok_def)

lemma cache_ok_flush: "cache_ok tbl c \<Longrightarrow> cache_ok tbl' (flush c)"
  by (simp add: cache_ok_def flush_def)

section \<open>Freeing one flow\<close>

text \<open>The state after the last reference to the flow \<open>v\<close> at \<open>p\<close> is gone.\<close>

definition freed :: "('t, 'e) flow_env_scheme \<Rightarrow> ptr \<Rightarrow> flow_value \<Rightarrow> ('t, 'z) flow_state_scheme \<Rightarrow> ('t, 'z) flow_state_scheme" where
  "freed env p v s = (dp_free_network_nat_port env v s)\<lparr>
     fs_flow_tbl := snd (rh_del (fe_flow env) (snd (rh_del (fe_flow env) (fs_flow_tbl s) (fv_flow_key v DP_FLOW_DIR_ORG)))
                          (fv_flow_key v DP_FLOW_DIR_REPLY)),
     fs_cache := flush (fs_cache s),
     fs_flow_heap := (fs_flow_heap s)(p := None) \<rparr>"

lemma dp_free_network_nat_port_frame [simp]:
  "fs_flow_tbl (dp_free_network_nat_port env v s) = fs_flow_tbl s"
  "fs_flow_heap (dp_free_network_nat_port env v s) = fs_flow_heap s"
  "fs_age_heap (dp_free_network_nat_port env v s) = fs_age_heap s"
  "fs_offload (dp_free_network_nat_port env v s) = fs_offload s"
  "fs_cache (dp_free_network_nat_port env v s) = fs_cache s"
  "fs_vnf (dp_free_network_nat_port env v s) = fs_vnf s"
  "flow_state.more (dp_free_network_nat_port env v s) = flow_state.more s"
  by (simp_all add: dp_free_network_nat_port_def split: prod.splits)

lemma freed_fields [simp]:
  "fs_flow_heap (freed env p v s) = (fs_flow_heap s)(p := None)"
  "fs_age_heap (freed env p v s) = fs_age_heap s"
  "fs_offload (freed env p v s) = fs_offload s"
  "fs_cache (freed env p v s) = flush (fs_cache s)"
  "fs_vnf (freed env p v s) = fs_vnf s"
  "fs_nat (freed env p v s) = fs_nat (dp_free_network_nat_port env v s)"
  by (simp_all add: freed_def)

lemma dp_free_flow_freed: "fs_flow_heap s p = Some v \<Longrightarrow> dp_free_flow env p s = Some (freed env p v s)"
  by (simp add: dp_free_flow_def freed_def dp_delete_flow_no_flush_def dp_cntrack_flush_cache_def flush_def rte_free_def Let_def)

lemma freed_view:
  assumes "rte_hash_ok (fe_flow env)"
  shows "flow_view env (freed env p v s) = flow_view env s |` (- flow_keys v)"
proof -
  obtain r t where d1: "rh_del (fe_flow env) (fs_flow_tbl s) (fv_flow_key v DP_FLOW_DIR_ORG) = (r, t)" by fastforce
  obtain r' t' where d2: "rh_del (fe_flow env) t (fv_flow_key v DP_FLOW_DIR_REPLY) = (r', t')" by fastforce
  show ?thesis
    using rh_del_view(1) [OF assms d1] rh_del_view(1) [OF assms d2]
    by (auto simp: flow_view_def freed_def d1 d2 flow_keys_def restrict_map_def fun_eq_iff)
qed

lemma freed_slots:
  assumes "rte_iter_ok (fe_flow env) slots"
  shows "set (slots (fs_flow_tbl (freed env p v s))) \<subseteq> set (slots (fs_flow_tbl s))"
  by (auto simp: freed_def rte_iter_okD(6) [OF assms])

text \<open>Mark and count of the flow do not matter when it is freed.\<close>

lemma release_cong:
  assumes "fv_flow_key w = fv_flow_key v" "fv_nf_info w = fv_nf_info v" "fv_created_port_id w = fv_created_port_id v"
  shows "dp_remove_network_snat_port nenv w ports ns = dp_remove_network_snat_port nenv v ports ns"
  unfolding dp_remove_network_snat_port_def snat_release_keys_def assms ..

lemma freed_cong:
  assumes "fv_flow_key w = fv_flow_key v" "fv_nf_info w = fv_nf_info v" "fv_created_port_id w = fv_created_port_id v"
    and "h(p := None) = (fs_flow_heap s)(p := None)"
  shows "freed env p w (s\<lparr> fs_flow_heap := h \<rparr>) = freed env p v s"
proof -
  obtain r ports ns where "dp_remove_network_snat_port (fe_nat env) v (fs_ports s) (fs_nat s) = (r, ports, ns)"
    by (metis prod_cases3)
  then show ?thesis
    using assms by (simp add: freed_def dp_free_network_nat_port_def release_cong [OF assms(1-3)])
qed

lemma flow_ref_dec_cases:
  assumes "fs_flow_heap s p = Some v"
  shows "flow_ref_dec env p s =
    Some (if fv_ref_count v = 1 then freed env p v s
          else s\<lparr> fs_flow_heap := (fs_flow_heap s)(p \<mapsto> v\<lparr> fv_ref_count := fv_ref_count v - 1 \<rparr>) \<rparr>)"
  using assms freed_cong [of "v\<lparr> fv_ref_count := 0 \<rparr>" v "(fs_flow_heap s)(p \<mapsto> v\<lparr> fv_ref_count := 0 \<rparr>)" p s env]
  by (simp add: flow_ref_dec_def dp_ref_dec_def dp_free_flow_freed Let_def)

lemma dp_age_out_flow_cases:
  assumes "fs_flow_heap s p = Some v"
  shows "dp_age_out_flow env p s =
    Some (if fv_ref_count v = 1 then freed env p v s
          else s\<lparr> fs_flow_heap := (fs_flow_heap s)(p \<mapsto> v\<lparr> fv_aged := True, fv_ref_count := fv_ref_count v - 1 \<rparr>) \<rparr>)"
  using assms freed_cong [of "v\<lparr> fv_aged := True \<rparr>" v "(fs_flow_heap s)(p \<mapsto> v\<lparr> fv_aged := True \<rparr>)" p s env]
  by (simp add: dp_age_out_flow_def flow_ref_dec_cases)

section \<open>Removing flows while iterating\<close>

text \<open>No two flows share a key: every flow that is in the table is there under both its keys.\<close>

definition flow_excl :: "('t, 'e) flow_env_scheme \<Rightarrow> ('t, 'z) flow_state_scheme \<Rightarrow> bool" where
  "flow_excl env s \<longleftrightarrow>
     (\<forall>k p v. flow_view env s k = Some p \<longrightarrow> fs_flow_heap s p = Some v \<longrightarrow> (\<forall>k' \<in> flow_keys v. flow_view env s k' = Some p))"

text \<open>Without hardware rules every live flow has the table's reference only.\<close>

definition software_flows :: "('t, 'z) flow_state_scheme \<Rightarrow> bool" where
  "software_flows s \<longleftrightarrow> \<not> fs_offload s \<and> (\<forall>p v. fs_flow_heap s p = Some v \<longrightarrow> fv_ref_count v = 1 \<and> \<not> fv_aged v)"

text \<open>The tuples of the NAT ports that the flows \<open>F\<close> hold.\<close>

definition held_tuples :: "('t, 'z) flow_state_scheme \<Rightarrow> ptr set \<Rightarrow> netnat_portoverload_tbl_key set" where
  "held_tuples s F = {key. \<exists>p \<in> F. \<exists>v. fs_flow_heap s p = Some v \<and> nf_nat_type (fv_nf_info v) = DP_FLOW_NAT_TYPE_NETWORK_LOCAL
     \<and> \<not> ip_is_v6 (fk_l3_dst (fv_flow_key v DP_FLOW_DIR_REPLY)) \<and> key = snd (snat_release_keys v)}"

text \<open>Exactly the flows \<open>F\<close> are gone, with their keys and NAT ports.\<close>

definition flows_dropped ::
  "('t, 'e) flow_env_scheme \<Rightarrow> ptr set \<Rightarrow> ('t, 'z) flow_state_scheme \<Rightarrow> ('t, 'z) flow_state_scheme \<Rightarrow> bool" where
  "flows_dropped env F s s' \<longleftrightarrow>
     fs_flow_heap s' = fs_flow_heap s |` (- F) \<and>
     flow_view env s' = (\<lambda>k. case flow_view env s k of None \<Rightarrow> None | Some p \<Rightarrow> if p \<in> F then None else Some p) \<and>
     fs_cache s' = (if F = {} then fs_cache s else flush (fs_cache s)) \<and>
     nat_ok (fe_nat env) (fs_nat s') \<and>
     overload_used (fe_nat env) (fs_nat s') = overload_used (fe_nat env) (fs_nat s) - held_tuples s F \<and>
     fs_age_heap s' = fs_age_heap s \<and> fs_offload s' = fs_offload s \<and> fs_vnf s' = fs_vnf s"

lemma flows_dropped_empty: "nat_ok (fe_nat env) (fs_nat s) \<Longrightarrow> flows_dropped env {} s s"
  by (auto simp: flows_dropped_def held_tuples_def fun_eq_iff split: option.splits)

lemma flows_dropped_entry:
  assumes "flows_dropped env F s s'" "flow_view env s' k = Some p"
  shows "flow_view env s k = Some p" "p \<notin> F" "fs_flow_heap s' p = fs_flow_heap s p"
  using assms by (auto simp: flows_dropped_def split: option.splits if_splits)

lemma release_used:
  assumes "nat_ok (fe_nat env) (fs_nat s)"
  shows "nat_ok (fe_nat env) (fs_nat (dp_free_network_nat_port env v s))"
    "overload_used (fe_nat env) (fs_nat (dp_free_network_nat_port env v s)) =
      overload_used (fe_nat env) (fs_nat s) -
        (if nf_nat_type (fv_nf_info v) = DP_FLOW_NAT_TYPE_NETWORK_LOCAL \<and> \<not> ip_is_v6 (fk_l3_dst (fv_flow_key v DP_FLOW_DIR_REPLY))
         then {snd (snat_release_keys v)} else {})"
proof -
  obtain pk key where keys: "snat_release_keys v = (pk, key)" by fastforce
  obtain r ports ns where rm: "dp_remove_network_snat_port (fe_nat env) v (fs_ports s) (fs_nat s) = (r, ports, ns)"
    by (metis prod_cases3)
  have "nat_ok (fe_nat env) ns \<and> overload_used (fe_nat env) ns = overload_used (fe_nat env) (fs_nat s) -
      (if \<not> ip_is_v6 (fk_l3_dst (fv_flow_key v DP_FLOW_DIR_REPLY)) then {key} else {})"
  proof (cases "ip_is_v6 (fk_l3_dst (fv_flow_key v DP_FLOW_DIR_REPLY))")
    case True
    then show ?thesis
      using rm assms by (simp add: dp_remove_network_snat_port_def)
  next
    case False
    then show ?thesis
      using dp_remove_network_snat_port_spec [OF assms False keys rm] by (simp add: snat_released_def)
  qed
  then show "nat_ok (fe_nat env) (fs_nat (dp_free_network_nat_port env v s))"
    "overload_used (fe_nat env) (fs_nat (dp_free_network_nat_port env v s)) =
      overload_used (fe_nat env) (fs_nat s) -
        (if nf_nat_type (fv_nf_info v) = DP_FLOW_NAT_TYPE_NETWORK_LOCAL \<and> \<not> ip_is_v6 (fk_l3_dst (fv_flow_key v DP_FLOW_DIR_REPLY))
         then {snd (snat_release_keys v)} else {})"
    using assms by (simp_all add: dp_free_network_nat_port_def rm keys)
qed

lemma flows_dropped_freed:
  assumes ok: "flow_ok env s" and excl: "flow_excl env s" and drop: "flows_dropped env F s s'"
    and k: "flow_view env s' k = Some p" and v: "fs_flow_heap s' p = Some v"
  shows "flows_dropped env (insert p F) s (freed env p v s')"
proof -
  note k0 = flows_dropped_entry [OF drop k]
  have v0: "fs_flow_heap s p = Some v" using v k0(3) by simp
  have keys: "flow_view env s k' = Some p \<longleftrightarrow> k' \<in> flow_keys v" for k'
  proof
    show "k' \<in> flow_keys v" if "flow_view env s k' = Some p"
      using flow_okD(3) [OF ok that] v0 by simp
    show "flow_view env s k' = Some p" if "k' \<in> flow_keys v"
      using excl [unfolded flow_excl_def, rule_format, OF k0(1) v0 that] .
  qed
  have "flow_view env (freed env p v s') =
      (\<lambda>k'. case flow_view env s k' of None \<Rightarrow> None | Some q \<Rightarrow> if q \<in> insert p F then None else Some q)"
    unfolding freed_view [OF flow_okD(1) [OF ok]] drop [unfolded flows_dropped_def, THEN conjunct2, THEN conjunct1]
    by (rule ext) (simp add: restrict_map_def keys [symmetric] split: option.splits)
  moreover have "held_tuples s (insert p F) = held_tuples s F \<union>
      (if nf_nat_type (fv_nf_info v) = DP_FLOW_NAT_TYPE_NETWORK_LOCAL \<and> \<not> ip_is_v6 (fk_l3_dst (fv_flow_key v DP_FLOW_DIR_REPLY))
       then {snd (snat_release_keys v)} else {})"
    using v0 by (auto simp: held_tuples_def)
  moreover have "(fs_flow_heap s')(p := None) = fs_flow_heap s |` (- insert p F)"
    using drop by (auto simp: flows_dropped_def restrict_map_def fun_eq_iff)
  ultimately show ?thesis
    using drop release_used [of env s' v] by (simp add: flows_dropped_def flush_def) blast
qed

text \<open>The flows that a test selects under one of their keys.\<close>

definition selected :: "('t, 'e) flow_env_scheme \<Rightarrow> (flow_key \<Rightarrow> flow_value \<Rightarrow> bool) \<Rightarrow> ('t, 'z) flow_state_scheme \<Rightarrow> ptr set" where
  "selected env sel s = {p. \<exists>k v. flow_view env s k = Some p \<and> fs_flow_heap s p = Some v \<and> sel k v}"

lemma drop_selected:
  assumes ok: "flow_ok env s" and iter: "rte_iter_ok (fe_flow env) slots" and excl: "flow_excl env s" and soft: "software_flows s"
    and body: "\<And>k p s' v. fs_offload s' = fs_offload s \<Longrightarrow> fs_flow_heap s' p = Some v \<Longrightarrow>
      body k p s' = (if sel k v then dp_age_out_flow env p s' else Some s')"
  shows "\<exists>s'. flow_foreach env body s = Some (Some s') \<and> flows_dropped env (selected env sel s) s s'"
proof -
  define I where "I s' \<longleftrightarrow> (\<exists>F \<subseteq> selected env sel s. flows_dropped env F s s')" for s' :: "('a, 'c) flow_state_scheme"
  define Q where "Q k p s' \<longleftrightarrow> (\<forall>v. fs_flow_heap s p = Some v \<longrightarrow> \<not> sel k v)" for k p and s' :: "('a, 'c) flow_state_scheme"
  let ?b = "\<lambda>k p s'. case body k p s' of None \<Rightarrow> Inl None | Some s'' \<Rightarrow> Inr s''"
  have step: "\<exists>s''. ?b k p s' = Inr s'' \<and> I s'' \<and> set (slots (fs_flow_tbl s'')) \<subseteq> set (slots (fs_flow_tbl s')) \<and>
      (rh_view (fe_flow env) (fs_flow_tbl s'') k = Some p \<longrightarrow> Q k p s'') \<and>
      (\<forall>k' p'. Q k' p' s' \<longrightarrow> rh_view (fe_flow env) (fs_flow_tbl s'') k' = Some p' \<longrightarrow> Q k' p' s'')"
    if I: "I s'" and k: "rh_view (fe_flow env) (fs_flow_tbl s') k = Some p" for k p s'
  proof -
    obtain F where F: "F \<subseteq> selected env sel s" "flows_dropped env F s s'"
      using I unfolding I_def by blast
    have k': "flow_view env s' k = Some p" using k by (simp add: flow_view_def)
    note k0 = flows_dropped_entry [OF F(2) k']
    obtain v where v: "fs_flow_heap s p = Some v" using flow_okD(3) [OF ok k0(1)] by blast
    have v': "fs_flow_heap s' p = Some v" using v k0(3) by simp
    have off: "fs_offload s' = fs_offload s" using F(2) by (simp add: flows_dropped_def)
    show ?thesis
    proof (cases "sel k v")
      case True
      have ref: "fv_ref_count v = 1" using soft v by (simp add: software_flows_def)
      have b: "?b k p s' = Inr (freed env p v s')"
        using body [OF off v', of k] True ref by (simp add: dp_age_out_flow_cases [OF v'])
      have "p \<in> selected env sel s" using k0(1) v True unfolding selected_def by blast
      then have "I (freed env p v s')"
        using flows_dropped_freed [OF ok excl F(2) k' v'] F(1) unfolding I_def by blast
      moreover have "rh_view (fe_flow env) (fs_flow_tbl (freed env p v s')) k \<noteq> Some p"
        using flows_dropped_entry(2) [OF flows_dropped_freed [OF ok excl F(2) k' v'], of k p] by (auto simp: flow_view_def)
      ultimately show ?thesis
        using b freed_slots [OF iter, of p v s'] by (intro exI [of _ "freed env p v s'"]) (simp add: Q_def)
    next
      case False
      then show ?thesis
        using body [OF off v', of k] I v by (intro exI [of _ s']) (simp add: Q_def)
    qed
  qed
  have "I s"
    using flows_dropped_empty [OF flow_okD(2) [OF ok]] unfolding I_def by blast
  then obtain s' where s': "rh_foreach (fe_flow env) fs_flow_tbl (\<lambda>_ s'. Some s') ?b 0 s = Some (Inr s')" "I s'"
      "\<And>k p. rh_view (fe_flow env) (fs_flow_tbl s') k = Some p \<Longrightarrow> Q k p s'"
    using rh_foreach_shrinking [where I = I and Q = Q and body = ?b and tbl = fs_flow_tbl and i = 0 and a = s and err = "\<lambda>_ s'. Some s'", OF iter step] by auto
  obtain F where F: "F \<subseteq> selected env sel s" "flows_dropped env F s s'"
    using s'(2) unfolding I_def by blast
  have "selected env sel s \<subseteq> F"
  proof
    fix p assume "p \<in> selected env sel s"
    then obtain k v where k: "flow_view env s k = Some p" "fs_flow_heap s p = Some v" "sel k v"
      unfolding selected_def by blast
    show "p \<in> F"
    proof (rule ccontr)
      assume "p \<notin> F"
      then have "flow_view env s' k = Some p"
        using F(2) k(1) by (simp add: flows_dropped_def)
      then show False
        using s'(3) [of k p] k by (simp add: Q_def flow_view_def)
    qed
  qed
  then show ?thesis
    using F s'(1) by (auto simp: flow_foreach_def)
qed

lemma flows_dropped_ok:
  assumes ok: "flow_ok env s" and drop: "flows_dropped env F s s'"
  shows "flow_ok env s'"
proof -
  note L = drop [unfolded flows_dropped_def]
  have "\<exists>v. fs_flow_heap s' p = Some v \<and> k \<in> flow_keys v" if "flow_view env s' k = Some p" for k p
    using flows_dropped_entry [OF drop that] flow_okD(3) [OF ok] by simp
  moreover have "cache_ok (flow_view env s') (fs_cache s')"
  proof (cases "F = {}")
    case True
    then have "flow_view env s' = flow_view env s" "fs_cache s' = fs_cache s"
      using L by (auto simp: fun_eq_iff split: option.splits)
    then show ?thesis
      using flow_okD(4) [OF ok] by simp
  next
    case False
    then show ?thesis
      using cache_ok_flush [OF flow_okD(4) [OF ok]] L by simp
  qed
  ultimately show ?thesis
    using flow_okD(1,5) [OF ok] L by (simp add: flow_ok_def)
qed

lemma flows_dropped_keeps:
  assumes drop: "flows_dropped env F s s'"
  shows "flow_excl env s \<Longrightarrow> flow_excl env s'" "software_flows s \<Longrightarrow> software_flows s'"
proof -
  note L = drop [unfolded flows_dropped_def]
  show "software_flows s'" if "software_flows s"
    using that L by (auto simp: software_flows_def restrict_map_def split: if_splits)
  show "flow_excl env s'" if excl: "flow_excl env s"
    unfolding flow_excl_def
  proof (intro allI impI ballI)
    fix k p v k' assume k: "flow_view env s' k = Some p" "fs_flow_heap s' p = Some v" "k' \<in> flow_keys v"
    note k0 = flows_dropped_entry [OF drop k(1)]
    have "flow_view env s k' = Some p"
      using excl [unfolded flow_excl_def, rule_format, OF k0(1) _ k(3)] k(2) k0(3) by simp
    then show "flow_view env s' k' = Some p"
      using L k0(2) by simp
  qed
qed

text \<open>The conditions under which flows are tracked in software only.\<close>

definition software_ok :: "('t, 'e) flow_env_scheme \<Rightarrow> ('t, 'z) flow_state_scheme \<Rightarrow> bool" where
  "software_ok env s \<longleftrightarrow> flow_ok env s \<and> flow_excl env s \<and> software_flows s"

lemma remove_flows_exact:
  assumes "software_ok env s" "rte_iter_ok (fe_flow env) slots"
  shows "\<exists>s'. remove_flows env sel s = Some (Some s') \<and> flows_dropped env (selected env sel s) s s' \<and> software_ok env s'"
proof -
  have ok: "flow_ok env s" "flow_excl env s" "software_flows s"
    using assms(1) by (simp_all add: software_ok_def)
  have off: "\<not> fs_offload s"
    using ok(3) by (simp add: software_flows_def)
  have "\<exists>s'. remove_flows env sel s = Some (Some s') \<and> flows_dropped env (selected env sel s) s s'"
    unfolding remove_flows_def
    by (rule drop_selected [OF ok(1) assms(2) ok(2,3)]) (use off in \<open>simp add: dp_remove_flow_def\<close>)
  then obtain s' where s': "remove_flows env sel s = Some (Some s')" "flows_dropped env (selected env sel s) s s'"
    by blast
  then show ?thesis
    using flows_dropped_ok [OF ok(1) s'(2)] flows_dropped_keeps [OF s'(2)] ok by (auto simp: software_ok_def)
qed

text \<open>C25: deleting the flows of a NAT, of a neighbour's NAT range or of an interface ends and uses no
  freed memory, although it deletes from the table it iterates over; it removes exactly the flows
  the request selects under either of their keys, each with both its keys, its entry in the cache
  and its NAT port, leaves every other flow as it was, and keeps the table free of dangling
  entries.  This is software mode: offloading is off, every flow has the table's reference only and
  has not been aged, and no two flows share a key.\<close>

theorem flow_removal_exact:
  assumes "software_ok env s" "rte_iter_ok (fe_flow env) slots"
  shows "(\<exists>s'. dp_remove_nat_flows env port_id nat_type s = Some (Some s') \<and>
           flows_dropped env (selected env (nat_flow_of port_id nat_type) s) s s' \<and> software_ok env s') \<and>
         (\<exists>s'. dp_remove_neighnat_flows env ipv4 vni min_port max_port s = Some (Some s') \<and>
           flows_dropped env (selected env (neighnat_flow_of ipv4 vni min_port max_port) s) s s' \<and> software_ok env s') \<and>
         (\<exists>s'. dp_remove_iface_flows env port_id ipv4 vni s = Some (Some s') \<and>
           flows_dropped env (selected env (iface_flow_of port_id ipv4 vni) s) s s' \<and> software_ok env s')"
  using remove_flows_exact [OF assms] by (simp add: dp_remove_nat_flows_def dp_remove_neighnat_flows_def dp_remove_iface_flows_def)

text \<open>C26: a pass of software aging ends, uses no freed memory and removes exactly the flows whose time-out
  has passed since their last packet, with both keys and their NAT port; all others stay.  This is
  software mode: offloading is off, every flow has the table's reference only and has not been aged,
  and no two flows share a key.\<close>

theorem dp_process_aged_flows_exact:
  assumes "software_ok env s" "rte_iter_ok (fe_flow env) slots"
  shows "\<exists>s'. dp_process_aged_flows_non_offload env now timer_hz s = Some (Some s') \<and>
    flows_dropped env (selected env (\<lambda>k. flow_expired now timer_hz) s) s s' \<and> software_ok env s'"
proof -
  have ok: "flow_ok env s" "flow_excl env s" "software_flows s" and off: "\<not> fs_offload s"
    using assms(1) by (simp_all add: software_ok_def software_flows_def)
  have "\<exists>s'. dp_process_aged_flows_non_offload env now timer_hz s = Some (Some s') \<and>
      flows_dropped env (selected env (\<lambda>k. flow_expired now timer_hz) s) s s'"
    unfolding dp_process_aged_flows_non_offload_def
    by (rule drop_selected [OF ok(1) assms(2) ok(2,3)]) (use off in simp)
  then obtain s' where s': "dp_process_aged_flows_non_offload env now timer_hz s = Some (Some s')"
      "flows_dropped env (selected env (\<lambda>k. flow_expired now timer_hz) s) s s'"
    by blast
  then show ?thesis
    using flows_dropped_ok [OF ok(1) s'(2)] flows_dropped_keeps [OF s'(2)] ok by (auto simp: software_ok_def)
qed

section \<open>Flows with hardware rules\<close>

text \<open>The slots \<open>is\<close> of the flow hold age contexts that point back to flow and slot.\<close>

definition slots_ok :: "('t, 'z) flow_state_scheme \<Rightarrow> ptr \<Rightarrow> flow_value \<Rightarrow> nat list \<Rightarrow> bool" where
  "slots_ok s p v is \<longleftrightarrow> distinct is \<and> length (fv_rte_age_ctxs v) = 6 \<and>
     (\<forall>i \<in> set is. i < 6 \<and> (\<forall>c. fv_rte_age_ctxs v ! i = Some c \<longrightarrow>
        (\<exists>ctx. fs_age_heap s c = Some ctx \<and> ac_cntrack ctx = Some p \<and> unat (ac_ref_index_in_cntrack ctx) = i)))"

definition slot_count :: "flow_value \<Rightarrow> nat list \<Rightarrow> nat" where
  "slot_count v is = length (filter (\<lambda>i. fv_rte_age_ctxs v ! i \<noteq> None) is)"

definition clear_ctx :: "nat \<Rightarrow> flow_value \<Rightarrow> flow_value" where
  "clear_ctx i v = v\<lparr> fv_rte_age_ctxs := (fv_rte_age_ctxs v)[i := None] \<rparr>"

lemma destroy_slot:
  assumes v: "fs_flow_heap s p = Some v" and ok: "slots_ok s p v (i # is)" and c: "fv_rte_age_ctxs v ! i = Some c"
  shows "fv_ref_count v = 1 \<Longrightarrow> \<exists>s'. dp_destroy_rte_flow_agectx env (Some c) s = Some s' \<and> fs_flow_heap s' p = None"
    and "fv_ref_count v \<noteq> 1 \<Longrightarrow> dp_destroy_rte_flow_agectx env (Some c) s =
      Some (s\<lparr> fs_flow_heap := (fs_flow_heap s)(p \<mapsto> (clear_ctx i v)\<lparr> fv_ref_count := fv_ref_count v - 1 \<rparr>),
               fs_age_heap := (fs_age_heap s)(c := None) \<rparr>)"
proof -
  obtain ctx where ctx: "fs_age_heap s c = Some ctx" "ac_cntrack ctx = Some p" "unat (ac_ref_index_in_cntrack ctx) = i" "i < 6"
    using ok c by (auto simp: slots_ok_def)
  define ctx' where "ctx' = ctx\<lparr> ac_handle := None, ac_rte_flow := None \<rparr>"
  define s1 where "s1 = s\<lparr> fs_age_heap := (fs_age_heap s)(c \<mapsto> ctx'), fs_flow_heap := (fs_flow_heap s)(p \<mapsto> clear_ctx i v) \<rparr>"
  have s1: "fs_flow_heap s1 p = Some (clear_ctx i v)" "fv_ref_count (clear_ctx i v) = fv_ref_count v"
    by (simp_all add: s1_def clear_ctx_def)
  have destroy: "dp_destroy_rte_flow_agectx env (Some c) s =
      map_option (\<lambda>s2. s2\<lparr> fs_age_heap := rte_free (fs_age_heap s2) c \<rparr>) (flow_ref_dec env p s1)"
    using v ctx by (simp add: dp_destroy_rte_flow_agectx_def dp_del_rte_age_ctx_def s1_def ctx'_def clear_ctx_def Let_def
        map_conv_bind_option comp_def)
  show "\<exists>s'. dp_destroy_rte_flow_agectx env (Some c) s = Some s' \<and> fs_flow_heap s' p = None" if "fv_ref_count v = 1"
    using that s1 unfolding destroy flow_ref_dec_cases [OF s1(1)] by simp
  show "dp_destroy_rte_flow_agectx env (Some c) s =
      Some (s\<lparr> fs_flow_heap := (fs_flow_heap s)(p \<mapsto> (clear_ctx i v)\<lparr> fv_ref_count := fv_ref_count v - 1 \<rparr>),
               fs_age_heap := (fs_age_heap s)(c := None) \<rparr>)" if "fv_ref_count v \<noteq> 1"
    using that s1(2) unfolding destroy flow_ref_dec_cases [OF s1(1)] by (simp add: s1_def rte_free_def)
qed

lemma slots_ok_next:
  assumes "slots_ok s p v (i # is)" "fv_rte_age_ctxs v ! i = Some c"
  shows "slots_ok (s\<lparr> fs_flow_heap := h, fs_age_heap := (fs_age_heap s)(c := None) \<rparr>) p ((clear_ctx i v)\<lparr> fv_ref_count := r \<rparr>) is"
    "slot_count ((clear_ctx i v)\<lparr> fv_ref_count := r \<rparr>) is = slot_count v is"
    "slot_count v (i # is) = Suc (slot_count v is)"
proof -
  have other: "fv_rte_age_ctxs (clear_ctx i v) ! j = fv_rte_age_ctxs v ! j" if "j \<in> set is" for j
    using that assms(1) by (auto simp: slots_ok_def clear_ctx_def nth_list_update)
  have "c' \<noteq> c" if "j \<in> set is" "fv_rte_age_ctxs v ! j = Some c'" for j c'
    using that assms by (fastforce simp: slots_ok_def)
  then show "slots_ok (s\<lparr> fs_flow_heap := h, fs_age_heap := (fs_age_heap s)(c := None) \<rparr>) p ((clear_ctx i v)\<lparr> fv_ref_count := r \<rparr>) is"
    using assms(1) other by (auto simp: slots_ok_def) (simp add: clear_ctx_def)
  show "slot_count ((clear_ctx i v)\<lparr> fv_ref_count := r \<rparr>) is = slot_count v is"
    using other by (simp add: slot_count_def cong: filter_cong)
  show "slot_count v (i # is) = Suc (slot_count v is)"
    using assms(2) by (simp add: slot_count_def)
qed

lemma unat_pred: "unat (w :: u32) = Suc n \<Longrightarrow> unat (w - 1) = n"
  by (simp add: unat_sub word_le_nat_alt)

lemma unat_is_1: "unat (w :: u32) = 1 \<longleftrightarrow> w = 1"
  by (metis unsigned_1 word_unat_eq_iff)

text \<open>An aged flow has no reference left after its last rule: the loop that removes the rules frees it.\<close>

lemma remove_slots_aged:
  assumes "fs_flow_heap s p = Some v" "slots_ok s p v is" "unat (fv_ref_count v) = slot_count v is" "0 < slot_count v is"
  shows "remove_slots env p is s = None \<or> (\<exists>s'. remove_slots env p is s = Some s' \<and> fs_flow_heap s' p = None)"
  using assms
proof (induction "is" arbitrary: s v)
  case (Cons i "is")
  show ?case
  proof (cases "fv_rte_age_ctxs v ! i")
    case None
    then show ?thesis
      using Cons.IH [of s v] Cons.prems by (simp add: slots_ok_def slot_count_def dp_destroy_rte_flow_agectx_def)
  next
    case (Some c)
    note next_slot = slots_ok_next [OF Cons.prems(2) Some]
    show ?thesis
    proof (cases "fv_ref_count v = 1")
      case True
      then obtain s' where s': "dp_destroy_rte_flow_agectx env (Some c) s = Some s'" "fs_flow_heap s' p = None"
        using destroy_slot(1) [OF Cons.prems(1,2) Some] by blast
      then show ?thesis
        using Cons.prems(1) Some by (cases "is") simp_all
    next
      case False
      let ?v = "(clear_ctx i v)\<lparr> fv_ref_count := fv_ref_count v - 1 \<rparr>"
      have "unat (fv_ref_count v - 1) = slot_count v is"
        using Cons.prems(3) next_slot(3) by (simp add: unat_pred)
      moreover have "0 < slot_count v is"
        using False Cons.prems(3) next_slot(3) unat_is_1 [of "fv_ref_count v"] by (cases "slot_count v is") simp_all
      ultimately show ?thesis
        using Cons.prems(1) Some destroy_slot(2) [OF Cons.prems(1,2) Some False, of env]
          Cons.IH [OF _ next_slot(1) [of "(fs_flow_heap s)(p \<mapsto> ?v)"], of "fv_ref_count v - 1"] next_slot(2)
        by simp
    qed
  qed
qed (simp add: slot_count_def)

lemma remove_slots_kept:
  assumes "fs_flow_heap s p = Some v" "slots_ok s p v is" "unat (fv_ref_count v) = Suc (slot_count v is)"
  shows "\<exists>v' age. remove_slots env p is s = Some (s\<lparr> fs_flow_heap := (fs_flow_heap s)(p \<mapsto> v'), fs_age_heap := age \<rparr>) \<and>
    fv_ref_count v' = 1 \<and> fv_flow_key v' = fv_flow_key v \<and> fv_nf_info v' = fv_nf_info v \<and> fv_created_port_id v' = fv_created_port_id v"
  using assms
proof (induction "is" arbitrary: s v)
  case Nil
  then show ?case
    by (intro exI [of _ v] exI [of _ "fs_age_heap s"]) (simp add: slot_count_def unat_is_1 [unfolded One_nat_def] fun_upd_idem)
next
  case (Cons i "is")
  show ?case
  proof (cases "fv_rte_age_ctxs v ! i")
    case None
    then show ?thesis
      using Cons.IH [of s v] Cons.prems by (simp add: slots_ok_def slot_count_def dp_destroy_rte_flow_agectx_def)
  next
    case (Some c)
    note next_slot = slots_ok_next [OF Cons.prems(2) Some]
    let ?v = "(clear_ctx i v)\<lparr> fv_ref_count := fv_ref_count v - 1 \<rparr>"
    have more: "fv_ref_count v \<noteq> 1"
      using Cons.prems(3) next_slot(3) by auto
    define s1 where "s1 = s\<lparr> fs_flow_heap := (fs_flow_heap s)(p \<mapsto> ?v), fs_age_heap := (fs_age_heap s)(c := None) \<rparr>"
    have "unat (fv_ref_count v - 1) = Suc (slot_count v is)"
      using Cons.prems(3) next_slot(3) by (simp add: unat_pred)
    moreover have "slots_ok s1 p ?v is" "fs_flow_heap s1 p = Some ?v"
      unfolding s1_def by (rule next_slot(1)) simp
    ultimately have "fs_flow_heap s1 p = Some ?v" "slots_ok s1 p ?v is" "unat (fv_ref_count ?v) = Suc (slot_count ?v is)"
      using next_slot(2) by simp_all
    from Cons.IH [OF this] obtain v' age where v': "remove_slots env p is s1 = Some (s1\<lparr> fs_flow_heap := (fs_flow_heap s1)(p \<mapsto> v'), fs_age_heap := age \<rparr>)"
        "fv_ref_count v' = 1" "fv_flow_key v' = fv_flow_key ?v" "fv_nf_info v' = fv_nf_info ?v" "fv_created_port_id v' = fv_created_port_id ?v"
      by blast
    have "s1\<lparr> fs_flow_heap := (fs_flow_heap s1)(p \<mapsto> v'), fs_age_heap := age \<rparr> = s\<lparr> fs_flow_heap := (fs_flow_heap s)(p \<mapsto> v'), fs_age_heap := age \<rparr>"
      by (simp add: s1_def)
    moreover have "remove_slots env p (i # is) s = remove_slots env p is s1"
      using Cons.prems(1) Some destroy_slot(2) [OF Cons.prems(1,2) Some more, of env] by (simp add: s1_def)
    ultimately have all_removed: "remove_slots env p (i # is) s = Some (s\<lparr> fs_flow_heap := (fs_flow_heap s)(p \<mapsto> v'), fs_age_heap := age \<rparr>)"
      using v'(1) by (simp only:)
    show ?thesis
      by (rule exI [of _ v'], rule exI [of _ age], intro conjI, rule all_removed) (use v' in \<open>simp_all add: clear_ctx_def\<close>)
  qed
qed

text \<open>
  The references of a flow: one for each hardware rule, and one for the table until the flow is
  aged out.
\<close>

definition offloaded_flow_ok :: "('t, 'z) flow_state_scheme \<Rightarrow> ptr \<Rightarrow> flow_value \<Rightarrow> bool" where
  "offloaded_flow_ok s p v \<longleftrightarrow> fs_flow_heap s p = Some v \<and> slots_ok s p v [0..<DP_FLOW_VAL_AGE_CTX_CAPACITY] \<and>
     0 < unat (fv_ref_count v) \<and>
     unat (fv_ref_count v) = (if fv_aged v then 0 else 1) + slot_count v [0..<DP_FLOW_VAL_AGE_CTX_CAPACITY]"

text \<open>C27: with hardware offloading, removing a flow (as deleting its interface, VIP or NAT does) frees it
  with both its keys when the flow is not yet aged, and uses freed memory exactly when it is: an aged
  flow, kept alive by its hardware rules, dies with the last of them, but \<open>dp_remove_flow\<close> still reads
  and counts down the flow after that.\<close>

theorem dp_remove_flow_use_after_free:
  assumes "offloaded_flow_ok s p v" "fs_offload s" "rte_hash_ok (fe_flow env)"
  shows "if fv_aged v then dp_remove_flow env p s = None
         else \<exists>s'. dp_remove_flow env p s = Some s' \<and> fs_flow_heap s' = (fs_flow_heap s)(p := None) \<and>
                flow_view env s' = flow_view env s |` (- flow_keys v)"
proof -
  have v: "fs_flow_heap s p = Some v" and slots: "slots_ok s p v [0..<6]" "0 < unat (fv_ref_count v)"
    and refs: "unat (fv_ref_count v) = (if fv_aged v then 0 else 1) + slot_count v [0..<6]"
    using assms(1) unfolding offloaded_flow_ok_def by blast+
  have remove: "dp_remove_flow env p s = do { s1 \<leftarrow> remove_slots env p [0..<6] s; dp_age_out_flow env p s1 }"
    using assms(2) by (simp add: dp_remove_flow_def dp_rte_flow_remove_def)
  show ?thesis
  proof (cases "fv_aged v")
    case True
    then have "remove_slots env p [0..<6] s = None \<or> (\<exists>s'. remove_slots env p [0..<6] s = Some s' \<and> fs_flow_heap s' p = None)"
      using remove_slots_aged [OF v slots(1)] refs slots(2) by simp
    then show ?thesis
      using True by (auto simp: remove dp_age_out_flow_def)
  next
    case False
    then obtain v' age where v': "remove_slots env p [0..<6] s = Some (s\<lparr> fs_flow_heap := (fs_flow_heap s)(p \<mapsto> v'), fs_age_heap := age \<rparr>)"
        "fv_ref_count v' = 1" "fv_flow_key v' = fv_flow_key v"
      using remove_slots_kept [OF v slots(1), of env] refs by auto
    define s1 where "s1 = s\<lparr> fs_flow_heap := (fs_flow_heap s)(p \<mapsto> v'), fs_age_heap := age \<rparr>"
    have s1: "fs_flow_heap s1 p = Some v'" by (simp add: s1_def)
    have "dp_remove_flow env p s = Some (freed env p v' s1)"
      using v' by (simp add: remove s1_def [symmetric] dp_age_out_flow_cases [OF s1])
    moreover have "flow_view env s1 = flow_view env s" "flow_keys v' = flow_keys v"
      using v'(3) by (simp_all add: flow_view_def s1_def flow_keys_def)
    ultimately show ?thesis
      using False freed_view [OF assms(3), of p v' s1] by (simp add: s1_def)
  qed
qed

section \<open>A concrete environment\<close>

definition enc_ip :: "dp_ip_address \<Rightarrow> nat list" where
  "enc_ip a = [unat (ip_data a), of_bool (ip_is_v6 a)]"

definition vnf_types :: "dp_vnf_type list" where
  "vnf_types = [DP_VNF_TYPE_UNDEFINED, DP_VNF_TYPE_LB_ALIAS_PFX, DP_VNF_TYPE_ALIAS_PFX, DP_VNF_TYPE_LB,
     DP_VNF_TYPE_VIP, DP_VNF_TYPE_NAT, DP_VNF_TYPE_INTERFACE_IP]"

definition enc_flow_key :: "flow_key \<Rightarrow> nat list" where
  "enc_flow_key k = enc_ip (fk_l3_dst k) @ enc_ip (fk_l3_src k) @
     [unat (fk_proto k), unat (fk_port_dst k), unat (fk_port_src k), unat (fk_vni k),
      case fk_vnf_type k of DP_VNF_TYPE_UNDEFINED \<Rightarrow> 0 | DP_VNF_TYPE_LB_ALIAS_PFX \<Rightarrow> 1 | DP_VNF_TYPE_ALIAS_PFX \<Rightarrow> 2
       | DP_VNF_TYPE_LB \<Rightarrow> 3 | DP_VNF_TYPE_VIP \<Rightarrow> 4 | DP_VNF_TYPE_NAT \<Rightarrow> 5 | DP_VNF_TYPE_INTERFACE_IP \<Rightarrow> 6]"

definition dec_flow_key :: "nat list \<Rightarrow> flow_key" where
  "dec_flow_key xs = \<lparr> fk_l3_dst = \<lparr> ip_data = of_nat (xs ! 0), ip_is_v6 = (xs ! 1 = 1) \<rparr>, fk_proto = of_nat (xs ! 4),
     fk_port_dst = of_nat (xs ! 5), fk_l3_src = \<lparr> ip_data = of_nat (xs ! 2), ip_is_v6 = (xs ! 3 = 1) \<rparr>,
     fk_vnf_type = vnf_types ! (xs ! 8), fk_port_src = of_nat (xs ! 6), fk_vni = of_nat (xs ! 7) \<rparr>"

lemma dec_enc_flow_key [simp]: "dec_flow_key (enc_flow_key k) = k"
  by (cases "fk_vnf_type k"; simp add: dec_flow_key_def enc_flow_key_def enc_ip_def vnf_types_def)

definition list_flow_env :: "list_table flow_env" where
  "list_flow_env = \<lparr> fe_flow = list_hash enc_flow_key dec_flow_key, fe_flow_malloc = first_free,
     fe_nat = list_nat_env, fe_vnf = list_vnf_env, fe_age_query = (\<lambda>_ _. (0, 0)) \<rparr>"

definition example_key :: flow_key where
  "example_key = zero_flow_key\<lparr> fk_l3_dst := DP_SET_IPADDR4 20, fk_l3_src := DP_SET_IPADDR4 10, fk_proto := IPPROTO_UDP,
     fk_port_dst := 53, fk_port_src := 4000, fk_vni := 100 \<rparr>"

definition example_flow :: flow_value where
  "example_flow = zero_flow_value\<lparr> fv_ref_count := 1, fv_created_port_id := 5, fv_timeout_value := 30,
     fv_flow_key := (\<lambda>d. case d of DP_FLOW_DIR_ORG \<Rightarrow> example_key | DP_FLOW_DIR_REPLY \<Rightarrow> dp_invert_flow_key example_key) \<rparr>"

definition empty_cache :: cntrack_cache where
  "empty_cache = \<lparr> cc_key_cache = [zero_flow_key, zero_flow_key], cc_key_cache_index = 0, cc_prev_key = None,
     cc_curr_key = 0, cc_cached_flow_val = None \<rparr>"

definition empty_flow_state :: "list_table flow_state" where
  "empty_flow_state = \<lparr> fs_flow_tbl = [], fs_flow_heap = Map.empty, fs_age_heap = Map.empty, fs_offload = False,
     fs_cache = empty_cache, fs_nat = empty_nat_state, fs_vnf = empty_vnf_state, fs_ports = [], fs_pf_ports = [0, 1] \<rparr>"

text \<open>One flow, registered under its two keys.\<close>

definition example_flow_state :: "list_table flow_state" where
  "example_flow_state = empty_flow_state\<lparr> fs_flow_heap := [1 \<mapsto> example_flow],
     fs_flow_tbl := [Some (enc_flow_key example_key, 1), Some (enc_flow_key (dp_invert_flow_key example_key), 1)] \<rparr>"

lemma list_flow_env_ok:
  "rte_hash_ok (fe_flow list_flow_env)" "rte_iter_ok (fe_flow list_flow_env) (list_slots enc_flow_key dec_flow_key)"
  "rte_malloc_ok (fe_flow_malloc list_flow_env)"
  by (simp_all add: list_flow_env_def list_hash_ok list_hash_iter_ok first_free_ok)

lemma example_flow_view:
  "flow_view list_flow_env example_flow_state = [example_key \<mapsto> 1, dp_invert_flow_key example_key \<mapsto> 1]"
proof -
  have "enc_flow_key example_key \<noteq> enc_flow_key (dp_invert_flow_key example_key)"
    by (simp add: enc_flow_key_def invert_ports example_key_def)
  then show ?thesis
    by (auto simp: flow_view_def list_flow_env_def example_flow_state_def list_hash_view list_slots_def)
qed

lemma example_flow_ok: "software_ok list_flow_env example_flow_state"
proof -
  have heap: "fs_flow_heap example_flow_state = [1 \<mapsto> example_flow]" "fs_cache example_flow_state = empty_cache"
    "fs_nat example_flow_state = empty_nat_state" "\<not> fs_offload example_flow_state" "fe_nat list_flow_env = list_nat_env"
    by (simp_all add: example_flow_state_def empty_flow_state_def list_flow_env_def)
  have flow: "flow_keys example_flow = {example_key, dp_invert_flow_key example_key}" "fv_ref_count example_flow = 1" "\<not> fv_aged example_flow"
    by (simp_all add: flow_keys_def example_flow_def zero_flow_value_def)
  show ?thesis
    by (simp add: software_ok_def flow_ok_def flow_excl_def software_flows_def example_flow_view heap flow
        list_flow_env_ok empty_nat_ok cache_ok_def empty_cache_def)
qed

text \<open>Removing the flows that port 5 created leaves an empty table.\<close>

theorem flow_removal_exact_witness:
  "software_ok list_flow_env example_flow_state \<and> rte_iter_ok (fe_flow list_flow_env) (list_slots enc_flow_key dec_flow_key) \<and>
   (\<exists>s'. dp_remove_iface_flows list_flow_env 5 10 100 example_flow_state = Some (Some s') \<and> flow_view list_flow_env s' = Map.empty)"
proof -
  have flow: "fs_flow_heap example_flow_state = [1 \<mapsto> example_flow]" "fv_created_port_id example_flow = 5"
    by (simp_all add: example_flow_state_def example_flow_def)
  obtain s' where s': "dp_remove_iface_flows list_flow_env 5 10 100 example_flow_state = Some (Some s')"
      "flows_dropped list_flow_env (selected list_flow_env (iface_flow_of 5 10 100) example_flow_state) example_flow_state s'"
    using flow_removal_exact [OF example_flow_ok list_flow_env_ok(2), of 5 DP_FLOW_NAT_TYPE_NONE 10 100 0 0] by blast
  have "selected list_flow_env (iface_flow_of 5 10 100) example_flow_state = {1}"
    by (auto simp: selected_def example_flow_view flow iface_flow_of_def)
  then have "flow_view list_flow_env s' = Map.empty"
    using s'(2) by (auto simp: flows_dropped_def example_flow_view)
  then show ?thesis
    using s'(1) example_flow_ok list_flow_env_ok(2) by blast
qed

text \<open>A pass at time 31 ages the flow out, its last packet being at time 0 with a time-out of 30.\<close>

theorem dp_process_aged_flows_exact_witness:
  "software_ok list_flow_env example_flow_state \<and> rte_iter_ok (fe_flow list_flow_env) (list_slots enc_flow_key dec_flow_key) \<and>
   (\<exists>s'. dp_process_aged_flows_non_offload list_flow_env 31 1 example_flow_state = Some (Some s') \<and> flow_view list_flow_env s' = Map.empty)"
proof -
  have flow: "fs_flow_heap example_flow_state = [1 \<mapsto> example_flow]" "flow_expired 31 1 example_flow"
    by (simp_all add: example_flow_state_def example_flow_def flow_expired_def zero_flow_value_def)
  obtain s' where s': "dp_process_aged_flows_non_offload list_flow_env 31 1 example_flow_state = Some (Some s')"
      "flows_dropped list_flow_env (selected list_flow_env (\<lambda>k. flow_expired 31 1) example_flow_state) example_flow_state s'"
    using dp_process_aged_flows_exact [OF example_flow_ok list_flow_env_ok(2), of 31 1] by blast
  have "selected list_flow_env (\<lambda>k. flow_expired 31 1) example_flow_state = {1}"
    by (auto simp: selected_def example_flow_view flow)
  then have "flow_view list_flow_env s' = Map.empty"
    using s'(2) by (auto simp: flows_dropped_def example_flow_view)
  then show ?thesis
    using s'(1) example_flow_ok list_flow_env_ok(2) by blast
qed

text \<open>An aged flow with one hardware rule left.\<close>

definition aged_flow :: flow_value where
  "aged_flow = example_flow\<lparr> fv_aged := True, fv_rte_age_ctxs := [Some 9, None, None, None, None, None] \<rparr>"

definition aged_flow_state :: "list_table flow_state" where
  "aged_flow_state = example_flow_state\<lparr> fs_offload := True, fs_flow_heap := [1 \<mapsto> aged_flow],
     fs_age_heap := [9 \<mapsto> \<lparr> ac_cntrack = Some 1, ac_rte_flow = Some 3, ac_ref_index_in_cntrack = 0, ac_port_id = 0, ac_handle = Some 4 \<rparr>] \<rparr>"

theorem dp_remove_flow_use_after_free_witness:
  "offloaded_flow_ok aged_flow_state 1 aged_flow \<and> dp_remove_flow list_flow_env 1 aged_flow_state = None"
proof -
  have slots: "[0..<6] = [0, 1, 2, 3, 4, 5 :: nat]" by (simp add: upt_rec)
  have "offloaded_flow_ok aged_flow_state 1 aged_flow"
    unfolding offloaded_flow_ok_def slots
    by (simp add: aged_flow_state_def aged_flow_def slots_ok_def slot_count_def example_flow_def)
  then show ?thesis
    using dp_remove_flow_use_after_free [of aged_flow_state 1 aged_flow list_flow_env] list_flow_env_ok(1)
    by (simp add: aged_flow_state_def aged_flow_def)
qed

end
