(* ===== verification/Dp_Cntrack.thy ===== *)
theory Dp_Cntrack
  imports Dp_Flow
begin

text \<open>
  \<^verbatim>\<open>src/dp_cntrack.c\<close>: connection tracking of a packet.  The key of the packet is built into a slot of
  the key cache; the flow is the cached one if the key is that of the packet before, otherwise the
  one in the flow table, otherwise a new one.  TCP flows follow a small state machine that decides
  their time-out.  The lemmas: the cache is transparent, the table never dangles, the state machine
  reaches the established state exactly through a handshake, and the reply to a packet finds the flow of
  the packet.
\<close>

section \<open>TCP\<close>

abbreviation (input) RTE_TCP_FIN_FLAG :: u8 where "RTE_TCP_FIN_FLAG \<equiv> 0x01"
abbreviation (input) RTE_TCP_SYN_FLAG :: u8 where "RTE_TCP_SYN_FLAG \<equiv> 0x02"
abbreviation (input) RTE_TCP_RST_FLAG :: u8 where "RTE_TCP_RST_FLAG \<equiv> 0x04"
abbreviation (input) RTE_TCP_ACK_FLAG :: u8 where "RTE_TCP_ACK_FLAG \<equiv> 0x10"

definition DP_TCP_PKT_FLAG_SYN :: "u8 \<Rightarrow> bool" where "DP_TCP_PKT_FLAG_SYN flags \<longleftrightarrow> flags AND RTE_TCP_SYN_FLAG \<noteq> 0"
definition DP_TCP_PKT_FLAG_RST :: "u8 \<Rightarrow> bool" where "DP_TCP_PKT_FLAG_RST flags \<longleftrightarrow> flags AND RTE_TCP_RST_FLAG \<noteq> 0"
definition DP_TCP_PKT_FLAG_ACK :: "u8 \<Rightarrow> bool" where "DP_TCP_PKT_FLAG_ACK flags \<longleftrightarrow> flags AND RTE_TCP_ACK_FLAG \<noteq> 0"
definition DP_TCP_PKT_FLAG_FIN :: "u8 \<Rightarrow> bool" where "DP_TCP_PKT_FLAG_FIN flags \<longleftrightarrow> flags AND RTE_TCP_FIN_FLAG \<noteq> 0"

definition DP_TCP_PKT_FLAG_SYNACK :: "u8 \<Rightarrow> bool" where
  "DP_TCP_PKT_FLAG_SYNACK flags \<longleftrightarrow>
     flags AND (RTE_TCP_SYN_FLAG OR RTE_TCP_ACK_FLAG) = RTE_TCP_SYN_FLAG OR RTE_TCP_ACK_FLAG"

definition tcp_next_state :: "u8 \<Rightarrow> dp_flow_tcp_state \<Rightarrow> dp_flow_tcp_state" where
  "tcp_next_state flags st =
     (if DP_TCP_PKT_FLAG_RST flags then DP_FLOW_TCP_STATE_RST_FIN
      else if DP_TCP_PKT_FLAG_FIN flags then
        if st = DP_FLOW_TCP_STATE_ESTABLISHED then DP_FLOW_TCP_STATE_FINWAIT else DP_FLOW_TCP_STATE_RST_FIN
      else case st of
        DP_FLOW_TCP_STATE_NONE \<Rightarrow> if DP_TCP_PKT_FLAG_SYN flags then DP_FLOW_TCP_STATE_NEW_SYN else st
      | DP_FLOW_TCP_STATE_RST_FIN \<Rightarrow> if DP_TCP_PKT_FLAG_SYN flags then DP_FLOW_TCP_STATE_NEW_SYN else st
      | DP_FLOW_TCP_STATE_NEW_SYN \<Rightarrow> if DP_TCP_PKT_FLAG_SYNACK flags then DP_FLOW_TCP_STATE_NEW_SYNACK else st
      | DP_FLOW_TCP_STATE_NEW_SYNACK \<Rightarrow> if DP_TCP_PKT_FLAG_ACK flags then DP_FLOW_TCP_STATE_ESTABLISHED else st
      | _ \<Rightarrow> st)"

definition dp_cntrack_tcp_state :: "u8 \<Rightarrow> flow_value \<Rightarrow> flow_value" where
  "dp_cntrack_tcp_state flags v = v\<lparr> fv_tcp_state := tcp_next_state flags (fv_tcp_state v) \<rparr>"

section \<open>Offloading\<close>

abbreviation (input) flow_timeout :: u32 where "flow_timeout \<equiv> 30"
abbreviation (input) DP_FLOW_TCP_EXTENDED_TIMEOUT :: u32 where "DP_FLOW_TCP_EXTENDED_TIMEOUT \<equiv> 86400"
abbreviation (input) DP_VNF_MATCH_ALL_PORT_IDS :: u16 where "DP_VNF_MATCH_ALL_PORT_IDS \<equiv> 0xFFFF"

definition dp_cntrack_init :: "bool \<Rightarrow> ('t, 'z) flow_state_scheme \<Rightarrow> ('t, 'z) flow_state_scheme" where
  "dp_cntrack_init offload_enabled s = s\<lparr> fs_offload := offload_enabled \<rparr>"

text \<open>\<open>offload\<close> is \<^verbatim>\<open>offload_mode_enabled\<close>, \<open>pf0\<close> the id of the first physical port.\<close>

definition dp_cntrack_init_flow_offload_flags :: "bool \<Rightarrow> dp_flow \<Rightarrow> flow_value \<Rightarrow> flow_value" where
  "dp_cntrack_init_flow_offload_flags offload df v =
     (if \<not> offload then v
      else v\<lparr> fv_offload_orig := (if df_l4_type df \<noteq> IPPROTO_TCP then DP_FLOW_OFFLOAD_INSTALL else DP_FLOW_NON_OFFLOAD),
              fv_offload_reply := DP_FLOW_NON_OFFLOAD \<rparr>)"

definition next_offload_state :: "bool \<Rightarrow> dp_pkt_offload_state \<Rightarrow> dp_pkt_offload_state" where
  "next_offload_state offload_other_pf st =
     (if st = DP_FLOW_NON_OFFLOAD \<or> offload_other_pf then DP_FLOW_OFFLOAD_INSTALL
      else if st = DP_FLOW_OFFLOAD_INSTALL then DP_FLOW_OFFLOADED
      else st)"

definition dp_cntrack_change_flow_offload_flags :: "bool \<Rightarrow> u16 \<Rightarrow> dp_port \<Rightarrow> dp_flow \<Rightarrow> flow_value \<Rightarrow> flow_value" where
  "dp_cntrack_change_flow_offload_flags offload pf0 port df v =
     (if \<not> offload then v
      else
        let offload_other_pf = port_is_pf port \<and>
              (if port_port_id port = pf0 then \<not> fv_incoming_offloaded_pf0 v else \<not> fv_incoming_offloaded_pf1 v)
        in case df_flow_dir df of
             DP_FLOW_DIR_ORG \<Rightarrow> v\<lparr> fv_offload_orig := next_offload_state offload_other_pf (fv_offload_orig v) \<rparr>
           | DP_FLOW_DIR_REPLY \<Rightarrow> v\<lparr> fv_offload_reply := next_offload_state offload_other_pf (fv_offload_reply v) \<rparr>)"

definition dp_cntrack_set_timeout_tcp_flow :: "bool \<Rightarrow> u16 \<Rightarrow> dp_port \<Rightarrow> dp_flow \<Rightarrow> flow_value \<Rightarrow> flow_value" where
  "dp_cntrack_set_timeout_tcp_flow offload pf0 port df v =
     (if fv_tcp_state v = DP_FLOW_TCP_STATE_ESTABLISHED then
        dp_cntrack_change_flow_offload_flags offload pf0 port df (v\<lparr> fv_timeout_value := DP_FLOW_TCP_EXTENDED_TIMEOUT \<rparr>)
      else
        let v1 = v\<lparr> fv_timeout_value := flow_timeout \<rparr>
        in if fv_tcp_state v1 = DP_FLOW_TCP_STATE_FINWAIT \<or> fv_tcp_state v1 = DP_FLOW_TCP_STATE_RST_FIN
           then dp_cntrack_change_flow_offload_flags offload pf0 port df v1
           else v1)"

definition dp_cntrack_set_pkt_offload_decision :: "flow_value \<Rightarrow> dp_flow \<Rightarrow> dp_flow" where
  "dp_cntrack_set_pkt_offload_decision conntrack df =
     (if df_flow_dir df = DP_FLOW_DIR_ORG then df\<lparr> df_offload_state := fv_offload_orig conntrack \<rparr>
      else df\<lparr> df_offload_state := fv_offload_reply conntrack \<rparr>)"

definition dp_set_flow_offload_flag :: "bool \<Rightarrow> u16 \<Rightarrow> dp_port \<Rightarrow> dp_flow \<Rightarrow> flow_value \<Rightarrow> flow_value" where
  "dp_set_flow_offload_flag offload pf0 port df v =
     (if nf_nat_type (fv_nf_info v) = DP_FLOW_NAT_TYPE_NETWORK_NEIGH
         \<or> nf_nat_type (fv_nf_info v) = DP_FLOW_LB_TYPE_FORWARD
         \<or> nf_nat_type (fv_nf_info v) = DP_FLOW_LB_TYPE_LOCAL_NEIGH_TRAFFIC
      then dp_cntrack_change_flow_offload_flags offload pf0 port df v
      else if df_vnf_type df = DP_VNF_TYPE_LB then v
      else if df_l4_type df \<noteq> IPPROTO_TCP then dp_cntrack_change_flow_offload_flags offload pf0 port df v
      else v)"

section \<open>Flows of packets\<close>

text \<open>The next slot is \<^verbatim>\<open>++key_cache_index % RTE_DIM(key_cache)\<close>.\<close>

definition dp_cache_flow_val :: "ptr \<Rightarrow> ('t, 'z) flow_state_scheme \<Rightarrow> ('t, 'z) flow_state_scheme" where
  "dp_cache_flow_val flow_val s =
     (let c = fs_cache s; index = cc_key_cache_index c + 1
      in s\<lparr> fs_cache := c\<lparr> cc_prev_key := Some (cc_curr_key c), cc_key_cache_index := index,
                           cc_curr_key := unat (index mod 2), cc_cached_flow_val := Some flow_val \<rparr> \<rparr>)"

text \<open>The flow that the first packet of a connection creates, before it is registered.\<close>

definition new_flow_value ::
  "('t, 'e) flow_env_scheme \<Rightarrow> flow_key \<Rightarrow> dp_flow \<Rightarrow> dp_port \<Rightarrow> ('t, 'z) flow_state_scheme \<Rightarrow> flow_value" where
  "new_flow_value env key df port s =
     (let v = zero_flow_value\<lparr> fv_flow_key := (fv_flow_key zero_flow_value)(DP_FLOW_DIR_ORG := key),
                fv_flow_flags := DP_FLOW_FLAG_NONE, fv_timeout_value := flow_timeout, fv_created_port_id := port_port_id port \<rparr>;
          nat_type = (if fs_offload s \<and> \<not> port_is_pf port \<and> \<not> ip_is_v6 (fk_l3_dst key)
                         \<and> dp_vnf_lbprefix_exists (fe_vnf env) DP_VNF_MATCH_ALL_PORT_IDS (fk_vni key) (fk_l3_dst key) 32 (fs_vnf s)
                      then DP_FLOW_LB_TYPE_LOCAL_NEIGH_TRAFFIC else DP_FLOW_NAT_TYPE_NONE);
          v1 = v\<lparr> fv_nf_info := (fv_nf_info v)\<lparr> nf_nat_type := nat_type \<rparr> \<rparr>;
          v2 = dp_cntrack_init_flow_offload_flags (fs_offload s) df v1;
          v3 = (if df_l4_type df = IPPROTO_TCP then v2\<lparr> fv_tcp_state := DP_FLOW_TCP_STATE_NONE \<rparr> else v2)
      in v3\<lparr> fv_ref_count := dp_ref_init \<rparr>)"

definition flow_table_insert_entry ::
  "('t, 'e) flow_env_scheme \<Rightarrow> flow_key \<Rightarrow> dp_flow \<Rightarrow> dp_port \<Rightarrow> ('t, 'z) flow_state_scheme \<Rightarrow>
    ptr option \<times> dp_flow \<times> ('t, 'z) flow_state_scheme" where
  "flow_table_insert_entry env key df port s =
     (case fe_flow_malloc env (fs_flow_heap s) of
        None \<Rightarrow> (None, df, s)
      | Some p \<Rightarrow>
          let df1 = df\<lparr> df_flow_dir := DP_FLOW_DIR_ORG \<rparr>;
              v = new_flow_value env key df1 port s;
              s1 = s\<lparr> fs_flow_heap := (fs_flow_heap s)(p \<mapsto> v) \<rparr>;
              (ret, s2) = dp_add_flow env key p s1
          in if DP_FAILED ret then (None, df1, s2\<lparr> fs_flow_heap := rte_free (fs_flow_heap s2) p \<rparr>)
             else
               let df2 = df1\<lparr> df_dp_flow_hash := dp_get_conntrack_flow_hash_value env key s2 \<rparr>;
                   inverted_key = dp_invert_flow_key key;
                   s3 = s2\<lparr> fs_flow_heap := (fs_flow_heap s2)(p \<mapsto>
                          v\<lparr> fv_flow_key := (fv_flow_key v)(DP_FLOW_DIR_REPLY := inverted_key) \<rparr>) \<rparr>;
                   (ret, s4) = dp_add_flow env inverted_key p s3
               in if DP_FAILED ret then
                    let s5 = dp_delete_flow env key s4
                    in (None, df2, s5\<lparr> fs_flow_heap := rte_free (fs_flow_heap s5) p \<rparr>)
                  else (Some p, df2, s4))"

definition dp_set_pkt_flow_direction ::
  "('t, 'e) flow_env_scheme \<Rightarrow> flow_key \<Rightarrow> flow_value \<Rightarrow> ('t, 'z) flow_state_scheme \<Rightarrow> dp_flow \<Rightarrow> dp_flow" where
  "dp_set_pkt_flow_direction env key v s df =
     (let df1 = (if dp_are_flows_identical key (fv_flow_key v DP_FLOW_DIR_REPLY) then df\<lparr> df_flow_dir := DP_FLOW_DIR_REPLY \<rparr> else df);
          df2 = (if dp_are_flows_identical key (fv_flow_key v DP_FLOW_DIR_ORG) then df1\<lparr> df_flow_dir := DP_FLOW_DIR_ORG \<rparr> else df1)
      in df2\<lparr> df_dp_flow_hash := dp_get_conntrack_flow_hash_value env key s \<rparr>)"

text \<open>\<^verbatim>\<open>_dp_port_table[m->port]\<close>, dereferenced.\<close>

definition dp_get_in_port :: "rte_mbuf \<Rightarrow> ('t, 'z) flow_state_scheme \<Rightarrow> dp_port option" where
  "dp_get_in_port m s = (if unat (mb_port m) < length (fs_ports s) then fs_ports s ! unat (mb_port m) else None)"

abbreviation curr_key_slot :: "cntrack_cache \<Rightarrow> flow_key" where
  "curr_key_slot c \<equiv> cc_key_cache c ! cc_curr_key c"

text \<open>The flow found for a packet sets its direction, and the packet the flow's offloading state.\<close>

definition flow_found ::
  "('t, 'e) flow_env_scheme \<Rightarrow> dp_port \<Rightarrow> flow_key \<Rightarrow> ptr \<Rightarrow> dp_flow \<Rightarrow> ('t, 'z) flow_state_scheme \<Rightarrow> (dp_flow \<times> ('t, 'z) flow_state_scheme) option" where
  "flow_found env port key p df s =
     do {
       v \<leftarrow> fs_flow_heap s p;
       let df1 = dp_set_pkt_flow_direction env key v s df;
       Some (df1, s\<lparr> fs_flow_heap := (fs_flow_heap s)(p \<mapsto>
         dp_set_flow_offload_flag (fs_offload s) (fs_pf_ports s ! 0) port df1 v) \<rparr>)
     }"

text \<open>
  The flow for the key in the current slot; the result is return code, flow, packet data and state.
\<close>

definition flow_of_key ::
  "('t, 'e) flow_env_scheme \<Rightarrow> dp_port \<Rightarrow> flow_key \<Rightarrow> dp_flow \<Rightarrow> ('t, 'z) flow_state_scheme \<Rightarrow>
    (int \<times> ptr option \<times> dp_flow \<times> ('t, 'z) flow_state_scheme) option" where
  "flow_of_key env port key df s =
     (if (case cc_prev_key (fs_cache s) of None \<Rightarrow> False | Some i \<Rightarrow> dp_are_flows_identical key (cc_key_cache (fs_cache s) ! i)) then
        do {
          p \<leftarrow> cc_cached_flow_val (fs_cache s);
          (df1, s1) \<leftarrow> flow_found env port key p df s;
          Some (DP_OK, Some p, df1, s1)
        }
      else
        case dp_get_flow env key s of
          Inl ret \<Rightarrow>
            if ret \<noteq> - ENOENT then Some (ret, None, df, s)
            else
              (case flow_table_insert_entry env key df port s of
                 (None, df1, s1) \<Rightarrow> Some (DP_ERROR, None, df1, s1)
               | (Some p, df1, s1) \<Rightarrow> Some (DP_OK, Some p, df1, dp_cache_flow_val p s1))
        | Inr p \<Rightarrow>
            do {
              (df1, s1) \<leftarrow> flow_found env port key p df s;
              Some (DP_OK, Some p, df1, dp_cache_flow_val p s1)
            })"

definition dp_get_flow_val ::
  "('t, 'e) flow_env_scheme \<Rightarrow> rte_mbuf \<Rightarrow> dp_flow \<Rightarrow> ('t, 'z) flow_state_scheme \<Rightarrow>
    (int \<times> ptr option \<times> dp_flow \<times> ('t, 'z) flow_state_scheme) option" where
  "dp_get_flow_val env m df s =
     do {
       port \<leftarrow> dp_get_in_port m s;
       let (ret, key) = dp_build_flow_key (fe_nat env) (fe_vnf env) (fs_nat s) (fs_vnf s) port m df (curr_key_slot (fs_cache s));
       let s1 = s\<lparr> fs_cache := (fs_cache s)\<lparr> cc_key_cache := (cc_key_cache (fs_cache s))[cc_curr_key (fs_cache s) := key] \<rparr> \<rparr>;
       (if DP_FAILED ret then Some (ret, None, df, s1) else flow_of_key env port key df s1)
     }"

definition dp_cntrack_handle ::
  "('t, 'e) flow_env_scheme \<Rightarrow> u64 \<Rightarrow> rte_mbuf \<Rightarrow> dp_flow \<Rightarrow> ('t, 'z) flow_state_scheme \<Rightarrow>
    (int \<times> dp_flow \<times> ('t, 'z) flow_state_scheme) option" where
  "dp_cntrack_handle env now m df s =
     do {
       (ret, flow_val, df1, s1) \<leftarrow> dp_get_flow_val env m df s;
       (if DP_FAILED ret then Some (ret, df1, s1)
        else
          do {
            port \<leftarrow> dp_get_in_port m s1;
            p \<leftarrow> flow_val;
            v \<leftarrow> fs_flow_heap s1 p;
            let v1 = v\<lparr> fv_timestamp := now \<rparr>;
            (if df_l4_type df1 = IPPROTO_TCP \<and> df_vnf_type df1 \<noteq> DP_VNF_TYPE_LB
                \<and> df_l3_type df1 \<noteq> RTE_ETHER_TYPE_IPV4 \<and> df_l3_type df1 \<noteq> RTE_ETHER_TYPE_IPV6
             then Some (DP_ERROR, df1, s1\<lparr> fs_flow_heap := (fs_flow_heap s1)(p \<mapsto> v1) \<rparr>)
             else
               let v2 = (if df_l4_type df1 = IPPROTO_TCP \<and> df_vnf_type df1 \<noteq> DP_VNF_TYPE_LB
                         then dp_cntrack_set_timeout_tcp_flow (fs_offload s1) (fs_pf_ports s1 ! 0) port df1
                                (dp_cntrack_tcp_state (tcp_flags (mb_l4_hdr m)) v1)
                         else v1);
                   df2 = dp_cntrack_set_pkt_offload_decision v2 (df1\<lparr> df_conntrack := Some p \<rparr>)
               in Some (DP_OK, df2, s1\<lparr> fs_flow_heap := (fs_flow_heap s1)(p \<mapsto> v2) \<rparr>))
          })
     }"

section \<open>The TCP handshake\<close>

definition closing :: "u8 \<Rightarrow> bool" where
  "closing f \<longleftrightarrow> DP_TCP_PKT_FLAG_RST f \<or> DP_TCP_PKT_FLAG_FIN f"

fun tcp_rank :: "dp_flow_tcp_state \<Rightarrow> nat" where
  "tcp_rank DP_FLOW_TCP_STATE_NEW_SYN = 1"
| "tcp_rank DP_FLOW_TCP_STATE_NEW_SYNACK = 2"
| "tcp_rank DP_FLOW_TCP_STATE_ESTABLISHED = 3"
| "tcp_rank _ = 0"

abbreviation tcp_run :: "u8 list \<Rightarrow> dp_flow_tcp_state \<Rightarrow> dp_flow_tcp_state" where
  "tcp_run fs st \<equiv> fold tcp_next_state fs st"

lemma tcp_run_state: "fv_tcp_state (fold dp_cntrack_tcp_state fs v) = tcp_run fs (fv_tcp_state v)"
  by (induction fs arbitrary: v) (simp_all add: dp_cntrack_tcp_state_def)

lemma tcp_rank_Suc [simp]: "tcp_rank st = Suc (Suc (Suc 0)) \<longleftrightarrow> st = DP_FLOW_TCP_STATE_ESTABLISHED"
  by (cases st) simp_all

text \<open>Packets that do not close the connection only advance it, except in the waiting state.\<close>

lemma tcp_next_advances:
  assumes "\<not> closing f" "st \<noteq> DP_FLOW_TCP_STATE_FINWAIT"
  shows "tcp_next_state f st \<noteq> DP_FLOW_TCP_STATE_FINWAIT" "tcp_rank st \<le> tcp_rank (tcp_next_state f st)"
    "DP_TCP_PKT_FLAG_SYN f \<Longrightarrow> 1 \<le> tcp_rank (tcp_next_state f st)"
    "DP_TCP_PKT_FLAG_SYNACK f \<Longrightarrow> 1 \<le> tcp_rank st \<Longrightarrow> 2 \<le> tcp_rank (tcp_next_state f st)"
    "DP_TCP_PKT_FLAG_ACK f \<Longrightarrow> 2 \<le> tcp_rank st \<Longrightarrow> 3 \<le> tcp_rank (tcp_next_state f st)"
  using assms by (cases st; simp add: tcp_next_state_def closing_def)+

lemma tcp_run_advances:
  assumes "\<forall>f \<in> set fs. \<not> closing f" "st \<noteq> DP_FLOW_TCP_STATE_FINWAIT"
  shows "tcp_run fs st \<noteq> DP_FLOW_TCP_STATE_FINWAIT \<and> tcp_rank st \<le> tcp_rank (tcp_run fs st)"
  using assms
proof (induction fs arbitrary: st)
  case (Cons f fs)
  then show ?case
    using tcp_next_advances(1,2) [of f st] Cons.IH [of "tcp_next_state f st"] by (auto intro: order_trans)
qed simp

text \<open>The three stages of a handshake within a history: after an earlier part, no packet closes the connection.\<close>

definition syn_seen :: "dp_flow_tcp_state \<Rightarrow> u8 list \<Rightarrow> bool" where
  "syn_seen st fs \<longleftrightarrow> (\<exists>a syn b. fs = a @ syn # b \<and> DP_TCP_PKT_FLAG_SYN syn \<and>
     (\<forall>f \<in> set (syn # b). \<not> closing f) \<and> tcp_run a st \<noteq> DP_FLOW_TCP_STATE_FINWAIT)"

definition synack_seen :: "dp_flow_tcp_state \<Rightarrow> u8 list \<Rightarrow> bool" where
  "synack_seen st fs \<longleftrightarrow> (\<exists>a synack b. fs = a @ synack # b \<and> syn_seen st a \<and> DP_TCP_PKT_FLAG_SYNACK synack \<and>
     (\<forall>f \<in> set (synack # b). \<not> closing f))"

definition handshake_seen :: "dp_flow_tcp_state \<Rightarrow> u8 list \<Rightarrow> bool" where
  "handshake_seen st fs \<longleftrightarrow> (\<exists>a ack b. fs = a @ ack # b \<and> synack_seen st a \<and> DP_TCP_PKT_FLAG_ACK ack \<and>
     (\<forall>f \<in> set (ack # b). \<not> closing f))"

lemma seen_snoc:
  assumes "\<not> closing f"
  shows "syn_seen st fs \<Longrightarrow> syn_seen st (fs @ [f])" "synack_seen st fs \<Longrightarrow> synack_seen st (fs @ [f])"
    "handshake_seen st fs \<Longrightarrow> handshake_seen st (fs @ [f])"
proof -
  show "syn_seen st (fs @ [f])" if seen: "syn_seen st fs"
  proof -
    obtain a x b where "fs = a @ x # b" "DP_TCP_PKT_FLAG_SYN x" "\<forall>f \<in> set (x # b). \<not> closing f" "tcp_run a st \<noteq> DP_FLOW_TCP_STATE_FINWAIT"
      using seen unfolding syn_seen_def by blast
    then show ?thesis
      unfolding syn_seen_def using assms by (intro exI [of _ a] exI [of _ x] exI [of _ "b @ [f]"]) simp
  qed
  show "synack_seen st (fs @ [f])" if seen: "synack_seen st fs"
  proof -
    obtain a x b where "fs = a @ x # b" "syn_seen st a" "DP_TCP_PKT_FLAG_SYNACK x" "\<forall>f \<in> set (x # b). \<not> closing f"
      using seen unfolding synack_seen_def by blast
    then show ?thesis
      unfolding synack_seen_def using assms by (intro exI [of _ a] exI [of _ x] exI [of _ "b @ [f]"]) simp
  qed
  show "handshake_seen st (fs @ [f])" if seen: "handshake_seen st fs"
  proof -
    obtain a x b where "fs = a @ x # b" "synack_seen st a" "DP_TCP_PKT_FLAG_ACK x" "\<forall>f \<in> set (x # b). \<not> closing f"
      using seen unfolding handshake_seen_def by blast
    then show ?thesis
      unfolding handshake_seen_def using assms by (intro exI [of _ a] exI [of _ x] exI [of _ "b @ [f]"]) simp
  qed
qed

lemma tcp_next_inv:
  assumes "\<not> closing f"
  shows "tcp_next_state f st = DP_FLOW_TCP_STATE_NEW_SYN \<Longrightarrow>
      st = DP_FLOW_TCP_STATE_NEW_SYN \<or> DP_TCP_PKT_FLAG_SYN f \<and> st \<noteq> DP_FLOW_TCP_STATE_FINWAIT"
    "tcp_next_state f st = DP_FLOW_TCP_STATE_NEW_SYNACK \<Longrightarrow>
      st = DP_FLOW_TCP_STATE_NEW_SYNACK \<or> DP_TCP_PKT_FLAG_SYNACK f \<and> st = DP_FLOW_TCP_STATE_NEW_SYN"
    "tcp_next_state f st = DP_FLOW_TCP_STATE_ESTABLISHED \<Longrightarrow>
      st = DP_FLOW_TCP_STATE_ESTABLISHED \<or> DP_TCP_PKT_FLAG_ACK f \<and> st = DP_FLOW_TCP_STATE_NEW_SYNACK"
  using assms by (cases st; simp add: tcp_next_state_def closing_def split: if_splits)+

lemma seen_run:
  assumes "st \<in> {DP_FLOW_TCP_STATE_NONE, DP_FLOW_TCP_STATE_RST_FIN}"
  shows "(tcp_run fs st = DP_FLOW_TCP_STATE_NEW_SYN \<longrightarrow> syn_seen st fs) \<and>
    (tcp_run fs st = DP_FLOW_TCP_STATE_NEW_SYNACK \<longrightarrow> synack_seen st fs) \<and>
    (tcp_run fs st = DP_FLOW_TCP_STATE_ESTABLISHED \<longrightarrow> handshake_seen st fs)"
proof (induction fs rule: rev_induct)
  case Nil
  then show ?case using assms by auto
next
  case (snoc f fs)
  show ?case
  proof (cases "closing f")
    case True
    then show ?thesis
      by (auto simp: tcp_next_state_def closing_def)
  next
    case False
    have new: "syn_seen st (fs @ [f])" if "DP_TCP_PKT_FLAG_SYN f" "tcp_run fs st \<noteq> DP_FLOW_TCP_STATE_FINWAIT"
      unfolding syn_seen_def using that False by (intro exI [of _ fs] exI [of _ f] exI [of _ "[]"]) simp
    have "synack_seen st (fs @ [f])" if "DP_TCP_PKT_FLAG_SYNACK f" "syn_seen st fs"
      unfolding synack_seen_def using that False by (intro exI [of _ fs] exI [of _ f] exI [of _ "[]"]) simp
    moreover have "handshake_seen st (fs @ [f])" if "DP_TCP_PKT_FLAG_ACK f" "synack_seen st fs"
      unfolding handshake_seen_def using that False by (intro exI [of _ fs] exI [of _ f] exI [of _ "[]"]) simp
    ultimately show ?thesis
      using snoc new seen_snoc [OF False, of st fs] tcp_next_inv [OF False, of "tcp_run fs st"]
      unfolding fold_append comp_def fold_simps by blast
  qed
qed

lemma seen_rank:
  shows "syn_seen st fs \<Longrightarrow> tcp_run fs st \<noteq> DP_FLOW_TCP_STATE_FINWAIT \<and> 1 \<le> tcp_rank (tcp_run fs st)"
    and "synack_seen st fs \<Longrightarrow> tcp_run fs st \<noteq> DP_FLOW_TCP_STATE_FINWAIT \<and> 2 \<le> tcp_rank (tcp_run fs st)"
    and "handshake_seen st fs \<Longrightarrow> tcp_run fs st \<noteq> DP_FLOW_TCP_STATE_FINWAIT \<and> 3 \<le> tcp_rank (tcp_run fs st)"
proof -
  have stage: "tcp_run (a @ x # b) st \<noteq> DP_FLOW_TCP_STATE_FINWAIT \<and> n \<le> tcp_rank (tcp_run (a @ x # b) st)"
    if "tcp_run a st \<noteq> DP_FLOW_TCP_STATE_FINWAIT" "\<forall>f \<in> set (x # b). \<not> closing f"
      "n \<le> tcp_rank (tcp_next_state x (tcp_run a st))" for a x b n
    using that tcp_next_advances(1) [of x "tcp_run a st"] tcp_run_advances [of b "tcp_next_state x (tcp_run a st)"]
    by (auto intro: order_trans)
  show syn: "tcp_run fs st \<noteq> DP_FLOW_TCP_STATE_FINWAIT \<and> 1 \<le> tcp_rank (tcp_run fs st)" if seen: "syn_seen st fs" for fs
  proof -
    obtain a x b where x: "fs = a @ x # b" "DP_TCP_PKT_FLAG_SYN x" "\<forall>f \<in> set (x # b). \<not> closing f" "tcp_run a st \<noteq> DP_FLOW_TCP_STATE_FINWAIT"
      using seen unfolding syn_seen_def by blast
    show ?thesis
      unfolding x(1) using x by (intro stage tcp_next_advances(3)) simp_all
  qed
  show synack: "tcp_run fs st \<noteq> DP_FLOW_TCP_STATE_FINWAIT \<and> 2 \<le> tcp_rank (tcp_run fs st)" if seen: "synack_seen st fs" for fs
  proof -
    obtain a x b where x: "fs = a @ x # b" "syn_seen st a" "DP_TCP_PKT_FLAG_SYNACK x" "\<forall>f \<in> set (x # b). \<not> closing f"
      using seen unfolding synack_seen_def by blast
    show ?thesis
      unfolding x(1) using x syn [OF x(2)] by (intro stage tcp_next_advances(4)) simp_all
  qed
  show "tcp_run fs st \<noteq> DP_FLOW_TCP_STATE_FINWAIT \<and> 3 \<le> tcp_rank (tcp_run fs st)" if seen: "handshake_seen st fs" for fs
  proof -
    obtain a x b where x: "fs = a @ x # b" "synack_seen st a" "DP_TCP_PKT_FLAG_ACK x" "\<forall>f \<in> set (x # b). \<not> closing f"
      using seen unfolding handshake_seen_def by blast
    show ?thesis
      unfolding x(1) using x synack [OF x(2)] by (intro stage tcp_next_advances(5)) simp_all
  qed
qed

text \<open>
  The same in terms of the packets alone.  A connection is up after a SYN, a SYN+ACK and an ACK in this order with no RST or FIN from the
  SYN on, unless the SYN came while the flow was waiting; it is waiting after a FIN that met a connection that was up, until the next RST
  or FIN.
\<close>

declare conj_cong [fundef_cong]

function (sequential) tcp_connected :: "u8 list \<Rightarrow> bool" and tcp_fin_waiting :: "u8 list \<Rightarrow> bool" where
  "tcp_connected fs \<longleftrightarrow>
     (\<exists>a syn b synack c ack d. fs = a @ syn # b @ synack # c @ ack # d \<and>
        DP_TCP_PKT_FLAG_SYN syn \<and> DP_TCP_PKT_FLAG_SYNACK synack \<and> DP_TCP_PKT_FLAG_ACK ack \<and>
        (\<forall>f \<in> set (syn # b @ synack # c @ ack # d). \<not> closing f) \<and> \<not> tcp_fin_waiting a)"
| "tcp_fin_waiting fs \<longleftrightarrow>
     (\<exists>a fin b. fs = a @ fin # b \<and> DP_TCP_PKT_FLAG_FIN fin \<and> \<not> DP_TCP_PKT_FLAG_RST fin \<and>
        (\<forall>f \<in> set b. \<not> closing f) \<and> tcp_connected a)"
  by pat_completeness auto
termination
  by (relation "measure (case_sum length length)") auto

declare tcp_connected.simps [simp del] tcp_fin_waiting.simps [simp del]

text \<open>Decomposing a history at a packet after which only packets of one kind follow.\<close>

lemma split_snoc:
  "(\<exists>a x b. xs @ [y] = a @ x # b \<and> P a x \<and> (\<forall>z \<in> set b. Q z)) \<longleftrightarrow> P xs y \<or> Q y \<and> (\<exists>a x b. xs = a @ x # b \<and> P a x \<and> (\<forall>z \<in> set b. Q z))"
proof (intro iffI; (elim disjE conjE exE)?)
  fix a x b assume "xs @ [y] = a @ x # b" "P a x" "\<forall>z \<in> set b. Q z"
  then show "P xs y \<or> Q y \<and> (\<exists>a x b. xs = a @ x # b \<and> P a x \<and> (\<forall>z \<in> set b. Q z))"
    by (cases b rule: rev_cases) auto
next
  assume "P xs y"
  then show "\<exists>a x b. xs @ [y] = a @ x # b \<and> P a x \<and> (\<forall>z \<in> set b. Q z)"
    by (intro exI [of _ xs] exI [of _ y] exI [of _ "[]"]) simp
next
  fix a x b assume "Q y" "xs = a @ x # b" "P a x" "\<forall>z \<in> set b. Q z"
  then show "\<exists>a x b. xs @ [y] = a @ x # b \<and> P a x \<and> (\<forall>z \<in> set b. Q z)"
    by (intro exI [of _ a] exI [of _ x] exI [of _ "b @ [y]"]) auto
qed

lemma tcp_next_finwait:
  "tcp_next_state f st = DP_FLOW_TCP_STATE_FINWAIT \<longleftrightarrow>
     DP_TCP_PKT_FLAG_FIN f \<and> \<not> DP_TCP_PKT_FLAG_RST f \<and> st = DP_FLOW_TCP_STATE_ESTABLISHED \<or> \<not> closing f \<and> st = DP_FLOW_TCP_STATE_FINWAIT"
  by (cases st) (auto simp: tcp_next_state_def closing_def)

lemma finwait_run:
  assumes "st \<noteq> DP_FLOW_TCP_STATE_FINWAIT"
  shows "tcp_run fs st = DP_FLOW_TCP_STATE_FINWAIT \<longleftrightarrow>
    (\<exists>a fin b. fs = a @ fin # b \<and> DP_TCP_PKT_FLAG_FIN fin \<and> \<not> DP_TCP_PKT_FLAG_RST fin \<and> (\<forall>f \<in> set b. \<not> closing f) \<and>
       tcp_run a st = DP_FLOW_TCP_STATE_ESTABLISHED)"
proof (induction fs rule: rev_induct)
  case Nil
  then show ?case using assms by simp
next
  case (snoc f fs)
  note split_snoc [of fs f "\<lambda>a fin. DP_TCP_PKT_FLAG_FIN fin \<and> \<not> DP_TCP_PKT_FLAG_RST fin \<and> tcp_run a st = DP_FLOW_TCP_STATE_ESTABLISHED" "\<lambda>f. \<not> closing f"]
  then show ?case
    using snoc.IH by (simp add: tcp_next_finwait conj_ac)
qed

lemma handshake_seen_eq:
  "handshake_seen st fs \<longleftrightarrow>
     (\<exists>a syn b synack c ack d. fs = a @ syn # b @ synack # c @ ack # d \<and>
        DP_TCP_PKT_FLAG_SYN syn \<and> DP_TCP_PKT_FLAG_SYNACK synack \<and> DP_TCP_PKT_FLAG_ACK ack \<and>
        (\<forall>f \<in> set (syn # b @ synack # c @ ack # d). \<not> closing f) \<and> tcp_run a st \<noteq> DP_FLOW_TCP_STATE_FINWAIT)"
proof
  assume "handshake_seen st fs"
  then obtain a2 ack d where ack: "fs = a2 @ ack # d" "synack_seen st a2" "DP_TCP_PKT_FLAG_ACK ack" "\<forall>f \<in> set (ack # d). \<not> closing f"
    unfolding handshake_seen_def by blast
  then obtain a1 synack c where synack: "a2 = a1 @ synack # c" "syn_seen st a1" "DP_TCP_PKT_FLAG_SYNACK synack" "\<forall>f \<in> set (synack # c). \<not> closing f"
    unfolding synack_seen_def by blast
  then obtain a syn b where "a1 = a @ syn # b" "DP_TCP_PKT_FLAG_SYN syn" "\<forall>f \<in> set (syn # b). \<not> closing f" "tcp_run a st \<noteq> DP_FLOW_TCP_STATE_FINWAIT"
    unfolding syn_seen_def by blast
  with ack synack show "\<exists>a syn b synack c ack d. fs = a @ syn # b @ synack # c @ ack # d \<and>
        DP_TCP_PKT_FLAG_SYN syn \<and> DP_TCP_PKT_FLAG_SYNACK synack \<and> DP_TCP_PKT_FLAG_ACK ack \<and>
        (\<forall>f \<in> set (syn # b @ synack # c @ ack # d). \<not> closing f) \<and> tcp_run a st \<noteq> DP_FLOW_TCP_STATE_FINWAIT"
    by (intro exI [of _ a] exI [of _ syn] exI [of _ b] exI [of _ synack] exI [of _ c] exI [of _ ack] exI [of _ d]) (simp add: ball_Un)
next
  assume "\<exists>a syn b synack c ack d. fs = a @ syn # b @ synack # c @ ack # d \<and>
        DP_TCP_PKT_FLAG_SYN syn \<and> DP_TCP_PKT_FLAG_SYNACK synack \<and> DP_TCP_PKT_FLAG_ACK ack \<and>
        (\<forall>f \<in> set (syn # b @ synack # c @ ack # d). \<not> closing f) \<and> tcp_run a st \<noteq> DP_FLOW_TCP_STATE_FINWAIT"
  then obtain a syn b synack c ack d where fs: "fs = ((a @ syn # b) @ synack # c) @ ack # d" "DP_TCP_PKT_FLAG_SYN syn" "DP_TCP_PKT_FLAG_SYNACK synack"
      "DP_TCP_PKT_FLAG_ACK ack" "\<forall>f \<in> set (syn # b) \<union> set (synack # c) \<union> set (ack # d). \<not> closing f" "tcp_run a st \<noteq> DP_FLOW_TCP_STATE_FINWAIT"
    by auto
  then have "syn_seen st (a @ syn # b)"
    unfolding syn_seen_def by blast
  then have "synack_seen st ((a @ syn # b) @ synack # c)"
    unfolding synack_seen_def using fs by blast
  then show "handshake_seen st fs"
    unfolding handshake_seen_def using fs by blast
qed

lemma established_run: "tcp_run fs DP_FLOW_TCP_STATE_NONE = DP_FLOW_TCP_STATE_ESTABLISHED \<longleftrightarrow> handshake_seen DP_FLOW_TCP_STATE_NONE fs"
proof -
  have "tcp_run fs DP_FLOW_TCP_STATE_NONE = DP_FLOW_TCP_STATE_ESTABLISHED" if "3 \<le> tcp_rank (tcp_run fs DP_FLOW_TCP_STATE_NONE)"
    using that by (cases "tcp_run fs DP_FLOW_TCP_STATE_NONE") simp_all
  then show ?thesis
    using seen_run [of DP_FLOW_TCP_STATE_NONE fs] seen_rank(3) [of DP_FLOW_TCP_STATE_NONE fs] by blast
qed

lemma tcp_trace:
  "(tcp_run fs DP_FLOW_TCP_STATE_NONE = DP_FLOW_TCP_STATE_ESTABLISHED \<longleftrightarrow> tcp_connected fs) \<and>
   (tcp_run fs DP_FLOW_TCP_STATE_NONE = DP_FLOW_TCP_STATE_FINWAIT \<longleftrightarrow> tcp_fin_waiting fs)"
proof (induction fs rule: length_induct)
  case (1 fs)
  have "tcp_connected a \<longleftrightarrow> tcp_run a DP_FLOW_TCP_STATE_NONE = DP_FLOW_TCP_STATE_ESTABLISHED"
    "tcp_fin_waiting a \<longleftrightarrow> tcp_run a DP_FLOW_TCP_STATE_NONE = DP_FLOW_TCP_STATE_FINWAIT" if "fs = a @ x # b" for a x b
    using 1 that by auto
  then show ?case
    unfolding established_run [of fs] handshake_seen_eq [of _ fs] finwait_run [of DP_FLOW_TCP_STATE_NONE fs, simplified]
      tcp_connected.simps [of fs] tcp_fin_waiting.simps [of fs]
    by (intro conjI ex_cong1 conj_cong refl) auto
qed

text \<open>
  C33: The TCP state of a new flow follows from the packets seen.  It is established exactly when they contain a SYN, a later SYN+ACK and a
  later ACK with no RST or FIN from the SYN on, where the SYN did not come while the flow was waiting for the end of an earlier
  connection; it is waiting exactly when a FIN met an established connection and neither RST nor FIN came since.
\<close>

theorem tcp_established_handshake:
  "let st = fv_tcp_state (fold dp_cntrack_tcp_state flags (v\<lparr> fv_tcp_state := DP_FLOW_TCP_STATE_NONE \<rparr>)) in
     (st = DP_FLOW_TCP_STATE_ESTABLISHED \<longleftrightarrow> tcp_connected flags) \<and> (st = DP_FLOW_TCP_STATE_FINWAIT \<longleftrightarrow> tcp_fin_waiting flags)"
  using tcp_trace [of flags] by (simp add: tcp_run_state)

section \<open>The invariant\<close>

lemma change_flags_key [simp]:
  "fv_flow_key (dp_cntrack_change_flow_offload_flags offload pf0 port df v) = fv_flow_key v"
  unfolding dp_cntrack_change_flow_offload_flags_def Let_def by (cases "df_flow_dir df") simp_all

lemma flow_key_kept [simp]:
  "fv_flow_key (dp_set_flow_offload_flag offload pf0 port df v) = fv_flow_key v"
  "fv_flow_key (dp_cntrack_set_timeout_tcp_flow offload pf0 port df v) = fv_flow_key v"
  "fv_flow_key (dp_cntrack_tcp_state flags v) = fv_flow_key v"
  by (simp_all add: dp_set_flow_offload_flag_def dp_cntrack_set_timeout_tcp_flow_def dp_cntrack_tcp_state_def Let_def)

lemma flow_ok_write:
  assumes ok: "flow_ok env s" and v: "fs_flow_heap s p = Some v" "fv_flow_key w = fv_flow_key v"
  shows "flow_ok env (s\<lparr> fs_flow_heap := (fs_flow_heap s)(p \<mapsto> w) \<rparr>)"
proof -
  have "flow_keys w = flow_keys v"
    using v(2) by (simp add: flow_keys_def)
  then have "\<exists>v'. ((fs_flow_heap s)(p \<mapsto> w)) q = Some v' \<and> k \<in> flow_keys v'" if "flow_view env s k = Some q" for k q
    using flow_okD(3) [OF ok that] v(1) by (cases "q = p") simp_all
  moreover have "flow_view env (s\<lparr> fs_flow_heap := (fs_flow_heap s)(p \<mapsto> w) \<rparr>) = flow_view env s"
    by (simp add: flow_view_def)
  ultimately show ?thesis
    using flow_okD(1,2,4,5) [OF ok] unfolding flow_ok_def by simp
qed

lemma cache_curr:
  assumes "cache_ok tbl c"
  shows "cc_curr_key c < 2" "unat ((cc_key_cache_index c + 1) mod 2) \<noteq> cc_curr_key c" "length (cc_key_cache c) = 2"
proof -
  have curr: "cc_curr_key c = unat (cc_key_cache_index c mod 2)"
    using assms by (simp add: cache_ok_def)
  show "cc_curr_key c < 2"
    unfolding curr by (simp add: unat_mod)
  have "unat ((i + 1) mod 2) \<noteq> unat (i mod 2)" for i :: u32
  proof -
    have "unat (i + 1) mod 2 = (unat i + 1) mod 2"
      by (simp add: unat_word_ariths(1) mod_mod_cancel)
    then show ?thesis
      by (simp add: unat_mod) presburger
  qed
  then show "unat ((cc_key_cache_index c + 1) mod 2) \<noteq> cc_curr_key c"
    unfolding curr .
  show "length (cc_key_cache c) = 2"
    using assms by (simp add: cache_ok_def)
qed

text \<open>Building a key writes the current slot, which the cache does not refer to.\<close>

abbreviation write_key :: "flow_key \<Rightarrow> ('t, 'z) flow_state_scheme \<Rightarrow> ('t, 'z) flow_state_scheme" where
  "write_key key s \<equiv> s\<lparr> fs_cache := (fs_cache s)\<lparr> cc_key_cache := (cc_key_cache (fs_cache s))[cc_curr_key (fs_cache s) := key] \<rparr> \<rparr>"

lemma flow_ok_write_key:
  assumes "flow_ok env s"
  shows "flow_ok env (write_key key s)" "curr_key_slot (fs_cache (write_key key s)) = key"
proof -
  have c: "cache_ok (flow_view env s) (fs_cache s)"
    using assms by (simp add: flow_ok_def)
  then have "cache_ok (flow_view env s) ((fs_cache s)\<lparr> cc_key_cache := (cc_key_cache (fs_cache s))[cc_curr_key (fs_cache s) := key] \<rparr>)"
    by (auto simp: cache_ok_def nth_list_update)
  then show "flow_ok env (write_key key s)"
    using assms by (simp add: flow_ok_def flow_view_def)
  show "curr_key_slot (fs_cache (write_key key s)) = key"
    using cache_curr [OF c] by simp
qed

lemma flow_ok_flush: "flow_ok env s \<Longrightarrow> flow_ok env (dp_cntrack_flush_cache s)"
  using cache_ok_flush [of "flow_view env s" "fs_cache s"] by (simp add: flow_ok_def flow_view_def dp_cntrack_flush_cache_def flush_def)

lemma flow_ok_cache:
  assumes ok: "flow_ok env (dp_cntrack_flush_cache s)" and p: "flow_view env s (curr_key_slot (fs_cache s)) = Some p"
  shows "flow_ok env (dp_cache_flow_val p s)"
proof -
  have c: "cache_ok (flow_view env s) (flush (fs_cache s))"
    using flow_okD(4) [OF ok] by (simp add: flow_view_def dp_cntrack_flush_cache_def flush_def)
  then have "cache_ok (flow_view env s) (fs_cache (dp_cache_flow_val p s))"
    using cache_curr [OF c] p by (auto simp: cache_ok_def flush_def dp_cache_flow_val_def Let_def)
  moreover have "fs_flow_tbl (dp_cache_flow_val p s) = fs_flow_tbl s" "fs_flow_heap (dp_cache_flow_val p s) = fs_flow_heap s"
    "fs_nat (dp_cache_flow_val p s) = fs_nat s"
    by (simp_all add: dp_cache_flow_val_def Let_def)
  ultimately show ?thesis
    using ok by (simp add: flow_ok_def flow_view_def dp_cntrack_flush_cache_def)
qed

lemma flow_found_ok:
  assumes ok: "flow_ok env s" and v: "fs_flow_heap s p = Some v"
  shows "\<exists>df' w. flow_found env port key p df s = Some (df', s\<lparr> fs_flow_heap := (fs_flow_heap s)(p \<mapsto> w) \<rparr>) \<and>
    fv_flow_key w = fv_flow_key v \<and> flow_ok env (s\<lparr> fs_flow_heap := (fs_flow_heap s)(p \<mapsto> w) \<rparr>)"
proof -
  let ?df = "dp_set_pkt_flow_direction env key v s df"
  let ?w = "dp_set_flow_offload_flag (fs_offload s) (fs_pf_ports s ! 0) port ?df v"
  have "flow_found env port key p df s = Some (?df, s\<lparr> fs_flow_heap := (fs_flow_heap s)(p \<mapsto> ?w) \<rparr>)"
    using v by (simp add: flow_found_def Let_def)
  then show ?thesis
    using flow_ok_write [OF ok v, of ?w] flow_key_kept(1) by blast
qed

lemma dp_add_flow_cases:
  assumes "rte_hash_ok (fe_flow env)"
  obtains (added) t where "dp_add_flow env key p s = (DP_OK, s\<lparr> fs_flow_tbl := t \<rparr>)"
      "rh_view (fe_flow env) t = (flow_view env s)(key \<mapsto> p)"
    | (failed) r t where "dp_add_flow env key p s = (r, s\<lparr> fs_flow_tbl := t \<rparr>)" "DP_FAILED r"
      "rh_view (fe_flow env) t = flow_view env s"
proof -
  obtain r t where rt: "rh_add_data (fe_flow env) (fs_flow_tbl s) key p = (r, t)" by fastforce
  from assms rt show ?thesis
  proof (cases rule: rh_add_data_cases)
    case added
    then show ?thesis
      using that(1) [of t] rt by (simp add: dp_add_flow_def flow_view_def)
  next
    case failed
    then show ?thesis
      using that(2) [of r t] rt by (simp add: dp_add_flow_def flow_view_def)
  qed
qed

lemma new_flow_value_key [simp]:
  "fv_flow_key (new_flow_value env key df port s) DP_FLOW_DIR_ORG = key"
  by (simp add: new_flow_value_def dp_cntrack_init_flow_offload_flags_def Let_def)

text \<open>
  The outcomes of an insertion: nothing is stored, up to a flush of the cache, or the flow is registered under
  the key and its inverse, replacing what the inverse may have led to.
\<close>

lemma flow_table_insert_entry_cases:
  assumes ok: "flow_ok env s" and new: "flow_view env s key = None"
  obtains (failed) df' t c where "flow_table_insert_entry env key df port s = (None, df', s\<lparr> fs_flow_tbl := t, fs_cache := c \<rparr>)"
      "rh_view (fe_flow env) t = flow_view env s" "c = fs_cache s \<or> c = flush (fs_cache s)"
    | (inserted) p df' t v where
      "flow_table_insert_entry env key df port s = (Some p, df', s\<lparr> fs_flow_tbl := t, fs_flow_heap := (fs_flow_heap s)(p \<mapsto> v) \<rparr>)"
      "rh_view (fe_flow env) t = (flow_view env s)(key \<mapsto> p, dp_invert_flow_key key \<mapsto> p)"
      "fs_flow_heap s p = None" "fv_flow_key v DP_FLOW_DIR_ORG = key" "fv_flow_key v DP_FLOW_DIR_REPLY = dp_invert_flow_key key"
      "df_flow_dir df' = DP_FLOW_DIR_ORG" "df_conntrack df' = df_conntrack df"
proof -
  note hash = flow_okD(1) [OF ok]
  show ?thesis
  proof (cases "fe_flow_malloc env (fs_flow_heap s)")
    case None
    then show ?thesis
      using failed [where df' = df and t = "fs_flow_tbl s" and c = "fs_cache s"] by (simp add: flow_table_insert_entry_def flow_view_def)
  next
    case (Some p)
    have fresh: "fs_flow_heap s p = None"
      using flow_okD(5) [OF ok] Some by (simp add: rte_malloc_ok_def)
    define df1 where "df1 = df\<lparr> df_flow_dir := DP_FLOW_DIR_ORG \<rparr>"
    define v where "v = new_flow_value env key df1 port s"
    define s1 where "s1 = s\<lparr> fs_flow_heap := (fs_flow_heap s)(p \<mapsto> v) \<rparr>"
    have view1: "flow_view env s1 = flow_view env s" by (simp add: s1_def flow_view_def)
    have unwrite: "rte_free ((fs_flow_heap s)(p \<mapsto> w)) p = fs_flow_heap s" for w
      using fresh by (simp add: rte_free_def fun_upd_idem)
    from hash show ?thesis
    proof (cases rule: dp_add_flow_cases [of env key p s1])
      case (failed r t)
      then show ?thesis
        using that(1) [where df' = df1 and t = t and c = "fs_cache s"] Some unwrite
        by (simp add: flow_table_insert_entry_def df1_def [symmetric] v_def [symmetric] s1_def [symmetric] view1 Let_def)
          (simp add: s1_def)
    next
      case (added t)
      define s2 where "s2 = s1\<lparr> fs_flow_tbl := t \<rparr>"
      define df2 where "df2 = df1\<lparr> df_dp_flow_hash := dp_get_conntrack_flow_hash_value env key s2 \<rparr>"
      define w where "w = v\<lparr> fv_flow_key := (fv_flow_key v)(DP_FLOW_DIR_REPLY := dp_invert_flow_key key) \<rparr>"
      define s3 where "s3 = s2\<lparr> fs_flow_heap := (fs_flow_heap s2)(p \<mapsto> w) \<rparr>"
      have s3: "s3 = s\<lparr> fs_flow_tbl := t, fs_flow_heap := (fs_flow_heap s)(p \<mapsto> w) \<rparr>" by (simp add: s3_def s2_def s1_def)
      have view3: "flow_view env s3 = (flow_view env s)(key \<mapsto> p)"
        using added(2) by (simp add: s3 flow_view_def view1 [unfolded flow_view_def])
      have insert_eq: "flow_table_insert_entry env key df port s =
          (let (ret, s4) = dp_add_flow env (dp_invert_flow_key key) p s3
           in if DP_FAILED ret then let s5 = dp_delete_flow env key s4 in (None, df2, s5\<lparr> fs_flow_heap := rte_free (fs_flow_heap s5) p \<rparr>)
              else (Some p, df2, s4))"
        unfolding df2_def using added(1) Some
        by (simp add: flow_table_insert_entry_def df1_def [symmetric] v_def [symmetric] s1_def [symmetric]
            s2_def [symmetric] w_def [symmetric] s3_def [symmetric] Let_def)
      from hash show ?thesis
      proof (cases rule: dp_add_flow_cases [of env "dp_invert_flow_key key" p s3])
        case (added t')
        then show ?thesis
          using that(2) [where p = p and df' = df2 and t = t' and v = w] insert_eq fresh view3
          by (simp add: s3 w_def v_def df2_def df1_def)
      next
        case (failed r t')
        obtain r' t'' where del: "rh_del (fe_flow env) t' key = (r', t'')" by fastforce
        have "rh_view (fe_flow env) t'' = flow_view env s"
          using rh_del_view(1) [OF hash del] failed(3) view3 new by (simp add: fun_upd_idem)
        then show ?thesis
          using that(1) [where df' = df2 and t = t'' and c = "flush (fs_cache s)"] insert_eq failed unwrite del
          by (simp add: s3 dp_delete_flow_def dp_delete_flow_no_flush_def dp_cntrack_flush_cache_def flush_def Let_def)
      qed
    qed
  qed
qed

lemma flow_ok_insert:
  assumes ok: "flow_ok env s" and new: "flow_view env s key = None" and curr: "curr_key_slot (fs_cache s) = key"
    and ins: "flow_table_insert_entry env key df port s = (q, df', s')"
  shows "q = None \<Longrightarrow> flow_ok env s'"
    "q = Some p \<Longrightarrow> flow_ok env (dp_cache_flow_val p s') \<and> (\<exists>v. fs_flow_heap s' p = Some v)" "fs_ports s' = fs_ports s"
proof -
  have "(q = None \<longrightarrow> flow_ok env s') \<and> fs_ports s' = fs_ports s \<and>
      (q = Some p \<longrightarrow> flow_ok env (dp_cache_flow_val p s') \<and> (\<exists>v. fs_flow_heap s' p = Some v))"
    using ok new
  proof (cases rule: flow_table_insert_entry_cases [of env s key df port])
    case (failed df1 t c)
    have "cache_ok (flow_view env s) c"
      using failed(3) flow_okD(4) [OF ok] cache_ok_flush by auto
    then show ?thesis
      using failed(1,2) ins ok by (auto simp: flow_ok_def flow_view_def)
  next
    case (inserted r df1 t v)
    have s': "s' = s\<lparr> fs_flow_tbl := t, fs_flow_heap := (fs_flow_heap s)(r \<mapsto> v) \<rparr>" and q: "q = Some r"
      using inserted(1) ins by simp_all
    have fields: "fs_flow_heap s' = (fs_flow_heap s)(r \<mapsto> v)" "fs_cache s' = fs_cache s" "fs_nat s' = fs_nat s" "fs_ports s' = fs_ports s"
      by (simp_all add: s')
    have view: "flow_view env s' = (flow_view env s)(key \<mapsto> r, dp_invert_flow_key key \<mapsto> r)"
      using inserted(2) by (simp add: s' flow_view_def)
    have keys: "flow_keys v = {key, dp_invert_flow_key key}"
      using inserted(4,5) by (simp add: flow_keys_def)
    have entry: "\<exists>v'. fs_flow_heap s' x = Some v' \<and> k \<in> flow_keys v'" if "flow_view env s' k = Some x" for k x
    proof (cases "k \<in> {key, dp_invert_flow_key key}")
      case True
      then show ?thesis
        using that keys by (auto simp: view fields split: if_splits)
    next
      case False
      then have "flow_view env s k = Some x"
        using that by (simp add: view)
      then show ?thesis
        using flow_okD(3) [OF ok, of k x] inserted(3) by (cases "x = r") (auto simp: fields)
    qed
    have flushed: "flow_view env (dp_cntrack_flush_cache s') = flow_view env s'" "fs_flow_heap (dp_cntrack_flush_cache s') = fs_flow_heap s'"
      "fs_cache (dp_cntrack_flush_cache s') = flush (fs_cache s)" "fs_nat (dp_cntrack_flush_cache s') = fs_nat s"
      by (simp_all add: dp_cntrack_flush_cache_def flush_def flow_view_def fields)
    have "flow_ok env (dp_cntrack_flush_cache s')"
      unfolding flow_ok_def flushed using entry flow_okD(1,2,5) [OF ok] cache_ok_flush [OF flow_okD(4) [OF ok]] by blast
    moreover have "flow_view env s' (curr_key_slot (fs_cache s')) = Some r"
      unfolding view fields curr by simp
    ultimately show ?thesis
      using flow_ok_cache [of env s' r] q fields by auto
  qed
  then show "q = None \<Longrightarrow> flow_ok env s'" "fs_ports s' = fs_ports s"
    "q = Some p \<Longrightarrow> flow_ok env (dp_cache_flow_val p s') \<and> (\<exists>v. fs_flow_heap s' p = Some v)"
    by blast+
qed

text \<open>The flow of a packet: the packet's port being known, there is a result, and the flow it names is alive.\<close>

lemma dp_cache_flow_val_frame [simp]:
  "fs_ports (dp_cache_flow_val p s) = fs_ports s" "fs_flow_heap (dp_cache_flow_val p s) = fs_flow_heap s"
  "fs_offload (dp_cache_flow_val p s) = fs_offload s" "fs_flow_tbl (dp_cache_flow_val p s) = fs_flow_tbl s"
  by (simp_all add: dp_cache_flow_val_def Let_def)

text \<open>The three ways to a flow: from the cache, from the table, or new.\<close>

lemma flow_of_key_cases:
  assumes ok: "flow_ok env s"
  obtains (hit) p where "flow_view env s key = Some p"
      "flow_of_key env port key df s = map_option (\<lambda>(df1, s1). (DP_OK, Some p, df1, s1)) (flow_found env port key p df s)"
    | (known) p where "flow_view env s key = Some p"
      "flow_of_key env port key df s = map_option (\<lambda>(df1, s1). (DP_OK, Some p, df1, dp_cache_flow_val p s1)) (flow_found env port key p df s)"
    | (new) q df1 s1 where "flow_view env s key = None" "flow_table_insert_entry env key df port s = (q, df1, s1)"
      "flow_of_key env port key df s =
        Some (case q of None \<Rightarrow> (DP_ERROR, None, df1, s1) | Some p \<Rightarrow> (DP_OK, Some p, df1, dp_cache_flow_val p s1))"
proof (cases "case cc_prev_key (fs_cache s) of None \<Rightarrow> False | Some i \<Rightarrow> dp_are_flows_identical key (cc_key_cache (fs_cache s) ! i)")
  case True
  then obtain i where "cc_prev_key (fs_cache s) = Some i" "key = cc_key_cache (fs_cache s) ! i"
    by (auto simp: dp_are_flows_identical_def split: option.splits)
  then obtain p where "cc_cached_flow_val (fs_cache s) = Some p" "flow_view env s key = Some p"
    using flow_okD(4) [OF ok] by (auto simp: cache_ok_def)
  then show ?thesis
    using hit [of p] True by (simp add: flow_of_key_def map_conv_bind_option comp_def case_prod_unfold)
next
  case miss: False
  show ?thesis
  proof (cases "flow_view env s key")
    case None
    then have lookup: "dp_get_flow env key s = Inl (- ENOENT)"
      using rh_lookup_Inl [OF flow_okD(1) [OF ok]] by (simp add: dp_get_flow_def flow_view_def)
    obtain q df1 s1 where ins: "flow_table_insert_entry env key df port s = (q, df1, s1)"
      by (metis prod_cases3)
    show ?thesis
      using new [OF None ins] miss lookup ins by (simp add: flow_of_key_def split: option.splits)
  next
    case (Some p)
    then have lookup: "dp_get_flow env key s = Inr p"
      by (simp add: dp_get_flow_def flow_view_def rh_lookup_Inr)
    show ?thesis
      using known [OF Some] miss lookup by (simp add: flow_of_key_def map_conv_bind_option comp_def case_prod_unfold)
  qed
qed

lemma flow_of_key_ok:
  assumes ok: "flow_ok env s" and curr: "curr_key_slot (fs_cache s) = key"
  shows "\<exists>r q df' s'. flow_of_key env port key df s = Some (r, q, df', s') \<and> flow_ok env s' \<and> fs_ports s' = fs_ports s \<and>
    (\<not> DP_FAILED r \<longrightarrow> (\<exists>p v. q = Some p \<and> fs_flow_heap s' p = Some v))"
  using ok
proof (cases rule: flow_of_key_cases [of env s key port df])
  case (hit p)
  obtain v where v: "fs_flow_heap s p = Some v"
    using flow_okD(3) [OF ok hit(1)] by blast
  then show ?thesis
    using flow_found_ok [OF ok v, of port key df] hit(2) by auto
next
  case (known p)
  obtain v where v: "fs_flow_heap s p = Some v"
    using flow_okD(3) [OF ok known(1)] by blast
  obtain df' w where w: "flow_found env port key p df s = Some (df', s\<lparr> fs_flow_heap := (fs_flow_heap s)(p \<mapsto> w) \<rparr>)"
      "flow_ok env (s\<lparr> fs_flow_heap := (fs_flow_heap s)(p \<mapsto> w) \<rparr>)"
    using flow_found_ok [OF ok v] by blast
  have "flow_ok env (dp_cache_flow_val p (s\<lparr> fs_flow_heap := (fs_flow_heap s)(p \<mapsto> w) \<rparr>))"
    using flow_ok_cache [OF flow_ok_flush [OF w(2)], of p] known(1) curr by (simp add: flow_view_def)
  then show ?thesis
    using known(2) w(1) by simp
next
  case (new q df1 s1)
  show ?thesis
    using flow_ok_insert [OF ok new(1) curr new(2)] new(3) by (cases q) auto
qed

lemma dp_get_flow_val_ok:
  assumes ok: "flow_ok env s" and port: "dp_get_in_port m s = Some port"
  shows "\<exists>r q df' s'. dp_get_flow_val env m df s = Some (r, q, df', s') \<and> flow_ok env s' \<and> fs_ports s' = fs_ports s \<and>
    (\<not> DP_FAILED r \<longrightarrow> (\<exists>p v. q = Some p \<and> fs_flow_heap s' p = Some v))"
proof -
  obtain ret key where build: "dp_build_flow_key (fe_nat env) (fe_vnf env) (fs_nat s) (fs_vnf s) port m df (curr_key_slot (fs_cache s)) = (ret, key)"
    by fastforce
  note ok1 = flow_ok_write_key [OF ok, of key]
  have eq: "dp_get_flow_val env m df s = (if DP_FAILED ret then Some (ret, None, df, write_key key s) else flow_of_key env port key df (write_key key s))"
    unfolding dp_get_flow_val_def port by (simp add: build)
  show ?thesis
  proof (cases "DP_FAILED ret")
    case True
    then show ?thesis
      using ok1(1) unfolding eq by (intro exI conjI) (rule if_P, simp_all)
  next
    case False
    then have "dp_get_flow_val env m df s = flow_of_key env port key df (write_key key s)"
      unfolding eq by (rule if_not_P)
    moreover have "fs_ports (write_key key s) = fs_ports s" by simp
    ultimately show ?thesis
      using flow_of_key_ok [OF ok1, of port df] by (simp only:)
  qed
qed

lemma dp_cntrack_handle_ok:
  assumes ok: "flow_ok env s" and port: "dp_get_in_port m s = Some port"
  shows "\<exists>r df' s'. dp_cntrack_handle env now m df s = Some (r, df', s') \<and> flow_ok env s' \<and> fs_ports s' = fs_ports s \<and>
    (r = DP_OK \<longrightarrow> (\<exists>p v. df_conntrack df' = Some p \<and> fs_flow_heap s' p = Some v))"
proof -
  obtain r q df1 s1 where g: "dp_get_flow_val env m df s = Some (r, q, df1, s1)" "flow_ok env s1" "fs_ports s1 = fs_ports s"
      "\<not> DP_FAILED r \<longrightarrow> (\<exists>p v. q = Some p \<and> fs_flow_heap s1 p = Some v)"
    using dp_get_flow_val_ok [OF ok port, of df] by blast
  have port1: "dp_get_in_port m s1 = Some port"
    using port g(3) by (simp add: dp_get_in_port_def split: if_splits)
  show ?thesis
  proof (cases "DP_FAILED r")
    case True
    then show ?thesis
      using g(1-3) unfolding dp_cntrack_handle_def by (simp add: less_le_not_le)
  next
    case False
    then obtain p v where p: "q = Some p" "fs_flow_heap s1 p = Some v"
      using g(4) by blast
    have conn: "df_conntrack (dp_cntrack_set_pkt_offload_decision w (df1\<lparr> df_conntrack := Some p \<rparr>)) = Some p" for w
      by (simp add: dp_cntrack_set_pkt_offload_decision_def)
    define tcp where "tcp \<longleftrightarrow> df_l4_type df1 = IPPROTO_TCP \<and> df_vnf_type df1 \<noteq> DP_VNF_TYPE_LB"
    define bad where "bad \<longleftrightarrow> tcp \<and> df_l3_type df1 \<noteq> RTE_ETHER_TYPE_IPV4 \<and> df_l3_type df1 \<noteq> RTE_ETHER_TYPE_IPV6"
    define v1 where "v1 = v\<lparr> fv_timestamp := now \<rparr>"
    define v2 where "v2 = (if tcp then dp_cntrack_set_timeout_tcp_flow (fs_offload s1) (fs_pf_ports s1 ! 0) port df1
        (dp_cntrack_tcp_state (tcp_flags (mb_l4_hdr m)) v1) else v1)"
    have keys: "fv_flow_key v1 = fv_flow_key v" "fv_flow_key v2 = fv_flow_key v"
      by (simp_all add: v1_def v2_def)
    have "dp_cntrack_handle env now m df s =
        Some (if bad then (DP_ERROR, df1, s1\<lparr> fs_flow_heap := (fs_flow_heap s1)(p \<mapsto> v1) \<rparr>)
              else (DP_OK, dp_cntrack_set_pkt_offload_decision v2 (df1\<lparr> df_conntrack := Some p \<rparr>),
                    s1\<lparr> fs_flow_heap := (fs_flow_heap s1)(p \<mapsto> v2) \<rparr>))"
      using g(1) False p port1 unfolding dp_cntrack_handle_def bad_def tcp_def v2_def v1_def by (simp add: Let_def)
    then show ?thesis
      using flow_ok_write [OF g(2) p(2) keys(1)] flow_ok_write [OF g(2) p(2) keys(2)] g(3) conn by (cases bad) simp_all
  qed
qed

text \<open>The removal of flows and rules, as far as it returns.\<close>

lemma freed_ok:
  assumes ok: "flow_ok env s" and v: "fs_flow_heap s p = Some v"
  shows "flow_ok env (freed env p v s)"
proof -
  note view = freed_view [OF flow_okD(1) [OF ok], of p v s]
  have "\<exists>w. fs_flow_heap (freed env p v s) q = Some w \<and> k \<in> flow_keys w" if "flow_view env (freed env p v s) k = Some q" for k q
  proof -
    have k: "k \<notin> flow_keys v" "flow_view env s k = Some q"
      using that by (auto simp: view restrict_map_def split: if_splits)
    then show ?thesis
      using flow_okD(3) [OF ok k(2)] v by auto
  qed
  then show ?thesis
    unfolding flow_ok_def
    using flow_okD(1,5) [OF ok] release_used(1) [OF flow_okD(2) [OF ok], of v] cache_ok_flush [OF flow_okD(4) [OF ok]]
    by simp
qed

lemma flow_ref_dec_ok:
  assumes ok: "flow_ok env s" and "flow_ref_dec env p s = Some s'"
  shows "flow_ok env s'"
proof -
  obtain v where v: "fs_flow_heap s p = Some v"
    using assms(2) by (cases "fs_flow_heap s p") (auto simp: flow_ref_dec_def)
  show ?thesis
    using assms(2) freed_ok [OF ok v] flow_ok_write [OF ok v, of "v\<lparr> fv_ref_count := fv_ref_count v - 1 \<rparr>"]
    by (auto simp: flow_ref_dec_cases [OF v] split: if_splits)
qed

lemma dp_age_out_flow_ok:
  assumes ok: "flow_ok env s" and "dp_age_out_flow env p s = Some s'"
  shows "flow_ok env s'"
proof -
  obtain v where v: "fs_flow_heap s p = Some v"
    using assms(2) by (cases "fs_flow_heap s p") (auto simp: dp_age_out_flow_def)
  show ?thesis
    using assms(2) flow_ref_dec_ok [OF flow_ok_write [OF ok v, of "v\<lparr> fv_aged := True \<rparr>"], of p s'] v
    by (simp add: dp_age_out_flow_def)
qed

lemma flow_ok_age_heap [simp]: "flow_ok env (s\<lparr> fs_age_heap := h \<rparr>) = flow_ok env s"
  by (simp add: flow_ok_def flow_view_def)

lemma dp_destroy_ok:
  assumes ok: "flow_ok env s" and "dp_destroy_rte_flow_agectx env c s = Some s'"
  shows "flow_ok env s'"
proof (cases c)
  case None
  then show ?thesis using assms by (simp add: dp_destroy_rte_flow_agectx_def)
next
  case (Some c')
  obtain ctx where ctx: "fs_age_heap s c' = Some ctx"
    using assms(2) Some by (cases "fs_age_heap s c'") (auto simp: dp_destroy_rte_flow_agectx_def)
  define ctx' where "ctx' = ctx\<lparr> ac_handle := None, ac_rte_flow := None \<rparr>"
  define s1 where "s1 = s\<lparr> fs_age_heap := (fs_age_heap s)(c' \<mapsto> ctx') \<rparr>"
  have ok1: "flow_ok env s1" using ok by (simp add: s1_def)
  have del_ok: "flow_ok env s2" if del: "dp_del_rte_age_ctx p ctx' s1 = Some (r, s2)" for p r s2
  proof (cases "fs_flow_heap s1 p")
    case None
    then show ?thesis using del ok1 by (auto simp: dp_del_rte_age_ctx_def split: if_splits)
  next
    case (Some v)
    then show ?thesis
      using del ok1 flow_ok_write [OF ok1 Some, of "v\<lparr> fv_rte_age_ctxs := (fv_rte_age_ctxs v)[unat (ac_ref_index_in_cntrack ctx') := None] \<rparr>"]
      by (auto simp: dp_del_rte_age_ctx_def split: if_splits)
  qed
  have eq: "dp_destroy_rte_flow_agectx env c s =
      do { s2 \<leftarrow> (case ac_cntrack ctx' of None \<Rightarrow> Some s1
                   | Some p \<Rightarrow> do { (_, s2) \<leftarrow> dp_del_rte_age_ctx p ctx' s1; flow_ref_dec env p s2 });
           Some (s2\<lparr> fs_age_heap := rte_free (fs_age_heap s2) c' \<rparr>) }"
    unfolding s1_def ctx'_def by (simp add: dp_destroy_rte_flow_agectx_def Some ctx Let_def)
  show ?thesis
  proof (cases "ac_cntrack ctx'")
    case None
    then have "s' = s1\<lparr> fs_age_heap := rte_free (fs_age_heap s1) c' \<rparr>"
      using assms(2) unfolding eq by simp
    then show ?thesis using ok1 by simp
  next
    case (Some p)
    then obtain r s2 s3 where s2: "dp_del_rte_age_ctx p ctx' s1 = Some (r, s2)" "flow_ref_dec env p s2 = Some s3"
        "s' = s3\<lparr> fs_age_heap := rte_free (fs_age_heap s3) c' \<rparr>"
      using assms(2) unfolding eq by (auto simp: bind_eq_Some_conv)
    show ?thesis
      using flow_ref_dec_ok [OF del_ok [OF s2(1)] s2(2)] s2(3) by simp
  qed
qed

lemma destroy_agectxs_ok: "flow_ok env s \<Longrightarrow> destroy_agectxs env cs s = Some s' \<Longrightarrow> flow_ok env s'"
  by (induction cs arbitrary: s) (auto simp: bind_eq_Some_conv dest: dp_destroy_ok)

lemma remove_slots_ok: "flow_ok env s \<Longrightarrow> remove_slots env p is s = Some s' \<Longrightarrow> flow_ok env s'"
  by (induction "is" arbitrary: s) (auto simp: bind_eq_Some_conv dest: dp_destroy_ok)

lemma query_slots_ok: "flow_ok env s \<Longrightarrow> query_slots env p is s = Some (r, s') \<Longrightarrow> flow_ok env s'"
proof (induction "is" arbitrary: s)
  case (Cons i "is")
  obtain v where v: "fs_flow_heap s p = Some v"
    using Cons.prems(2) by (auto simp: bind_eq_Some_conv)
  show ?case
  proof (cases "fv_rte_age_ctxs v ! i")
    case None
    then show ?thesis using Cons v by simp
  next
    case (Some c)
    then obtain ctx where ctx: "fs_age_heap s c = Some ctx"
      using Cons.prems(2) v by (auto simp: bind_eq_Some_conv)
    show ?thesis
    proof (cases "ac_handle ctx")
      case None
      then show ?thesis using Cons v ctx Some by simp
    next
      case (Some h)
      obtain ret sec where "fe_age_query env (ac_port_id ctx) h = (ret, sec)" by fastforce
      then show ?thesis
        using Cons v ctx \<open>fv_rte_age_ctxs v ! i = Some c\<close> Some
        by (auto simp: bind_eq_Some_conv split: if_splits dest: dp_destroy_ok)
    qed
  qed
qed simp

lemma dp_remove_flow_ok:
  assumes "flow_ok env s" "dp_remove_flow env p s = Some s'"
  shows "flow_ok env s'"
proof -
  obtain s1 where s1: "(if fs_offload s then dp_rte_flow_remove env p s else Some s) = Some s1" "dp_age_out_flow env p s1 = Some s'"
    using assms(2) by (auto simp: dp_remove_flow_def bind_eq_Some_conv)
  have "flow_ok env s1"
    using s1(1) assms(1) remove_slots_ok [OF assms(1)] by (auto simp: dp_rte_flow_remove_def split: if_splits)
  then show ?thesis
    using s1(2) by (rule dp_age_out_flow_ok)
qed

lemma flow_foreach_ok:
  assumes iter: "rte_iter_ok (fe_flow env) slots" and "flow_ok env s"
    and body: "\<And>k p s s'. flow_ok env s \<Longrightarrow> body k p s = Some s' \<Longrightarrow> flow_ok env s'"
  shows "\<exists>res. flow_foreach env body s = Some res \<and> (\<forall>s'. res = Some s' \<longrightarrow> flow_ok env s')"
proof -
  let ?J = "\<lambda>r. \<forall>s'. r = Some s' \<longrightarrow> flow_ok env s'"
  let ?b = "\<lambda>k p s'. case body k p s' of None \<Rightarrow> Inl None | Some s'' \<Rightarrow> Inr s''"
  have step: "case ?b k p s of Inl r \<Rightarrow> ?J r | Inr s' \<Rightarrow> flow_ok env s'" if "flow_ok env s" for k p s
    using body [OF that, of k p] by (simp split: option.splits)
  obtain res where res: "rh_foreach (fe_flow env) fs_flow_tbl (\<lambda>_ s'. Some s') ?b 0 s = Some res"
      "case res of Inl r \<Rightarrow> ?J r | Inr s' \<Rightarrow> flow_ok env s'"
    using rh_foreach_keeps [where I = "flow_ok env" and J = ?J and tbl = fs_flow_tbl and err = "\<lambda>_ s'. Some s'" and body = ?b and i = 0,
        OF iter step assms(2)] by auto
  then show ?thesis
    by (auto simp: flow_foreach_def split: sum.splits)
qed

lemma remove_flows_ok:
  assumes "rte_iter_ok (fe_flow env) slots" "flow_ok env s"
  shows "\<exists>res. remove_flows env sel s = Some res \<and> (\<forall>s'. res = Some s' \<longrightarrow> flow_ok env s')"
  unfolding remove_flows_def
  by (rule flow_foreach_ok [OF assms]) (auto simp: bind_eq_Some_conv split: if_splits dest: dp_remove_flow_ok)

lemma aging_ok:
  assumes "rte_iter_ok (fe_flow env) slots" "flow_ok env s"
  shows "\<exists>res. dp_process_aged_flows_non_offload env now hz s = Some res \<and> (\<forall>s'. res = Some s' \<longrightarrow> flow_ok env s')"
proof -
  have "flow_ok env s'"
    if ok: "flow_ok env s" and run: "do {
         s1 \<leftarrow> (if fs_offload s \<and> fk_proto k = IPPROTO_TCP then map_option snd (dp_rte_flow_query_and_remove env p s) else Some s);
         v \<leftarrow> fs_flow_heap s1 p;
         (if flow_expired now hz v then dp_age_out_flow env p s1 else Some s1) } = Some s'" for k :: flow_key and p s s'
  proof -
    obtain s1 v where s1: "(if fs_offload s \<and> fk_proto k = IPPROTO_TCP then map_option snd (dp_rte_flow_query_and_remove env p s) else Some s) = Some s1"
        "fs_flow_heap s1 p = Some v" "(if flow_expired now hz v then dp_age_out_flow env p s1 else Some s1) = Some s'"
      using run by (auto simp: bind_eq_Some_conv)
    have "flow_ok env s1"
      using s1(1) ok query_slots_ok [OF ok, of p "[0..<6]"] by (auto simp: dp_rte_flow_query_and_remove_def split: if_splits)
    then show ?thesis
      using s1(3) dp_age_out_flow_ok by (auto split: if_splits)
  qed
  then show ?thesis
    unfolding dp_process_aged_flows_non_offload_def by (rule flow_foreach_ok [OF assms])
qed

text \<open>
  The life of the flow table: packets, software and hardware aging, and the removals that requests cause,
  in any order.  Only steps that return are taken.
\<close>

inductive cntrack_step :: "('t, 'e) flow_env_scheme \<Rightarrow> ('t, 'z) flow_state_scheme \<Rightarrow> ('t, 'z) flow_state_scheme \<Rightarrow> bool" for env where
  packet: "dp_cntrack_handle env now m df s = Some (r, df', s') \<Longrightarrow> cntrack_step env s s'"
| aging: "dp_process_aged_flows_non_offload env now hz s = Some (Some s') \<Longrightarrow> cntrack_step env s s'"
| hardware_aging: "dp_process_aged_flows env n_total alloc fetched contexts s = Some s' \<Longrightarrow> cntrack_step env s s'"
| nat_removed: "dp_remove_nat_flows env port_id nat_type s = Some (Some s') \<Longrightarrow> cntrack_step env s s'"
| neighnat_removed: "dp_remove_neighnat_flows env ip vni min_port max_port s = Some (Some s') \<Longrightarrow> cntrack_step env s s'"
| iface_removed: "dp_remove_iface_flows env port_id ip vni s = Some (Some s') \<Longrightarrow> cntrack_step env s s'"

lemma dp_cntrack_handle_keeps:
  assumes "flow_ok env s" "dp_cntrack_handle env now m df s = Some (r, df', s')"
  shows "flow_ok env s'"
proof -
  obtain port where "dp_get_in_port m s = Some port"
    using assms(2) by (cases "dp_get_in_port m s") (auto simp: dp_cntrack_handle_def dp_get_flow_val_def)
  then show ?thesis
    using dp_cntrack_handle_ok [OF assms(1), of m port now df] assms(2) by auto
qed

lemma cntrack_step_ok:
  assumes iter: "rte_iter_ok (fe_flow env) slots"
  shows "cntrack_step env s s' \<Longrightarrow> flow_ok env s \<Longrightarrow> flow_ok env s'"
proof (induction rule: cntrack_step.induct)
  case (packet now m df s r df' s')
  then show ?case by (blast intro: dp_cntrack_handle_keeps)
next
  case (aging now hz s s')
  then show ?case using aging_ok [OF iter, of s now hz] by auto
next
  case (hardware_aging n_total alloc fetched contexts s s')
  then show ?case
    by (auto simp: dp_process_aged_flows_def split: if_splits intro: destroy_agectxs_ok)
next
  case (nat_removed port_id nat_type s s')
  then show ?case using remove_flows_ok [OF iter nat_removed(2), of "nat_flow_of port_id nat_type"] by (auto simp: dp_remove_nat_flows_def)
next
  case (neighnat_removed ip vni min_port max_port s s')
  then show ?case using remove_flows_ok [OF iter neighnat_removed(2), of "neighnat_flow_of ip vni min_port max_port"] by (auto simp: dp_remove_neighnat_flows_def)
next
  case (iface_removed port_id ip vni s s')
  then show ?case using remove_flows_ok [OF iter iface_removed(2), of "iface_flow_of port_id ip vni"] by (auto simp: dp_remove_iface_flows_def)
qed

section \<open>The cache is transparent\<close>

definition same_but_cache :: "('t, 'z) flow_state_scheme \<Rightarrow> ('t, 'z) flow_state_scheme \<Rightarrow> bool" where
  "same_but_cache s s' \<longleftrightarrow> s' = s\<lparr> fs_cache := fs_cache s' \<rparr>"

lemma same_but_cacheI [intro]: "same_but_cache s (s\<lparr> fs_cache := c \<rparr>)"
  by (simp add: same_but_cache_def)

lemma same_but_cacheE:
  assumes "same_but_cache s s'" obtains c where "s' = s\<lparr> fs_cache := c \<rparr>"
  using assms unfolding same_but_cache_def by blast

lemma flow_found_cache:
  "flow_found env port key p df (s\<lparr> fs_cache := c \<rparr>) = map_option (\<lambda>(df1, s1). (df1, s1\<lparr> fs_cache := c \<rparr>)) (flow_found env port key p df s)"
  by (cases "fs_flow_heap s p")
    (simp_all add: flow_found_def dp_set_pkt_flow_direction_def dp_get_conntrack_flow_hash_value_def Let_def)

lemma dp_add_flow_cache:
  "dp_add_flow env key p (s\<lparr> fs_cache := c \<rparr>) = (fst (dp_add_flow env key p s), (snd (dp_add_flow env key p s))\<lparr> fs_cache := c \<rparr>)"
  by (simp add: dp_add_flow_def case_prod_unfold Let_def)

lemma dp_cache_flow_val_same: "same_but_cache s s' \<Longrightarrow> same_but_cache (dp_cache_flow_val p s) (dp_cache_flow_val p s')"
  by (elim same_but_cacheE) (simp add: same_but_cache_def dp_cache_flow_val_def Let_def)

lemma insert_cache:
  "rel_prod (=) (rel_prod (=) same_but_cache)
    (flow_table_insert_entry env key df port s) (flow_table_insert_entry env key df port (s\<lparr> fs_cache := c \<rparr>))"
proof (cases "fe_flow_malloc env (fs_flow_heap s)")
  case None
  then show ?thesis by (simp add: flow_table_insert_entry_def same_but_cacheI)
next
  case (Some p)
  define df1 where "df1 = df\<lparr> df_flow_dir := DP_FLOW_DIR_ORG \<rparr>"
  define v where "v = new_flow_value env key df1 port s"
  have v': "new_flow_value env key df1 port (s\<lparr> fs_cache := c \<rparr>) = v"
    by (simp add: v_def new_flow_value_def)
  obtain r t where add: "rh_add_data (fe_flow env) (fs_flow_tbl s) key p = (r, t)" by fastforce
  obtain r' t' where add': "rh_add_data (fe_flow env) t (dp_invert_flow_key key) p = (r', t')" by fastforce
  note [simp] = df1_def [symmetric] v' v_def [symmetric]
  show ?thesis
    using Some add add'
    by (simp add: flow_table_insert_entry_def dp_add_flow_def Let_def
        dp_get_conntrack_flow_hash_value_def dp_delete_flow_def dp_delete_flow_no_flush_def dp_cntrack_flush_cache_def)
      (cases s; simp add: same_but_cache_def)
qed

definition same_result ::
  "int \<times> ptr option \<times> dp_flow \<times> ('t, 'z) flow_state_scheme \<Rightarrow> int \<times> ptr option \<times> dp_flow \<times> ('t, 'z) flow_state_scheme \<Rightarrow> bool" where
  "same_result = (\<lambda>(r, q, df, s) (r', q', df', s'). r' = r \<and> q' = q \<and> df' = df \<and> same_but_cache s s')"

lemma flow_of_key_cache:
  assumes ok: "flow_ok env s"
  shows "rel_option same_result (flow_of_key env port key df s) (flow_of_key env port key df (dp_cntrack_flush_cache s))"
proof -
  define c where "c = (fs_cache s)\<lparr> cc_prev_key := None, cc_cached_flow_val := None \<rparr>"
  have flush: "dp_cntrack_flush_cache s = s\<lparr> fs_cache := c \<rparr>"
    by (simp add: dp_cntrack_flush_cache_def c_def)
  have prev: "cc_prev_key c = None" by (simp add: c_def)
  have look: "dp_get_flow env key (s\<lparr> fs_cache := c \<rparr>) = rh_lookup (fe_flow env) (fs_flow_tbl s) key"
    by (simp add: dp_get_flow_def)
  have flushed: "flow_of_key env port key df (s\<lparr> fs_cache := c \<rparr>) =
      (case flow_view env s key of
         Some p \<Rightarrow> map_option (\<lambda>(df1, s1). (DP_OK, Some p, df1, dp_cache_flow_val p (s1\<lparr> fs_cache := c \<rparr>))) (flow_found env port key p df s)
       | None \<Rightarrow> (case flow_table_insert_entry env key df port (s\<lparr> fs_cache := c \<rparr>) of
                   (None, df1, s1) \<Rightarrow> Some (DP_ERROR, None, df1, s1)
                 | (Some p, df1, s1) \<Rightarrow> Some (DP_OK, Some p, df1, dp_cache_flow_val p s1)))"
    unfolding flow_of_key_def look flow_found_cache
    by (simp add: prev flow_view_def rh_lookup_view [OF flow_okD(1) [OF ok]] map_conv_bind_option case_prod_unfold
        bind_assoc comp_def split: option.splits)
  from ok show ?thesis
  proof (cases rule: flow_of_key_cases [of env s key port df])
    case (hit p)
    then show ?thesis
      by (cases "flow_found env port key p df s")
        (auto simp: flush flushed same_result_def dp_cache_flow_val_def Let_def)
  next
    case (known p)
    then show ?thesis
      by (cases "flow_found env port key p df s")
        (auto simp: flush flushed same_result_def intro: dp_cache_flow_val_same)
  next
    case (new q df1 s1)
    obtain s1' where "flow_table_insert_entry env key df port (s\<lparr> fs_cache := c \<rparr>) = (q, df1, s1')" "same_but_cache s1 s1'"
      using insert_cache [of env key df port s c] new(2)
      by (cases "flow_table_insert_entry env key df port (s\<lparr> fs_cache := c \<rparr>)") auto
    then show ?thesis
      using new(1,3) by (cases q) (auto simp: flush flushed same_result_def intro: dp_cache_flow_val_same)
  qed
qed

lemma dp_get_flow_val_cache:
  assumes ok: "flow_ok env s"
  shows "rel_option same_result (dp_get_flow_val env m df s) (dp_get_flow_val env m df (dp_cntrack_flush_cache s))"
proof (cases "dp_get_in_port m s")
  case None
  then have "dp_get_in_port m (dp_cntrack_flush_cache s) = None"
    by (simp add: dp_get_in_port_def dp_cntrack_flush_cache_def split: if_splits)
  then show ?thesis
    unfolding dp_get_flow_val_def None by simp
next
  case (Some port)
  obtain ret key where build: "dp_build_flow_key (fe_nat env) (fe_vnf env) (fs_nat s) (fs_vnf s) port m df (curr_key_slot (fs_cache s)) = (ret, key)"
    by fastforce
  have flush: "dp_get_in_port m (dp_cntrack_flush_cache s) = Some port"
    "write_key key (dp_cntrack_flush_cache s) = dp_cntrack_flush_cache (write_key key s)"
    "fs_nat (dp_cntrack_flush_cache s) = fs_nat s" "fs_vnf (dp_cntrack_flush_cache s) = fs_vnf s"
    "curr_key_slot (fs_cache (dp_cntrack_flush_cache s)) = curr_key_slot (fs_cache s)"
    using Some by (simp_all add: dp_get_in_port_def dp_cntrack_flush_cache_def split: if_splits)
  show ?thesis
  proof (cases "DP_FAILED ret")
    case True
    then have "dp_get_flow_val env m df s = Some (ret, None, df, write_key key s)"
      "dp_get_flow_val env m df (dp_cntrack_flush_cache s) = Some (ret, None, df, dp_cntrack_flush_cache (write_key key s))"
      unfolding dp_get_flow_val_def Some flush by (simp_all add: build flush)
    then show ?thesis
      by (simp add: same_result_def dp_cntrack_flush_cache_def same_but_cache_def)
  next
    case False
    then have "dp_get_flow_val env m df s = flow_of_key env port key df (write_key key s)"
      "dp_get_flow_val env m df (dp_cntrack_flush_cache s) = flow_of_key env port key df (dp_cntrack_flush_cache (write_key key s))"
      unfolding dp_get_flow_val_def Some flush by (simp_all add: build flush)
    then show ?thesis
      using flow_of_key_cache [OF flow_ok_write_key(1) [OF ok]] by (simp only:)
  qed
qed

text \<open>
  C31: The cache of the last flow is transparent: processing a packet with the cache and processing it right after the cache was
  flushed give the same return code, the same packet data and, but for the cache itself, the same state.
\<close>

theorem dp_cntrack_cache_transparent:
  assumes ok: "flow_ok env s"
  shows "rel_option (\<lambda>(r, df1, s1) (r', df1', s1'). r' = r \<and> df1' = df1 \<and> same_but_cache s1 s1')
    (dp_cntrack_handle env now m df s) (dp_cntrack_handle env now m df (dp_cntrack_flush_cache s))"
  using dp_get_flow_val_cache [OF ok, of m df]
proof (cases rule: option.rel_cases)
  case None
  then show ?thesis by (simp add: dp_cntrack_handle_def)
next
  case (Some x y)
  obtain r q df1 s1 where x: "x = (r, q, df1, s1)" by (cases x) auto
  then obtain c where y: "y = (r, q, df1, s1\<lparr> fs_cache := c \<rparr>)"
    using Some(3) by (auto simp: same_result_def elim!: same_but_cacheE)
  have port: "dp_get_in_port m (s1\<lparr> fs_cache := c \<rparr>) = dp_get_in_port m s1"
    by (simp add: dp_get_in_port_def)
  show ?thesis
    using Some(1,2) unfolding dp_cntrack_handle_def x y
    by (cases "dp_get_in_port m s1"; cases q; cases "fs_flow_heap s1 (the q)")
      (auto simp: port Let_def same_but_cache_def)
qed

section \<open>Packets and flows\<close>

text \<open>
  C30: However packets, the aging passes and the removals of flows interleave, no key of the flow table and no cached flow is left
  pointing to a freed flow, and the next packet of a known port is processed without touching freed memory; when it is accepted,
  the flow attached to it is alive.
\<close>

theorem conntrack_no_dangling:
  assumes iter: "rte_iter_ok (fe_flow env) slots" and start: "flow_ok env s0" and run: "(cntrack_step env)\<^sup>*\<^sup>* s0 s"
    and port: "dp_get_in_port m s = Some port"
  shows "(\<forall>k p. flow_view env s k = Some p \<longrightarrow> fs_flow_heap s p \<noteq> None) \<and>
    (\<exists>r df' s'. dp_cntrack_handle env now m df s = Some (r, df', s') \<and>
      (r = DP_OK \<longrightarrow> (\<exists>p. df_conntrack df' = Some p \<and> fs_flow_heap s' p \<noteq> None)))"
proof -
  have ok: "flow_ok env s"
    using run start by (induction rule: rtranclp_induct) (auto intro: cntrack_step_ok [OF iter])
  show ?thesis
    using flow_okD(3) [OF ok] dp_cntrack_handle_ok [OF ok port, of now df] by fastforce
qed

lemma handle_of_flow:
  assumes "dp_get_flow_val env m df s = Some (DP_OK, Some p, df1, s1)" "dp_get_in_port m s1 = Some port" "fs_flow_heap s1 p = Some v"
    and "df_l3_type df1 = RTE_ETHER_TYPE_IPV4 \<or> df_l3_type df1 = RTE_ETHER_TYPE_IPV6"
  shows "\<exists>df2 w. dp_cntrack_handle env now m df s = Some (DP_OK, df2, s1\<lparr> fs_flow_heap := (fs_flow_heap s1)(p \<mapsto> w) \<rparr>) \<and>
    fv_flow_key w = fv_flow_key v \<and> df_conntrack df2 = Some p \<and> df_flow_dir df2 = df_flow_dir df1"
  unfolding dp_cntrack_handle_def
  using assms by (auto simp: Let_def dp_cntrack_set_pkt_offload_decision_def flow_key_kept)

lemma insert_entry_l3:
  "flow_table_insert_entry env key df port s = (q, df', s') \<Longrightarrow> df_l3_type df' = df_l3_type df"
  by (auto simp: flow_table_insert_entry_def Let_def split: option.splits prod.splits if_splits)

lemma found_direction:
  assumes "flow_found env port key p df s = Some (df', s')" "fs_flow_heap s p = Some v"
  shows "fv_flow_key v DP_FLOW_DIR_ORG = key \<Longrightarrow> df_flow_dir df' = DP_FLOW_DIR_ORG"
    "fv_flow_key v DP_FLOW_DIR_REPLY = key \<Longrightarrow> fv_flow_key v DP_FLOW_DIR_ORG \<noteq> key \<Longrightarrow> df_flow_dir df' = DP_FLOW_DIR_REPLY"
    "df_l3_type df' = df_l3_type df"
  using assms by (auto simp: flow_found_def dp_set_pkt_flow_direction_def dp_are_flows_identical_def Let_def)

text \<open>The first packet of a connection.\<close>

lemma handle_first_packet:
  assumes ok: "flow_ok env s" and port: "dp_get_in_port m s = Some port"
    and key: "dp_build_flow_key (fe_nat env) (fe_vnf env) (fs_nat s) (fs_vnf s) port m df (curr_key_slot (fs_cache s)) = (DP_OK, key)"
    and new: "flow_view env s key = None" and accept: "dp_cntrack_handle env now m df s = Some (DP_OK, df1, s1)"
  shows "flow_ok env s1 \<and> fs_ports s1 = fs_ports s \<and> df_flow_dir df1 = DP_FLOW_DIR_ORG \<and>
    (\<exists>p v. df_conntrack df1 = Some p \<and> fs_flow_heap s1 p = Some v \<and> flow_view env s1 (dp_invert_flow_key key) = Some p \<and>
      fv_flow_key v DP_FLOW_DIR_ORG = key \<and> fv_flow_key v DP_FLOW_DIR_REPLY = dp_invert_flow_key key)"
proof -
  let ?s = "write_key key s"
  have flow: "dp_get_flow_val env m df s = flow_of_key env port key df ?s"
    unfolding dp_get_flow_val_def port by (simp add: key)
  have l3: "df_l3_type df = RTE_ETHER_TYPE_IPV4 \<or> df_l3_type df = RTE_ETHER_TYPE_IPV6"
    using key by (auto simp: dp_build_flow_key_steps split: if_splits)
  have ok': "flow_ok env ?s" and new': "flow_view env ?s key = None"
    using flow_ok_write_key(1) [OF ok] new by (simp_all add: flow_view_def)
  have "\<exists>p df' s2 v. dp_get_flow_val env m df s = Some (DP_OK, Some p, df', s2) \<and> fs_flow_heap s2 p = Some v \<and>
      flow_view env s2 (dp_invert_flow_key key) = Some p \<and> df_flow_dir df' = DP_FLOW_DIR_ORG \<and> df_l3_type df' = df_l3_type df \<and>
      fv_flow_key v DP_FLOW_DIR_ORG = key \<and> fv_flow_key v DP_FLOW_DIR_REPLY = dp_invert_flow_key key"
    using ok' new'
  proof (cases rule: flow_table_insert_entry_cases [where df = df and port = port])
    case (failed df' t c)
    have "dp_get_flow_val env m df s = Some (DP_ERROR, None, df', ?s\<lparr> fs_flow_tbl := t, fs_cache := c \<rparr>)"
      using ok' failed(1) new' unfolding flow by (cases rule: flow_of_key_cases [where key = key and port = port and df = df]) auto
    then show ?thesis
      using accept by (simp add: dp_cntrack_handle_def)
  next
    case (inserted p df' t v)
    have "dp_get_flow_val env m df s =
        Some (DP_OK, Some p, df', dp_cache_flow_val p (?s\<lparr> fs_flow_tbl := t, fs_flow_heap := (fs_flow_heap ?s)(p \<mapsto> v) \<rparr>))"
      using ok' inserted(1) new' unfolding flow by (cases rule: flow_of_key_cases [where key = key and port = port and df = df]) auto
    then show ?thesis
      using inserted(2,4,5,6) insert_entry_l3 [OF inserted(1)] by (auto simp: dp_cache_flow_val_def flow_view_def Let_def)
  qed
  then obtain p df' s2 v where get: "dp_get_flow_val env m df s = Some (DP_OK, Some p, df', s2)" "fs_flow_heap s2 p = Some v"
      "flow_view env s2 (dp_invert_flow_key key) = Some p" "df_flow_dir df' = DP_FLOW_DIR_ORG" "df_l3_type df' = df_l3_type df"
      "fv_flow_key v DP_FLOW_DIR_ORG = key" "fv_flow_key v DP_FLOW_DIR_REPLY = dp_invert_flow_key key"
    by blast
  have port2: "dp_get_in_port m s2 = Some port"
    using dp_get_flow_val_ok [OF ok port, of df] get(1) port by (auto simp: dp_get_in_port_def split: if_splits)
  have l3': "df_l3_type df' = RTE_ETHER_TYPE_IPV4 \<or> df_l3_type df' = RTE_ETHER_TYPE_IPV6"
    using l3 get(5) by simp
  show ?thesis
    using handle_of_flow [OF get(1) port2 get(2) l3', of now] dp_cntrack_handle_ok [OF ok port, of now df] accept get(3,4,6,7)
    by (auto simp: flow_view_def)
qed

text \<open>A packet of a registered flow.\<close>

lemma handle_known_packet:
  assumes ok: "flow_ok env s" and port: "dp_get_in_port m s = Some port"
    and key: "dp_build_flow_key (fe_nat env) (fe_vnf env) (fs_nat s) (fs_vnf s) port m df (curr_key_slot (fs_cache s)) = (DP_OK, key)"
    and known: "flow_view env s key = Some p" and v: "fs_flow_heap s p = Some v"
  shows "\<exists>df1 s1 s2 df2. flow_found env port key p df (write_key key s) = Some (df1, s1) \<and>
    dp_cntrack_handle env now m df s = Some (DP_OK, df2, s2) \<and> df_conntrack df2 = Some p \<and> df_flow_dir df2 = df_flow_dir df1"
proof -
  let ?s = "write_key key s"
  have flow: "dp_get_flow_val env m df s = flow_of_key env port key df ?s"
    unfolding dp_get_flow_val_def port by (simp add: key)
  have l3: "df_l3_type df = RTE_ETHER_TYPE_IPV4 \<or> df_l3_type df = RTE_ETHER_TYPE_IPV6"
    using key by (auto simp: dp_build_flow_key_steps split: if_splits)
  have ok': "flow_ok env ?s" and known': "flow_view env ?s key = Some p" and v': "fs_flow_heap ?s p = Some v"
    using flow_ok_write_key(1) [OF ok] known v by (simp_all add: flow_view_def)
  obtain df1 s1 w where found: "flow_found env port key p df ?s = Some (df1, s1)" "s1 = ?s\<lparr> fs_flow_heap := (fs_flow_heap ?s)(p \<mapsto> w) \<rparr>"
    using flow_found_ok [OF ok' v', of port key df] by blast
  obtain s2 where get: "dp_get_flow_val env m df s = Some (DP_OK, Some p, df1, s2)" "fs_flow_heap s2 p = Some w" "fs_ports s2 = fs_ports s"
    using ok' known' found unfolding flow
    by (cases rule: flow_of_key_cases [where key = key and port = port and df = df]) (auto simp: dp_cache_flow_val_def Let_def)
  have port2: "dp_get_in_port m s2 = Some port"
    using get(3) port by (simp add: dp_get_in_port_def split: if_splits)
  show ?thesis
    using handle_of_flow [OF get(1) port2 get(2), of now] l3 found_direction(3) [OF found(1) v'] found(1) by auto
qed

text \<open>
  C32: The reply of an accepted first packet finds the flow that packet created, in the reply direction, when the two ports are in
  the same network, see the same kind of virtual network function, and the connection is not its own reply.
\<close>

theorem reply_finds_flow:
  assumes ok: "flow_ok env s" and port: "dp_get_in_port m s = Some port"
    and key: "dp_build_flow_key (fe_nat env) (fe_vnf env) (fs_nat s) (fs_vnf s) port m df (curr_key_slot (fs_cache s)) = (DP_OK, key)"
    and new: "flow_view env s key = None" and accept: "dp_cntrack_handle env now m df s = Some (DP_OK, df1, s1)"
    and port': "dp_get_in_port m' s1 = Some port'"
    and key': "dp_build_flow_key (fe_nat env) (fe_vnf env) (fs_nat s1) (fs_vnf s1) port' m' rdf (curr_key_slot (fs_cache s1)) = (DP_OK, key')"
    and reply: "reply_packet df rdf" and same: "fk_vni key' = fk_vni key" "fk_vnf_type key' = fk_vnf_type key" and other: "key' \<noteq> key"
  shows "df_flow_dir df1 = DP_FLOW_DIR_ORG \<and>
    (\<exists>df2 s2. dp_cntrack_handle env now' m' rdf s1 = Some (DP_OK, df2, s2) \<and>
      df_conntrack df2 = df_conntrack df1 \<and> df_flow_dir df2 = DP_FLOW_DIR_REPLY)"
proof -
  have inverted: "key' = dp_invert_flow_key key"
    using reply_key [OF key key' reply] same by (auto simp: invert_ports intro: flow_key_eqI)
  obtain p v where first: "flow_ok env s1" "df_flow_dir df1 = DP_FLOW_DIR_ORG" "df_conntrack df1 = Some p" "fs_flow_heap s1 p = Some v"
      "flow_view env s1 key' = Some p" "fv_flow_key v DP_FLOW_DIR_ORG = key" "fv_flow_key v DP_FLOW_DIR_REPLY = key'"
    using handle_first_packet [OF ok port key new accept] inverted by auto
  obtain df' s' s2 df2 where known: "flow_found env port' key' p rdf (write_key key' s1) = Some (df', s')"
      "dp_cntrack_handle env now' m' rdf s1 = Some (DP_OK, df2, s2)" "df_conntrack df2 = Some p" "df_flow_dir df2 = df_flow_dir df'"
    using handle_known_packet [OF first(1) port' key' first(5,4), of now'] by blast
  have "df_flow_dir df' = DP_FLOW_DIR_REPLY"
    using found_direction(2) [OF known(1)] first(4,6,7) other by simp
  then show ?thesis
    using first(2,3) known(2,3,4) by auto
qed

section \<open>A connection\<close>

definition ported_flow_state :: "list_table flow_state" where
  "ported_flow_state = empty_flow_state\<lparr> fs_ports := [Some zero_port] \<rparr>"

definition reply_df :: dp_flow where
  "reply_df = example_v6_df\<lparr> df_src_addr6 := df_dst_addr6 example_v6_df, df_dst_addr6 := df_src_addr6 example_v6_df,
     df_src_port := df_dst_port example_v6_df, df_dst_port := df_src_port example_v6_df \<rparr>"

lemma ported_flow_ok: "flow_ok list_flow_env ported_flow_state" "flow_view list_flow_env ported_flow_state = Map.empty"
proof -
  show view: "flow_view list_flow_env ported_flow_state = Map.empty"
    by (auto simp: flow_view_def list_flow_env_def ported_flow_state_def empty_flow_state_def list_hash_view list_slots_def)
  show "flow_ok list_flow_env ported_flow_state"
    unfolding flow_ok_def view
    by (simp add: list_flow_env_ok ported_flow_state_def empty_flow_state_def cache_ok_def empty_cache_def)
      (simp add: list_flow_env_def empty_nat_ok)
qed

definition example_ipv4_hdr :: rte_ipv4_hdr where
  "example_ipv4_hdr = \<lparr> ipv4_version_ihl = 0x45, ipv4_type_of_service = 0, ipv4_total_length = 40, ipv4_packet_id = 0,
     ipv4_fragment_offset = 0, ipv4_time_to_live = 64, ipv4_next_proto_id = IPPROTO_TCP, ipv4_hdr_checksum = 0,
     ipv4_src_addr = 10, ipv4_dst_addr = 20 \<rparr>"

definition example_mbuf :: rte_mbuf where
  "example_mbuf = \<lparr> mb_port = 0, mb_ipv4_hdr = example_ipv4_hdr, mb_l4_hdr = Tcp_hdr 0 0 2 0,
     mb_err_ipv4_hdr = example_ipv4_hdr, mb_err_src_port = 0, mb_err_dst_port = 0 \<rparr>"

lemma ported_in_port: "dp_get_in_port example_mbuf ported_flow_state = Some zero_port"
  by (simp add: dp_get_in_port_def example_mbuf_def ported_flow_state_def)

lemma example_v6_keys:
  "dp_build_flow_key nenv venv ns vs zero_port m example_v6_df k =
     (DP_OK, k\<lparr> fk_l3_dst := DP_SET_IPADDR6 2, fk_l3_src := DP_SET_IPADDR6 1, fk_proto := IPPROTO_TCP, fk_port_dst := 0, fk_port_src := 0,
        fk_vni := 0 \<rparr>)"
  "dp_build_flow_key nenv venv ns vs zero_port m reply_df k =
     (DP_OK, k\<lparr> fk_l3_dst := DP_SET_IPADDR6 1, fk_l3_src := DP_SET_IPADDR6 2, fk_proto := IPPROTO_TCP, fk_port_dst := 0, fk_port_src := 0,
        fk_vni := 0 \<rparr>)"
  by (simp_all add: dp_build_flow_key_def reply_df_def example_v6_df_def dp_init_flow_ptr_def Let_def dp_mark_vnf_type_def zero_port_def
      dp_is_ip6_in_nat64_range_def take_bit_eq_mod ntohs_def)

lemma insert_into_empty:
  assumes "fs_flow_tbl s = []" "fs_flow_heap s = Map.empty"
  shows "fst (flow_table_insert_entry list_flow_env key df port s) = Some 1"
proof -
  have "first_free (Map.empty :: flow_value heap) = Some 1"
    by (simp add: first_free_def upt_rec [of 1])
  then show ?thesis
    using assms by (simp add: flow_table_insert_entry_def list_flow_env_def dp_add_flow_def list_add_def Let_def)
qed

abbreviation example_v6_key :: flow_key where
  "example_v6_key \<equiv> zero_flow_key\<lparr> fk_l3_dst := DP_SET_IPADDR6 2, fk_l3_src := DP_SET_IPADDR6 1, fk_proto := IPPROTO_TCP,
     fk_port_dst := 0, fk_port_src := 0, fk_vni := 0 \<rparr>"

abbreviation ported_step :: "(int \<times> dp_flow \<times> list_table flow_state) option" where
  "ported_step \<equiv> dp_cntrack_handle list_flow_env 7 example_mbuf example_v6_df ported_flow_state"

lemma ported_key:
  "dp_build_flow_key nenv venv ns vs zero_port m example_v6_df (curr_key_slot (fs_cache ported_flow_state)) = (DP_OK, example_v6_key)"
  by (simp add: example_v6_keys ported_flow_state_def empty_flow_state_def empty_cache_def)

lemma first_accepted:
  obtains df1 s1 where "ported_step = Some (DP_OK, df1, s1)" "fs_ports s1 = fs_ports ported_flow_state"
    "curr_key_slot (fs_cache s1) = zero_flow_key"
proof -
  let ?s = "write_key example_v6_key ported_flow_state"
  have flow: "dp_get_flow_val list_flow_env example_mbuf example_v6_df ported_flow_state =
      flow_of_key list_flow_env zero_port example_v6_key example_v6_df ?s"
    unfolding dp_get_flow_val_def ported_in_port by (simp add: ported_key)
  have ok: "flow_ok list_flow_env ?s" and new: "flow_view list_flow_env ?s example_v6_key = None"
    using flow_ok_write_key(1) [OF ported_flow_ok(1)] ported_flow_ok(2) by (simp_all add: flow_view_def)
  from ok new show ?thesis
  proof (cases rule: flow_table_insert_entry_cases [where df = example_v6_df and port = zero_port])
    case (failed df' t c)
    then show ?thesis
      using insert_into_empty [of ?s example_v6_key example_v6_df zero_port] by (simp add: ported_flow_state_def empty_flow_state_def)
  next
    case (inserted p df' t v)
    have get: "dp_get_flow_val list_flow_env example_mbuf example_v6_df ported_flow_state =
        Some (DP_OK, Some p, df', dp_cache_flow_val p (?s\<lparr> fs_flow_tbl := t, fs_flow_heap := (fs_flow_heap ?s)(p \<mapsto> v) \<rparr>))"
      using ok inserted(1) new unfolding flow
      by (cases rule: flow_of_key_cases [where key = example_v6_key and port = zero_port and df = example_v6_df]) auto
    have "dp_get_in_port example_mbuf (dp_cache_flow_val p (?s\<lparr> fs_flow_tbl := t, fs_flow_heap := (fs_flow_heap ?s)(p \<mapsto> v) \<rparr>)) = Some zero_port"
      using ported_in_port by (simp add: dp_get_in_port_def dp_cache_flow_val_def Let_def split: if_splits)
    then show ?thesis
      using handle_of_flow [OF get, of zero_port v 7] insert_entry_l3 [OF inserted(1)] that
      by (auto simp: dp_cache_flow_val_def Let_def example_v6_df_def ported_flow_state_def empty_flow_state_def empty_cache_def)
  qed
qed

theorem conntrack_no_dangling_witness:
  "\<exists>s. (cntrack_step list_flow_env)\<^sup>*\<^sup>* ported_flow_state s \<and> s \<noteq> ported_flow_state \<and>
    (\<exists>r df' s'. dp_cntrack_handle list_flow_env 8 example_mbuf reply_df s = Some (r, df', s') \<and>
      (r = DP_OK \<longrightarrow> (\<exists>p. df_conntrack df' = Some p \<and> fs_flow_heap s' p \<noteq> None)))"
proof -
  obtain df1 s1 where step: "ported_step = Some (DP_OK, df1, s1)" "fs_ports s1 = fs_ports ported_flow_state"
    by (rule first_accepted)
  then have run: "(cntrack_step list_flow_env)\<^sup>*\<^sup>* ported_flow_state s1"
    by (blast intro: cntrack_step.packet)
  have "fs_flow_heap s1 \<noteq> fs_flow_heap ported_flow_state"
    using handle_first_packet [OF ported_flow_ok(1) ported_in_port ported_key _ step(1)] ported_flow_ok(2)
    by (auto simp: ported_flow_state_def empty_flow_state_def)
  moreover have "dp_get_in_port example_mbuf s1 = Some zero_port"
    using ported_in_port step(2) by (simp add: dp_get_in_port_def split: if_splits)
  ultimately show ?thesis
    using conntrack_no_dangling [OF list_flow_env_ok(2) ported_flow_ok(1) run, of example_mbuf zero_port 8 reply_df] run by blast
qed

theorem dp_cntrack_cache_transparent_witness:
  "rel_option (\<lambda>(r, df1, s1) (r', df1', s1'). r' = r \<and> df1' = df1 \<and> same_but_cache s1 s1')
    (dp_cntrack_handle list_flow_env 7 example_mbuf example_v6_df ported_flow_state)
    (dp_cntrack_handle list_flow_env 7 example_mbuf example_v6_df (dp_cntrack_flush_cache ported_flow_state))"
  by (rule dp_cntrack_cache_transparent [OF ported_flow_ok(1)])

theorem reply_finds_flow_witness:
  "\<exists>df1 s1 df2 s2. ported_step = Some (DP_OK, df1, s1) \<and> df_flow_dir df1 = DP_FLOW_DIR_ORG \<and>
     dp_cntrack_handle list_flow_env 8 example_mbuf reply_df s1 = Some (DP_OK, df2, s2) \<and>
     df_conntrack df2 = df_conntrack df1 \<and> df_flow_dir df2 = DP_FLOW_DIR_REPLY"
proof -
  obtain df1 s1 where step: "ported_step = Some (DP_OK, df1, s1)" "fs_ports s1 = fs_ports ported_flow_state"
      "curr_key_slot (fs_cache s1) = zero_flow_key"
    by (rule first_accepted)
  have port: "dp_get_in_port example_mbuf s1 = Some zero_port"
    using ported_in_port step(2) by (simp add: dp_get_in_port_def split: if_splits)
  have reply: "reply_packet example_v6_df reply_df"
    by (simp add: reply_packet_def reply_df_def example_v6_df_def)
  have new: "flow_view list_flow_env ported_flow_state example_v6_key = None"
    by (simp add: ported_flow_ok(2))
  show ?thesis
    using reply_finds_flow [OF ported_flow_ok(1) ported_in_port ported_key new step(1) port example_v6_keys(2) reply, of 8] step
    by (auto simp: DP_SET_IPADDR6_def zero_flow_key_def)
qed

end
