(* ===== verification/Dp_Lb.thy ===== *)
theory Dp_Lb
  imports Dp_Responder Dp_Store Dp_Hash_List
begin

text \<open>
  \<^verbatim>\<open>src/dp_lb.c\<close>: the load balancers.  One table maps VNI and address to the load balancer, the other
  its id to that key.  A load balancer has 16 ports and 64 slots for the underlay addresses of its
  backends; a slot whose first four bytes are zero is free.  \<open>None\<close> of an operation is an access to
  memory that was freed.
\<close>

section \<open>Data\<close>

abbreviation DP_LB_MAX_PORTS :: nat where "DP_LB_MAX_PORTS \<equiv> 16"
abbreviation DP_LB_MAX_IPS_PER_VIP :: nat where "DP_LB_MAX_IPS_PER_VIP \<equiv> 64"

record lb_key =
  lk_vni :: u32
  lk_ip :: dp_ip_address

record lb_port =
  lp_protocol :: u8
  lp_port :: u16

record lb_value =
  lv_lb_id :: string
  lv_ports :: "lb_port list"
  lv_back_end_ips :: "ipv6_addr list"
  lv_last_sel_pos :: u16
  lv_back_end_cnt :: u16
  lv_lb_ul_addr :: ipv6_addr

record dpgrpc_lb =
  gl_lb_id :: string
  gl_addr :: dp_ip_address
  gl_vni :: u32
  gl_lbports :: "lb_port list"
  gl_ul_addr6 :: ipv6_addr

record 't lb_env =
  env_lb :: "(lb_key, 't) rte_hash"
  env_lb_id :: "(string, 't) rte_hash"
  env_lb_malloc :: "lb_value rte_malloc"
  env_lb_id_malloc :: "lb_key rte_malloc"

record 't lb_state =
  ls_lb_tbl :: 't
  ls_id_tbl :: 't
  ls_lb_heap :: "lb_value heap"
  ls_id_heap :: "lb_key heap"

definition dp_lb_init :: "(string \<Rightarrow> 't option) \<Rightarrow> int \<times> 't lb_state option" where
  "dp_lb_init create =
     (case create ''ipv4_lb_table'' of
        None \<Rightarrow> (DP_ERROR, None)
      | Some t \<Rightarrow>
          (case create ''lb_id_map_table'' of
             None \<Rightarrow> (DP_ERROR, None)
           | Some idt \<Rightarrow> (DP_OK, Some \<lparr> ls_lb_tbl = t, ls_id_tbl = idt, ls_lb_heap = Map.empty, ls_id_heap = Map.empty \<rparr>)))"

section \<open>Load balancers\<close>

definition upd_lb :: "ptr \<Rightarrow> (lb_value \<Rightarrow> lb_value) \<Rightarrow> 't lb_state \<Rightarrow> 't lb_state" where
  "upd_lb p f s = s\<lparr> ls_lb_heap := (ls_lb_heap s)(p \<mapsto> f (the (ls_lb_heap s p))) \<rparr>"

definition dp_map_lb_handle :: "'t lb_env \<Rightarrow> string \<Rightarrow> lb_key \<Rightarrow> ptr \<Rightarrow> 't lb_state \<Rightarrow> int \<times> 't lb_state" where
  "dp_map_lb_handle env id_key l_key l_val s =
     (case env_lb_id_malloc env (ls_id_heap s) of
        None \<Rightarrow> (DP_ERROR, s)
      | Some lb_k \<Rightarrow>
          let s1 = (upd_lb l_val (\<lambda>v. v\<lparr> lv_lb_id := id_key \<rparr>) s)\<lparr> ls_id_heap := (ls_id_heap s)(lb_k \<mapsto> l_key) \<rparr>;
              (ret, tbl) = rh_add_data (env_lb_id env) (ls_id_tbl s1) id_key lb_k;
              s2 = s1\<lparr> ls_id_tbl := tbl \<rparr>
          in if DP_FAILED ret then (ret, s2\<lparr> ls_id_heap := rte_free (ls_id_heap s2) lb_k \<rparr>)
             else (DP_OK, s2))"

definition zero_lb_value :: lb_value where
  "zero_lb_value = \<lparr> lv_lb_id = [], lv_ports = replicate DP_LB_MAX_PORTS \<lparr> lp_protocol = 0, lp_port = 0 \<rparr>,
     lv_back_end_ips = replicate DP_LB_MAX_IPS_PER_VIP 0, lv_last_sel_pos = 0, lv_back_end_cnt = 0, lv_lb_ul_addr = 0 \<rparr>"

definition dp_create_lb :: "'t lb_env \<Rightarrow> dpgrpc_lb \<Rightarrow> ipv6_addr \<Rightarrow> 't lb_state \<Rightarrow> int \<times> 't lb_state" where
  "dp_create_lb env lb ul_ip s =
     (let key = \<lparr> lk_vni = gl_vni lb, lk_ip = dp_copy_ipaddr (gl_addr lb) \<rparr>
      in case rh_lookup (env_lb env) (ls_lb_tbl s) key of
           Inr _ \<Rightarrow> (DP_GRPC_ERR_ALREADY_EXISTS, s)
         | Inl _ \<Rightarrow>
             (case env_lb_malloc env (ls_lb_heap s) of
                None \<Rightarrow> (DP_GRPC_ERR_OUT_OF_MEMORY, s)
              | Some lb_val \<Rightarrow>
                  let s1 = s\<lparr> ls_lb_heap := (ls_lb_heap s)(lb_val \<mapsto> zero_lb_value) \<rparr>;
                      (ret, tbl) = rh_add_data (env_lb env) (ls_lb_tbl s1) key lb_val;
                      s2 = s1\<lparr> ls_lb_tbl := tbl \<rparr>
                  in if DP_FAILED ret then (DP_GRPC_ERR_OUT_OF_MEMORY, s2\<lparr> ls_lb_heap := rte_free (ls_lb_heap s2) lb_val \<rparr>)
                     else
                       let (ret, s3) = dp_map_lb_handle env (gl_lb_id lb) key lb_val s2
                       in if DP_FAILED ret then (DP_GRPC_ERR_OUT_OF_MEMORY, s3\<lparr> ls_lb_heap := rte_free (ls_lb_heap s3) lb_val \<rparr>)
                          else (DP_GRPC_OK, upd_lb lb_val (\<lambda>v. v\<lparr> lv_lb_ul_addr := ul_ip,
                                 lv_ports := map (\<lambda>p. \<lparr> lp_protocol = lp_protocol p, lp_port = htons (lp_port p) \<rparr>) (gl_lbports lb) \<rparr>) s3)))"

text \<open>From the id to the key and on to the load balancer, as most operations start.\<close>

definition lb_by_id :: "'t lb_env \<Rightarrow> string \<Rightarrow> int \<Rightarrow> 't lb_state \<Rightarrow> int + lb_key \<times> ptr" where
  "lb_by_id env id_key no_id s =
     (case rh_lookup (env_lb_id env) (ls_id_tbl s) id_key of
        Inl _ \<Rightarrow> Inl no_id
      | Inr lb_k \<Rightarrow>
          let key = the (ls_id_heap s lb_k)
          in case rh_lookup (env_lb env) (ls_lb_tbl s) key of
               Inl _ \<Rightarrow> Inl DP_GRPC_ERR_NO_BACKIP
             | Inr lb_val \<Rightarrow> Inr (key, lb_val))"

text \<open>\<open>out_lb\<close> is the reply, whose id is left alone.\<close>

definition dp_get_lb :: "'t lb_env \<Rightarrow> string \<Rightarrow> dpgrpc_lb \<Rightarrow> 't lb_state \<Rightarrow> (int \<times> dpgrpc_lb) option" where
  "dp_get_lb env id_key out_lb s =
     (case lb_by_id env id_key DP_GRPC_ERR_NOT_FOUND s of
        Inl ret \<Rightarrow> Some (ret, out_lb)
      | Inr (key, lb_val) \<Rightarrow>
          (case ls_lb_heap s lb_val of
             None \<Rightarrow> None
           | Some v \<Rightarrow> Some (DP_GRPC_OK, out_lb\<lparr> gl_vni := lk_vni key, gl_addr := dp_copy_ipaddr (lk_ip key),
                 gl_ul_addr6 := lv_lb_ul_addr v,
                 gl_lbports := map (\<lambda>p. \<lparr> lp_protocol = lp_protocol p, lp_port = ntohs (lp_port p) \<rparr>) (lv_ports v) \<rparr>)))"

definition dp_delete_lb :: "'t lb_env \<Rightarrow> string \<Rightarrow> 't lb_state \<Rightarrow> (int \<times> 't lb_state) option" where
  "dp_delete_lb env id_key s =
     (case rh_lookup (env_lb_id env) (ls_id_tbl s) id_key of
        Inl _ \<Rightarrow> Some (DP_GRPC_ERR_NOT_FOUND, s)
      | Inr lb_k \<Rightarrow>
          let key = the (ls_id_heap s lb_k);
              unmap = (\<lambda>s. s\<lparr> ls_id_heap := rte_free (ls_id_heap s) lb_k, ls_id_tbl := snd (rh_del (env_lb_id env) (ls_id_tbl s) id_key) \<rparr>)
          in case rh_lookup (env_lb env) (ls_lb_tbl s) key of
               Inl _ \<Rightarrow> Some (DP_GRPC_OK, unmap s)
             | Inr lb_val \<Rightarrow>
                 if ls_lb_heap s lb_val = None then None
                 else Some (DP_GRPC_OK, unmap (s\<lparr> ls_lb_heap := rte_free (ls_lb_heap s) lb_val,
                        ls_lb_tbl := snd (rh_del (env_lb env) (ls_lb_tbl s) key) \<rparr>)))"

definition dp_is_lb_enabled :: "'t lb_env \<Rightarrow> 't lb_state \<Rightarrow> bool" where
  "dp_is_lb_enabled env s \<longleftrightarrow> rh_count (env_lb env) (ls_lb_tbl s) > 0"

definition dp_is_ip_lb :: "'t lb_env \<Rightarrow> dp_flow \<Rightarrow> u32 \<Rightarrow> 't lb_state \<Rightarrow> bool" where
  "dp_is_ip_lb env df vni s =
     (let present = (\<lambda>ip. case rh_lookup (env_lb env) (ls_lb_tbl s) \<lparr> lk_vni = vni, lk_ip = ip \<rparr> of Inl _ \<Rightarrow> False | Inr _ \<Rightarrow> True)
      in if df_l3_type df = RTE_ETHER_TYPE_IPV4 then present (DP_SET_IPADDR4 (ntohl (df_dst_addr df)))
         else if df_l3_type df = RTE_ETHER_TYPE_IPV6 then present (DP_SET_IPADDR6 (df_dst_addr6 df))
         else False)"

section \<open>Backends\<close>

text \<open>The first word of a slot, \<^verbatim>\<open>back_end_ips[k][0]\<close>: its first four bytes.\<close>

definition slot_word :: "ipv6_addr \<Rightarrow> u32" where
  "slot_word a = ucast a"

fun first_pos :: "('a \<Rightarrow> bool) \<Rightarrow> 'a list \<Rightarrow> nat \<Rightarrow> nat option" where
  "first_pos P [] k = None"
| "first_pos P (x # xs) k = (if P x then Some k else first_pos P xs (Suc k))"

definition dp_lb_last_free_pos :: "lb_value \<Rightarrow> int" where
  "dp_lb_last_free_pos val =
     (case first_pos (\<lambda>a. slot_word a = 0) (lv_back_end_ips val) 0 of None \<Rightarrow> -1 | Some k \<Rightarrow> int k)"

definition dp_lb_delete_back_ip :: "ipv6_addr \<Rightarrow> lb_value \<Rightarrow> int \<times> lb_value" where
  "dp_lb_delete_back_ip b_ip val =
     (case first_pos (\<lambda>a. a = b_ip) (lv_back_end_ips val) 0 of
        None \<Rightarrow> (DP_GRPC_ERR_NOT_FOUND, val)
      | Some i \<Rightarrow> (DP_GRPC_OK, val\<lparr> lv_back_end_ips := (lv_back_end_ips val)[i := 0], lv_back_end_cnt := lv_back_end_cnt val - 1 \<rparr>))"

definition dp_lb_is_back_ip_inserted :: "lb_value \<Rightarrow> ipv6_addr \<Rightarrow> bool" where
  "dp_lb_is_back_ip_inserted val b_ip = list_ex (\<lambda>a. a = b_ip) (lv_back_end_ips val)"

text \<open>
  The port loop: \<open>False\<close> is the early return.  A table of 16 used ports without a match runs off
  the end of the loop and goes on.
\<close>

fun lb_port_found :: "lb_port list \<Rightarrow> lb_port \<Rightarrow> bool" where
  "lb_port_found [] lb_port = True"
| "lb_port_found (p # ps) lb_port =
     (if lp_port p = lp_port lb_port \<and> lp_protocol p = lp_protocol lb_port then True
      else if lp_port p = 0 then False
      else lb_port_found ps lb_port)"

text \<open>The loop from \<open>k\<close> on, \<open>n\<close> more rounds: the first used slot that is not \<open>last_pos\<close>.\<close>

fun rr_loop :: "ipv6_addr list \<Rightarrow> nat \<Rightarrow> nat \<Rightarrow> nat \<Rightarrow> nat option" where
  "rr_loop ips last_pos 0 k = None"
| "rr_loop ips last_pos (Suc n) k =
     (if slot_word (ips ! (k mod DP_LB_MAX_IPS_PER_VIP)) \<noteq> 0 \<and> k \<noteq> last_pos then Some k else rr_loop ips last_pos n (Suc k))"

definition dp_lb_rr_backend :: "lb_value \<Rightarrow> lb_port \<Rightarrow> int" where
  "dp_lb_rr_backend val lb_port =
     (if \<not> lb_port_found (lv_ports val) lb_port then -1
      else if lv_back_end_cnt val = 1 then
        (case first_pos (\<lambda>a. slot_word a \<noteq> 0) (lv_back_end_ips val) 0 of None \<Rightarrow> -1 | Some k \<Rightarrow> int k)
      else
        (case rr_loop (lv_back_end_ips val) (unat (lv_last_sel_pos val)) DP_LB_MAX_IPS_PER_VIP (unat (lv_last_sel_pos val)) of
           None \<Rightarrow> -1 | Some k \<Rightarrow> int (k mod DP_LB_MAX_IPS_PER_VIP)))"

text \<open>The outer \<open>None\<close> is an access to freed memory, the inner one the result \<^verbatim>\<open>NULL\<close>.\<close>

definition dp_lb_get_backend_ip :: "'t lb_env \<Rightarrow> flow_key \<Rightarrow> u32 \<Rightarrow> 't lb_state \<Rightarrow> (ipv6_addr option \<times> 't lb_state) option" where
  "dp_lb_get_backend_ip env fkey vni s =
     (case rh_lookup (env_lb env) (ls_lb_tbl s) \<lparr> lk_vni = vni, lk_ip = dp_copy_ipaddr (fk_l3_dst fkey) \<rparr> of
        Inl _ \<Rightarrow> Some (None, s)
      | Inr lb_val \<Rightarrow>
          (case ls_lb_heap s lb_val of
             None \<Rightarrow> None
           | Some v \<Rightarrow>
               let pos = dp_lb_rr_backend v \<lparr> lp_protocol = fk_proto fkey, lp_port = htons (fk_port_dst fkey) \<rparr>
               in if pos < 0 then Some (None, s)
                  else Some (Some (lv_back_end_ips v ! nat pos), upd_lb lb_val (\<lambda>v. v\<lparr> lv_last_sel_pos := of_int pos \<rparr>) s)))"

record dpgrpc_lb_target =
  gt_lb_id :: string
  gt_addr :: dp_ip_address

definition dp_get_lb_back_ips ::
  "'t lb_env \<Rightarrow> nat \<Rightarrow> string \<Rightarrow> 't lb_state \<Rightarrow> dpgrpc_lb_target dp_grpc_responder \<Rightarrow> (int \<times> dpgrpc_lb_target dp_grpc_responder) option" where
  "dp_get_lb_back_ips env msg_size id_key s responder =
     (case lb_by_id env id_key DP_GRPC_ERR_NO_LB s of
        Inl ret \<Rightarrow> Some (ret, responder)
      | Inr (key, lb_val) \<Rightarrow>
          (case ls_lb_heap s lb_val of
             None \<Rightarrow> None
           | Some v \<Rightarrow>
               let (ok, r) = dp_grpc_add_replies
                     (map (\<lambda>a. \<lparr> gt_lb_id = [], gt_addr = \<lparr> ip_data = a, ip_is_v6 = True \<rparr> \<rparr>)
                       (filter (\<lambda>a. slot_word a \<noteq> 0) (lv_back_end_ips v)))
                     (dp_grpc_set_multireply msg_size responder)
               in Some (if ok then DP_GRPC_OK else DP_GRPC_ERR_OUT_OF_MEMORY, r)))"

text \<open>\<^verbatim>\<open>rte_memcpy\<close> of the first \<open>n\<close> bytes.\<close>

definition memcpy_ipv6 :: "ipv6_addr \<Rightarrow> ipv6_addr \<Rightarrow> nat \<Rightarrow> ipv6_addr" where
  "memcpy_ipv6 dst src n = push_bit (8 * n) (drop_bit (8 * n) dst) OR take_bit (8 * n) src"

definition lb_add_back_ip :: "nat \<Rightarrow> ipv6_addr \<Rightarrow> lb_value \<Rightarrow> int \<times> lb_value" where
  "lb_add_back_ip ip_size back_ip val =
     (if dp_lb_is_back_ip_inserted val back_ip then (DP_GRPC_ERR_ALREADY_EXISTS, val)
      else
        let pos = dp_lb_last_free_pos val
        in if pos < 0 then (DP_GRPC_ERR_LIMIT_REACHED, val)
           else (DP_GRPC_OK, val\<lparr> lv_back_end_ips := (lv_back_end_ips val)[nat pos := memcpy_ipv6 (lv_back_end_ips val ! nat pos) back_ip ip_size],
                                lv_back_end_cnt := lv_back_end_cnt val + 1 \<rparr>))"

definition lb_change :: "'t lb_env \<Rightarrow> string \<Rightarrow> (lb_value \<Rightarrow> int \<times> lb_value) \<Rightarrow> 't lb_state \<Rightarrow> (int \<times> 't lb_state) option" where
  "lb_change env id_key f s =
     (case lb_by_id env id_key DP_GRPC_ERR_NO_LB s of
        Inl ret \<Rightarrow> Some (ret, s)
      | Inr (key, lb_val) \<Rightarrow>
          (case ls_lb_heap s lb_val of
             None \<Rightarrow> None
           | Some v \<Rightarrow> let (ret, v') = f v in Some (ret, upd_lb lb_val (\<lambda>_. v') s)))"

definition dp_add_lb_back_ip :: "'t lb_env \<Rightarrow> string \<Rightarrow> ipv6_addr \<Rightarrow> nat \<Rightarrow> 't lb_state \<Rightarrow> (int \<times> 't lb_state) option" where
  "dp_add_lb_back_ip env id_key back_ip ip_size s = lb_change env id_key (lb_add_back_ip ip_size back_ip) s"

definition dp_del_lb_back_ip :: "'t lb_env \<Rightarrow> string \<Rightarrow> ipv6_addr \<Rightarrow> 't lb_state \<Rightarrow> (int \<times> 't lb_state) option" where
  "dp_del_lb_back_ip env id_key back_ip s = lb_change env id_key (dp_lb_delete_back_ip back_ip) s"

section \<open>The backends of one load balancer\<close>

definition back_ends :: "lb_value \<Rightarrow> ipv6_addr set" where
  "back_ends val = {a \<in> set (lv_back_end_ips val). slot_word a \<noteq> 0}"

abbreviation used_slots :: "lb_value \<Rightarrow> ipv6_addr list" where
  "used_slots val \<equiv> filter (\<lambda>a. slot_word a \<noteq> 0) (lv_back_end_ips val)"

text \<open>Free slots are all zero, no backend is stored twice, the count is right.\<close>

definition lb_value_ok :: "lb_value \<Rightarrow> bool" where
  "lb_value_ok val \<longleftrightarrow>
     length (lv_ports val) = DP_LB_MAX_PORTS \<and> length (lv_back_end_ips val) = DP_LB_MAX_IPS_PER_VIP \<and>
     (\<forall>a \<in> set (lv_back_end_ips val). a = 0 \<or> slot_word a \<noteq> 0) \<and>
     distinct (used_slots val) \<and> unat (lv_back_end_cnt val) = length (used_slots val) \<and>
     unat (lv_last_sel_pos val) < DP_LB_MAX_IPS_PER_VIP"

lemma slot_word_0 [simp]: "slot_word 0 = 0"
  by (simp add: slot_word_def)

lemma first_pos_None: "first_pos P xs k = None \<longleftrightarrow> (\<forall>x \<in> set xs. \<not> P x)"
  by (induction xs arbitrary: k) auto

lemma first_pos_Some:
  "first_pos P xs k = Some i \<longleftrightarrow> (\<exists>j < length xs. i = k + j \<and> P (xs ! j) \<and> (\<forall>j' < j. \<not> P (xs ! j')))"
proof (induction xs arbitrary: k)
  case (Cons x xs)
  show ?case
  proof (cases "P x")
    case True
    have "j = 0" if "\<forall>j' < j. \<not> P ((x # xs) ! j')" for j
      using that True by (cases j) auto
    then show ?thesis
      using True by auto
  next
    case False
    have "(\<exists>j < length (x # xs). i = k + j \<and> P ((x # xs) ! j) \<and> (\<forall>j' < j. \<not> P ((x # xs) ! j'))) \<longleftrightarrow>
      (\<exists>j < length xs. i = Suc k + j \<and> P (xs ! j) \<and> (\<forall>j' < j. \<not> P (xs ! j')))" (is "?L \<longleftrightarrow> ?R")
    proof
      assume ?L
      then obtain j where j: "j < length (x # xs)" "i = k + j" "P ((x # xs) ! j)" "\<forall>j' < j. \<not> P ((x # xs) ! j')" by blast
      with False obtain m where "j = Suc m" by (cases j) auto
      with j show ?R
        by (intro exI [of _ m]) auto
    next
      assume ?R
      then obtain j where "j < length xs" "i = Suc k + j" "P (xs ! j)" "\<forall>j' < j. \<not> P (xs ! j')" by blast
      with False show ?L
        by (intro exI [of _ "Suc j"]) (auto simp: less_Suc_eq_0_disj)
    qed
    then show ?thesis
      using False Cons by simp
  qed
qed simp

lemma memcpy_ipv6_all [simp]: "memcpy_ipv6 dst src 16 = src"
  by (rule bit_word_eqI) (auto simp: memcpy_ipv6_def bit_or_iff bit_push_bit_iff bit_drop_bit_eq bit_take_bit_iff)

lemma slot_update:
  assumes "i < length xs"
  shows "filter P (xs[i := y]) = filter P (take i xs) @ (if P y then [y] else []) @ filter P (drop (Suc i) xs)"
    "filter P xs = filter P (take i xs) @ (if P (xs ! i) then [xs ! i] else []) @ filter P (drop (Suc i) xs)"
proof -
  show "filter P (xs[i := y]) = filter P (take i xs) @ (if P y then [y] else []) @ filter P (drop (Suc i) xs)"
    using assms by (simp add: upd_conv_take_nth_drop)
  show "filter P xs = filter P (take i xs) @ (if P (xs ! i) then [xs ! i] else []) @ filter P (drop (Suc i) xs)"
    by (subst id_take_nth_drop [OF assms]) (simp del: append_take_drop_id)
qed

lemma unat_pred_u16: "unat (w :: u16) = Suc n \<Longrightarrow> unat (w - 1) = n"
proof -
  assume *: "unat w = Suc n"
  then have "w \<noteq> 0" by auto
  with * show "unat (w - 1) = n" by (simp add: unat_minus_one)
qed

lemma back_ends_used: "back_ends val = set (used_slots val)"
  by (auto simp: back_ends_def)

lemma lb_add_back_ip_cases:
  assumes ok: "lb_value_ok val" and ip: "slot_word ip \<noteq> 0" and add: "lb_add_back_ip 16 ip val = (r, val')"
  obtains (exists) "ip \<in> back_ends val" "r = DP_GRPC_ERR_ALREADY_EXISTS" "val' = val"
    | (full) "ip \<notin> back_ends val" "length (used_slots val) = DP_LB_MAX_IPS_PER_VIP" "r = DP_GRPC_ERR_LIMIT_REACHED" "val' = val"
    | (added) "ip \<notin> back_ends val" "r = DP_GRPC_OK" "lb_value_ok val'" "back_ends val' = insert ip (back_ends val)"
        "lv_lb_id val' = lv_lb_id val" "lv_ports val' = lv_ports val" "lv_lb_ul_addr val' = lv_lb_ul_addr val"
proof (cases "dp_lb_is_back_ip_inserted val ip")
  case True
  then show thesis
    using add ip by (intro exists) (auto simp: lb_add_back_ip_def dp_lb_is_back_ip_inserted_def list_ex_iff back_ends_def)
next
  case False
  then have new: "ip \<notin> set (lv_back_end_ips val)"
    by (simp add: dp_lb_is_back_ip_inserted_def list_ex_iff)
  show thesis
  proof (cases "first_pos (\<lambda>a. slot_word a = 0) (lv_back_end_ips val) 0")
    case None
    then have "used_slots val = lv_back_end_ips val"
      by (simp add: first_pos_None filter_id_conv)
    then show thesis
      using None False add new ok by (intro full) (auto simp: lb_add_back_ip_def dp_lb_last_free_pos_def back_ends_def lb_value_ok_def)
  next
    case (Some i)
    then have i: "i < length (lv_back_end_ips val)" "slot_word (lv_back_end_ips val ! i) = 0"
      by (auto simp: first_pos_Some)
    let ?ips = "(lv_back_end_ips val)[i := ip]"
    have val': "r = DP_GRPC_OK" "val' = val\<lparr> lv_back_end_ips := ?ips, lv_back_end_cnt := lv_back_end_cnt val + 1 \<rparr>"
      using add False Some by (simp_all add: lb_add_back_ip_def dp_lb_last_free_pos_def)
    have len: "length (used_slots val) < DP_LB_MAX_IPS_PER_VIP"
      using ok length_filter_less [of "lv_back_end_ips val ! i" "lv_back_end_ips val" "\<lambda>a. slot_word a \<noteq> 0"] i by (simp add: lb_value_ok_def)
    then have cnt: "unat (lv_back_end_cnt val + 1) = Suc (length (used_slots val))"
      using ok unat_Suc_u16 [of "lv_back_end_cnt val"] by (simp add: lb_value_ok_def)
    define A where "A = filter (\<lambda>a. slot_word a \<noteq> 0) (take i (lv_back_end_ips val))"
    define B where "B = filter (\<lambda>a. slot_word a \<noteq> 0) (drop (Suc i) (lv_back_end_ips val))"
    have u: "used_slots val = A @ B" "used_slots val' = A @ ip # B"
      using slot_update(1,2) [OF i(1), of "\<lambda>a. slot_word a \<noteq> 0"] i(2) ip unfolding A_def B_def val' by simp_all
    have dist: "distinct (A @ B)" "ip \<notin> set (A @ B)"
      using ok new unfolding lb_value_ok_def u(1) [symmetric] by auto
    have used: "set (used_slots val') = insert ip (set (used_slots val))" "length (used_slots val') = Suc (length (used_slots val))"
      "distinct (used_slots val')"
      using dist by (auto simp: u)
    have "\<forall>a \<in> set ?ips. a = 0 \<or> slot_word a \<noteq> 0"
      using ok ip set_update_subset_insert [of "lv_back_end_ips val" i ip] by (auto simp: lb_value_ok_def)
    then have "lb_value_ok val'"
      using ok used cnt by (simp add: val' lb_value_ok_def)
    then show thesis
      using dist val' used(1) by (intro added) (simp_all add: back_ends_used u)
  qed
qed

lemma dp_lb_delete_back_ip_cases:
  assumes ok: "lb_value_ok val" and ip: "slot_word ip \<noteq> 0" and del: "dp_lb_delete_back_ip ip val = (r, val')"
  obtains (absent) "ip \<notin> back_ends val" "r = DP_GRPC_ERR_NOT_FOUND" "val' = val"
    | (deleted) "ip \<in> back_ends val" "r = DP_GRPC_OK" "lb_value_ok val'" "back_ends val' = back_ends val - {ip}"
        "lv_lb_id val' = lv_lb_id val" "lv_ports val' = lv_ports val" "lv_lb_ul_addr val' = lv_lb_ul_addr val"
proof (cases "first_pos (\<lambda>a. a = ip) (lv_back_end_ips val) 0")
  case None
  then have "ip \<notin> back_ends val"
    by (auto simp: first_pos_None back_ends_def)
  then show thesis
    using del None by (intro absent) (simp_all add: dp_lb_delete_back_ip_def)
next
  case (Some i)
  then have i: "i < length (lv_back_end_ips val)" "lv_back_end_ips val ! i = ip"
    by (auto simp: first_pos_Some)
  let ?ips = "(lv_back_end_ips val)[i := 0]"
  have val': "r = DP_GRPC_OK" "val' = val\<lparr> lv_back_end_ips := ?ips, lv_back_end_cnt := lv_back_end_cnt val - 1 \<rparr>"
    using del Some by (simp_all add: dp_lb_delete_back_ip_def)
  define A where "A = filter (\<lambda>a. slot_word a \<noteq> 0) (take i (lv_back_end_ips val))"
  define B where "B = filter (\<lambda>a. slot_word a \<noteq> 0) (drop (Suc i) (lv_back_end_ips val))"
  have u: "used_slots val = A @ ip # B" "used_slots val' = A @ B"
    using slot_update(1,2) [OF i(1), of "\<lambda>a. slot_word a \<noteq> 0"] i(2) ip unfolding A_def B_def val' by simp_all
  have dist: "distinct (A @ ip # B)"
    using ok unfolding lb_value_ok_def u by blast
  have used: "set (used_slots val') = set (used_slots val) - {ip}" "Suc (length (used_slots val')) = length (used_slots val)" "distinct (used_slots val')"
    using dist by (auto simp: u)
  have cnt: "unat (lv_back_end_cnt val - 1) = length (used_slots val')"
    using ok used(2) by (intro unat_pred_u16) (simp add: lb_value_ok_def)
  have "\<forall>a \<in> set ?ips. a = 0 \<or> slot_word a \<noteq> 0"
    using ok set_update_subset_insert [of "lv_back_end_ips val" i 0] by (auto simp: lb_value_ok_def)
  then have "lb_value_ok val'"
    using ok used cnt by (simp add: val' lb_value_ok_def)
  then show thesis
    using val' used(1) by (intro deleted) (simp_all add: back_ends_used u)
qed

definition target_view :: "lb_value \<Rightarrow> ipv6_addr \<rightharpoonup> unit" where
  "target_view val ip = (if ip \<in> back_ends val then Some () else None)"

interpretation target: keyed_store "\<lambda>ip. ip" "\<lambda>_. ()" "\<lambda>ip. slot_word ip \<noteq> 0" "\<lambda>ip. slot_word ip \<noteq> 0"
  lb_value_ok target_view "lb_add_back_ip 16" dp_lb_delete_back_ip
proof (unfold_locales, goal_cases)
  case (1 s e r s')
  from 1 show ?case by (cases rule: lb_add_back_ip_cases) (use 1 in auto)
next
  case (2 s e r s')
  then show ?case by (cases rule: lb_add_back_ip_cases) (auto simp: target_view_def fun_eq_iff)
next
  case (3 s e w r s')
  from 3(1,2,4) show ?case by (cases rule: lb_add_back_ip_cases) (use 3(3) in \<open>auto simp: target_view_def\<close>)
next
  case (4 s k r s')
  from 4 show ?case by (cases rule: dp_lb_delete_back_ip_cases) (use 4 in auto)
next
  case (5 s k r s')
  then show ?case by (cases rule: dp_lb_delete_back_ip_cases) (auto simp: target_view_def fun_eq_iff)
qed

section \<open>Round robin\<close>

text \<open>The slots in the order of the search that starts behind \<open>k\<close> and ends with \<open>k\<close>, and the used ones of them.\<close>

definition ring :: "nat \<Rightarrow> nat list" where
  "ring k = map (\<lambda>i. (k + i) mod DP_LB_MAX_IPS_PER_VIP) [1..<Suc DP_LB_MAX_IPS_PER_VIP]"

definition rr_positions :: "lb_value \<Rightarrow> nat list" where
  "rr_positions val = filter (\<lambda>k. slot_word (lv_back_end_ips val ! k) \<noteq> 0) (ring (unat (lv_last_sel_pos val)))"

lemma ring_rotate: "ring k = rotate (Suc k) [0..<DP_LB_MAX_IPS_PER_VIP]"
proof (rule nth_equalityI)
  fix i assume "i < length (ring k)"
  then have "i < DP_LB_MAX_IPS_PER_VIP"
    by (simp add: ring_def)
  then show "ring k ! i = rotate (Suc k) [0..<DP_LB_MAX_IPS_PER_VIP] ! i"
    by (simp add: ring_def nth_rotate del: rotate_Suc upt_Suc)
qed (simp add: ring_def)

lemma ring_next:
  assumes "ring k = xs @ p # ys"
  shows "ring p = ys @ xs @ [p]"
proof -
  have "length (ring k) = DP_LB_MAX_IPS_PER_VIP"
    by (simp add: ring_def)
  then have len: "length xs < DP_LB_MAX_IPS_PER_VIP"
    using assms by simp
  have "p = ring k ! length xs"
    using assms by simp
  also have "\<dots> = (Suc k + length xs) mod DP_LB_MAX_IPS_PER_VIP"
    using len unfolding ring_rotate by (simp add: nth_rotate del: rotate_Suc)
  finally have p: "p = (Suc k + length xs) mod DP_LB_MAX_IPS_PER_VIP" .
  have "ring p = rotate (Suc p mod DP_LB_MAX_IPS_PER_VIP) [0..<DP_LB_MAX_IPS_PER_VIP]"
    unfolding ring_rotate by (subst rotate_conv_mod) simp
  also have "Suc p mod DP_LB_MAX_IPS_PER_VIP = (Suc (length xs) + Suc k) mod DP_LB_MAX_IPS_PER_VIP"
    unfolding p by (simp add: mod_Suc_eq ac_simps)
  also have "rotate ((Suc (length xs) + Suc k) mod DP_LB_MAX_IPS_PER_VIP) [0..<DP_LB_MAX_IPS_PER_VIP] =
      rotate (Suc (length xs)) (ring k)"
    unfolding ring_rotate rotate_rotate by (subst (2) rotate_conv_mod) simp
  also have "\<dots> = rotate (length (xs @ [p])) ((xs @ [p]) @ ys)"
    by (simp add: assms)
  also have "\<dots> = ys @ xs @ [p]"
    by (subst rotate_append) simp
  finally show ?thesis .
qed

lemma rr_positions_facts:
  assumes ok: "lb_value_ok val"
  shows "distinct (rr_positions val)" "set (rr_positions val) = {k. k < DP_LB_MAX_IPS_PER_VIP \<and> slot_word (lv_back_end_ips val ! k) \<noteq> 0}"
    "length (rr_positions val) = unat (lv_back_end_cnt val)"
proof -
  show d: "distinct (rr_positions val)"
    unfolding rr_positions_def ring_rotate by (rule distinct_filter) simp
  show set: "set (rr_positions val) = {k. k < DP_LB_MAX_IPS_PER_VIP \<and> slot_word (lv_back_end_ips val ! k) \<noteq> 0}"
    unfolding rr_positions_def ring_rotate by (auto simp del: rotate_Suc)
  have "length (used_slots val) = card {k. k < DP_LB_MAX_IPS_PER_VIP \<and> slot_word (lv_back_end_ips val ! k) \<noteq> 0}"
    using ok by (simp add: length_filter_conv_card lb_value_ok_def)
  then show "length (rr_positions val) = unat (lv_back_end_cnt val)"
    using distinct_card [OF d] ok unfolding set by (simp add: lb_value_ok_def)
qed

lemma rr_loop_find:
  "rr_loop ips l n k = find (\<lambda>k. slot_word (ips ! (k mod DP_LB_MAX_IPS_PER_VIP)) \<noteq> 0 \<and> k \<noteq> l) [k..<k + n]"
proof (induction n arbitrary: k)
  case (Suc n)
  have "[k..<k + Suc n] = k # [Suc k..<Suc k + n]"
    by (simp add: upt_conv_Cons del: upt_Suc)
  with Suc show ?case
    by (simp del: upt_Suc)
qed simp

lemma map_plus_upt: "map (\<lambda>i. l + i) [a..<b] = [l + a..<l + b]"
  by (induction b) auto

lemma find_filter: "find P xs = (case filter P xs of [] \<Rightarrow> None | x # _ \<Rightarrow> Some x)"
  by (induction xs) auto

lemma filter_distinct_single: "distinct xs \<Longrightarrow> x \<in> set xs \<Longrightarrow> length xs = 1 \<Longrightarrow> xs = [x]"
  by (cases xs) auto

text \<open>The search takes the first used slot of the ring.\<close>

lemma rr_loop_positions:
  assumes ok: "lb_value_ok val" and cnt: "lv_back_end_cnt val \<noteq> 1" and l: "l = unat (lv_last_sel_pos val)"
  shows "map_option (\<lambda>k. k mod DP_LB_MAX_IPS_PER_VIP) (rr_loop (lv_back_end_ips val) l DP_LB_MAX_IPS_PER_VIP l) =
    (case rr_positions val of [] \<Rightarrow> None | p # _ \<Rightarrow> Some p)"
proof -
  let ?P = "\<lambda>k. slot_word (lv_back_end_ips val ! (k mod DP_LB_MAX_IPS_PER_VIP)) \<noteq> 0"
  let ?ks = "[Suc l..<l + DP_LB_MAX_IPS_PER_VIP]"
  have pos: "rr_positions val = map (\<lambda>k. k mod DP_LB_MAX_IPS_PER_VIP) (filter ?P ?ks @ (if ?P (l + DP_LB_MAX_IPS_PER_VIP) then [l + DP_LB_MAX_IPS_PER_VIP] else []))"
  proof -
    have "map (\<lambda>i. l + i) [1..<Suc DP_LB_MAX_IPS_PER_VIP] = ?ks @ [l + DP_LB_MAX_IPS_PER_VIP]"
      using upt_Suc_append [of "Suc l" "l + DP_LB_MAX_IPS_PER_VIP"] unfolding map_plus_upt by (simp add: add.commute)
    then have "ring l = map (\<lambda>k. k mod DP_LB_MAX_IPS_PER_VIP) (?ks @ [l + DP_LB_MAX_IPS_PER_VIP])"
      unfolding ring_def by (metis (no_types, lifting) map_map comp_apply map_cong)
    then show ?thesis
      unfolding rr_positions_def l by (simp add: filter_map comp_def)
  qed
  have "[l..<l + DP_LB_MAX_IPS_PER_VIP] = l # ?ks"
    by (simp add: upt_conv_Cons)
  then have "rr_loop (lv_back_end_ips val) l DP_LB_MAX_IPS_PER_VIP l = find (\<lambda>k. ?P k \<and> k \<noteq> l) ?ks"
    unfolding rr_loop_find by simp
  also have "\<dots> = find ?P ?ks"
    by (rule find_cong) auto
  finally have loop: "rr_loop (lv_back_end_ips val) l DP_LB_MAX_IPS_PER_VIP l = (case filter ?P ?ks of [] \<Rightarrow> None | x # _ \<Rightarrow> Some x)"
    by (simp only: find_filter)
  show ?thesis
  proof (cases "filter ?P ?ks")
    case Nil
    have "length (rr_positions val) \<noteq> 1"
      using cnt rr_positions_facts(3) [OF ok] by (simp add: word_unat_eq_iff)
    then have "rr_positions val = []"
      using Nil unfolding pos by (auto split: if_splits)
    then show ?thesis
      unfolding loop Nil by simp
  next
    case (Cons x xs)
    then show ?thesis
      unfolding loop pos by simp
  qed
qed

lemma dp_lb_rr_backend_hd:
  assumes ok: "lb_value_ok val" and port: "lb_port_found (lv_ports val) port"
  shows "dp_lb_rr_backend val port = (case rr_positions val of [] \<Rightarrow> -1 | p # _ \<Rightarrow> int p)"
proof (cases "lv_back_end_cnt val = 1")
  case True
  note facts = rr_positions_facts [OF ok]
  have len: "length (rr_positions val) = 1"
    using facts(3) True by simp
  then obtain p where p: "rr_positions val = [p]"
    by (cases "rr_positions val") auto
  then have "{k. k < DP_LB_MAX_IPS_PER_VIP \<and> slot_word (lv_back_end_ips val ! k) \<noteq> 0} = {p}"
    using facts(2) by simp
  then have "first_pos (\<lambda>a. slot_word a \<noteq> 0) (lv_back_end_ips val) 0 = Some p"
    using ok unfolding first_pos_Some lb_value_ok_def set_eq_iff by (intro exI [of _ p]) (auto, metis less_trans nat_neq_iff)
  then show ?thesis
    using True port p by (simp add: dp_lb_rr_backend_def)
next
  case False
  from rr_loop_positions [OF ok False refl] show ?thesis
    using port False by (auto simp: dp_lb_rr_backend_def split: option.splits list.splits)
qed

lemma rr_positions_next:
  assumes ok: "lb_value_ok val" and hd: "rr_positions val = p # ps"
  shows "rr_positions (val\<lparr> lv_last_sel_pos := of_nat p \<rparr>) = ps @ [p]" "lb_value_ok (val\<lparr> lv_last_sel_pos := of_nat p \<rparr>)"
    "p < DP_LB_MAX_IPS_PER_VIP"
proof -
  have "p \<in> set (rr_positions val)"
    using hd by simp
  then show p: "p < DP_LB_MAX_IPS_PER_VIP"
    unfolding rr_positions_facts(2) [OF ok] by simp
  then have u: "unat (of_nat p :: u16) = p"
    by (simp add: unat_of_nat take_bit_nat_eq_self)
  obtain xs ys where ring: "ring (unat (lv_last_sel_pos val)) = xs @ p # ys"
    and none: "\<forall>x \<in> set xs. slot_word (lv_back_end_ips val ! x) = 0" and p': "slot_word (lv_back_end_ips val ! p) \<noteq> 0"
    and ps: "ps = filter (\<lambda>k. slot_word (lv_back_end_ips val ! k) \<noteq> 0) ys"
    using filter_eq_ConsD [OF hd [unfolded rr_positions_def]] by auto
  have "filter (\<lambda>k. slot_word (lv_back_end_ips val ! k) \<noteq> 0) xs = []"
    using none by simp
  then show "rr_positions (val\<lparr> lv_last_sel_pos := of_nat p \<rparr>) = ps @ [p]"
    using p' by (simp add: rr_positions_def u ring_next [OF ring] ps)
  show "lb_value_ok (val\<lparr> lv_last_sel_pos := of_nat p \<rparr>)"
    using ok p u by (simp add: lb_value_ok_def)
qed

section \<open>The tables\<close>

definition lb_view :: "'t lb_env \<Rightarrow> 't lb_state \<Rightarrow> lb_key \<rightharpoonup> lb_value" where
  "lb_view env s = obj_view (env_lb env) (ls_lb_tbl s) (ls_lb_heap s)"

definition id_view :: "'t lb_env \<Rightarrow> 't lb_state \<Rightarrow> string \<rightharpoonup> lb_key" where
  "id_view env s = obj_view (env_lb_id env) (ls_id_tbl s) (ls_id_heap s)"

definition lb_env_ok :: "'t lb_env \<Rightarrow> bool" where
  "lb_env_ok env \<longleftrightarrow> rte_hash_ok (env_lb env) \<and> rte_hash_ok (env_lb_id env) \<and>
     rte_malloc_ok (env_lb_malloc env) \<and> rte_malloc_ok (env_lb_id_malloc env)"

definition lb_tables_ok :: "'t lb_env \<Rightarrow> 't lb_state \<Rightarrow> bool" where
  "lb_tables_ok env s \<longleftrightarrow> lb_env_ok env \<and> obj_ok (env_lb env) (ls_lb_tbl s) (ls_lb_heap s) \<and>
     obj_ok (env_lb_id env) (ls_id_tbl s) (ls_id_heap s)"

text \<open>Ids and load balancers correspond one to one, and every load balancer is well formed.\<close>

definition lb_ok :: "'t lb_env \<Rightarrow> 't lb_state \<Rightarrow> bool" where
  "lb_ok env s \<longleftrightarrow> lb_tables_ok env s \<and>
     (\<forall>id k. id_view env s id = Some k \<longleftrightarrow> (\<exists>v. lb_view env s k = Some v \<and> lv_lb_id v = id)) \<and>
     (\<forall>k v. lb_view env s k = Some v \<longrightarrow> lb_value_ok v)"

lemma lb_tables_okD:
  assumes "lb_tables_ok env s"
  shows "rte_hash_ok (env_lb env)" "rte_hash_ok (env_lb_id env)" "rte_malloc_ok (env_lb_malloc env)" "rte_malloc_ok (env_lb_id_malloc env)"
    "obj_ok (env_lb env) (ls_lb_tbl s) (ls_lb_heap s)" "obj_ok (env_lb_id env) (ls_id_tbl s) (ls_id_heap s)"
  using assms by (simp_all add: lb_tables_ok_def lb_env_ok_def)

lemma lb_okD:
  assumes "lb_ok env s"
  shows "lb_tables_ok env s" "id_view env s idk = Some k \<longleftrightarrow> (\<exists>v. lb_view env s k = Some v \<and> lv_lb_id v = idk)"
    "lb_view env s k = Some v \<Longrightarrow> lb_value_ok v"
  using assms unfolding lb_ok_def by blast+

lemma lb_viewE:
  assumes "lb_tables_ok env s"
  obtains (absent) "rh_lookup (env_lb env) (ls_lb_tbl s) k = Inl (- ENOENT)" "lb_view env s k = None" "rh_view (env_lb env) (ls_lb_tbl s) k = None"
    | (present) p v where "rh_lookup (env_lb env) (ls_lb_tbl s) k = Inr p" "lb_view env s k = Some v" "ls_lb_heap s p = Some v"
        "rh_view (env_lb env) (ls_lb_tbl s) k = Some p"
proof (cases "rh_view (env_lb env) (ls_lb_tbl s) k")
  case None
  then show thesis
    using absent obj_view_None [OF lb_tables_okD(5) [OF assms]] rh_lookup_view [OF lb_tables_okD(1) [OF assms]] by (simp add: lb_view_def)
next
  case (Some p)
  then obtain v where "ls_lb_heap s p = Some v" "lb_view env s k = Some v"
    unfolding lb_view_def by (rule obj_ok_liveE [OF lb_tables_okD(5) [OF assms]])
  with Some present rh_lookup_view [OF lb_tables_okD(1) [OF assms]] show thesis by simp
qed

lemma id_viewE:
  assumes "lb_tables_ok env s"
  obtains (absent) "rh_lookup (env_lb_id env) (ls_id_tbl s) idk = Inl (- ENOENT)" "id_view env s idk = None"
    | (present) p k where "rh_lookup (env_lb_id env) (ls_id_tbl s) idk = Inr p" "id_view env s idk = Some k" "ls_id_heap s p = Some k"
        "rh_view (env_lb_id env) (ls_id_tbl s) idk = Some p"
proof (cases "rh_view (env_lb_id env) (ls_id_tbl s) idk")
  case None
  then show thesis
    using absent obj_view_None [OF lb_tables_okD(6) [OF assms]] rh_lookup_view [OF lb_tables_okD(2) [OF assms]] by (simp add: id_view_def)
next
  case (Some p)
  then obtain k where "ls_id_heap s p = Some k" "id_view env s idk = Some k"
    unfolding id_view_def by (rule obj_ok_liveE [OF lb_tables_okD(6) [OF assms]])
  with Some present rh_lookup_view [OF lb_tables_okD(2) [OF assms]] show thesis by simp
qed

lemma upd_lb_views:
  assumes ok: "lb_tables_ok env s" and k: "rh_view (env_lb env) (ls_lb_tbl s) k = Some p"
  shows "lb_tables_ok env (upd_lb p f s)" "lb_view env (upd_lb p f s) = (lb_view env s)(k \<mapsto> f (the (ls_lb_heap s p)))"
    "id_view env (upd_lb p f s) = id_view env s" "rh_view (env_lb env) (ls_lb_tbl (upd_lb p f s)) = rh_view (env_lb env) (ls_lb_tbl s)"
    "ls_lb_heap (upd_lb p f s) p = Some (f (the (ls_lb_heap s p)))" "ls_lb_tbl (upd_lb p f s) = ls_lb_tbl s"
  using obj_write [OF lb_tables_okD(5) [OF ok] k] ok by (simp_all add: lb_tables_ok_def lb_view_def id_view_def upd_lb_def)

lemma lb_by_id_view:
  assumes ok: "lb_ok env s"
  shows "lb_by_id env idk e s = (case id_view env s idk of None \<Rightarrow> Inl e | Some k \<Rightarrow> Inr (k, the (rh_view (env_lb env) (ls_lb_tbl s) k)))"
proof -
  note ok1 = lb_okD(1) [OF ok]
  from ok1 show ?thesis
  proof (cases rule: id_viewE [of env s idk])
    case (present p k)
    then obtain v where "lb_view env s k = Some v"
      using lb_okD(2) [OF ok] by blast
    with ok1 show ?thesis
      by (cases rule: lb_viewE [of env s k]) (simp_all add: lb_by_id_def present)
  qed (simp add: lb_by_id_def)
qed

text \<open>What creation does to the tables; in the last case the table keeps a pointer to a freed object.\<close>

lemma dp_map_lb_handle_cases:
  assumes ok: "lb_tables_ok env s" and p: "rh_view (env_lb env) (ls_lb_tbl s) key = Some p"
    and map: "dp_map_lb_handle env idk key p s = (r, s')"
  obtains (mapped) "r = DP_OK" "lb_tables_ok env s'" "id_view env s' = (id_view env s)(idk \<mapsto> key)"
      "lb_view env s' = (lb_view env s)(key \<mapsto> (the (ls_lb_heap s p))\<lparr> lv_lb_id := idk \<rparr>)" "ls_lb_tbl s' = ls_lb_tbl s"
      "ls_lb_heap s' p = Some ((the (ls_lb_heap s p))\<lparr> lv_lb_id := idk \<rparr>)"
    | (failed) "DP_FAILED r" "ls_lb_tbl s' = ls_lb_tbl s"
proof (cases "env_lb_id_malloc env (ls_id_heap s)")
  case None
  then show thesis
    using map failed by (simp add: dp_map_lb_handle_def)
next
  case (Some q)
  note new = rte_malloc_fresh [OF lb_tables_okD(4) [OF ok] Some]
  let ?s1 = "upd_lb p (\<lambda>v. v\<lparr> lv_lb_id := idk \<rparr>) s"
  note u = upd_lb_views [OF ok p, of "\<lambda>v. v\<lparr> lv_lb_id := idk \<rparr>"]
  have same: "ls_id_tbl ?s1 = ls_id_tbl s" "ls_id_heap ?s1 = ls_id_heap s"
    by (simp_all add: upd_lb_def)
  obtain ret t where t: "rh_add_data (env_lb_id env) (ls_id_tbl s) idk q = (ret, t)" by fastforce
  from lb_tables_okD(2) [OF ok] t show thesis
  proof (cases rule: rh_add_data_cases)
    case added
    have s': "r = DP_OK" "s' = ?s1\<lparr> ls_id_heap := (ls_id_heap s)(q \<mapsto> key), ls_id_tbl := t \<rparr>"
      using map Some t added same by (simp_all add: dp_map_lb_handle_def)
    show thesis
      using obj_add [OF lb_tables_okD(6) [OF ok] new added(2), of key] u s' by (intro mapped) (simp_all add: lb_tables_ok_def lb_view_def id_view_def)
  next
    case failed': failed
    show thesis
      using map Some t failed' same u(6) by (intro failed) (auto simp: dp_map_lb_handle_def)
  qed
qed

definition lb_of_request :: "dpgrpc_lb \<Rightarrow> ipv6_addr \<Rightarrow> lb_value" where
  "lb_of_request lb ul_ip = zero_lb_value\<lparr> lv_lb_id := gl_lb_id lb, lv_lb_ul_addr := ul_ip,
     lv_ports := map (\<lambda>p. \<lparr> lp_protocol = lp_protocol p, lp_port = htons (lp_port p) \<rparr>) (gl_lbports lb) \<rparr>"

abbreviation lb_request_key :: "dpgrpc_lb \<Rightarrow> lb_key" where
  "lb_request_key lb \<equiv> \<lparr> lk_vni = gl_vni lb, lk_ip = dp_copy_ipaddr (gl_addr lb) \<rparr>"

lemma dp_create_lb_cases:
  assumes ok: "lb_tables_ok env s" and create: "dp_create_lb env lb ul s = (r, s')"
  obtains (exists) "lb_view env s (lb_request_key lb) \<noteq> None" "r = DP_GRPC_ERR_ALREADY_EXISTS" "s' = s"
    | (created) "lb_view env s (lb_request_key lb) = None" "r = DP_GRPC_OK" "lb_tables_ok env s'"
        "lb_view env s' = (lb_view env s)(lb_request_key lb \<mapsto> lb_of_request lb ul)" "id_view env s' = (id_view env s)(gl_lb_id lb \<mapsto> lb_request_key lb)"
    | (no_memory) "lb_view env s (lb_request_key lb) = None" "r = DP_GRPC_ERR_OUT_OF_MEMORY" "lb_tables_ok env s'"
        "lb_view env s' = lb_view env s" "id_view env s' = id_view env s"
    | (dangling) p where "lb_view env s (lb_request_key lb) = None" "r = DP_GRPC_ERR_OUT_OF_MEMORY"
        "rh_view (env_lb env) (ls_lb_tbl s') = (rh_view (env_lb env) (ls_lb_tbl s))(lb_request_key lb \<mapsto> p)" "ls_lb_heap s' p = None"
  using ok
proof (cases rule: lb_viewE [of env s "lb_request_key lb"])
  case (present p v)
  then show thesis
    using create by (intro exists) (simp_all add: dp_create_lb_def)
next
  case absent
  show thesis
  proof (cases "env_lb_malloc env (ls_lb_heap s)")
    case None
    then show thesis
      using create absent ok by (intro no_memory) (simp_all add: dp_create_lb_def)
  next
    case (Some p)
    note new = rte_malloc_fresh [OF lb_tables_okD(3) [OF ok] Some]
    obtain ret t where t: "rh_add_data (env_lb env) (ls_lb_tbl s) (lb_request_key lb) p = (ret, t)" by fastforce
    from lb_tables_okD(1) [OF ok] t show thesis
    proof (cases rule: rh_add_data_cases)
      case failed
      have "r = DP_GRPC_ERR_OUT_OF_MEMORY" "s' = s\<lparr> ls_lb_tbl := t \<rparr>"
        using create absent Some t failed new by (simp_all add: dp_create_lb_def)
      then show thesis
        using absent ok by (intro no_memory)
          (simp_all add: lb_tables_ok_def lb_view_def id_view_def obj_ok_cong [OF failed(3)] obj_view_cong [OF failed(3)])
    next
      case added
      let ?s2 = "s\<lparr> ls_lb_heap := (ls_lb_heap s)(p \<mapsto> zero_lb_value), ls_lb_tbl := t \<rparr>"
      note o = obj_add [OF lb_tables_okD(5) [OF ok] new added(2), of zero_lb_value]
      have ok2: "lb_tables_ok env ?s2" "lb_view env ?s2 = (lb_view env s)(lb_request_key lb \<mapsto> zero_lb_value)" "id_view env ?s2 = id_view env s"
        using o ok by (simp_all add: lb_tables_ok_def lb_view_def id_view_def)
      have p: "rh_view (env_lb env) (ls_lb_tbl ?s2) (lb_request_key lb) = Some p" "ls_lb_heap ?s2 p = Some zero_lb_value"
        by (simp_all add: added(2))
      obtain r3 s3 where map: "dp_map_lb_handle env (gl_lb_id lb) (lb_request_key lb) p ?s2 = (r3, s3)" by fastforce
      have res: "(r, s') = (if DP_FAILED r3 then (DP_GRPC_ERR_OUT_OF_MEMORY, s3\<lparr> ls_lb_heap := rte_free (ls_lb_heap s3) p \<rparr>)
         else (DP_GRPC_OK, upd_lb p (\<lambda>v. v\<lparr> lv_lb_ul_addr := ul,
           lv_ports := map (\<lambda>p. \<lparr> lp_protocol = lp_protocol p, lp_port = htons (lp_port p) \<rparr>) (gl_lbports lb) \<rparr>) s3))"
        using create absent(1) Some t added map by (simp add: dp_create_lb_def Let_def)
      from ok2(1) p(1) map show thesis
      proof (cases rule: dp_map_lb_handle_cases)
        case mapped
        have "rh_view (env_lb env) (ls_lb_tbl s3) (lb_request_key lb) = Some p"
          using p(1) by (simp add: mapped(5))
        note u = upd_lb_views [OF mapped(2) this]
        show thesis
          using res mapped u absent(2) ok2 p(2) by (intro created) (simp_all add: lb_of_request_def)
      next
        case failed
        show thesis
          using res failed absent(2) added(2) by (intro dangling [of p]) (simp_all add: rte_free_def)
      qed
    qed
  qed
qed

lemma zero_lb_value_ok: "length (gl_lbports lb) = DP_LB_MAX_PORTS \<Longrightarrow> lb_value_ok (lb_of_request lb ul)"
  by (simp add: lb_value_ok_def lb_of_request_def zero_lb_value_def)

lemma dp_create_lb_ok:
  assumes ok: "lb_ok env s" and ports: "length (gl_lbports lb) = DP_LB_MAX_PORTS" and new: "id_view env s (gl_lb_id lb) = None"
    and create: "dp_create_lb env lb ul s = (r, s')" and alive: "\<And>p k. rh_view (env_lb env) (ls_lb_tbl s') k = Some p \<Longrightarrow> ls_lb_heap s' p \<noteq> None"
  shows "lb_ok env s'"
proof -
  note ok1 = lb_okD(1) [OF ok]
  from ok1 create show ?thesis
  proof (cases rule: dp_create_lb_cases)
    case created
    have "id_view env s' idk = Some k \<longleftrightarrow> (\<exists>v. lb_view env s' k = Some v \<and> lv_lb_id v = idk)" for idk k
      using lb_okD(2) [OF ok, of idk k] lb_okD(2) [OF ok, of "gl_lb_id lb" k] created(1) new unfolding created(4,5)
      by (auto simp: lb_of_request_def)
    moreover have "lb_value_ok v" if "lb_view env s' k = Some v" for k v
      using that lb_okD(3) [OF ok, of k v] zero_lb_value_ok [OF ports] unfolding created(4) by (auto split: if_splits)
    ultimately show ?thesis
      using created(3) unfolding lb_ok_def by blast
  next
    case no_memory
    then show ?thesis
      using ok unfolding lb_ok_def by simp
  next
    case (dangling p)
    then show ?thesis
      using alive [of "lb_request_key lb" p] by simp
  qed (use ok in simp)
qed

lemma dp_delete_lb_present:
  assumes ok: "lb_tables_ok env s" and k: "id_view env s idk = Some k" "lb_view env s k = Some v"
  shows "\<exists>s'. dp_delete_lb env idk s = Some (DP_GRPC_OK, s') \<and> lb_tables_ok env s' \<and>
    id_view env s' = (id_view env s)(idk := None) \<and> lb_view env s' = (lb_view env s)(k := None)"
proof -
  from ok obtain q where q: "rh_lookup (env_lb_id env) (ls_id_tbl s) idk = Inr q" "ls_id_heap s q = Some k" "rh_view (env_lb_id env) (ls_id_tbl s) idk = Some q"
    by (cases rule: id_viewE [of env s idk]) (use k(1) in auto)
  from ok obtain p where p: "rh_lookup (env_lb env) (ls_lb_tbl s) k = Inr p" "ls_lb_heap s p = Some v" "rh_view (env_lb env) (ls_lb_tbl s) k = Some p"
    by (cases rule: lb_viewE [of env s k]) (use k(2) in auto)
  obtain r1 t1 where t1: "rh_del (env_lb env) (ls_lb_tbl s) k = (r1, t1)" by fastforce
  obtain r2 t2 where t2: "rh_del (env_lb_id env) (ls_id_tbl s) idk = (r2, t2)" by fastforce
  let ?s' = "s\<lparr> ls_lb_heap := rte_free (ls_lb_heap s) p, ls_lb_tbl := t1, ls_id_heap := rte_free (ls_id_heap s) q, ls_id_tbl := t2 \<rparr>"
  have "dp_delete_lb env idk s = Some (DP_GRPC_OK, ?s')"
    using q p t1 t2 by (simp add: dp_delete_lb_def)
  moreover have "lb_tables_ok env ?s'" "lb_view env ?s' = (lb_view env s)(k := None)" "id_view env ?s' = (id_view env s)(idk := None)"
    using obj_del [OF lb_tables_okD(5) [OF ok] p(3) rh_del_view(1) [OF lb_tables_okD(1) [OF ok] t1]]
      obj_del [OF lb_tables_okD(6) [OF ok] q(3) rh_del_view(1) [OF lb_tables_okD(2) [OF ok] t2]] ok
    by (simp_all add: lb_tables_ok_def lb_view_def id_view_def)
  ultimately show ?thesis by blast
qed

lemma dp_delete_lb_eq:
  assumes ok: "lb_ok env s"
  shows "\<exists>s'. dp_delete_lb env idk s = Some (if id_view env s idk = None then DP_GRPC_ERR_NOT_FOUND else DP_GRPC_OK, s') \<and>
    lb_ok env s' \<and> id_view env s' = (id_view env s)(idk := None) \<and>
    lb_view env s' = (case id_view env s idk of None \<Rightarrow> lb_view env s | Some k \<Rightarrow> (lb_view env s)(k := None))"
proof (cases "id_view env s idk")
  case None
  from lb_okD(1) [OF ok] show ?thesis
    by (cases rule: id_viewE [of env s idk]) (use None ok in \<open>auto simp: dp_delete_lb_def fun_upd_idem_iff\<close>)
next
  case (Some k)
  obtain v where v: "lb_view env s k = Some v" "lv_lb_id v = idk"
    using lb_okD(2) [OF ok] Some by blast
  obtain s' where s': "dp_delete_lb env idk s = Some (DP_GRPC_OK, s')" "lb_tables_ok env s'"
    and views: "id_view env s' = (id_view env s)(idk := None)" "lb_view env s' = (lb_view env s)(k := None)"
    using dp_delete_lb_present [OF lb_okD(1) [OF ok] Some v(1)] by blast
  have "id_view env s' i = Some k' \<longleftrightarrow> (\<exists>v. lb_view env s' k' = Some v \<and> lv_lb_id v = i)" for i k'
    using lb_okD(2) [OF ok, of i k'] v Some unfolding views by auto
  moreover have "lb_value_ok v'" if "lb_view env s' k' = Some v'" for k' v'
    using that lb_okD(3) [OF ok, of k' v'] unfolding views by (auto split: if_splits)
  ultimately have "lb_ok env s'"
    using s'(2) unfolding lb_ok_def by blast
  then show ?thesis
    using s'(1) views Some by auto
qed

text \<open>Changes of one load balancer that keep its id.\<close>

lemma lb_write_ok:
  assumes ok: "lb_ok env s" and p: "rh_view (env_lb env) (ls_lb_tbl s) k = Some p" "ls_lb_heap s p = Some v"
    and f: "lb_value_ok (f v)" "lv_lb_id (f v) = lv_lb_id v"
  shows "lb_ok env (upd_lb p f s)"
proof -
  note u = upd_lb_views [OF lb_okD(1) [OF ok] p(1), of f]
  have v: "lb_view env s k = Some v"
    using p by (simp add: lb_view_def obj_view_def)
  have "id_view env (upd_lb p f s) i = Some k' \<longleftrightarrow> (\<exists>w. lb_view env (upd_lb p f s) k' = Some w \<and> lv_lb_id w = i)" for i k'
    using lb_okD(2) [OF ok, of i k'] v f(2) p(2) unfolding u(2,3) by auto
  moreover have "lb_value_ok w" if "lb_view env (upd_lb p f s) k' = Some w" for k' w
    using that lb_okD(3) [OF ok, of k' w] f(1) p(2) unfolding u(2) by (auto split: if_splits)
  ultimately show ?thesis
    using u(1) unfolding lb_ok_def by blast
qed

lemma lb_change_eq:
  assumes ok: "lb_ok env s"
    and f: "\<And>v r v'. lb_value_ok v \<Longrightarrow> f v = (r, v') \<Longrightarrow> lb_value_ok v' \<and> lv_lb_id v' = lv_lb_id v"
  shows "case id_view env s idk of
      None \<Rightarrow> lb_change env idk f s = Some (DP_GRPC_ERR_NO_LB, s)
    | Some k \<Rightarrow> \<exists>v r v' s'. lb_view env s k = Some v \<and> f v = (r, v') \<and> lb_change env idk f s = Some (r, s') \<and> lb_ok env s' \<and>
        lb_view env s' = (lb_view env s)(k \<mapsto> v') \<and> id_view env s' = id_view env s"
proof (cases "id_view env s idk")
  case None
  then show ?thesis
    by (simp add: lb_change_def lb_by_id_view [OF ok])
next
  case (Some k)
  note ok1 = lb_okD(1) [OF ok]
  obtain v where v: "lb_view env s k = Some v"
    using lb_okD(2) [OF ok] Some by blast
  from ok1 obtain p where p: "ls_lb_heap s p = Some v" "rh_view (env_lb env) (ls_lb_tbl s) k = Some p"
    by (cases rule: lb_viewE [of env s k]) (use v in auto)
  obtain r v' where f': "f v = (r, v')" by fastforce
  have "lb_value_ok v' \<and> lv_lb_id v' = lv_lb_id v"
    using f [OF lb_okD(3) [OF ok v] f'] .
  then have "lb_ok env (upd_lb p (\<lambda>_. v') s)"
    using lb_write_ok [OF ok p(2,1)] by simp
  moreover have "lb_change env idk f s = Some (r, upd_lb p (\<lambda>_. v') s)"
    using Some p f' by (simp add: lb_change_def lb_by_id_view [OF ok])
  ultimately show ?thesis
    using Some v f' upd_lb_views [OF ok1 p(2), of "\<lambda>_. v'"] by auto
qed

lemma lb_target_ops_keep:
  assumes "lb_value_ok v" "slot_word ip \<noteq> 0"
  shows "lb_add_back_ip 16 ip v = (r, v') \<Longrightarrow> lb_value_ok v' \<and> lv_lb_id v' = lv_lb_id v"
    "dp_lb_delete_back_ip ip v = (r, v') \<Longrightarrow> lb_value_ok v' \<and> lv_lb_id v' = lv_lb_id v"
proof -
  assume "lb_add_back_ip 16 ip v = (r, v')"
  with assms show "lb_value_ok v' \<and> lv_lb_id v' = lv_lb_id v"
    by (cases rule: lb_add_back_ip_cases) (use assms in auto)
next
  assume "dp_lb_delete_back_ip ip v = (r, v')"
  with assms show "lb_value_ok v' \<and> lv_lb_id v' = lv_lb_id v"
    by (cases rule: dp_lb_delete_back_ip_cases) (use assms in auto)
qed

section \<open>A concrete environment\<close>

definition enc_lb_key :: "lb_key \<Rightarrow> nat list" where
  "enc_lb_key k = [unat (lk_vni k), unat (ip_data (lk_ip k)), of_bool (ip_is_v6 (lk_ip k))]"

definition dec_lb_key :: "nat list \<Rightarrow> lb_key" where
  "dec_lb_key xs = \<lparr> lk_vni = of_nat (xs ! 0), lk_ip = \<lparr> ip_data = of_nat (xs ! 1), ip_is_v6 = (xs ! 2 = 1) \<rparr> \<rparr>"

definition enc_string :: "string \<Rightarrow> nat list" where "enc_string s = map of_char s"
definition dec_string :: "nat list \<Rightarrow> string" where "dec_string xs = map char_of xs"

lemma dec_enc_lb [simp]: "dec_lb_key (enc_lb_key k) = k" "dec_string (enc_string str) = str"
  by (simp_all add: dec_lb_key_def enc_lb_key_def dec_string_def enc_string_def comp_def)

definition list_lb_env :: "list_table lb_env" where
  "list_lb_env = \<lparr> env_lb = list_hash enc_lb_key dec_lb_key, env_lb_id = list_hash enc_string dec_string,
     env_lb_malloc = first_free, env_lb_id_malloc = first_free \<rparr>"

definition empty_lb_state :: "list_table lb_state" where
  "empty_lb_state = \<lparr> ls_lb_tbl = [], ls_id_tbl = [], ls_lb_heap = Map.empty, ls_id_heap = Map.empty \<rparr>"

lemma empty_lb_views: "lb_view list_lb_env empty_lb_state = Map.empty" "id_view list_lb_env empty_lb_state = Map.empty"
  by (simp_all add: lb_view_def id_view_def obj_view_def list_lb_env_def empty_lb_state_def fun_eq_iff)

lemma empty_lb_ok: "lb_ok list_lb_env empty_lb_state"
  unfolding lb_ok_def empty_lb_views
  by (simp add: lb_tables_ok_def lb_env_ok_def obj_ok_def list_lb_env_def empty_lb_state_def list_hash_ok first_free_ok)

definition example_lb :: dpgrpc_lb where
  "example_lb = \<lparr> gl_lb_id = ''lb'', gl_addr = DP_SET_IPADDR4 9, gl_vni = 100,
     gl_lbports = \<lparr> lp_protocol = 6, lp_port = 80 \<rparr> # replicate 15 \<lparr> lp_protocol = 0, lp_port = 0 \<rparr>, gl_ul_addr6 = 0 \<rparr>"

definition example_lb_state :: "list_table lb_state" where
  "example_lb_state = snd (dp_create_lb list_lb_env example_lb 7 empty_lb_state)"

lemma example_lb_create: "dp_create_lb list_lb_env example_lb 7 empty_lb_state = (DP_GRPC_OK, example_lb_state)"
  by (simp add: example_lb_state_def dp_create_lb_def dp_map_lb_handle_def empty_lb_state_def list_lb_env_def upd_lb_def Let_def)

lemma example_lb_views:
  "lb_view list_lb_env example_lb_state = [lb_request_key example_lb \<mapsto> lb_of_request example_lb 7]"
  "id_view list_lb_env example_lb_state = [''lb'' \<mapsto> lb_request_key example_lb]" "lb_tables_ok list_lb_env example_lb_state"
proof -
  from lb_okD(1) [OF empty_lb_ok] example_lb_create
  have "lb_view list_lb_env example_lb_state = [lb_request_key example_lb \<mapsto> lb_of_request example_lb 7] \<and>
    id_view list_lb_env example_lb_state = [''lb'' \<mapsto> lb_request_key example_lb] \<and> lb_tables_ok list_lb_env example_lb_state"
    by (cases rule: dp_create_lb_cases) (simp_all add: empty_lb_views example_lb_def)
  then show "lb_view list_lb_env example_lb_state = [lb_request_key example_lb \<mapsto> lb_of_request example_lb 7]"
    "id_view list_lb_env example_lb_state = [''lb'' \<mapsto> lb_request_key example_lb]" "lb_tables_ok list_lb_env example_lb_state"
    by blast+
qed

lemma example_lb_ok: "lb_ok list_lb_env example_lb_state"
proof (rule dp_create_lb_ok [OF empty_lb_ok _ _ example_lb_create])
  show "ls_lb_heap example_lb_state p \<noteq> None" if "rh_view (env_lb list_lb_env) (ls_lb_tbl example_lb_state) k = Some p" for p k
    using obj_ok_live [OF lb_tables_okD(5) [OF example_lb_views(3)] that] by blast
qed (simp_all add: empty_lb_views example_lb_def)

section \<open>Properties\<close>

text \<open>\<open>n\<close> packets to the load balancer in a row, with the backends they get.\<close>

fun lb_picks :: "'t lb_env \<Rightarrow> flow_key \<Rightarrow> u32 \<Rightarrow> nat \<Rightarrow> 't lb_state \<Rightarrow> (ipv6_addr option list \<times> 't lb_state) option" where
  "lb_picks env fkey vni 0 s = Some ([], s)"
| "lb_picks env fkey vni (Suc n) s =
     (case dp_lb_get_backend_ip env fkey vni s of
        None \<Rightarrow> None
      | Some (ip, s1) \<Rightarrow> map_option (\<lambda>(ips, s2). (ip # ips, s2)) (lb_picks env fkey vni n s1))"

lemma dp_lb_get_backend_ip_next:
  assumes ok: "lb_ok env s" and v: "lb_view env s \<lparr> lk_vni = vni, lk_ip = dp_copy_ipaddr (fk_l3_dst fkey) \<rparr> = Some v"
    and port: "lb_port_found (lv_ports v) \<lparr> lp_protocol = fk_proto fkey, lp_port = htons (fk_port_dst fkey) \<rparr>"
    and pos: "rr_positions v = q # qs"
  shows "\<exists>s' v'. dp_lb_get_backend_ip env fkey vni s = Some (Some (lv_back_end_ips v ! q), s') \<and> lb_ok env s' \<and>
    lb_view env s' \<lparr> lk_vni = vni, lk_ip = dp_copy_ipaddr (fk_l3_dst fkey) \<rparr> = Some v' \<and>
    v' = v\<lparr> lv_last_sel_pos := of_nat q \<rparr> \<and> rr_positions v' = qs @ [q]"
proof -
  let ?k = "\<lparr> lk_vni = vni, lk_ip = dp_copy_ipaddr (fk_l3_dst fkey) \<rparr>"
  note ok1 = lb_okD(1) [OF ok]
  from ok1 obtain p where p: "rh_lookup (env_lb env) (ls_lb_tbl s) ?k = Inr p" "ls_lb_heap s p = Some v" "rh_view (env_lb env) (ls_lb_tbl s) ?k = Some p"
    by (cases rule: lb_viewE [of env s ?k]) (use v in auto)
  note vok = lb_okD(3) [OF ok v]
  note nxt = rr_positions_next [OF vok pos]
  let ?f = "\<lambda>v. v\<lparr> lv_last_sel_pos := of_nat q \<rparr> :: lb_value"
  have "dp_lb_rr_backend v \<lparr> lp_protocol = fk_proto fkey, lp_port = htons (fk_port_dst fkey) \<rparr> = int q"
    using dp_lb_rr_backend_hd [OF vok port] pos by simp
  then have "dp_lb_get_backend_ip env fkey vni s = Some (Some (lv_back_end_ips v ! q), upd_lb p ?f s)"
    using p by (simp add: dp_lb_get_backend_ip_def)
  moreover have "lb_ok env (upd_lb p ?f s)"
    using lb_write_ok [OF ok p(3,2), of ?f] nxt(2) by simp
  ultimately show ?thesis
    using upd_lb_views(2) [OF ok1 p(3), of ?f] p(2) nxt(1) by simp
qed

lemma lb_picks_positions:
  assumes "lb_ok env s" "lb_view env s \<lparr> lk_vni = vni, lk_ip = dp_copy_ipaddr (fk_l3_dst fkey) \<rparr> = Some v"
    and "lb_port_found (lv_ports v) \<lparr> lp_protocol = fk_proto fkey, lp_port = htons (fk_port_dst fkey) \<rparr>"
    and "n \<le> length (rr_positions v)"
  shows "\<exists>s'. lb_picks env fkey vni n s = Some (map (\<lambda>q. Some (lv_back_end_ips v ! q)) (take n (rr_positions v)), s')"
  using assms
proof (induction n arbitrary: s v)
  case (Suc n)
  then obtain q qs where pos: "rr_positions v = q # qs"
    by (cases "rr_positions v") auto
  obtain s1 v1 where s1: "dp_lb_get_backend_ip env fkey vni s = Some (Some (lv_back_end_ips v ! q), s1)" "lb_ok env s1"
    "lb_view env s1 \<lparr> lk_vni = vni, lk_ip = dp_copy_ipaddr (fk_l3_dst fkey) \<rparr> = Some v1"
    "v1 = v\<lparr> lv_last_sel_pos := of_nat q \<rparr>" "rr_positions v1 = qs @ [q]"
    using dp_lb_get_backend_ip_next [OF Suc.prems(1-3) pos] by blast
  obtain s2 where "lb_picks env fkey vni n s1 = Some (map (\<lambda>q. Some (lv_back_end_ips v1 ! q)) (take n (rr_positions v1)), s2)"
    using Suc.IH [OF s1(2,3)] Suc.prems(3,4) s1(4,5) pos by auto
  then show ?case
    using s1 pos Suc.prems(4) by simp
qed simp

text \<open>
  C17: Round robin is fair.  As many packets in a row as a load balancer has backends reach every
  backend exactly once, whatever the position the search starts from and however the slots
  are occupied.
\<close>
theorem lb_round_robin_fair:
  assumes "lb_ok env s" "lb_view env s \<lparr> lk_vni = vni, lk_ip = dp_copy_ipaddr (fk_l3_dst fkey) \<rparr> = Some v"
    and "lb_port_found (lv_ports v) \<lparr> lp_protocol = fk_proto fkey, lp_port = htons (fk_port_dst fkey) \<rparr>"
  shows "\<exists>ips s'. lb_picks env fkey vni (unat (lv_back_end_cnt v)) s = Some (map Some ips, s') \<and>
    distinct ips \<and> set ips = back_ends v"
proof -
  note vok = lb_okD(3) [OF assms(1,2)]
  note facts = rr_positions_facts [OF vok]
  obtain s' where picks: "lb_picks env fkey vni (unat (lv_back_end_cnt v)) s = Some (map (\<lambda>q. Some (lv_back_end_ips v ! q)) (rr_positions v), s')"
    using lb_picks_positions [OF assms, of "unat (lv_back_end_cnt v)"] facts(3) by auto
  let ?ips = "map (\<lambda>q. lv_back_end_ips v ! q) (rr_positions v)"
  have len: "length (lv_back_end_ips v) = DP_LB_MAX_IPS_PER_VIP" "distinct (used_slots v)" "unat (lv_back_end_cnt v) = length (used_slots v)"
    using vok by (simp_all add: lb_value_ok_def)
  have set: "set ?ips = back_ends v"
    unfolding back_ends_def set_map facts(2) by (auto simp: in_set_conv_nth len(1))
  then have "card (set ?ips) = length ?ips"
    using distinct_card [OF len(2)] facts(3) len(3) by (simp only: back_ends_used length_map)
  then have "distinct ?ips"
    by (rule card_distinct)
  with picks set show ?thesis
    by (intro exI [of _ ?ips] exI [of _ s']) (simp add: comp_def)
qed

lemma dp_get_lb_request:
  assumes ok: "lb_tables_ok env s" and k: "id_view env s idk = Some (lb_request_key lb)" "lb_view env s (lb_request_key lb) = Some (lb_of_request lb ul)"
  shows "dp_get_lb env idk out s = Some (DP_GRPC_OK, out\<lparr> gl_vni := gl_vni lb, gl_addr := dp_copy_ipaddr (gl_addr lb),
      gl_ul_addr6 := ul, gl_lbports := gl_lbports lb \<rparr>)"
proof -
  from ok obtain q where q: "rh_lookup (env_lb_id env) (ls_id_tbl s) idk = Inr q" "ls_id_heap s q = Some (lb_request_key lb)"
    by (cases rule: id_viewE [of env s idk]) (use k(1) in auto)
  from ok obtain p where p: "rh_lookup (env_lb env) (ls_lb_tbl s) (lb_request_key lb) = Inr p" "ls_lb_heap s p = Some (lb_of_request lb ul)"
    by (cases rule: lb_viewE [of env s "lb_request_key lb"]) (use k(2) in auto)
  have "map (\<lambda>p. \<lparr> lp_protocol = lp_protocol p, lp_port = ntohs (lp_port p) \<rparr>) (lv_ports (lb_of_request lb ul)) = gl_lbports lb"
    by (simp add: lb_of_request_def comp_def map_idI)
  then show ?thesis
    using q p by (simp add: dp_get_lb_def lb_by_id_def lb_of_request_def dp_copy_ipaddr_def)
qed

text \<open>
  C18: A load balancer that was created is found under its id with the VNI, address, ports and
  underlay address of the request, also when the id was in use before.  Deleting it then succeeds,
  restores the table of load balancers and leaves nothing under the id.  So both tables are restored
  when the id was not in use; when it was, the older load balancer stays in the table and is no
  longer found under its id.
\<close>
theorem lb_create_get_delete:
  assumes "lb_ok env s" and "dp_create_lb env lb ul s = (DP_GRPC_OK, s1)"
  shows "dp_get_lb env (gl_lb_id lb) out s1 = Some (DP_GRPC_OK, out\<lparr> gl_vni := gl_vni lb, gl_addr := dp_copy_ipaddr (gl_addr lb),
      gl_ul_addr6 := ul, gl_lbports := gl_lbports lb \<rparr>) \<and>
    (\<exists>s2. dp_delete_lb env (gl_lb_id lb) s1 = Some (DP_GRPC_OK, s2) \<and> lb_tables_ok env s2 \<and>
       lb_view env s2 = lb_view env s \<and> id_view env s2 = (id_view env s)(gl_lb_id lb := None) \<and>
       (id_view env s (gl_lb_id lb) = None \<longrightarrow> id_view env s2 = id_view env s \<and> lb_ok env s2))"
proof -
  from lb_okD(1) [OF assms(1)] assms(2) have created: "lb_view env s (lb_request_key lb) = None" "lb_tables_ok env s1"
    "lb_view env s1 = (lb_view env s)(lb_request_key lb \<mapsto> lb_of_request lb ul)" "id_view env s1 = (id_view env s)(gl_lb_id lb \<mapsto> lb_request_key lb)"
    by (cases rule: dp_create_lb_cases; simp)+
  have get: "dp_get_lb env (gl_lb_id lb) out s1 = Some (DP_GRPC_OK, out\<lparr> gl_vni := gl_vni lb, gl_addr := dp_copy_ipaddr (gl_addr lb),
      gl_ul_addr6 := ul, gl_lbports := gl_lbports lb \<rparr>)"
    using created by (intro dp_get_lb_request) auto
  obtain s2 where s2: "dp_delete_lb env (gl_lb_id lb) s1 = Some (DP_GRPC_OK, s2)" "lb_tables_ok env s2"
    and views: "id_view env s2 = (id_view env s)(gl_lb_id lb := None)" "lb_view env s2 = lb_view env s"
    using dp_delete_lb_present [OF created(2), of "gl_lb_id lb" "lb_request_key lb"] created by (auto simp: fun_upd_idem_iff)
  have "lb_ok env s2" if "id_view env s (gl_lb_id lb) = None"
    using assms(1) s2(2) that unfolding lb_ok_def views by (simp add: fun_upd_idem)
  then show ?thesis
    using get s2 views by (auto simp: fun_upd_idem_iff)
qed

text \<open>
  C20: A creation that runs out of memory for the id leaves a dangling pointer.  The load
  balancer is freed but stays in the table: the address still counts as load balanced, and the next
  packet to it reads the freed memory.
\<close>
theorem lb_create_dangling:
  assumes "lb_tables_ok env s" "lb_view env s (lb_request_key lb) = None" "env_lb_id_malloc env (ls_id_heap s) = None"
    and "env_lb_malloc env (ls_lb_heap s) = Some p" "rh_add_data (env_lb env) (ls_lb_tbl s) (lb_request_key lb) p = (0, t)"
    and "dp_copy_ipaddr (fk_l3_dst fkey) = dp_copy_ipaddr (gl_addr lb)"
  shows "\<exists>s'. dp_create_lb env lb ul s = (DP_GRPC_ERR_OUT_OF_MEMORY, s') \<and> dp_lb_get_backend_ip env fkey (gl_vni lb) s' = None"
proof -
  have "rh_view (env_lb env) (ls_lb_tbl s) (lb_request_key lb) = None"
    using assms(2) obj_view_None [OF lb_tables_okD(5) [OF assms(1)]] by (simp add: lb_view_def)
  then have absent: "rh_lookup (env_lb env) (ls_lb_tbl s) (lb_request_key lb) = Inl (- ENOENT)"
    by (simp add: rh_lookup_view [OF lb_tables_okD(1) [OF assms(1)]])
  let ?s' = "s\<lparr> ls_lb_heap := rte_free ((ls_lb_heap s)(p \<mapsto> zero_lb_value)) p, ls_lb_tbl := t \<rparr>"
  have create: "dp_create_lb env lb ul s = (DP_GRPC_ERR_OUT_OF_MEMORY, ?s')"
    using absent assms(3-5) by (simp add: dp_create_lb_def dp_map_lb_handle_def Let_def)
  from lb_tables_okD(1) [OF assms(1)] assms(5) have "rh_view (env_lb env) t (lb_request_key lb) = Some p"
    by (cases rule: rh_add_data_cases) simp_all
  then have "dp_lb_get_backend_ip env fkey (gl_vni lb) ?s' = None"
    using rh_lookup_view [OF lb_tables_okD(1) [OF assms(1)]] assms(6) by (simp add: dp_lb_get_backend_ip_def rte_free_def)
  with create show ?thesis by blast
qed

definition example_flow :: flow_key where
  "example_flow = zero_flow_key\<lparr> fk_l3_dst := DP_SET_IPADDR4 9, fk_proto := 6, fk_port_dst := 80 \<rparr>"

lemma example_flow_key: "\<lparr> lk_vni = 100, lk_ip = dp_copy_ipaddr (fk_l3_dst example_flow) \<rparr> = lb_request_key example_lb"
  by (simp add: example_flow_def example_lb_def)

text \<open>The example load balancer with a backend.\<close>

lemma example_lb_target:
  "\<exists>s v. dp_add_lb_back_ip list_lb_env ''lb'' 21 16 example_lb_state = Some (DP_GRPC_OK, s) \<and> lb_ok list_lb_env s \<and>
     lb_view list_lb_env s (lb_request_key example_lb) = Some v \<and> back_ends v = {21} \<and> unat (lv_back_end_cnt v) = 1 \<and>
     lv_ports v = lv_ports (lb_of_request example_lb 7)"
proof -
  have val: "lb_value_ok (lb_of_request example_lb 7)"
    by (rule zero_lb_value_ok) (simp add: example_lb_def)
  have word: "slot_word 21 \<noteq> 0"
    by (simp add: slot_word_def)
  obtain r v' where add: "lb_add_back_ip 16 21 (lb_of_request example_lb 7) = (r, v')" by fastforce
  have none: "back_ends (lb_of_request example_lb 7) = {}" "length (used_slots (lb_of_request example_lb 7)) = 0"
    by (simp_all add: back_ends_def lb_of_request_def zero_lb_value_def)
  from val word add have v': "r = DP_GRPC_OK" "lb_value_ok v'" "back_ends v' = {21}" "lv_ports v' = lv_ports (lb_of_request example_lb 7)"
    by (cases rule: lb_add_back_ip_cases; use none in simp)+
  have "distinct (used_slots v')" "unat (lv_back_end_cnt v') = length (used_slots v')" "set (used_slots v') = {21}"
    using v'(2,3) unfolding lb_value_ok_def back_ends_used by blast+
  then have cnt: "unat (lv_back_end_cnt v') = 1"
    using distinct_card [of "used_slots v'"] by simp
  have idv: "id_view list_lb_env example_lb_state ''lb'' = Some (lb_request_key example_lb)"
    "lb_view list_lb_env example_lb_state (lb_request_key example_lb) = Some (lb_of_request example_lb 7)"
    unfolding example_lb_views by simp_all
  have "\<exists>v r v' s'. lb_view list_lb_env example_lb_state (lb_request_key example_lb) = Some v \<and> lb_add_back_ip 16 21 v = (r, v') \<and>
    lb_change list_lb_env ''lb'' (lb_add_back_ip 16 21) example_lb_state = Some (r, s') \<and> lb_ok list_lb_env s' \<and>
    lb_view list_lb_env s' = (lb_view list_lb_env example_lb_state)(lb_request_key example_lb \<mapsto> v') \<and>
    id_view list_lb_env s' = id_view list_lb_env example_lb_state"
    using lb_change_eq [OF example_lb_ok, of "lb_add_back_ip 16 21" "''lb''", OF lb_target_ops_keep(1) [OF _ word]] unfolding idv(1) by simp
  then obtain s' where "lb_change list_lb_env ''lb'' (lb_add_back_ip 16 21) example_lb_state = Some (DP_GRPC_OK, s')" "lb_ok list_lb_env s'"
    "lb_view list_lb_env s' = (lb_view list_lb_env example_lb_state)(lb_request_key example_lb \<mapsto> v')"
    unfolding idv(2) using add v'(1) by auto
  then show ?thesis
    using v' cnt unfolding dp_add_lb_back_ip_def by (intro exI [of _ s'] exI [of _ v']) simp
qed

theorem lb_round_robin_fair_witness:
  "\<exists>s s'. dp_add_lb_back_ip list_lb_env ''lb'' 21 16 example_lb_state = Some (DP_GRPC_OK, s) \<and>
     lb_picks list_lb_env example_flow 100 1 s = Some ([Some 21], s')"
proof -
  obtain s v where s: "dp_add_lb_back_ip list_lb_env ''lb'' 21 16 example_lb_state = Some (DP_GRPC_OK, s)" "lb_ok list_lb_env s"
    "lb_view list_lb_env s (lb_request_key example_lb) = Some v" "back_ends v = {21}" "unat (lv_back_end_cnt v) = 1"
    "lv_ports v = lv_ports (lb_of_request example_lb 7)"
    using example_lb_target by blast
  have "lb_port_found (lv_ports v) \<lparr> lp_protocol = fk_proto example_flow, lp_port = htons (fk_port_dst example_flow) \<rparr>"
    unfolding s(6) by (simp add: lb_of_request_def example_lb_def example_flow_def)
  moreover have "lb_view list_lb_env s \<lparr> lk_vni = 100, lk_ip = dp_copy_ipaddr (fk_l3_dst example_flow) \<rparr> = Some v"
    unfolding example_flow_key by (rule s(3))
  ultimately obtain ips s' where "lb_picks list_lb_env example_flow 100 1 s = Some (map Some ips, s')" and ips: "distinct ips" "set ips = {21}"
    using lb_round_robin_fair [OF s(2), of 100 example_flow v] unfolding s(4,5) by blast
  moreover have "ips = [21]"
    using ips distinct_card [OF ips(1)] by (intro filter_distinct_single) auto
  ultimately show ?thesis
    using s(1) by auto
qed

theorem lb_create_get_delete_witness:
  "\<exists>s2. dp_get_lb list_lb_env ''lb'' example_lb example_lb_state = Some (DP_GRPC_OK, example_lb\<lparr> gl_ul_addr6 := 7 \<rparr>) \<and>
     dp_delete_lb list_lb_env ''lb'' example_lb_state = Some (DP_GRPC_OK, s2) \<and> lb_view list_lb_env s2 = Map.empty"
  using lb_create_get_delete [OF empty_lb_ok example_lb_create, of example_lb]
  by (auto simp: empty_lb_views example_lb_def)

theorem lb_create_dangling_witness:
  "\<exists>s'. dp_create_lb (list_lb_env\<lparr> env_lb_id_malloc := \<lambda>_. None \<rparr>) example_lb 7 empty_lb_state = (DP_GRPC_ERR_OUT_OF_MEMORY, s') \<and>
     dp_lb_get_backend_ip (list_lb_env\<lparr> env_lb_id_malloc := \<lambda>_. None \<rparr>) example_flow 100 s' = None"
proof -
  let ?env = "list_lb_env\<lparr> env_lb_id_malloc := \<lambda>_. None \<rparr>"
  have "lb_tables_ok ?env empty_lb_state" "lb_view ?env empty_lb_state (lb_request_key example_lb) = None"
    using lb_okD(1) [OF empty_lb_ok] empty_lb_views(1)
    by (simp_all add: lb_tables_ok_def lb_env_ok_def rte_malloc_ok_def lb_view_def)
  moreover have "rh_add_data (env_lb ?env) (ls_lb_tbl empty_lb_state) (lb_request_key example_lb) 1 =
      (0, [Some (enc_lb_key (lb_request_key example_lb), 1)])" "env_lb_malloc ?env (ls_lb_heap empty_lb_state) = Some 1"
    by (simp_all add: list_lb_env_def empty_lb_state_def)
  ultimately show ?thesis
    using lb_create_dangling [of ?env empty_lb_state example_lb 1 _ example_flow 7]
    by (simp add: example_flow_def example_lb_def)
qed

text \<open>
  C19: The targets of a load balancer behave like a set of at most 64 addresses.  A history of
  insertions and deletions (of addresses whose first four bytes are not all zero) replays exactly
  the successful operations, the count stays right and no address is stored twice.
\<close>
theorem lb_targets_refine_set:
  assumes "lb_value_ok val" "list_all (op_valid (\<lambda>ip. slot_word ip \<noteq> 0) (\<lambda>ip. slot_word ip \<noteq> 0)) requests"
    and "store_run (lb_add_back_ip 16) dp_lb_delete_back_ip requests val = (rets, val')"
  shows "lb_value_ok val' \<and> target_view val' = map_replay (\<lambda>ip. ip) (\<lambda>_. ()) requests rets (target_view val) \<and>
    unat (lv_back_end_cnt val') = card (back_ends val') \<and> card (back_ends val') \<le> DP_LB_MAX_IPS_PER_VIP"
proof -
  note run = target.run_replay [OF assms]
  have "unat (lv_back_end_cnt val') = card (back_ends val')"
    using run(1) distinct_card [of "used_slots val'"] by (simp add: lb_value_ok_def back_ends_used)
  moreover have "length (used_slots val') \<le> DP_LB_MAX_IPS_PER_VIP"
    using run(1) length_filter_le [of "\<lambda>a. slot_word a \<noteq> 0" "lv_back_end_ips val'"] by (simp add: lb_value_ok_def)
  ultimately show ?thesis
    using run by (simp add: lb_value_ok_def)
qed

theorem lb_targets_refine_set_witness:
  "let reqs = [Put 21, Put 21, Del 22, Del 21];
       (rets, val') = store_run (lb_add_back_ip 16) dp_lb_delete_back_ip reqs zero_lb_value
   in target_view val' = map_replay (\<lambda>ip. ip) (\<lambda>_. ()) reqs rets (target_view zero_lb_value)"
proof -
  let ?reqs = "[Put 21, Put 21, Del 22, Del 21] :: (ipv6_addr, ipv6_addr) store_op list"
  obtain rets val' where run: "store_run (lb_add_back_ip 16) dp_lb_delete_back_ip ?reqs zero_lb_value = (rets, val')"
    by (cases "store_run (lb_add_back_ip 16) dp_lb_delete_back_ip ?reqs zero_lb_value")
  have "lb_value_ok zero_lb_value" "list_all (op_valid (\<lambda>ip. slot_word ip \<noteq> 0) (\<lambda>ip. slot_word ip \<noteq> 0)) ?reqs"
    by (simp_all add: lb_value_ok_def zero_lb_value_def slot_word_def)
  from lb_targets_refine_set [OF this run] show ?thesis
    unfolding Let_def run by simp
qed

text \<open>
  A load balancer whose 16 ports are all in use serves every port: a packet to a port and
  protocol that is not configured runs off the end of the port table and still gets a backend.
\<close>
lemma lb_full_ports_serve_any:
  assumes "lb_value_ok val" "lv_back_end_cnt val \<noteq> 0" "\<forall>p \<in> set (lv_ports val). lp_port p \<noteq> 0"
    and "port \<notin> set (lv_ports val)"
  shows "0 \<le> dp_lb_rr_backend val port"
proof -
  have "lb_port_found ps port" if "\<forall>p \<in> set ps. lp_port p \<noteq> 0" for ps
    using that by (induction ps) auto
  then have "lb_port_found (lv_ports val) port"
    using assms(3) by blast
  moreover have "length (rr_positions val) \<noteq> 0"
    using assms(2) rr_positions_facts(3) [OF assms(1)] by (simp add: unat_eq_0)
  ultimately show ?thesis
    using dp_lb_rr_backend_hd [OF assms(1)] by (auto split: list.splits)
qed

definition full_port_lb :: lb_value where
  "full_port_lb = zero_lb_value\<lparr> lv_ports := replicate DP_LB_MAX_PORTS \<lparr> lp_protocol = 6, lp_port = 0x5000 \<rparr>,
     lv_back_end_ips := 21 # replicate 63 0, lv_back_end_cnt := 1 \<rparr>"

lemma lb_full_ports_serve_any_witness:
  "0 \<le> dp_lb_rr_backend full_port_lb \<lparr> lp_protocol = 17, lp_port = 0x1600 \<rparr>"
proof -
  have "lb_value_ok full_port_lb"
    by (simp add: full_port_lb_def zero_lb_value_def lb_value_ok_def slot_word_def)
  from lb_full_ports_serve_any [OF this] show ?thesis
    by (simp add: full_port_lb_def)
qed

end
