(* ===== verification/Dp_Lpm.thy ===== *)
theory Dp_Lpm
  imports Dp_Vni Dp_Vnf
begin

text \<open>
  \<^verbatim>\<open>src/dp_lpm.c\<close>: the routes of the virtual networks.  Requests add and delete routes, packets look up
  the port they leave through, a reset leaves only the routes to the interfaces themselves.  \<open>tbl\<close> is
  the table of ports by number, \<open>ports\<close> the array the code iterates over.
\<close>

section \<open>Constants\<close>

definition dp_get_gw_ip4 :: u32 where
  "dp_get_gw_ip4 = 0xA9FE0001"

text \<open>\<^verbatim>\<open>fe80::1\<close>, byte 0 in the lowest bits.\<close>

definition dp_get_gw_ip6 :: ipv6_addr where
  "dp_get_gw_ip6 = 0x010000000000000000000000000080FE"

abbreviation DP_LPM_DHCP_IP_DEPTH :: u8 where "DP_LPM_DHCP_IP_DEPTH \<equiv> 32"
abbreviation DP_LPM_DHCP_IP6_DEPTH :: u8 where "DP_LPM_DHCP_IP6_DEPTH \<equiv> 128"

section \<open>Adding and deleting routes\<close>

definition dp_add_route ::
  "('t, 'r4, 'r6) vni_env \<Rightarrow> dp_port \<Rightarrow> u32 \<Rightarrow> u32 \<Rightarrow> u32 \<Rightarrow> ipv6_addr option \<Rightarrow> u8 \<Rightarrow> ('t, 'r4, 'r6) vni_state \<Rightarrow>
   (int \<times> ('t, 'r4, 'r6) vni_state) option" where
  "dp_add_route env port vni t_vni ip t_ip6 depth s =
     do {
       root \<leftarrow> dp_get_vni_route4_table env vni s;
       case root of
         None \<Rightarrow> Some (DP_GRPC_ERR_NO_VNI, s)
       | Some p \<Rightarrow> do {
           r \<leftarrow> vt_rib4 s p;
           let (ret, r1) = rib_add_route (env_rib4 env) port t_vni ip t_ip6 depth r;
           Some (ret, s\<lparr> vt_rib4 := (vt_rib4 s)(p \<mapsto> r1) \<rparr>)
         }
     }"

definition dp_del_route ::
  "('t, 'r4, 'r6) vni_env \<Rightarrow> dp_port \<Rightarrow> u32 \<Rightarrow> u32 \<Rightarrow> u8 \<Rightarrow> ('t, 'r4, 'r6) vni_state \<Rightarrow> (int \<times> ('t, 'r4, 'r6) vni_state) option" where
  "dp_del_route env port vni ip depth s =
     do {
       root \<leftarrow> dp_get_vni_route4_table env vni s;
       case root of
         None \<Rightarrow> Some (DP_GRPC_ERR_NO_VNI, s)
       | Some p \<Rightarrow> do {
           r \<leftarrow> vt_rib4 s p;
           let (ret, r1) = rib_del_route (env_rib4 env) port ip depth r;
           Some (ret, s\<lparr> vt_rib4 := (vt_rib4 s)(p \<mapsto> r1) \<rparr>)
         }
     }"

definition dp_add_route6 ::
  "('t, 'r4, 'r6) vni_env \<Rightarrow> dp_port \<Rightarrow> u32 \<Rightarrow> u32 \<Rightarrow> ipv6_addr \<Rightarrow> ipv6_addr option \<Rightarrow> u8 \<Rightarrow> ('t, 'r4, 'r6) vni_state \<Rightarrow>
   (int \<times> ('t, 'r4, 'r6) vni_state) option" where
  "dp_add_route6 env port vni t_vni ipv6 t_ip6 depth s =
     do {
       root \<leftarrow> dp_get_vni_route6_table env vni s;
       case root of
         None \<Rightarrow> Some (DP_GRPC_ERR_NO_VNI, s)
       | Some p \<Rightarrow> do {
           r \<leftarrow> vt_rib6 s p;
           let (ret, r1) = rib_add_route (env_rib6 env) port t_vni ipv6 t_ip6 depth r;
           Some (ret, s\<lparr> vt_rib6 := (vt_rib6 s)(p \<mapsto> r1) \<rparr>)
         }
     }"

definition dp_del_route6 ::
  "('t, 'r4, 'r6) vni_env \<Rightarrow> dp_port \<Rightarrow> u32 \<Rightarrow> ipv6_addr \<Rightarrow> u8 \<Rightarrow> ('t, 'r4, 'r6) vni_state \<Rightarrow> (int \<times> ('t, 'r4, 'r6) vni_state) option" where
  "dp_del_route6 env port vni ipv6 depth s =
     do {
       root \<leftarrow> dp_get_vni_route6_table env vni s;
       case root of
         None \<Rightarrow> Some (DP_GRPC_ERR_NO_VNI, s)
       | Some p \<Rightarrow> do {
           r \<leftarrow> vt_rib6 s p;
           let (ret, r1) = rib_del_route (env_rib6 env) port ipv6 depth r;
           Some (ret, s\<lparr> vt_rib6 := (vt_rib6 s)(p \<mapsto> r1) \<rparr>)
         }
     }"

section \<open>Reset\<close>

definition dp_lpm_fill_route_tables ::
  "('t, 'r4, 'r6) vni_env \<Rightarrow> dp_port \<Rightarrow> ('t, 'r4, 'r6) vni_state \<Rightarrow> (int \<times> ('t, 'r4, 'r6) vni_state) option" where
  "dp_lpm_fill_route_tables env port s =
     do {
       let iface = port_iface port;
       (ret, s1) \<leftarrow> dp_add_route env port (iface_vni iface) 0 (cfg_own_ip (iface_cfg iface)) None 32 s;
       if DP_FAILED ret then Some (ret, s1)
       else do {
         (ret6, s2) \<leftarrow> dp_add_route6 env port (iface_vni iface) 0 (cfg_dhcp_ipv6 (iface_cfg iface)) None 128 s1;
         Some (if DP_FAILED ret6 then ret6 else DP_GRPC_OK, s2)
       }
     }"

text \<open>The loop over the ports; \<open>sel\<close> is the negated condition of its \<^verbatim>\<open>continue\<close>.\<close>

fun lpm_fill_ports ::
  "('t, 'r4, 'r6) vni_env \<Rightarrow> (dp_port \<Rightarrow> bool) \<Rightarrow> dp_port list \<Rightarrow> ('t, 'r4, 'r6) vni_state \<Rightarrow> (int \<times> ('t, 'r4, 'r6) vni_state) option" where
  "lpm_fill_ports env sel [] s = Some (DP_GRPC_OK, s)"
| "lpm_fill_ports env sel (port # ports) s =
     (if sel port then
        do {
          (ret, s1) \<leftarrow> dp_lpm_fill_route_tables env port s;
          if DP_FAILED ret then Some (ret, s1) else lpm_fill_ports env sel ports s1
        }
      else lpm_fill_ports env sel ports s)"

definition dp_lpm_reset_all_route_tables ::
  "('t, 'r4, 'r6) vni_env \<Rightarrow> dp_port list \<Rightarrow> ('t, 'r4, 'r6) vni_state \<Rightarrow> (int \<times> ('t, 'r4, 'r6) vni_state) option" where
  "dp_lpm_reset_all_route_tables env ports s =
     do {
       (ret, s1) \<leftarrow> dp_reset_all_vni_route_tables env s;
       if DP_FAILED ret then Some (DP_GRPC_ERR_ROUTE_RESET, s1)
       else lpm_fill_ports env (\<lambda>port. iface_ready (port_iface port)) ports s1
     }"

definition dp_lpm_reset_route_tables ::
  "('t, 'r4, 'r6) vni_env \<Rightarrow> dp_port list \<Rightarrow> u32 \<Rightarrow> ('t, 'r4, 'r6) vni_state \<Rightarrow> (int \<times> ('t, 'r4, 'r6) vni_state) option" where
  "dp_lpm_reset_route_tables env ports vni s =
     do {
       (ret, s1) \<leftarrow> dp_reset_vni_route_tables env vni s;
       if DP_FAILED ret then Some (DP_GRPC_ERR_ROUTE_RESET, s1)
       else lpm_fill_ports env (\<lambda>port. iface_ready (port_iface port) \<and> iface_vni (port_iface port) = vni) ports s1
     }"

section \<open>Listing\<close>

definition dp_route_in_dhcp_range :: "(u32, 'r4) rte_rib \<Rightarrow> 'r4 \<Rightarrow> ptr \<Rightarrow> dp_port \<Rightarrow> bool" where
  "dp_route_in_dhcp_range R root node port \<longleftrightarrow>
     cfg_own_ip (iface_cfg (port_iface port)) = rb_get_ip R root node \<and> rb_get_depth R root node = DP_LPM_DHCP_IP_DEPTH"

text \<open>Callers that list external routes pass no port; for the others the port is dereferenced.\<close>

definition dp_list_route_entry ::
  "(u32, 'r4) rte_rib \<Rightarrow> dp_port option list \<Rightarrow> 'r4 \<Rightarrow> ptr \<Rightarrow> dp_port option \<Rightarrow> bool \<Rightarrow> dpgrpc_route dp_grpc_responder \<Rightarrow>
   (int \<times> dpgrpc_route dp_grpc_responder) option" where
  "dp_list_route_entry R tbl root node port ext_routes responder =
     (case dp_get_port_by_id tbl (ucast (rb_get_nh R root node)) of
        None \<Rightarrow> Some (DP_GRPC_ERR_NO_VM, responder)
      | Some dst_port \<Rightarrow>
          if \<not> ext_routes \<and> port = None then None
          else if ext_routes \<and> port_is_pf dst_port
                  \<or> \<not> ext_routes \<and> port_port_id dst_port = port_port_id (the port) \<and> \<not> dp_route_in_dhcp_range R root node (the port)
          then
            let route = rb_get_ext R root node;
                (ok, responder1) = dp_grpc_add_reply
                  \<lparr> gr_vni = 0, gr_trgt_vni = (if ext_routes then ir_vni route else 0),
                    gr_pfx_addr = DP_SET_IPADDR4 (rb_get_ip R root node), gr_pfx_length = rb_get_depth R root node,
                    gr_trgt_addr = (if ext_routes then DP_SET_IPADDR6 (ir_nh_ipv6 route) else zero_ip) \<rparr> responder
            in Some (if ok then DP_GRPC_OK else DP_GRPC_ERR_OUT_OF_MEMORY, responder1)
          else Some (DP_GRPC_OK, responder))"

text \<open>The traversal; nothing in the code bounds it.\<close>

partial_function (option) rib_traverse ::
  "('a, 'r) rte_rib \<Rightarrow> 'r \<Rightarrow> (ptr \<Rightarrow> 's \<Rightarrow> (int \<times> 's) option) \<Rightarrow> ptr option \<Rightarrow> 's \<Rightarrow> (int \<times> 's) option" where
  "rib_traverse R root body node a =
     (case rb_get_nxt R root node of
        None \<Rightarrow> Some (DP_GRPC_OK, a)
      | Some n \<Rightarrow>
          do {
            (ret, a1) \<leftarrow> body n a;
            if DP_FAILED ret then Some (ret, a1) else rib_traverse R root body (Some n) a1
          })"

declare rib_traverse.simps [code]

definition dp_list_routes ::
  "('t, 'r4, 'r6) vni_env \<Rightarrow> nat \<Rightarrow> dp_port option list \<Rightarrow> dp_port option \<Rightarrow> u32 \<Rightarrow> bool \<Rightarrow> ('t, 'r4, 'r6) vni_state \<Rightarrow>
   dpgrpc_route dp_grpc_responder \<Rightarrow> (int \<times> dpgrpc_route dp_grpc_responder) option" where
  "dp_list_routes env msg_size tbl port vni ext_routes s responder =
     do {
       root \<leftarrow> dp_get_vni_route4_table env vni s;
       case root of
         None \<Rightarrow> Some (DP_GRPC_ERR_NO_VNI, responder)
       | Some p \<Rightarrow> do {
           r \<leftarrow> vt_rib4 s p;
           let responder = dp_grpc_set_multireply msg_size responder;
           (ret, responder) \<leftarrow> (case rb_lookup_exact (env_rib4 env) r 0 0 of
               None \<Rightarrow> Some (DP_GRPC_OK, responder)
             | Some node \<Rightarrow> dp_list_route_entry (env_rib4 env) tbl r node port ext_routes responder);
           if DP_FAILED ret then Some (ret, responder)
           else rib_traverse (env_rib4 env) r (\<lambda>node. dp_list_route_entry (env_rib4 env) tbl r node port ext_routes) None responder
         }
     }"

section \<open>Lookup\<close>

text \<open>
  The port a packet leaves through, the target of the route, which is the caller's value unless the
  port is physical, and the prefix of the route; \<open>Some None\<close> is \<^verbatim>\<open>NULL\<close>.
\<close>

definition rib_out_port ::
  "('a, 'r) rte_rib \<Rightarrow> dp_port option list \<Rightarrow> 'r \<Rightarrow> 'a \<Rightarrow> dp_iface_route \<Rightarrow> (dp_port \<times> dp_iface_route \<times> 'a) option" where
  "rib_out_port R tbl root dst route =
     (case rb_lookup R root dst of
        None \<Rightarrow> None
      | Some node \<Rightarrow>
          (case dp_get_port_by_id tbl (ucast (rb_get_nh R root node)) of
             None \<Rightarrow> None
           | Some dst_port \<Rightarrow>
               Some (dst_port, if port_is_pf dst_port then rb_get_ext R root node else route, rb_get_ip R root node)))"

definition dp_get_ip4_out_port ::
  "('t, 'r4, 'r6) vni_env \<Rightarrow> dp_port option list \<Rightarrow> dp_port \<Rightarrow> u32 \<Rightarrow> dp_flow \<Rightarrow> dp_iface_route \<Rightarrow> ('t, 'r4, 'r6) vni_state \<Rightarrow>
   (dp_port \<times> dp_iface_route \<times> u32) option option" where
  "dp_get_ip4_out_port env tbl in_port t_vni df route s =
     do {
       let dst_ip = ntohl (df_dst_addr df);
       let t_vni = (if t_vni = 0 then iface_vni (port_iface in_port) else t_vni);
       root \<leftarrow> dp_get_vni_route4_table env t_vni s;
       case root of
         None \<Rightarrow> Some None
       | Some p \<Rightarrow> do { r \<leftarrow> vt_rib4 s p; Some (rib_out_port (env_rib4 env) tbl r dst_ip route) }
     }"

definition dp_get_ip6_out_port ::
  "('t, 'r4, 'r6) vni_env \<Rightarrow> dp_port option list \<Rightarrow> dp_port \<Rightarrow> u32 \<Rightarrow> dp_flow \<Rightarrow> dp_iface_route \<Rightarrow> ('t, 'r4, 'r6) vni_state \<Rightarrow>
   (dp_port \<times> dp_iface_route \<times> ipv6_addr) option option" where
  "dp_get_ip6_out_port env tbl in_port t_vni df route s =
     do {
       let t_vni = (if t_vni = 0 then iface_vni (port_iface in_port) else t_vni);
       root \<leftarrow> dp_get_vni_route6_table env t_vni s;
       case root of
         None \<Rightarrow> Some None
       | Some p \<Rightarrow> do { r \<leftarrow> vt_rib6 s p; Some (rib_out_port (env_rib6 env) tbl r (df_dst_addr6 df) route) }
     }"

section \<open>Lemmas\<close>

lemma route4_table:
  assumes ok: "vni_ok env s"
  obtains (absent) "dp_get_vni_route4_table env vni s = Some None" "vni_refs env s vni = 0" "\<And>pf. routes4 env pf s vni = None"
  | (present) p r where "dp_get_vni_route4_table env vni s = Some (Some p)" "vni_refs env s vni \<noteq> 0" "rib4_of env s vni = Some p"
      "vt_rib4 s p = Some r" "\<And>pf. routes4 env pf s vni = Some (route_view (env_rib4 env) ip4_prefix pf r)"
  using ok
proof (cases rule: vni_lookup [of env s vni])
  case absent
  then show thesis
    by (intro that(1)) (simp_all add: dp_get_vni_route4_table_def dp_get_vni_data_def routes4_def rib4_of_def)
next
  case (present p data)
  obtain q where q: "vd_rib4 data = Some q"
    using present(5) by (auto simp: vni_data_ok_def)
  then have rib: "rib4_of env s vni = Some q"
    by (simp add: rib4_of_def present(4))
  then obtain r where r: "vt_rib4 s q = Some r"
    using owns_live [OF vni_okD(4) [OF ok]] by blast
  show thesis
    using present q rib r by (intro that(2) [of q r])
      (simp_all add: dp_get_vni_route4_table_def dp_get_vni_data_def routes4_def vni_data_ok_def unat_eq_zero)
qed

lemma route6_table:
  assumes ok: "vni_ok env s"
  obtains (absent) "dp_get_vni_route6_table env vni s = Some None" "vni_refs env s vni = 0" "\<And>pf. routes6 env pf s vni = None"
  | (present) p r where "dp_get_vni_route6_table env vni s = Some (Some p)" "vni_refs env s vni \<noteq> 0" "rib6_of env s vni = Some p"
      "vt_rib6 s p = Some r" "\<And>pf. routes6 env pf s vni = Some (route_view (env_rib6 env) ip6_prefix pf r)"
  using ok
proof (cases rule: vni_lookup [of env s vni])
  case absent
  then show thesis
    by (intro that(1)) (simp_all add: dp_get_vni_route6_table_def dp_get_vni_data_def routes6_def rib6_of_def)
next
  case (present p data)
  obtain q where q: "vd_rib6 data = Some q"
    using present(5) by (auto simp: vni_data_ok_def)
  then have rib: "rib6_of env s vni = Some q"
    by (simp add: rib6_of_def present(4))
  then obtain r where r: "vt_rib6 s q = Some r"
    using owns_live [OF vni_okD(5) [OF ok]] by blast
  show thesis
    using present q rib r by (intro that(2) [of q r])
      (simp_all add: dp_get_vni_route6_table_def dp_get_vni_data_def routes6_def vni_data_ok_def unat_eq_zero)
qed

text \<open>A change of one table shows in the routes of its network only.\<close>

lemma vni_rib_write:
  assumes ok: "vni_ok env s"
  shows "rib4_of env s vni = Some p \<Longrightarrow> vni_ok env (s\<lparr> vt_rib4 := (vt_rib4 s)(p \<mapsto> r4) \<rparr>)"
    and "rib4_of env s vni = Some p \<Longrightarrow>
      routes4 env pf (s\<lparr> vt_rib4 := (vt_rib4 s)(p \<mapsto> r4) \<rparr>) = (routes4 env pf s)(vni \<mapsto> route_view (env_rib4 env) ip4_prefix pf r4)"
    and "rib6_of env s vni = Some p \<Longrightarrow> vni_ok env (s\<lparr> vt_rib6 := (vt_rib6 s)(p \<mapsto> r6) \<rparr>)"
    and "rib6_of env s vni = Some p \<Longrightarrow>
      routes6 env pf (s\<lparr> vt_rib6 := (vt_rib6 s)(p \<mapsto> r6) \<rparr>) = (routes6 env pf s)(vni \<mapsto> route_view (env_rib6 env) ip6_prefix pf r6)"
proof -
  have same: "vni_view env (s\<lparr> vt_rib4 := h4 \<rparr>) = vni_view env s" "rib4_of env (s\<lparr> vt_rib4 := h4 \<rparr>) = rib4_of env s"
      "rib6_of env (s\<lparr> vt_rib4 := h4 \<rparr>) = rib6_of env s" "vni_view env (s\<lparr> vt_rib6 := h6 \<rparr>) = vni_view env s"
      "rib4_of env (s\<lparr> vt_rib6 := h6 \<rparr>) = rib4_of env s" "rib6_of env (s\<lparr> vt_rib6 := h6 \<rparr>) = rib6_of env s" for h4 h6
    by (simp_all add: vni_view_def rib4_of_def rib6_of_def fun_eq_iff)
  show "rib4_of env s vni = Some p \<Longrightarrow> vni_ok env (s\<lparr> vt_rib4 := (vt_rib4 s)(p \<mapsto> r4) \<rparr>)"
    "rib6_of env s vni = Some p \<Longrightarrow> vni_ok env (s\<lparr> vt_rib6 := (vt_rib6 s)(p \<mapsto> r6) \<rparr>)"
    using ok owns_write [OF vni_okD(4) [OF ok]] owns_write [OF vni_okD(5) [OF ok]] by (simp_all add: vni_ok_def same)
  have other: "k \<noteq> vni \<Longrightarrow> rib4_of env s vni = Some p \<Longrightarrow> rib4_of env s k \<noteq> Some p"
    "k \<noteq> vni \<Longrightarrow> rib6_of env s vni = Some p \<Longrightarrow> rib6_of env s k \<noteq> Some p" for k p
    using owns_inj [OF vni_okD(4) [OF ok], of vni p k] owns_inj [OF vni_okD(5) [OF ok], of vni p k] by auto
  then show "rib4_of env s vni = Some p \<Longrightarrow>
      routes4 env pf (s\<lparr> vt_rib4 := (vt_rib4 s)(p \<mapsto> r4) \<rparr>) = (routes4 env pf s)(vni \<mapsto> route_view (env_rib4 env) ip4_prefix pf r4)"
    "rib6_of env s vni = Some p \<Longrightarrow>
      routes6 env pf (s\<lparr> vt_rib6 := (vt_rib6 s)(p \<mapsto> r6) \<rparr>) = (routes6 env pf s)(vni \<mapsto> route_view (env_rib6 env) ip6_prefix pf r6)"
    by (auto simp: routes4_def routes6_def same fun_eq_iff intro!: Option.bind_cong)
qed

lemma vni_rib_frame [simp]:
  "vni_refs env (s\<lparr> vt_rib4 := h4 \<rparr>) = vni_refs env s" "vni_refs env (s\<lparr> vt_rib6 := h6 \<rparr>) = vni_refs env s"
  "routes6 env pf (s\<lparr> vt_rib4 := h4 \<rparr>) = routes6 env pf s" "routes4 env pf (s\<lparr> vt_rib6 := h6 \<rparr>) = routes4 env pf s"
  by (simp_all add: vni_refs_def routes4_def routes6_def rib4_of_def rib6_of_def vni_view_def fun_eq_iff)

text \<open>The four requests: either the network does not exist, or its table is replaced.\<close>

lemma dp_add_route_effect:
  assumes ok: "vni_ok env s"
  obtains (no_vni) "dp_add_route env port vni t_vni ip t_ip6 depth s = Some (DP_GRPC_ERR_NO_VNI, s)" "\<And>pf. routes4 env pf s vni = None"
  | (vni) p r ret r' where "rib_add_route (env_rib4 env) port t_vni ip t_ip6 depth r = (ret, r')"
      "dp_add_route env port vni t_vni ip t_ip6 depth s = Some (ret, s\<lparr> vt_rib4 := (vt_rib4 s)(p \<mapsto> r') \<rparr>)"
      "rib4_of env s vni = Some p" "\<And>pf. routes4 env pf s vni = Some (route_view (env_rib4 env) ip4_prefix pf r)"
  using ok
proof (cases rule: route4_table [of env s vni])
  case absent
  then show thesis by (intro that(1)) (simp_all add: dp_add_route_def)
next
  case (present p r)
  obtain ret r' where "rib_add_route (env_rib4 env) port t_vni ip t_ip6 depth r = (ret, r')" by fastforce
  with present show thesis by (intro that(2)) (simp_all add: dp_add_route_def)
qed

lemma dp_del_route_effect:
  assumes ok: "vni_ok env s"
  obtains (no_vni) "dp_del_route env port vni ip depth s = Some (DP_GRPC_ERR_NO_VNI, s)" "\<And>pf. routes4 env pf s vni = None"
  | (vni) p r ret r' where "rib_del_route (env_rib4 env) port ip depth r = (ret, r')"
      "dp_del_route env port vni ip depth s = Some (ret, s\<lparr> vt_rib4 := (vt_rib4 s)(p \<mapsto> r') \<rparr>)"
      "rib4_of env s vni = Some p" "\<And>pf. routes4 env pf s vni = Some (route_view (env_rib4 env) ip4_prefix pf r)"
  using ok
proof (cases rule: route4_table [of env s vni])
  case absent
  then show thesis by (intro that(1)) (simp_all add: dp_del_route_def)
next
  case (present p r)
  obtain ret r' where "rib_del_route (env_rib4 env) port ip depth r = (ret, r')" by fastforce
  with present show thesis by (intro that(2)) (simp_all add: dp_del_route_def)
qed

lemma dp_add_route6_effect:
  assumes ok: "vni_ok env s"
  obtains (no_vni) "dp_add_route6 env port vni t_vni ip t_ip6 depth s = Some (DP_GRPC_ERR_NO_VNI, s)" "\<And>pf. routes6 env pf s vni = None"
  | (vni) p r ret r' where "rib_add_route (env_rib6 env) port t_vni ip t_ip6 depth r = (ret, r')"
      "dp_add_route6 env port vni t_vni ip t_ip6 depth s = Some (ret, s\<lparr> vt_rib6 := (vt_rib6 s)(p \<mapsto> r') \<rparr>)"
      "rib6_of env s vni = Some p" "\<And>pf. routes6 env pf s vni = Some (route_view (env_rib6 env) ip6_prefix pf r)"
  using ok
proof (cases rule: route6_table [of env s vni])
  case absent
  then show thesis by (intro that(1)) (simp_all add: dp_add_route6_def)
next
  case (present p r)
  obtain ret r' where "rib_add_route (env_rib6 env) port t_vni ip t_ip6 depth r = (ret, r')" by fastforce
  with present show thesis by (intro that(2)) (simp_all add: dp_add_route6_def)
qed

lemma dp_del_route6_effect:
  assumes ok: "vni_ok env s"
  obtains (no_vni) "dp_del_route6 env port vni ip depth s = Some (DP_GRPC_ERR_NO_VNI, s)" "\<And>pf. routes6 env pf s vni = None"
  | (vni) p r ret r' where "rib_del_route (env_rib6 env) port ip depth r = (ret, r')"
      "dp_del_route6 env port vni ip depth s = Some (ret, s\<lparr> vt_rib6 := (vt_rib6 s)(p \<mapsto> r') \<rparr>)"
      "rib6_of env s vni = Some p" "\<And>pf. routes6 env pf s vni = Some (route_view (env_rib6 env) ip6_prefix pf r)"
  using ok
proof (cases rule: route6_table [of env s vni])
  case absent
  then show thesis by (intro that(1)) (simp_all add: dp_del_route6_def)
next
  case (present p r)
  obtain ret r' where "rib_del_route (env_rib6 env) port ip depth r = (ret, r')" by fastforce
  with present show thesis by (intro that(2)) (simp_all add: dp_del_route6_def)
qed

section \<open>Histories\<close>

text \<open>
  The operations of the control plane on the networks; \<open>refs\<close> counts the successful creations minus
  the successful deletions of each network.  The steps have three guards: a creation keeps the count
  below 2^32, a reset finds memory for the new tables (\<open>dp_reset_vni_dangling\<close> below says what
  happens otherwise), and a route through a physical port comes with a target address, which the code
  dereferences there.
\<close>

type_synonym ('t, 'r4, 'r6) lpm_config = "('t, 'r4, 'r6) vni_state \<times> network_nat_entry list \<times> (u32 \<Rightarrow> nat)"

inductive lpm_step :: "('t, 'r4, 'r6) vni_env \<Rightarrow> ('t, 'r4, 'r6) lpm_config \<Rightarrow> ('t, 'r4, 'r6) lpm_config \<Rightarrow> bool" for env where
  create: "dp_create_vni_route_tables env vni socket_id s = Some (ret, s') \<Longrightarrow> refs vni + 1 < 2 ^ 32 \<Longrightarrow>
    lpm_step env (s, headp, refs) (s', headp, if DP_FAILED ret then refs else refs(vni := refs vni + 1))"
| delete: "dp_delete_vni_route_tables env vni s headp = Some (ret, s', headp') \<Longrightarrow>
    lpm_step env (s, headp, refs) (s', headp', if DP_FAILED ret then refs else refs(vni := refs vni - 1))"
| reset: "dp_reset_vni_route_tables env vni s = Some (ret, s') \<Longrightarrow> \<not> DP_FAILED ret \<Longrightarrow>
    lpm_step env (s, headp, refs) (s', headp, refs)"
| reset_all: "dp_reset_all_vni_route_tables env s = Some (ret, s') \<Longrightarrow> \<not> DP_FAILED ret \<Longrightarrow>
    lpm_step env (s, headp, refs) (s', headp, refs)"
| add_route: "dp_add_route env port vni t_vni ip t_ip6 depth s = Some (ret, s') \<Longrightarrow> (port_is_pf port \<longrightarrow> t_ip6 \<noteq> None) \<Longrightarrow>
    lpm_step env (s, headp, refs) (s', headp, refs)"
| del_route: "dp_del_route env port vni ip depth s = Some (ret, s') \<Longrightarrow> lpm_step env (s, headp, refs) (s', headp, refs)"
| add_route6: "dp_add_route6 env port vni t_vni ip6 t_ip6 depth s = Some (ret, s') \<Longrightarrow> (port_is_pf port \<longrightarrow> t_ip6 \<noteq> None) \<Longrightarrow>
    lpm_step env (s, headp, refs) (s', headp, refs)"
| del_route6: "dp_del_route6 env port vni ip6 depth s = Some (ret, s') \<Longrightarrow> lpm_step env (s, headp, refs) (s', headp, refs)"

fun lpm_inv :: "('t, 'r4, 'r6) vni_env \<Rightarrow> ('t, 'r4, 'r6) lpm_config \<Rightarrow> bool" where
  "lpm_inv env (s, headp, refs) \<longleftrightarrow> vni_ok env s \<and> vni_refs env s = refs"

lemma dp_reset_vni_ok:
  assumes ok: "vni_ok env s" and run: "dp_reset_vni_route_tables env vni s = Some (ret, s')" and ret: "\<not> DP_FAILED ret"
  shows "vni_ok env s' \<and> vni_refs env s' = vni_refs env s \<and>
    routes4 env pf s' = (routes4 env pf s)(vni := map_option (\<lambda>_. Map.empty) (routes4 env pf s vni)) \<and>
    routes6 env pf s' = (routes6 env pf s)(vni := map_option (\<lambda>_. Map.empty) (routes6 env pf s vni))"
  using ok
proof (cases rule: vni_lookup [of env s vni])
  case absent
  then have "s' = s" "routes4 env pf s vni = None" "routes6 env pf s vni = None"
    using run by (simp_all add: dp_reset_vni_route_tables_def routes4_def routes6_def rib4_of_def rib6_of_def)
  then show ?thesis
    using ok by (simp add: fun_upd_idem)
next
  case (present p data)
  have some: "routes4 env pf s vni \<noteq> None" "routes6 env pf s vni \<noteq> None"
    using present(5) owns_live [OF vni_okD(4) [OF ok], of vni] owns_live [OF vni_okD(5) [OF ok], of vni]
    by (auto simp: routes4_def routes6_def rib4_of_def rib6_of_def present(4) vni_data_ok_def)
  have run': "dp_reset_vni_data env vni p s = Some (ret, s')"
    using run by (simp add: dp_reset_vni_route_tables_def present)
  from ok present(2) show ?thesis
  proof (cases rule: dp_reset_vni_data_cases)
    case (reset s1)
    then show ?thesis
      using run' some by auto
  qed (use run' ret in \<open>simp_all add: DP_FAILED_def\<close>)
qed

lemma dp_reset_all_vni_ok:
  assumes iter: "rte_iter_ok (env_vni env) slots" and ok: "vni_ok env s"
  shows "\<exists>ret s'. dp_reset_all_vni_route_tables env s = Some (ret, s') \<and>
    (\<not> DP_FAILED ret \<longrightarrow> vni_ok env s' \<and> vni_refs env s' = vni_refs env s)"
proof (cases "rh_count (env_vni env) (vt_tbl s) = 0")
  case True
  then show ?thesis
    using ok by (simp add: dp_reset_all_vni_route_tables_def)
next
  case False
  let ?I = "\<lambda>a. vni_ok env a \<and> vni_refs env a = vni_refs env s"
  let ?J = "\<lambda>r. \<exists>ret s'. r = Some (ret, s') \<and> DP_FAILED ret"
  have "case reset_body env vni p a of Inl r \<Rightarrow> ?J r | Inr a' \<Rightarrow> ?I a'"
    if "?I a" "rh_view (env_vni env) (vt_tbl a) vni = Some p" for vni p a
    by (rule dp_reset_vni_data_cases [OF conjunct1 [OF that(1)] that(2)])
      (use that(1) in \<open>simp_all add: reset_body_def DP_FAILED_def\<close>)
  from rh_foreach_keeps [where I = ?I and J = ?J and i = 0 and err = "\<lambda>_ _. None" and tbl = vt_tbl and a = s and body = "reset_body env", OF iter this] ok obtain res
    where "rh_foreach (env_vni env) vt_tbl (\<lambda>_ _. None) (reset_body env) 0 s = Some res"
      "case res of Inl r \<Rightarrow> ?J r | Inr a' \<Rightarrow> ?I a'"
    by blast
  then show ?thesis
    using False by (auto simp: dp_reset_all_vni_route_tables_def split: sum.splits)
qed

lemma lpm_step_inv:
  assumes "rte_iter_ok (env_vni env) slots" "lpm_step env c c'" "lpm_inv env c"
  shows "lpm_inv env c'"
  using assms(2,3)
proof (induction rule: lpm_step.induct)
  case (create vni socket_id s ret s' refs headp)
  then have ok: "vni_ok env s" by simp
  then show ?case
    using create by (cases rule: dp_create_vni_cases [of env s vni socket_id]) (simp_all add: DP_FAILED_def)
next
  case (delete vni s headp ret s' headp' refs)
  then have ok: "vni_ok env s" by simp
  then show ?case
    using delete by (cases rule: dp_delete_vni_cases [of env s vni headp]) (auto simp: DP_FAILED_def)
next
  case (reset vni s ret s' headp refs)
  then show ?case
    using dp_reset_vni_ok [of env s vni ret s'] by simp
next
  case (reset_all s ret s' headp refs)
  then show ?case
    using dp_reset_all_vni_ok [OF assms(1), of s] by auto
next
  case (add_route port vni t_vni ip t_ip6 depth s ret s' headp refs)
  then have ok: "vni_ok env s" by simp
  then show ?case
    using add_route vni_rib_write(1) [OF ok] by (cases rule: dp_add_route_effect [of env s port vni t_vni ip t_ip6 depth]) auto
next
  case (del_route port vni ip depth s ret s' headp refs)
  then have ok: "vni_ok env s" by simp
  then show ?case
    using del_route vni_rib_write(1) [OF ok] by (cases rule: dp_del_route_effect [of env s port vni ip depth]) auto
next
  case (add_route6 port vni t_vni ip6 t_ip6 depth s ret s' headp refs)
  then have ok: "vni_ok env s" by simp
  then show ?case
    using add_route6 vni_rib_write(3) [OF ok] by (cases rule: dp_add_route6_effect [of env s port vni t_vni ip6 t_ip6 depth]) auto
next
  case (del_route6 port vni ip6 depth s ret s' headp refs)
  then have ok: "vni_ok env s" by simp
  then show ?case
    using del_route6 vni_rib_write(3) [OF ok] by (cases rule: dp_del_route6_effect [of env s port vni ip6 depth]) auto
qed

lemma lpm_steps_inv:
  assumes "rte_iter_ok (env_vni env) slots"
  shows "(lpm_step env)\<^sup>*\<^sup>* c c' \<Longrightarrow> lpm_inv env c \<Longrightarrow> lpm_inv env c'"
  by (induction rule: rtranclp_induct) (auto dest: lpm_step_inv [OF assms])

text \<open>A state without networks, as \<^verbatim>\<open>dp_vni_init\<close> leaves it.\<close>

abbreviation no_vnis :: "'t \<Rightarrow> ('t, 'r4, 'r6) vni_state" where
  "no_vnis t \<equiv> \<lparr> vt_tbl = t, vt_heap = Map.empty, vt_rib4 = Map.empty, vt_rib6 = Map.empty \<rparr>"

lemma no_vnis_inv:
  assumes "vni_env_ok env" "rh_view (env_vni env) t = Map.empty"
  shows "lpm_inv env (no_vnis t, headp, \<lambda>_. 0)"
proof -
  have view: "vni_view env (no_vnis t) = Map.empty"
    by (simp add: vni_view_def obj_view_def assms fun_eq_iff)
  then have "rib4_of env (no_vnis t) = Map.empty" "rib6_of env (no_vnis t) = Map.empty"
    by (simp_all add: rib4_of_def rib6_of_def fun_eq_iff)
  then have "vni_ok env (no_vnis t)"
    using assms view by (simp add: vni_ok_def)
  moreover have "vni_refs env (no_vnis t) = (\<lambda>_. 0)"
    by (rule ext) (simp add: vni_refs_def view)
  ultimately show ?thesis by simp
qed

lemma owns_card: "owns P h \<Longrightarrow> card (dom h) = card (dom P)"
proof -
  assume own: "owns P h"
  have "inj_on (the \<circ> P) (dom P)"
    using owns_inj [OF own] by (fastforce intro!: inj_onI)
  then have "card ((the \<circ> P) ` dom P) = card (dom P)"
    by (rule card_image)
  moreover have "(the \<circ> P) ` dom P = ran P"
    by (force simp: ran_def image_def)
  ultimately show ?thesis
    using own by (simp add: owns_def)
qed

section \<open>Requests as operations of a store\<close>

text \<open>The requests for one network and port; that none of them is undefined is part of \<open>vni_lifecycle\<close> below.\<close>

type_synonym route_request = "u32 \<times> u32 \<times> ipv6_addr option \<times> u8"

definition put_route :: "('t, 'r4, 'r6) vni_env \<Rightarrow> dp_port \<Rightarrow> u32 \<Rightarrow> route_request \<Rightarrow> ('t, 'r4, 'r6) vni_state \<Rightarrow> int \<times> ('t, 'r4, 'r6) vni_state" where
  "put_route env port vni e s = (case e of (t_vni, ip, t_ip6, depth) \<Rightarrow> the (dp_add_route env port vni t_vni ip t_ip6 depth s))"

definition drop_route :: "('t, 'r4, 'r6) vni_env \<Rightarrow> dp_port \<Rightarrow> u32 \<Rightarrow> u32 prefix \<Rightarrow> ('t, 'r4, 'r6) vni_state \<Rightarrow> int \<times> ('t, 'r4, 'r6) vni_state" where
  "drop_route env port vni k s = the (dp_del_route env port vni (fst k) (snd k) s)"

definition route_key :: "route_request \<Rightarrow> u32 prefix" where
  "route_key e = (case e of (t_vni, ip, t_ip6, depth) \<Rightarrow> (ip4_prefix ip depth, depth))"

definition route_val :: "dp_port \<Rightarrow> route_request \<Rightarrow> route" where
  "route_val port e = (case e of (t_vni, ip, t_ip6, depth) \<Rightarrow> port_route port t_vni t_ip6)"

definition network_ok :: "('t, 'r4, 'r6) vni_env \<Rightarrow> (u64 \<Rightarrow> bool) \<Rightarrow> dp_port \<Rightarrow> u32 \<Rightarrow> ('t, 'r4, 'r6) vni_state \<Rightarrow> bool" where
  "network_ok env pf port vni s \<longleftrightarrow> vni_ok env s \<and> vni_refs env s vni \<noteq> 0 \<and> pf (ucast (port_port_id port)) = port_is_pf port"

lemma put_route_effect:
  assumes ok: "network_ok env pf port vni s" and run: "put_route env port vni e s = (ret, s')"
  shows "network_ok env pf port vni s'"
    "routes4 env pf s' = (if DP_FAILED ret then routes4 env pf s
       else (routes4 env pf s)(vni \<mapsto> (the (routes4 env pf s vni))(route_key e \<mapsto> route_val port e)))"
    "the (routes4 env pf s vni) (route_key e) = Some w \<Longrightarrow> DP_FAILED ret"
    "routes6 env pf' s' = routes6 env pf' s" "vni_refs env s' = vni_refs env s"
proof -
  obtain t_vni ip t_ip6 depth where e: "e = (t_vni, ip, t_ip6, depth)" by (cases e)
  have vok: "vni_ok env s" and pf: "pf (ucast (port_port_id port)) = port_is_pf port"
    using ok by (simp_all add: network_ok_def)
  note rok = vni_env_okD(3) [OF vni_okD(1) [OF vok]]
  obtain p r r' where r: "rib_add_route (env_rib4 env) port t_vni ip t_ip6 depth r = (ret, r')"
      "s' = s\<lparr> vt_rib4 := (vt_rib4 s)(p \<mapsto> r') \<rparr>" "rib4_of env s vni = Some p"
      "routes4 env pf s vni = Some (route_view (env_rib4 env) ip4_prefix pf r)"
    using vok
  proof (cases rule: dp_add_route_effect [of env s port vni t_vni ip t_ip6 depth])
    case no_vni
    from vok show thesis
      by (cases rule: route4_table [of env s vni]) (use ok no_vni in \<open>auto simp: network_ok_def\<close>)
  next
    case (vni p r ret1 r')
    then show thesis
      using run by (intro that [of r r' p]) (simp_all add: put_route_def e)
  qed
  note W = vni_rib_write(1,2) [OF vok r(3)]
  note V = rib_add_route_view [where pf = pf, OF rok pf r(1)]
  show "network_ok env pf port vni s'"
    using ok W(1) by (simp add: network_ok_def r(2))
  show "routes4 env pf s' = (if DP_FAILED ret then routes4 env pf s
       else (routes4 env pf s)(vni \<mapsto> (the (routes4 env pf s vni))(route_key e \<mapsto> route_val port e)))"
    using V(1) r(4) by (auto simp: r(2) W(2) e route_key_def route_val_def fun_eq_iff)
  show "the (routes4 env pf s vni) (route_key e) = Some w \<Longrightarrow> DP_FAILED ret"
    using V(2,3) by (simp add: r(4) e route_key_def)
  show "routes6 env pf' s' = routes6 env pf' s" "vni_refs env s' = vni_refs env s"
    by (simp_all add: r(2))
qed

lemma drop_route_effect:
  assumes ok: "network_ok env pf port vni s" and k: "ip4_prefix (fst k) (snd k) = fst k" and run: "drop_route env port vni k s = (ret, s')"
  shows "network_ok env pf port vni s'"
    "routes4 env pf s' = (if DP_FAILED ret then routes4 env pf s
       else (routes4 env pf s)(vni \<mapsto> (the (routes4 env pf s vni))(k := None)))"
    "routes6 env pf' s' = routes6 env pf' s" "vni_refs env s' = vni_refs env s"
proof -
  obtain ip depth where e: "k = (ip, depth)" by (cases k)
  have vok: "vni_ok env s"
    using ok by (simp add: network_ok_def)
  note rok = vni_env_okD(3) [OF vni_okD(1) [OF vok]]
  obtain p r r' where r: "rib_del_route (env_rib4 env) port ip depth r = (ret, r')"
      "s' = s\<lparr> vt_rib4 := (vt_rib4 s)(p \<mapsto> r') \<rparr>" "rib4_of env s vni = Some p"
      "routes4 env pf s vni = Some (route_view (env_rib4 env) ip4_prefix pf r)"
    using vok
  proof (cases rule: dp_del_route_effect [of env s port vni ip depth])
    case no_vni
    from vok show thesis
      by (cases rule: route4_table [of env s vni]) (use ok no_vni in \<open>auto simp: network_ok_def\<close>)
  next
    case (vni p r ret1 r')
    then show thesis
      using run by (intro that [of r r' p]) (simp_all add: drop_route_def e)
  qed
  note W = vni_rib_write(1,2) [OF vok r(3)]
  show "network_ok env pf port vni s'"
    using ok W(1) by (simp add: network_ok_def r(2))
  show "routes4 env pf s' = (if DP_FAILED ret then routes4 env pf s
       else (routes4 env pf s)(vni \<mapsto> (the (routes4 env pf s vni))(k := None)))"
    using rib_del_route_view(1) [OF rok r(1), of pf] r(4) k by (auto simp: r(2) W(2) e fun_eq_iff)
  show "routes6 env pf' s' = routes6 env pf' s" "vni_refs env s' = vni_refs env s"
    by (simp_all add: r(2))
qed

interpretation route_store: framed_store
  route_key "route_val port" "\<lambda>_. True" "\<lambda>k. ip4_prefix (fst k) (snd k) = fst k" "network_ok env pf port vni"
  "\<lambda>s. the (routes4 env pf s vni)" "put_route env port vni" "drop_route env port vni"
  "\<lambda>s. ((routes4 env pf s)(vni := None), routes6 env pf s, vni_refs env s)" for env pf port vni
proof (unfold_locales, goal_cases)
  case (1 s e r s')
  then show ?case by (blast intro: put_route_effect(1))
next
  case (2 s e r s')
  then show ?case by (simp add: put_route_effect(2) [OF 2(1,3)])
next
  case (3 s e w r s')
  then show ?case by (blast intro: put_route_effect(3))
next
  case (4 s k r s')
  then show ?case by (blast intro: drop_route_effect(1))
next
  case (5 s k r s')
  then show ?case by (simp add: drop_route_effect(2) [OF 5])
next
  case (6 s e r s')
  then show ?case using put_route_effect(4) [OF 6(1,3)] by (simp add: put_route_effect(2,5) [OF 6(1,3)])
next
  case (7 s k r s')
  then show ?case using drop_route_effect(3) [OF 7] by (simp add: drop_route_effect(2,4) [OF 7])
qed

section \<open>Lookup and listing\<close>

text \<open>Which next hops are physical ports, and what a lookup is to return for a map of routes.\<close>

definition pf_port :: "dp_port option list \<Rightarrow> u64 \<Rightarrow> bool" where
  "pf_port tbl nh = (case dp_get_port_by_id tbl (ucast nh) of None \<Rightarrow> False | Some port \<Rightarrow> port_is_pf port)"

definition out_port_spec ::
  "('a \<Rightarrow> u8 \<Rightarrow> 'a) \<Rightarrow> dp_port option list \<Rightarrow> ('a prefix \<rightharpoonup> route) option \<Rightarrow> 'a \<Rightarrow> dp_iface_route \<Rightarrow>
   (dp_port \<times> dp_iface_route \<times> 'a) option \<Rightarrow> bool" where
  "out_port_spec pfx tbl routes dst route res \<longleftrightarrow>
     (case routes of
        None \<Rightarrow> res = None
      | Some m \<Rightarrow>
          no_match pfx m dst \<and> res = None \<or>
          (\<exists>d nh ext. longest_match pfx m dst d (nh, ext) \<and>
             res = map_option (\<lambda>port. (port, case ext of None \<Rightarrow> route | Some r \<Rightarrow> r, pfx dst d)) (dp_get_port_by_id tbl (ucast nh))))"

lemma rib_out_port_spec:
  assumes ok: "rib_ok R pfx"
  shows "out_port_spec pfx tbl (Some (route_view R pfx (pf_port tbl) r)) dst route (rib_out_port R tbl r dst route)"
proof (cases "rb_lookup R r dst")
  case None
  then show ?thesis
    using rib_lookup_longest(1) [OF ok, of r dst "pf_port tbl"] by (simp add: out_port_spec_def rib_out_port_def)
next
  case (Some n)
  let ?nh = "rb_get_nh R r n"
  let ?ext = "if pf_port tbl ?nh then Some (rb_get_ext R r n) else None"
  obtain d where d: "rb_get_ip R r n = pfx dst d" "longest_match pfx (route_view R pfx (pf_port tbl) r) dst d (?nh, ?ext)"
    using rib_lookup_longest(2) [OF ok Some] by blast
  have "rib_out_port R tbl r dst route =
      map_option (\<lambda>port. (port, case ?ext of None \<Rightarrow> route | Some r \<Rightarrow> r, pfx dst d)) (dp_get_port_by_id tbl (ucast ?nh))"
    by (auto simp: rib_out_port_def Some pf_port_def d(1) split: option.splits)
  with d(2) show ?thesis
    unfolding out_port_spec_def option.case by blast
qed

text \<open>The traversal runs its body on the nodes of the table one after the other.\<close>

fun each_node :: "(ptr \<Rightarrow> 's \<Rightarrow> (int \<times> 's) option) \<Rightarrow> ptr list \<Rightarrow> 's \<Rightarrow> (int \<times> 's) option" where
  "each_node body [] a = Some (DP_GRPC_OK, a)"
| "each_node body (n # ns) a = do { (ret, a1) \<leftarrow> body n a; if DP_FAILED ret then Some (ret, a1) else each_node body ns a1 }"

lemma rib_traverse_suffix:
  assumes ok: "rib_iter_ok R nodes" and split: "nodes r = as @ n # bs"
  shows "rib_traverse R r body (Some n) a = each_node body bs a"
  using split
proof (induction bs arbitrary: as n a)
  case Nil
  then show ?case
    using ok by (subst rib_traverse.simps) (simp add: rib_iter_ok_def)
next
  case (Cons m bs)
  have "rb_get_nxt R r (Some n) = Some m"
    using ok Cons.prems unfolding rib_iter_ok_def by force
  moreover have "rib_traverse R r body (Some m) a1 = each_node body bs a1" for a1
    using Cons.IH [of "as @ [n]" m] Cons.prems by simp
  ultimately show ?case
    by (subst rib_traverse.simps) (simp cong: if_cong)
qed

lemma rib_traverse_nodes:
  assumes ok: "rib_iter_ok R nodes"
  shows "rib_traverse R r body None a = each_node body (nodes r) a"
proof (cases "nodes r")
  case Nil
  then show ?thesis
    using ok by (subst rib_traverse.simps) (simp add: rib_iter_ok_def)
next
  case (Cons n ns)
  have "rb_get_nxt R r None = Some n"
    using ok Cons by (simp add: rib_iter_ok_def)
  moreover have "rib_traverse R r body (Some n) a1 = each_node body ns a1" for a1
    by (rule rib_traverse_suffix [OF ok, of r "[]"]) (simp add: Cons)
  ultimately show ?thesis
    by (subst rib_traverse.simps) (simp add: Cons cong: if_cong)
qed

text \<open>The message of an external route.\<close>

definition route_message :: "u32 prefix \<Rightarrow> route \<Rightarrow> dpgrpc_route" where
  "route_message k v = \<lparr> gr_vni = 0, gr_trgt_vni = ir_vni (the (snd v)), gr_pfx_addr = DP_SET_IPADDR4 (fst k),
     gr_pfx_length = snd k, gr_trgt_addr = DP_SET_IPADDR6 (ir_nh_ipv6 (the (snd v))) \<rparr>"

definition node_route :: "(u32, 'r4) rte_rib \<Rightarrow> dp_port option list \<Rightarrow> 'r4 \<Rightarrow> ptr \<Rightarrow> u32 prefix \<times> route" where
  "node_route R tbl r n = ((rb_get_ip R r n, rb_get_depth R r n),
     (rb_get_nh R r n, if pf_port tbl (rb_get_nh R r n) then Some (rb_get_ext R r n) else None))"

lemma dp_list_route_entry_ext:
  assumes "dp_get_port_by_id tbl (ucast (rb_get_nh R r n)) \<noteq> None"
  shows "dp_list_route_entry R tbl r n port True resp =
    (let (k, v) = node_route R tbl r n
     in if snd v = None then Some (DP_GRPC_OK, resp)
        else let (ok, resp') = dp_grpc_add_reply (route_message k v) resp
             in Some (if ok then DP_GRPC_OK else DP_GRPC_ERR_OUT_OF_MEMORY, resp'))"
  using assms by (auto simp: dp_list_route_entry_def node_route_def route_message_def pf_port_def Let_def)

lemma each_node_list:
  assumes "\<And>n. n \<in> set ns \<Longrightarrow> dp_get_port_by_id tbl (ucast (rb_get_nh R r n)) \<noteq> None"
  shows "each_node (\<lambda>n. dp_list_route_entry R tbl r n port True) ns resp =
    (let (ok, resp') = dp_grpc_add_replies (map (\<lambda>(k, v). route_message k v) (filter (\<lambda>(k, v). snd v \<noteq> None) (map (node_route R tbl r) ns))) resp
     in Some (if ok then DP_GRPC_OK else DP_GRPC_ERR_OUT_OF_MEMORY, resp'))"
  using assms
proof (induction ns arbitrary: resp)
  case (Cons n ns)
  obtain k v where kv: "node_route R tbl r n = (k, v)" by (cases "node_route R tbl r n")
  obtain ok resp' where add: "dp_grpc_add_reply (route_message k v) resp = (ok, resp')" by fastforce
  have "each_node (\<lambda>n. dp_list_route_entry R tbl r n port True) ns resp1 =
    (let (ok, resp') = dp_grpc_add_replies (map (\<lambda>(k, v). route_message k v) (filter (\<lambda>(k, v). snd v \<noteq> None) (map (node_route R tbl r) ns))) resp1
     in Some (if ok then DP_GRPC_OK else DP_GRPC_ERR_OUT_OF_MEMORY, resp'))" for resp1
    using Cons.IH [of resp1] Cons.prems by simp
  then show ?case
    using dp_list_route_entry_ext [OF Cons.prems [of n], of port resp] by (auto simp: kv add DP_FAILED_def)
qed (simp add: Let_def)

text \<open>Default route and traversal together hold every route once.\<close>

lemma node_routes:
  fixes r :: 'r4 and R :: "(u32, 'r4) rte_rib"
  assumes ok: "rib_ok R ip4_prefix" and iter: "rib_iter_ok R nodes"
  defines "ns \<equiv> (case rb_lookup_exact R r 0 0 of None \<Rightarrow> [] | Some n \<Rightarrow> [n]) @ nodes r"
  shows "distinct (map fst (map (node_route R tbl r) ns))"
    "(k, v) \<in> set (map (node_route R tbl r) ns) \<longleftrightarrow> route_view R ip4_prefix (pf_port tbl) r k = Some v"
proof -
  have p0: "ip4_prefix ip 0 = 0" for ip
    by (rule bit_word_eqI) (simp add: ip4_prefix_bits)
  have zero: "rb_lookup_exact R r ip 0 = rb_lookup_exact R r 0 0" for ip
    using rib_exact_pfx [OF ok, of r ip 0] by (simp add: p0)
  have it: "n \<in> set (nodes r) \<longleftrightarrow> (\<exists>ip d. d \<noteq> 0 \<and> rb_lookup_exact R r ip d = Some n)" "distinct (nodes r)" for n
    using iter unfolding rib_iter_ok_def by blast+
  have mem: "n \<in> set ns \<longleftrightarrow> (\<exists>ip d. rb_lookup_exact R r ip d = Some n)" for n
  proof
    assume "n \<in> set ns"
    then have "rb_lookup_exact R r 0 0 = Some n \<or> n \<in> set (nodes r)"
      by (auto simp: ns_def split: option.splits)
    then show "\<exists>ip d. rb_lookup_exact R r ip d = Some n"
      using it(1) by blast
  next
    assume "\<exists>ip d. rb_lookup_exact R r ip d = Some n"
    then obtain ip d where n: "rb_lookup_exact R r ip d = Some n" by blast
    show "n \<in> set ns"
    proof (cases "d = 0")
      case True
      then show ?thesis using n zero [of ip] by (simp add: ns_def)
    next
      case False
      then show ?thesis using n it(1) [of n] by (auto simp: ns_def)
    qed
  qed
  have route: "node_route R tbl r n = ((ip4_prefix ip d, d), the (route_view R ip4_prefix (pf_port tbl) r (ip4_prefix ip d, d)))"
    if "rb_lookup_exact R r ip d = Some n" for n ip d
    using that rib_node [OF ok that] by (simp add: node_route_def route_view_pfx [OF ok] rib_view_def)
  show "(k, v) \<in> set (map (node_route R tbl r) ns) \<longleftrightarrow> route_view R ip4_prefix (pf_port tbl) r k = Some v"
  proof
    assume "(k, v) \<in> set (map (node_route R tbl r) ns)"
    then obtain n where n: "n \<in> set ns" "(k, v) = node_route R tbl r n" by auto
    then obtain ip d where "rb_lookup_exact R r ip d = Some n" using mem by blast
    then show "route_view R ip4_prefix (pf_port tbl) r k = Some v"
      using n(2) route [of ip d n] by (simp add: route_view_pfx [OF ok] rib_view_def)
  next
    assume v: "route_view R ip4_prefix (pf_port tbl) r k = Some v"
    obtain ip d where k: "k = (ip, d)" by (cases k)
    then have can: "ip4_prefix ip d = ip"
      using v by (auto simp: route_view_def split: if_splits)
    then obtain n where n: "rb_lookup_exact R r ip d = Some n"
      using v by (auto simp: k route_view_def rib_view_def)
    then have "node_route R tbl r n = (k, v)"
      using route [OF n] v by (simp add: k can)
    then show "(k, v) \<in> set (map (node_route R tbl r) ns)"
      using mem [of n] n by force
  qed
  have "inj_on (fst \<circ> node_route R tbl r) (set ns)"
  proof (rule inj_onI)
    fix n m assume "n \<in> set ns" "m \<in> set ns" and eq: "(fst \<circ> node_route R tbl r) n = (fst \<circ> node_route R tbl r) m"
    then obtain ip d ip' d' where n: "rb_lookup_exact R r ip d = Some n" and m: "rb_lookup_exact R r ip' d' = Some m"
      using mem by blast
    then have "ip4_prefix ip d = ip4_prefix ip' d'" "d = d'"
      using eq unfolding comp_def route [OF n] route [OF m] fst_conv prod.inject by blast+
    then show "n = m"
      using n m rib_exact_pfx [OF ok, of r ip d] rib_exact_pfx [OF ok, of r ip' d'] by simp
  qed
  moreover have "distinct ns"
    using it by (auto simp: ns_def split: option.splits dest: rib_node_unique [OF ok])
  ultimately show "distinct (map fst (map (node_route R tbl r) ns))"
    by (simp add: distinct_map comp_def)
qed

section \<open>A concrete environment\<close>

definition enc_u32 :: "u32 \<Rightarrow> nat list" where "enc_u32 a = [unat a]"
definition dec_u32 :: "nat list \<Rightarrow> u32" where "dec_u32 xs = of_nat (xs ! 0)"

lemma dec_enc_u32 [simp]: "dec_u32 (enc_u32 a) = a"
  by (simp add: dec_u32_def enc_u32_def)

definition list_vni_env :: "(list_table, u32 list_rib, ipv6_addr list_rib) vni_env" where
  "list_vni_env = \<lparr> env_vni = list_hash enc_u32 dec_u32, env_vni_malloc = first_free,
     env_rib4 = list_rib ip4_prefix 1024, env_rib6 = list_rib ip6_prefix 1024 \<rparr>"

lemma list_vni_env_ok: "vni_env_ok list_vni_env"
  by (simp add: vni_env_ok_def list_vni_env_def list_hash_ok first_free_ok list_rib_ok prefix_prefix)

definition example_vni_state :: "(list_table, u32 list_rib, ipv6_addr list_rib) vni_state" where
  "example_vni_state = snd (the (dp_create_vni_route_tables list_vni_env 100 0 (no_vnis [])))"

lemma example_vni_create: "dp_create_vni_route_tables list_vni_env 100 0 (no_vnis []) = Some (DP_OK, example_vni_state)"
  by (simp add: example_vni_state_def dp_create_vni_route_tables_def dp_allocate_vni_route_tables_def dp_create_rib_def
      dp_create_rib6_def list_vni_env_def list_rib_def DP_FAILED_def Let_def)

lemma example_vni_ok:
  "vni_ok list_vni_env example_vni_state" "vni_refs list_vni_env example_vni_state 100 = 1"
  "routes4 list_vni_env pf example_vni_state 100 = Some Map.empty" "routes6 list_vni_env pf example_vni_state 100 = Some Map.empty"
proof -
  have ok: "vni_ok list_vni_env (no_vnis [])" "vni_refs list_vni_env (no_vnis []) = (\<lambda>_. 0)"
    using no_vnis_inv [OF list_vni_env_ok, of "[]" "[]"] by (simp_all add: list_vni_env_def)
  from ok(1) show "vni_ok list_vni_env example_vni_state" "vni_refs list_vni_env example_vni_state 100 = 1"
    "routes4 list_vni_env pf example_vni_state 100 = Some Map.empty" "routes6 list_vni_env pf example_vni_state 100 = Some Map.empty"
    by (cases rule: dp_create_vni_cases [of list_vni_env "no_vnis []" 100 0], use ok(2) example_vni_create in simp_all)+
qed

section \<open>Properties\<close>

text \<open>
  C21: The life of a virtual network.  After any history of creations, deletions, route requests
  (failing ones included) and resets of one or of all networks, a network's reference count is the
  number of its creations minus the number of its deletions, its tables exist exactly while that is
  positive, there are exactly as many tables as networks in use, so none has leaked, and none of
  these operations touches freed memory.  The history is one in which every reset found memory for its
  new tables (what a reset that does not leaves behind is a property of its own), no network has 2^32 references, and every route
  through a physical port has a target address.
\<close>
theorem vni_lifecycle:
  assumes "vni_env_ok env" "rte_iter_ok (env_vni env) slots" "rh_view (env_vni env) t = Map.empty"
    and "(lpm_step env)\<^sup>*\<^sup>* (no_vnis t, headp0, \<lambda>_. 0) (s, headp, refs)"
  shows "vni_refs env s = refs \<and>
    dp_is_vni_route_table_available env vni IPPROTO_IPIP s = Some (0 < refs vni) \<and>
    dp_is_vni_route_table_available env vni IPPROTO_IPV6 s = Some (0 < refs vni) \<and>
    (routes4 env pf s vni = None \<longleftrightarrow> refs vni = 0) \<and> (routes6 env pf s vni = None \<longleftrightarrow> refs vni = 0) \<and>
    card (dom (vt_rib4 s)) = card {k. 0 < refs k} \<and> card (dom (vt_rib6 s)) = card {k. 0 < refs k} \<and>
    dp_create_vni_route_tables env vni socket_id s \<noteq> None \<and> dp_delete_vni_route_tables env vni s headp \<noteq> None \<and>
    dp_reset_vni_route_tables env vni s \<noteq> None \<and> dp_reset_all_vni_route_tables env s \<noteq> None \<and>
    ((port_is_pf port \<longrightarrow> t_ip6 \<noteq> None) \<longrightarrow> dp_add_route env port vni t_vni ip t_ip6 depth s \<noteq> None \<and>
       dp_add_route6 env port vni t_vni ip6 t_ip6 depth s \<noteq> None) \<and>
    dp_del_route env port vni ip depth s \<noteq> None \<and> dp_del_route6 env port vni ip6 depth s \<noteq> None"
proof -
  have ok: "vni_ok env s" and refs: "vni_refs env s = refs"
    using lpm_steps_inv [OF assms(2,4) no_vnis_inv [OF assms(1,3)]] by simp_all
  have some: "vni_view env s k \<noteq> None \<longleftrightarrow> 0 < refs k"
    and ribs: "rib4_of env s k \<noteq> None \<longleftrightarrow> vni_view env s k \<noteq> None" "rib6_of env s k \<noteq> None \<longleftrightarrow> vni_view env s k \<noteq> None" for k
    using ok by (cases rule: vni_lookup [of env s k], simp_all add: refs [symmetric] rib4_of_def rib6_of_def vni_data_ok_def unat_gt_0)+
  have doms: "dom (rib4_of env s) = {k. 0 < refs k}" "dom (rib6_of env s) = {k. 0 < refs k}"
    using some ribs by (auto simp: dom_def)
  have avail: "dp_is_vni_route_table_available env vni IPPROTO_IPIP s = Some (0 < refs vni)"
    "dp_is_vni_route_table_available env vni IPPROTO_IPV6 s = Some (0 < refs vni)"
    using ok by (cases rule: vni_lookup [of env s vni], simp_all add: dp_is_vni_route_table_available_def dp_get_vni_data_def
        refs [symmetric] vni_data_ok_def unat_gt_0)+
  have routes: "routes4 env pf s vni = None \<longleftrightarrow> refs vni = 0" "routes6 env pf s vni = None \<longleftrightarrow> refs vni = 0"
    using ok by (cases rule: route4_table [of env s vni], simp_all add: refs [symmetric])
      (use ok in \<open>cases rule: route6_table [of env s vni], simp_all add: refs [symmetric]\<close>)
  have "dp_create_vni_route_tables env vni socket_id s \<noteq> None" "dp_delete_vni_route_tables env vni s headp \<noteq> None"
    using ok by (cases rule: dp_create_vni_cases [of env s vni socket_id], simp_all)
      (use ok in \<open>cases rule: dp_delete_vni_cases [of env s vni headp], simp_all\<close>)
  moreover have "dp_add_route env port vni t_vni ip t_ip6 depth s \<noteq> None" "dp_del_route env port vni ip depth s \<noteq> None"
    using ok by (cases rule: dp_add_route_effect [of env s port vni t_vni ip t_ip6 depth], simp_all)
      (use ok in \<open>cases rule: dp_del_route_effect [of env s port vni ip depth], simp_all\<close>)
  moreover have "dp_add_route6 env port vni t_vni ip6 t_ip6 depth s \<noteq> None" "dp_del_route6 env port vni ip6 depth s \<noteq> None"
    using ok by (cases rule: dp_add_route6_effect [of env s port vni t_vni ip6 t_ip6 depth], simp_all)
      (use ok in \<open>cases rule: dp_del_route6_effect [of env s port vni ip6 depth], simp_all\<close>)
  moreover have "dp_reset_vni_route_tables env vni s \<noteq> None"
    using ok
  proof (cases rule: vni_lookup [of env s vni])
    case (present p data)
    from ok present(2) show ?thesis
      by (cases rule: dp_reset_vni_data_cases) (simp_all add: dp_reset_vni_route_tables_def present(1))
  qed (simp add: dp_reset_vni_route_tables_def)
  moreover have "dp_reset_all_vni_route_tables env s \<noteq> None"
    using dp_reset_all_vni_ok [OF assms(2) ok] by auto
  ultimately show ?thesis
    using refs avail routes owns_card [OF vni_okD(4) [OF ok]] owns_card [OF vni_okD(5) [OF ok]] by (simp add: doms)
qed

theorem vni_lifecycle_witness:
  "dp_is_vni_route_table_available list_vni_env 100 IPPROTO_IPIP example_vni_state = Some True \<and>
   card (dom (vt_rib4 example_vni_state)) = 1"
proof -
  have "lpm_step list_vni_env (no_vnis [], [], \<lambda>_. 0) (example_vni_state, [], if DP_FAILED DP_OK then \<lambda>_. 0 else (\<lambda>_. 0)(100 := 0 + 1))"
    by (rule lpm_step.create [OF example_vni_create]) simp
  then have "(lpm_step list_vni_env)\<^sup>*\<^sup>* (no_vnis [], [], \<lambda>_. 0) (example_vni_state, [], (\<lambda>_. 0)(100 := 1))"
    by (simp add: DP_FAILED_def r_into_rtranclp)
  moreover have "rte_iter_ok (env_vni list_vni_env) (list_slots enc_u32 dec_u32)"
    by (simp add: list_vni_env_def list_hash_iter_ok)
  ultimately show ?thesis
    using vni_lifecycle [OF list_vni_env_ok, of _ "[]" "[]" example_vni_state "[]" "(\<lambda>_. 0)(100 := 1)" 100]
    by (simp add: list_vni_env_def)
qed

text \<open>
  C23: Route requests of a port for one virtual network behave like operations on a map from prefixes
  to next hops, for every history of additions and deletions, failing ones included; no other
  network, no IPv6 route and no reference count changes.
\<close>
theorem route_requests_refine_map:
  assumes "network_ok env pf port vni s" "list_all (op_valid (\<lambda>_. True) (\<lambda>k. ip4_prefix (fst k) (snd k) = fst k)) requests"
    and "store_run (put_route env port vni) (drop_route env port vni) requests s = (rets, s')"
  shows "network_ok env pf port vni s' \<and>
    routes4 env pf s' = (routes4 env pf s)(vni \<mapsto> map_replay route_key (route_val port) requests rets (the (routes4 env pf s vni))) \<and>
    routes6 env pf s' = routes6 env pf s \<and> vni_refs env s' = vni_refs env s"
proof -
  note run = route_store.run_replay [OF assms] route_store.run_frame [OF assms]
  have "vni_ok env s'" "vni_refs env s' vni \<noteq> 0"
    using run(1) by (simp_all add: network_ok_def)
  then have "routes4 env pf s' vni \<noteq> None"
    by (cases rule: route4_table [of env s' vni]) auto
  then have "routes4 env pf s' = ((routes4 env pf s')(vni := None))(vni \<mapsto> the (routes4 env pf s' vni))"
    by (auto simp: fun_eq_iff)
  also have "\<dots> = (routes4 env pf s)(vni \<mapsto> map_replay route_key (route_val port) requests rets (the (routes4 env pf s vni)))"
    using run(3,4) by simp
  finally show ?thesis
    using run(1,4) by simp
qed

theorem route_requests_refine_map_witness:
  "let requests = [Put (0, 0x0A000001, None, 24), Put (0, 0x0A000002, None, 24), Del (0x0A000000, 24)];
       (rets, s') = store_run (put_route list_vni_env zero_port 100) (drop_route list_vni_env zero_port 100) requests example_vni_state
   in routes4 list_vni_env (\<lambda>_. False) s' 100 = Some (map_replay route_key (route_val zero_port) requests rets Map.empty)"
proof -
  let ?reqs = "[Put (0, 0x0A000001, None, 24), Put (0, 0x0A000002, None, 24), Del (0x0A000000, 24)] :: (route_request, u32 prefix) store_op list"
  obtain rets s' where run: "store_run (put_route list_vni_env zero_port 100) (drop_route list_vni_env zero_port 100) ?reqs example_vni_state = (rets, s')"
    by fastforce
  have "network_ok list_vni_env (\<lambda>_. False) zero_port 100 example_vni_state"
    by (simp add: network_ok_def example_vni_ok zero_port_def)
  moreover have "list_all (op_valid (\<lambda>_. True) (\<lambda>k. ip4_prefix (fst k) (snd k) = fst k)) ?reqs"
    by (simp, code_simp)
  ultimately show ?thesis
    using route_requests_refine_map [OF _ _ run, of "\<lambda>_. False"] unfolding Let_def run by (simp add: example_vni_ok)
qed

text \<open>
  C22: A packet leaves through the port of the longest matching route of its network, IPv4 and IPv6
  alike: without a match, a network or a port there is none; the target is the one of the route
  when the port is physical and otherwise what the caller passed.
\<close>
theorem dp_get_ip_out_port_longest:
  assumes ok: "vni_ok env s" and vni: "vni = (if t_vni = 0 then iface_vni (port_iface in_port) else t_vni)"
  shows "(\<exists>res. dp_get_ip4_out_port env tbl in_port t_vni df route s = Some res \<and>
      out_port_spec ip4_prefix tbl (routes4 env (pf_port tbl) s vni) (ntohl (df_dst_addr df)) route res) \<and>
    (\<exists>res. dp_get_ip6_out_port env tbl in_port t_vni df route s = Some res \<and>
      out_port_spec ip6_prefix tbl (routes6 env (pf_port tbl) s vni) (df_dst_addr6 df) route res)"
proof
  note ribs = vni_env_okD(3,4) [OF vni_okD(1) [OF ok]]
  show "\<exists>res. dp_get_ip4_out_port env tbl in_port t_vni df route s = Some res \<and>
      out_port_spec ip4_prefix tbl (routes4 env (pf_port tbl) s vni) (ntohl (df_dst_addr df)) route res"
    using ok
  proof (cases rule: route4_table [of env s vni])
    case absent
    then show ?thesis by (simp add: dp_get_ip4_out_port_def vni [symmetric] out_port_spec_def)
  next
    case (present p r)
    then show ?thesis
      using rib_out_port_spec [OF ribs(1), of tbl r] by (simp add: dp_get_ip4_out_port_def vni [symmetric])
  qed
  show "\<exists>res. dp_get_ip6_out_port env tbl in_port t_vni df route s = Some res \<and>
      out_port_spec ip6_prefix tbl (routes6 env (pf_port tbl) s vni) (df_dst_addr6 df) route res"
    using ok
  proof (cases rule: route6_table [of env s vni])
    case absent
    then show ?thesis by (simp add: dp_get_ip6_out_port_def vni [symmetric] out_port_spec_def)
  next
    case (present p r)
    then show ?thesis
      using rib_out_port_spec [OF ribs(2), of tbl r] by (simp add: dp_get_ip6_out_port_def vni [symmetric])
  qed
qed

theorem dp_get_ip_out_port_longest_witness:
  "dp_get_ip4_out_port list_vni_env [] zero_port 100 dp_init_flow_ptr \<lparr> ir_vni = 0, ir_nh_ipv6 = 0 \<rparr> example_vni_state = Some None"
proof -
  from dp_get_ip_out_port_longest [OF example_vni_ok(1), of 100 100 zero_port "[]" dp_init_flow_ptr "\<lparr> ir_vni = 0, ir_nh_ipv6 = 0 \<rparr>"] show ?thesis
    by (auto simp: example_vni_ok out_port_spec_def no_match_def longest_match_def)
qed

text \<open>
  Listing the external routes of a network ends and delivers one message with prefix, target
  network and target address for each route through a physical port, the default route first, or
  stops with an error when the reply buffers run out.  (Every next hop is taken to be a port.)
\<close>
lemma dp_list_routes_client:
  assumes ok: "vni_ok env s" and iter: "rib_iter_ok (env_rib4 env) nodes" and vni: "routes4 env (pf_port tbl) s vni = Some m"
    and ports: "\<And>k nh ext. m k = Some (nh, ext) \<Longrightarrow> dp_get_port_by_id tbl (ucast nh) \<noteq> None"
    and size: "0 < msg_size" "msg_size \<le> rep_max_size" "rep_max_size \<le> UINT16_MAX"
  shows "\<exists>ret r. dp_list_routes env msg_size tbl port vni True s (dp_grpc_init_responder sz rep_max_size pool) = Some (ret, r) \<and>
    lists_view m (\<lambda>_ v. snd v \<noteq> None) route_message ret (client_messages (dp_grpc_send_response ret r))"
proof -
  note rok = vni_env_okD(3) [OF vni_okD(1) [OF ok]]
  obtain p r where table: "dp_get_vni_route4_table env vni s = Some (Some p)" "vt_rib4 s p = Some r"
      "m = route_view (env_rib4 env) ip4_prefix (pf_port tbl) r"
    using ok by (cases rule: route4_table [of env s vni]) (use vni in auto)
  let ?R = "env_rib4 env"
  let ?resp = "dp_grpc_set_multireply msg_size (dp_grpc_init_responder sz rep_max_size pool) :: dpgrpc_route dp_grpc_responder"
  let ?ns = "(case rb_lookup_exact ?R r 0 0 of None \<Rightarrow> [] | Some n \<Rightarrow> [n]) @ nodes r"
  let ?entries = "filter (\<lambda>(k, v). snd v \<noteq> None) (map (node_route ?R tbl r) ?ns)"
  note nr = node_routes [OF rok iter, where tbl = tbl and r = r, folded table(3)]
  have known: "dp_get_port_by_id tbl (ucast (rb_get_nh ?R r n)) \<noteq> None" if "n \<in> set ?ns" for n
  proof -
    have "node_route ?R tbl r n \<in> set (map (node_route ?R tbl r) ?ns)"
      using that by (simp only: set_map image_eqI)
    then show ?thesis
      using nr(2) ports unfolding node_route_def by blast
  qed
  have list: "dp_list_routes env msg_size tbl port vni True s (dp_grpc_init_responder sz rep_max_size pool) =
      each_node (\<lambda>n. dp_list_route_entry ?R tbl r n port True) ?ns ?resp"
    by (cases "rb_lookup_exact ?R r 0 0")
      (simp_all add: dp_list_routes_def table rib_traverse_nodes [OF iter] Let_def DP_FAILED_def cong: if_cong)
  obtain b resp where add: "dp_grpc_add_replies (map (\<lambda>(k, v). route_message k v) ?entries) ?resp = (b, resp)" by fastforce
  have run: "dp_list_routes env msg_size tbl port vni True s (dp_grpc_init_responder sz rep_max_size pool) =
      Some (if b then DP_GRPC_OK else DP_GRPC_ERR_OUT_OF_MEMORY, resp)"
    unfolding list by (subst each_node_list, rule known) (assumption, unfold add, simp)
  have ok0: "responder_ok ?resp"
    using size by (rule responder_ok_multireply)
  obtain n where n: "collected resp = take n (map (\<lambda>(k, v). route_message k v) ?entries)" "b \<longleftrightarrow> length ?entries \<le> n"
    using dp_grpc_add_replies_ok(2) [OF ok0 add] by auto
  have "distinct (map fst ?entries)"
    using nr(1) by (rule distinct_map_filter)
  moreover have "(k, v) \<in> set ?entries \<longleftrightarrow> m k = Some v \<and> snd v \<noteq> None" for k v
    using nr(2) [of k v] by (simp only: set_filter mem_Collect_eq case_prod_conv)
  ultimately have "lists_view m (\<lambda>_ v. snd v \<noteq> None) route_message (if b then DP_GRPC_OK else DP_GRPC_ERR_OUT_OF_MEMORY) (collected resp)"
    unfolding lists_view_def using n by (intro exI [of _ ?entries] exI [of _ n]) auto
  then show ?thesis
    using run client_messages_send [OF dp_grpc_add_replies_ok(1) [OF ok0 add]] by auto
qed

lemma dp_list_routes_client_witness:
  "\<exists>ret r. dp_list_routes list_vni_env 40 [] None 100 True example_vni_state (dp_grpc_init_responder 100 1000 []) = Some (ret, r) \<and>
     client_messages (dp_grpc_send_response ret r) = []"
proof -
  have "rib_iter_ok (env_rib4 list_vni_env) (\<lambda>r. filter (lr_listed ip4_prefix r) [0..<length r])"
    by (simp add: list_vni_env_def list_rib_iter_ok prefix_prefix)
  from dp_list_routes_client [OF example_vni_ok(1) this, of "[]" 100 Map.empty 40 1000 None 100 "[]"] show ?thesis
    by (auto simp: example_vni_ok dest: lists_view_empty)
qed

text \<open>
  C24: A reset that cannot get memory for a new table fails and leaves the network pointing to the
  table it has just freed: the network is still listed as available, and the next route request or
  packet lookup uses freed memory.
\<close>
theorem dp_reset_vni_dangling:
  assumes ok: "vni_ok env s" and vni: "vni_refs env s vni \<noteq> 0" "iface_vni (port_iface in_port) = vni"
    and fail: "\<And>sid h. rb_create (env_rib4 env) vni sid h = None"
  shows "\<exists>s'. dp_lpm_reset_route_tables env ports vni s = Some (DP_GRPC_ERR_ROUTE_RESET, s') \<and>
    dp_is_vni_route_table_available env vni IPPROTO_IPIP s' = Some True \<and>
    dp_add_route env port vni t_vni ip t_ip6 depth s' = None \<and> dp_get_ip4_out_port env tbl in_port 0 df route s' = None"
proof -
  obtain p where p: "rh_lookup (env_vni env) (vt_tbl s) vni = Inr p" "rh_view (env_vni env) (vt_tbl s) vni = Some p"
    using ok by (cases rule: vni_lookup [of env s vni]) (use vni in auto)
  from ok p(2) obtain s' p4 where s': "dp_reset_vni_data env vni p s = Some (DP_ERROR, s')"
      "dp_get_vni_route4_table env vni s' = Some (Some p4)" "vt_rib4 s' p4 = None"
    by (cases rule: dp_reset_vni_data_cases) (use fail in auto)
  have "dp_is_vni_route_table_available env vni IPPROTO_IPIP s' = Some True"
    using s'(2) by (auto simp: dp_get_vni_route4_table_def dp_is_vni_route_table_available_def dp_get_vni_data_def split: sum.splits)
  then show ?thesis
    using s' by (intro exI [of _ s']) (simp add: dp_lpm_reset_route_tables_def dp_reset_vni_route_tables_def p(1) DP_FAILED_def
      dp_add_route_def dp_get_ip4_out_port_def vni(2))
qed

theorem dp_reset_vni_dangling_witness:
  "let env = list_vni_env\<lparr> env_rib4 := (env_rib4 list_vni_env)\<lparr> rb_create := \<lambda>_ _ _. None \<rparr> \<rparr>
   in \<exists>s'. dp_lpm_reset_route_tables env [] 100 example_vni_state = Some (DP_GRPC_ERR_ROUTE_RESET, s') \<and>
        dp_add_route env zero_port 100 0 7 None 32 s' = None"
proof -
  let ?env = "list_vni_env\<lparr> env_rib4 := (env_rib4 list_vni_env)\<lparr> rb_create := \<lambda>_ _ _. None \<rparr> \<rparr>"
  have "vni_env_ok ?env"
    using list_vni_env_ok by (simp add: vni_env_ok_def rib_ok_no_memory)
  moreover have "vni_view ?env = vni_view list_vni_env" "rib4_of ?env = rib4_of list_vni_env" "rib6_of ?env = rib6_of list_vni_env"
    by (simp_all add: vni_view_def rib4_of_def rib6_of_def fun_eq_iff)
  ultimately have "vni_ok ?env example_vni_state" "vni_refs ?env example_vni_state 100 \<noteq> 0"
    using example_vni_ok(1,2) by (simp_all add: vni_ok_def vni_refs_def)
  from dp_reset_vni_dangling [OF this, of "upd_iface (\<lambda>i. i\<lparr> iface_vni := 100 \<rparr>) zero_port" "[]" zero_port 0 7 None 32 "[]" dp_init_flow_ptr "\<lparr> ir_vni = 0, ir_nh_ipv6 = 0 \<rparr>"] show ?thesis
    unfolding Let_def by auto
qed

end
