(* ===== verification/Dp_Rte_Flow.thy ===== *)
theory Dp_Rte_Flow
  imports Dp_Types "HOL-Library.Monad_Syntax"
begin

text \<open>
  Hardware rules: the pattern items and actions that \<^verbatim>\<open>include/rte_flow/dp_rte_flow_helpers.h\<close> fills in, their installation
  (\<^verbatim>\<open>src/rte_flow/dp_rte_flow.c\<close>), the isolation rules (\<^verbatim>\<open>src/rte_flow/dp_rte_flow_init.c\<close>) and the default and capture
  rules of a port (\<^verbatim>\<open>src/rte_flow/dp_rte_flow_capture.c\<close>).  The driver is a parameter; the rules that it holds are a heap
  from handles to rules, and destroying a rule that it does not hold is undefined.
\<close>

section \<open>Pattern items\<close>

text \<open>
  An item has a specification, of which the caller sets some fields, and a mask that selects the fields to compare; fields that
  no mask selects are left out.  The initial specification is an argument: it is an uninitialised structure of the caller.
\<close>

record rte_ether_hdr =
  eth_dst_addr :: mac_addr
  eth_src_addr :: mac_addr
  eth_ether_type :: u16

record item_ipv6 =
  i6_src_addr :: ipv6_addr
  i6_dst_addr :: ipv6_addr
  i6_proto :: u8

record item_ipv4 =
  i4_src_addr :: u32
  i4_dst_addr :: u32
  i4_next_proto_id :: u8

record item_udp =
  iu_src_port :: u16
  iu_dst_port :: u16

record item_tcp =
  it_src_port :: u16
  it_dst_port :: u16
  it_tcp_flags :: u8

datatype rte_flow_item =
    RTE_FLOW_ITEM_TYPE_ETH "(rte_ether_hdr \<times> rte_ether_hdr) option"
  | RTE_FLOW_ITEM_TYPE_IPV6 item_ipv6 item_ipv6
  | RTE_FLOW_ITEM_TYPE_IPV4 item_ipv4 item_ipv4
  | RTE_FLOW_ITEM_TYPE_UDP item_udp item_udp
  | RTE_FLOW_ITEM_TYPE_TCP item_tcp item_tcp
  | RTE_FLOW_ITEM_TYPE_ICMP u8 u8
  | RTE_FLOW_ITEM_TYPE_ICMP6 u8 u8
  | RTE_FLOW_ITEM_TYPE_MARK u32
  | RTE_FLOW_ITEM_TYPE_TAG u32 u8
  | RTE_FLOW_ITEM_TYPE_META u32
  | RTE_FLOW_ITEM_TYPE_END

definition DP_TCP_CONTROL_FLAGS :: u8 where
  "DP_TCP_CONTROL_FLAGS = 0x01 OR 0x02 OR 0x04"

definition dp_flow_item_eth_mask :: rte_ether_hdr where
  "dp_flow_item_eth_mask = \<lparr> eth_dst_addr = 0, eth_src_addr = 0, eth_ether_type = 0xffff \<rparr>"
definition dp_flow_item_eth_dst_mask :: rte_ether_hdr where
  "dp_flow_item_eth_dst_mask = \<lparr> eth_dst_addr = - 1, eth_src_addr = 0, eth_ether_type = 0xffff \<rparr>"
definition dp_flow_item_eth_src_dst_mask :: rte_ether_hdr where
  "dp_flow_item_eth_src_dst_mask = \<lparr> eth_dst_addr = - 1, eth_src_addr = - 1, eth_ether_type = 0xffff \<rparr>"

definition dp_flow_item_ipv6_mask :: item_ipv6 where
  "dp_flow_item_ipv6_mask = \<lparr> i6_src_addr = 0, i6_dst_addr = 0, i6_proto = 0xff \<rparr>"
definition dp_flow_item_ipv6_src_mask :: item_ipv6 where
  "dp_flow_item_ipv6_src_mask = \<lparr> i6_src_addr = - 1, i6_dst_addr = 0, i6_proto = 0xff \<rparr>"
definition dp_flow_item_ipv6_dst_mask :: item_ipv6 where
  "dp_flow_item_ipv6_dst_mask = \<lparr> i6_src_addr = 0, i6_dst_addr = - 1, i6_proto = 0xff \<rparr>"

definition dp_flow_item_ipv4_dst_mask :: item_ipv4 where
  "dp_flow_item_ipv4_dst_mask = \<lparr> i4_src_addr = 0, i4_dst_addr = 0xffffffff, i4_next_proto_id = 0xff \<rparr>"
definition dp_flow_item_ipv4_src_dst_mask :: item_ipv4 where
  "dp_flow_item_ipv4_src_dst_mask = \<lparr> i4_src_addr = 0xffffffff, i4_dst_addr = 0xffffffff, i4_next_proto_id = 0xff \<rparr>"

definition dp_flow_item_udp_src_mask :: item_udp where
  "dp_flow_item_udp_src_mask = \<lparr> iu_src_port = 0xffff, iu_dst_port = 0 \<rparr>"
definition dp_flow_item_udp_dst_mask :: item_udp where
  "dp_flow_item_udp_dst_mask = \<lparr> iu_src_port = 0, iu_dst_port = 0xffff \<rparr>"
definition dp_flow_item_udp_src_dst_mask :: item_udp where
  "dp_flow_item_udp_src_dst_mask = \<lparr> iu_src_port = 0xffff, iu_dst_port = 0xffff \<rparr>"

definition dp_flow_item_tcp_src_mask :: item_tcp where
  "dp_flow_item_tcp_src_mask = \<lparr> it_src_port = 0xffff, it_dst_port = 0, it_tcp_flags = 0 \<rparr>"
definition dp_flow_item_tcp_src_dst_mask :: item_tcp where
  "dp_flow_item_tcp_src_dst_mask = \<lparr> it_src_port = 0xffff, it_dst_port = 0xffff, it_tcp_flags = 0 \<rparr>"
definition dp_flow_item_tcp_src_dst_noctrl_mask :: item_tcp where
  "dp_flow_item_tcp_src_dst_noctrl_mask = \<lparr> it_src_port = 0xffff, it_dst_port = 0xffff, it_tcp_flags = DP_TCP_CONTROL_FLAGS \<rparr>"

abbreviation dp_flow_item_icmp_mask :: u8 where "dp_flow_item_icmp_mask \<equiv> 0xff"
abbreviation dp_flow_item_icmp6_mask :: u8 where "dp_flow_item_icmp6_mask \<equiv> 0xff"

definition dp_set_eth_match_all_item :: rte_flow_item where
  "dp_set_eth_match_all_item = RTE_FLOW_ITEM_TYPE_ETH None"

definition dp_set_eth_flow_item :: "rte_ether_hdr \<Rightarrow> u16 \<Rightarrow> rte_flow_item" where
  "dp_set_eth_flow_item eth_spec type = RTE_FLOW_ITEM_TYPE_ETH (Some (eth_spec\<lparr> eth_ether_type := type \<rparr>, dp_flow_item_eth_mask))"

definition dp_set_eth_dst_flow_item :: "rte_ether_hdr \<Rightarrow> mac_addr \<Rightarrow> u16 \<Rightarrow> rte_flow_item" where
  "dp_set_eth_dst_flow_item eth_spec dst type =
     RTE_FLOW_ITEM_TYPE_ETH (Some (eth_spec\<lparr> eth_dst_addr := dst, eth_ether_type := type \<rparr>, dp_flow_item_eth_dst_mask))"

definition dp_set_eth_src_dst_flow_item :: "rte_ether_hdr \<Rightarrow> mac_addr \<Rightarrow> mac_addr \<Rightarrow> u16 \<Rightarrow> rte_flow_item" where
  "dp_set_eth_src_dst_flow_item eth_spec src dst type =
     RTE_FLOW_ITEM_TYPE_ETH (Some (eth_spec\<lparr> eth_src_addr := src, eth_dst_addr := dst, eth_ether_type := type \<rparr>, dp_flow_item_eth_src_dst_mask))"

definition dp_set_ipv6_flow_item :: "item_ipv6 \<Rightarrow> u8 \<Rightarrow> rte_flow_item" where
  "dp_set_ipv6_flow_item ipv6_spec proto = RTE_FLOW_ITEM_TYPE_IPV6 (ipv6_spec\<lparr> i6_proto := proto \<rparr>) dp_flow_item_ipv6_mask"

definition dp_set_ipv6_src_flow_item :: "item_ipv6 \<Rightarrow> ipv6_addr \<Rightarrow> u8 \<Rightarrow> rte_flow_item" where
  "dp_set_ipv6_src_flow_item ipv6_spec src proto =
     RTE_FLOW_ITEM_TYPE_IPV6 (ipv6_spec\<lparr> i6_src_addr := src, i6_proto := proto \<rparr>) dp_flow_item_ipv6_src_mask"

definition dp_set_ipv6_dst_flow_item :: "item_ipv6 \<Rightarrow> ipv6_addr \<Rightarrow> u8 \<Rightarrow> rte_flow_item" where
  "dp_set_ipv6_dst_flow_item ipv6_spec dst proto =
     RTE_FLOW_ITEM_TYPE_IPV6 (ipv6_spec\<lparr> i6_dst_addr := dst, i6_proto := proto \<rparr>) dp_flow_item_ipv6_dst_mask"

definition dp_set_ipv4_dst_flow_item :: "item_ipv4 \<Rightarrow> u32 \<Rightarrow> u8 \<Rightarrow> rte_flow_item" where
  "dp_set_ipv4_dst_flow_item ipv4_spec dst proto =
     RTE_FLOW_ITEM_TYPE_IPV4 (ipv4_spec\<lparr> i4_dst_addr := dst, i4_next_proto_id := proto \<rparr>) dp_flow_item_ipv4_dst_mask"

definition dp_set_ipv4_src_dst_flow_item :: "item_ipv4 \<Rightarrow> u32 \<Rightarrow> u32 \<Rightarrow> u8 \<Rightarrow> rte_flow_item" where
  "dp_set_ipv4_src_dst_flow_item ipv4_spec src dst proto =
     RTE_FLOW_ITEM_TYPE_IPV4 (ipv4_spec\<lparr> i4_src_addr := src, i4_dst_addr := dst, i4_next_proto_id := proto \<rparr>) dp_flow_item_ipv4_src_dst_mask"

definition dp_set_udp_src_flow_item :: "item_udp \<Rightarrow> u16 \<Rightarrow> rte_flow_item" where
  "dp_set_udp_src_flow_item udp_spec src_port = RTE_FLOW_ITEM_TYPE_UDP (udp_spec\<lparr> iu_src_port := src_port \<rparr>) dp_flow_item_udp_src_mask"

definition dp_set_udp_dst_flow_item :: "item_udp \<Rightarrow> u16 \<Rightarrow> rte_flow_item" where
  "dp_set_udp_dst_flow_item udp_spec dst_port = RTE_FLOW_ITEM_TYPE_UDP (udp_spec\<lparr> iu_dst_port := dst_port \<rparr>) dp_flow_item_udp_dst_mask"

definition dp_set_udp_src_dst_flow_item :: "item_udp \<Rightarrow> u16 \<Rightarrow> u16 \<Rightarrow> rte_flow_item" where
  "dp_set_udp_src_dst_flow_item udp_spec src_port dst_port =
     RTE_FLOW_ITEM_TYPE_UDP (udp_spec\<lparr> iu_src_port := src_port, iu_dst_port := dst_port \<rparr>) dp_flow_item_udp_src_dst_mask"

definition dp_set_tcp_src_flow_item :: "item_tcp \<Rightarrow> u16 \<Rightarrow> rte_flow_item" where
  "dp_set_tcp_src_flow_item tcp_spec src_port = RTE_FLOW_ITEM_TYPE_TCP (tcp_spec\<lparr> it_src_port := src_port \<rparr>) dp_flow_item_tcp_src_mask"

definition dp_set_tcp_src_dst_flow_item :: "item_tcp \<Rightarrow> u16 \<Rightarrow> u16 \<Rightarrow> rte_flow_item" where
  "dp_set_tcp_src_dst_flow_item tcp_spec src_port dst_port =
     RTE_FLOW_ITEM_TYPE_TCP (tcp_spec\<lparr> it_src_port := src_port, it_dst_port := dst_port \<rparr>) dp_flow_item_tcp_src_dst_mask"

definition dp_set_tcp_src_dst_noctrl_flow_item :: "item_tcp \<Rightarrow> u16 \<Rightarrow> u16 \<Rightarrow> rte_flow_item" where
  "dp_set_tcp_src_dst_noctrl_flow_item tcp_spec src_port dst_port =
     RTE_FLOW_ITEM_TYPE_TCP (tcp_spec\<lparr> it_src_port := src_port, it_dst_port := dst_port, it_tcp_flags := NOT DP_TCP_CONTROL_FLAGS \<rparr>)
       dp_flow_item_tcp_src_dst_noctrl_mask"

definition dp_set_icmp_flow_item :: "u8 \<Rightarrow> rte_flow_item" where
  "dp_set_icmp_flow_item type = RTE_FLOW_ITEM_TYPE_ICMP type dp_flow_item_icmp_mask"

definition dp_set_icmp6_flow_item :: "u8 \<Rightarrow> rte_flow_item" where
  "dp_set_icmp6_flow_item type = RTE_FLOW_ITEM_TYPE_ICMP6 type dp_flow_item_icmp6_mask"

definition dp_set_mark_flow_item :: "u32 \<Rightarrow> rte_flow_item" where
  "dp_set_mark_flow_item marked_id = RTE_FLOW_ITEM_TYPE_MARK marked_id"

definition dp_set_tag_flow_item :: "u32 \<Rightarrow> u8 \<Rightarrow> rte_flow_item" where
  "dp_set_tag_flow_item tag_value tag_index = RTE_FLOW_ITEM_TYPE_TAG tag_value tag_index"

definition dp_set_meta_flow_item :: "u32 \<Rightarrow> rte_flow_item" where
  "dp_set_meta_flow_item meta_value = RTE_FLOW_ITEM_TYPE_META meta_value"

definition dp_set_end_flow_item :: rte_flow_item where
  "dp_set_end_flow_item = RTE_FLOW_ITEM_TYPE_END"

definition dp_set_l4_flow_item :: "item_tcp \<Rightarrow> item_udp \<Rightarrow> dp_flow \<Rightarrow> rte_flow_item option" where
  "dp_set_l4_flow_item tcp_spec udp_spec df =
     (if df_l4_type df = IPPROTO_TCP then Some (dp_set_tcp_src_dst_noctrl_flow_item tcp_spec (df_src_port df) (df_dst_port df))
      else if df_l4_type df = IPPROTO_UDP then Some (dp_set_udp_src_dst_flow_item udp_spec (df_src_port df) (df_dst_port df))
      else if df_l4_type df = IPPROTO_ICMP then Some (dp_set_icmp_flow_item (df_icmp_type df))
      else if df_l4_type df = IPPROTO_ICMPV6 then Some (dp_set_icmp6_flow_item (df_icmp_type df))
      else None)"

section \<open>Actions\<close>

text \<open>
  The raw headers to encapsulate with: an Ethernet header, alone or followed by the headers of a tunnel or of a captured packet.
  Fields that the code leaves unset are arguments of it.
\<close>

record rte_udp_hdr =
  uh_src_port :: u16
  uh_dst_port :: u16
  uh_dgram_len :: u16
  uh_dgram_cksum :: u16

datatype raw_header =
    Raw_eth rte_ether_hdr
  | Raw_ipip rte_ether_hdr rte_ipv6_hdr
  | Raw_capture rte_ether_hdr rte_ipv6_hdr rte_udp_hdr

fun raw_header_size :: "raw_header \<Rightarrow> nat" where
  "raw_header_size (Raw_eth _) = 14"
| "raw_header_size (Raw_ipip _ _) = 54"
| "raw_header_size (Raw_capture _ _ _) = 62"

datatype rte_flow_action =
    RTE_FLOW_ACTION_TYPE_RAW_DECAP nat
  | RTE_FLOW_ACTION_TYPE_RAW_ENCAP raw_header nat
  | RTE_FLOW_ACTION_TYPE_SET_MAC_DST mac_addr
  | RTE_FLOW_ACTION_TYPE_SET_MAC_SRC mac_addr
  | RTE_FLOW_ACTION_TYPE_SET_IPV4_SRC u32
  | RTE_FLOW_ACTION_TYPE_SET_IPV4_DST u32
  | RTE_FLOW_ACTION_TYPE_SET_IPV6_SRC ipv6_addr
  | RTE_FLOW_ACTION_TYPE_SET_IPV6_DST ipv6_addr
  | RTE_FLOW_ACTION_TYPE_SET_TP_SRC u16
  | RTE_FLOW_ACTION_TYPE_SET_TP_DST u16
  | RTE_FLOW_ACTION_TYPE_PORT_ID u32
  | RTE_FLOW_ACTION_TYPE_AGE u32 ptr
  | RTE_FLOW_ACTION_TYPE_QUEUE u16
  | RTE_FLOW_ACTION_TYPE_MARK u32
  | RTE_FLOW_ACTION_TYPE_SET_TAG u32 u32 u8
  | RTE_FLOW_ACTION_TYPE_SET_META u32 u32
  | RTE_FLOW_ACTION_TYPE_SAMPLE u32 "rte_flow_action list"
  | RTE_FLOW_ACTION_TYPE_JUMP u32
  | RTE_FLOW_ACTION_TYPE_END

definition dp_set_raw_decap_action :: "nat \<Rightarrow> rte_flow_action" where
  "dp_set_raw_decap_action data_len = RTE_FLOW_ACTION_TYPE_RAW_DECAP data_len"

definition dp_set_raw_encap_action :: "raw_header \<Rightarrow> nat \<Rightarrow> rte_flow_action" where
  "dp_set_raw_encap_action data_to_encap data_len = RTE_FLOW_ACTION_TYPE_RAW_ENCAP data_to_encap data_len"

definition dp_set_dst_mac_set_action :: "mac_addr \<Rightarrow> rte_flow_action" where
  "dp_set_dst_mac_set_action dst_mac = RTE_FLOW_ACTION_TYPE_SET_MAC_DST dst_mac"

definition dp_set_src_mac_set_action :: "mac_addr \<Rightarrow> rte_flow_action" where
  "dp_set_src_mac_set_action src_mac = RTE_FLOW_ACTION_TYPE_SET_MAC_SRC src_mac"

definition dp_set_ipv4_set_src_action :: "u32 \<Rightarrow> rte_flow_action" where
  "dp_set_ipv4_set_src_action ipv4 = RTE_FLOW_ACTION_TYPE_SET_IPV4_SRC ipv4"

definition dp_set_ipv4_set_dst_action :: "u32 \<Rightarrow> rte_flow_action" where
  "dp_set_ipv4_set_dst_action ipv4 = RTE_FLOW_ACTION_TYPE_SET_IPV4_DST ipv4"

definition dp_set_ipv6_set_src_action :: "ipv6_addr \<Rightarrow> rte_flow_action" where
  "dp_set_ipv6_set_src_action ipv6 = RTE_FLOW_ACTION_TYPE_SET_IPV6_SRC ipv6"

definition dp_set_ipv6_set_dst_action :: "ipv6_addr \<Rightarrow> rte_flow_action" where
  "dp_set_ipv6_set_dst_action ipv6 = RTE_FLOW_ACTION_TYPE_SET_IPV6_DST ipv6"

definition dp_set_trans_proto_set_src_action :: "u16 \<Rightarrow> rte_flow_action" where
  "dp_set_trans_proto_set_src_action port = RTE_FLOW_ACTION_TYPE_SET_TP_SRC port"

definition dp_set_trans_proto_set_dst_action :: "u16 \<Rightarrow> rte_flow_action" where
  "dp_set_trans_proto_set_dst_action port = RTE_FLOW_ACTION_TYPE_SET_TP_DST port"

definition dp_set_send_to_port_action :: "u32 \<Rightarrow> rte_flow_action" where
  "dp_set_send_to_port_action port_id = RTE_FLOW_ACTION_TYPE_PORT_ID port_id"

definition dp_set_flow_age_action :: "u32 \<Rightarrow> ptr \<Rightarrow> rte_flow_action" where
  "dp_set_flow_age_action timeout age_context = RTE_FLOW_ACTION_TYPE_AGE (timeout AND 0x00FFFFFF) age_context"

definition dp_set_redirect_queue_action :: "u16 \<Rightarrow> rte_flow_action" where
  "dp_set_redirect_queue_action queue_index = RTE_FLOW_ACTION_TYPE_QUEUE queue_index"

definition dp_set_packet_mark_action :: "u32 \<Rightarrow> rte_flow_action" where
  "dp_set_packet_mark_action marked_value = RTE_FLOW_ACTION_TYPE_MARK marked_value"

definition dp_set_set_tag_action :: "u32 \<Rightarrow> rte_flow_action" where
  "dp_set_set_tag_action tag_value = RTE_FLOW_ACTION_TYPE_SET_TAG tag_value 0xffffffff 0"

definition dp_set_set_meta_action :: "u32 \<Rightarrow> rte_flow_action" where
  "dp_set_set_meta_action meta_value = RTE_FLOW_ACTION_TYPE_SET_META meta_value 0xffffffff"

definition dp_set_sample_action :: "u32 \<Rightarrow> rte_flow_action list \<Rightarrow> rte_flow_action" where
  "dp_set_sample_action sample_ratio sub_action = RTE_FLOW_ACTION_TYPE_SAMPLE sample_ratio sub_action"

definition dp_set_jump_group_action :: "u32 \<Rightarrow> rte_flow_action" where
  "dp_set_jump_group_action group_id = RTE_FLOW_ACTION_TYPE_JUMP group_id"

definition dp_set_end_action :: rte_flow_action where
  "dp_set_end_action = RTE_FLOW_ACTION_TYPE_END"

section \<open>Rules and the driver\<close>

record rte_flow_attr =
  attr_group :: u32
  attr_priority :: u32
  attr_ingress :: bool
  attr_egress :: bool
  attr_transfer :: bool

abbreviation DP_RTE_FLOW_DEFAULT_GROUP :: u32 where "DP_RTE_FLOW_DEFAULT_GROUP \<equiv> 0"
abbreviation DP_RTE_FLOW_CAPTURE_GROUP :: u32 where "DP_RTE_FLOW_CAPTURE_GROUP \<equiv> 1"
abbreviation DP_RTE_FLOW_VNET_GROUP :: u32 where "DP_RTE_FLOW_VNET_GROUP \<equiv> 2"

record rte_flow_rule =
  rule_port :: u16
  rule_attr :: rte_flow_attr
  rule_pattern :: "rte_flow_item list"
  rule_actions :: "rte_flow_action list"

text \<open>
  The driver has a state of its own, on which its answers depend; \<open>hw_rules\<close> are the rules that it holds.  A rule that it
  creates gets a handle that was not in use.
\<close>

record 'd hw =
  hw_rules :: "rte_flow_rule heap"
  hw_drv :: 'd

record 'd hw_env =
  he_flow_validate :: "rte_flow_rule \<Rightarrow> 'd \<Rightarrow> int \<times> 'd"
  he_flow_create :: "rte_flow_rule \<Rightarrow> rte_flow_rule heap \<Rightarrow> 'd \<Rightarrow> ptr option \<times> 'd"
  he_flow_destroy :: "u16 \<Rightarrow> ptr \<Rightarrow> 'd \<Rightarrow> int \<times> 'd"

definition hw_env_ok :: "('d, 'e) hw_env_scheme \<Rightarrow> bool" where
  "hw_env_ok env \<longleftrightarrow> (\<forall>rule h d p d'. he_flow_create env rule h d = (Some p, d') \<longrightarrow> h p = None)"

definition rte_flow_create :: "('d, 'e) hw_env_scheme \<Rightarrow> rte_flow_rule \<Rightarrow> ('d, 'z) hw_scheme \<Rightarrow> ptr option \<times> ('d, 'z) hw_scheme" where
  "rte_flow_create env rule hw =
     (case he_flow_create env rule (hw_rules hw) (hw_drv hw) of
        (None, d) \<Rightarrow> (None, hw\<lparr> hw_drv := d \<rparr>)
      | (Some p, d) \<Rightarrow> (Some p, hw\<lparr> hw_rules := (hw_rules hw)(p \<mapsto> rule), hw_drv := d \<rparr>))"

definition dp_install_rte_flow ::
  "('d, 'e) hw_env_scheme \<Rightarrow> u16 \<Rightarrow> rte_flow_attr \<Rightarrow> rte_flow_item list \<Rightarrow> rte_flow_action list \<Rightarrow> ('d, 'z) hw_scheme \<Rightarrow> ptr option \<times> ('d, 'z) hw_scheme" where
  "dp_install_rte_flow env port_id attr pattern actions hw =
     (let rule = \<lparr> rule_port = port_id, rule_attr = attr, rule_pattern = pattern, rule_actions = actions \<rparr>;
          (ret, d) = he_flow_validate env rule (hw_drv hw);
          hw1 = hw\<lparr> hw_drv := d \<rparr>
      in if DP_FAILED ret then (None, hw1) else rte_flow_create env rule hw1)"

text \<open>Destroying a rule that the port does not hold is undefined; a rule that the driver cannot destroy stays.\<close>

definition rte_flow_destroy :: "('d, 'e) hw_env_scheme \<Rightarrow> u16 \<Rightarrow> ptr \<Rightarrow> ('d, 'z) hw_scheme \<Rightarrow> (int \<times> ('d, 'z) hw_scheme) option" where
  "rte_flow_destroy env port_id p hw =
     do {
       rule \<leftarrow> hw_rules hw p;
       (if rule_port rule \<noteq> port_id then None
        else
          let (ret, d) = he_flow_destroy env port_id p (hw_drv hw)
          in Some (ret, hw\<lparr> hw_rules := (if DP_FAILED ret then hw_rules hw else (hw_rules hw)(p := None)), hw_drv := d \<rparr>))
     }"

section \<open>Isolation\<close>

definition dp_flow_attr_prio_ingress :: rte_flow_attr where
  "dp_flow_attr_prio_ingress = \<lparr> attr_group = 0, attr_priority = 1, attr_ingress = True, attr_egress = False, attr_transfer = False \<rparr>"

definition dp_install_isolated_mode_ipip ::
  "('d, 'e) hw_env_scheme \<Rightarrow> rte_ether_hdr \<Rightarrow> item_ipv6 \<Rightarrow> u16 \<Rightarrow> u8 \<Rightarrow> ('d, 'z) hw_scheme \<Rightarrow> int \<times> ('d, 'z) hw_scheme" where
  "dp_install_isolated_mode_ipip env eth_spec ipv6_spec port_id proto_id hw =
     (let pattern = [dp_set_eth_flow_item eth_spec (htons RTE_ETHER_TYPE_IPV6), dp_set_ipv6_flow_item ipv6_spec proto_id, dp_set_end_flow_item];
          action = [dp_set_redirect_queue_action 0, dp_set_end_action]
      in case dp_install_rte_flow env port_id dp_flow_attr_prio_ingress pattern action hw of
           (None, hw1) \<Rightarrow> (DP_ERROR, hw1)
         | (Some _, hw1) \<Rightarrow> (DP_OK, hw1))"

definition dp_install_isolated_mode_virtsvc ::
  "('d, 'e) hw_env_scheme \<Rightarrow> rte_ether_hdr \<Rightarrow> item_ipv6 \<Rightarrow> item_tcp \<Rightarrow> item_udp \<Rightarrow> u16 \<Rightarrow> u8 \<Rightarrow> ipv6_addr \<Rightarrow> u16 \<Rightarrow> ('d, 'z) hw_scheme \<Rightarrow>
    int \<times> ('d, 'z) hw_scheme" where
  "dp_install_isolated_mode_virtsvc env eth_spec ipv6_spec tcp_spec udp_spec port_id proto_id svc_ipv6 svc_port hw =
     (case (if proto_id = IPPROTO_TCP then Some (dp_set_tcp_src_flow_item tcp_spec svc_port)
            else if proto_id = IPPROTO_UDP then Some (dp_set_udp_src_flow_item udp_spec svc_port)
            else None) of
        None \<Rightarrow> (DP_ERROR, hw)
      | Some l4 \<Rightarrow>
          let pattern = [dp_set_eth_flow_item eth_spec (htons RTE_ETHER_TYPE_IPV6), dp_set_ipv6_src_flow_item ipv6_spec svc_ipv6 proto_id, l4,
                         dp_set_end_flow_item];
              actions = [dp_set_redirect_queue_action 0, dp_set_end_action]
          in case dp_install_rte_flow env port_id dp_flow_attr_prio_ingress pattern actions hw of
               (None, hw1) \<Rightarrow> (DP_ERROR, hw1)
             | (Some _, hw1) \<Rightarrow> (DP_OK, hw1))"

end
