(* ===== verification/Dp_Capture.thy ===== *)
theory Dp_Capture
  imports Dp_Rte_Flow
begin

text \<open>
  Packet capturing (\<^verbatim>\<open>src/rte_flow/dp_rte_flow_capture.c\<close>, \<^verbatim>\<open>src/monitoring/dp_monitoring.c\<close>): the default rules of a
  port, which send its packets either straight to the virtual network or through the capturing rule first, and switching
  capturing on and off.
\<close>

section \<open>Model\<close>

record dp_capture_hdr_config =
  cap_node_ipv6_addr :: ipv6_addr
  cap_udp_src_port :: u16
  cap_udp_dst_port :: u16

definition dp_set_capture_hdr_config :: "ipv6_addr \<Rightarrow> u16 \<Rightarrow> u16 \<Rightarrow> dp_capture_hdr_config" where
  "dp_set_capture_hdr_config addr src_port dst_port =
     \<lparr> cap_node_ipv6_addr = addr, cap_udp_src_port = src_port, cap_udp_dst_port = dst_port \<rparr>"

text \<open>
  What the rules read besides the port: the first physical port, the underlay address, the configuration of capturing, and the
  header the action is built in, of which the datagram length is never set.
\<close>

record capture_ctx =
  cx_pf0 :: dp_port
  cx_underlay_ip :: ipv6_addr
  cx_hdr_config :: dp_capture_hdr_config
  cx_udp_hdr :: rte_udp_hdr

abbreviation DP_IP6_HOP_LIMIT :: u8 where "DP_IP6_HOP_LIMIT \<equiv> 0x40"
abbreviation DP_IP6_VTC_FLOW :: u32 where "DP_IP6_VTC_FLOW \<equiv> 0x60000000"
abbreviation DP_RTE_FLOW_CAPTURE_PKT_HDR_SIZE :: nat where "DP_RTE_FLOW_CAPTURE_PKT_HDR_SIZE \<equiv> 14 + 40 + 8"

definition dp_flow_attr_default_jump_ingress :: rte_flow_attr where
  "dp_flow_attr_default_jump_ingress =
     \<lparr> attr_group = DP_RTE_FLOW_DEFAULT_GROUP, attr_priority = 0, attr_ingress = False, attr_egress = False, attr_transfer = True \<rparr>"

definition dp_flow_attr_default_capture_ingress :: rte_flow_attr where
  "dp_flow_attr_default_capture_ingress =
     \<lparr> attr_group = DP_RTE_FLOW_CAPTURE_GROUP, attr_priority = 0, attr_ingress = False, attr_egress = False, attr_transfer = True \<rparr>"

definition dp_install_jump_rule_in_default_group ::
  "('d, 'e) hw_env_scheme \<Rightarrow> u32 \<Rightarrow> dp_port \<Rightarrow> ('d, 'z) hw_scheme \<Rightarrow> int \<times> dp_port \<times> ('d, 'z) hw_scheme" where
  "dp_install_jump_rule_in_default_group env dst_group port hw =
     (case dp_install_rte_flow env (port_port_id port) dp_flow_attr_default_jump_ingress [dp_set_eth_match_all_item, dp_set_end_flow_item]
             [dp_set_jump_group_action dst_group, dp_set_end_action] hw of
        (None, hw1) \<Rightarrow> (DP_ERROR, port, hw1)
      | (Some flow, hw1) \<Rightarrow> (DP_OK, port\<lparr> port_default_jump_flow := Some flow \<rparr>, hw1))"

definition dp_configure_pkt_capture_action :: "capture_ctx \<Rightarrow> rte_flow_action list" where
  "dp_configure_pkt_capture_action cx =
     (let out = cx_pf0 cx; cfg = cx_hdr_config cx;
          eth = \<lparr> eth_dst_addr = port_neigh_mac out, eth_src_addr = port_own_mac out, eth_ether_type = htons RTE_ETHER_TYPE_IPV6 \<rparr>;
          ipv6 = \<lparr> ipv6_vtc_flow = htonl DP_IP6_VTC_FLOW, ipv6_payload_len = 0, ipv6_proto = IPPROTO_UDP, ipv6_hop_limits = DP_IP6_HOP_LIMIT,
                   ipv6_src_addr = cx_underlay_ip cx, ipv6_dst_addr = cap_node_ipv6_addr cfg \<rparr>;
          udp = (cx_udp_hdr cx)\<lparr> uh_dst_port := htons (cap_udp_dst_port cfg), uh_src_port := htons (cap_udp_src_port cfg), uh_dgram_cksum := 0 \<rparr>
      in [dp_set_raw_encap_action (Raw_capture eth ipv6 udp) DP_RTE_FLOW_CAPTURE_PKT_HDR_SIZE,
          dp_set_send_to_port_action (ucast (port_port_id out)), dp_set_end_action])"

definition dp_install_default_rule_in_capture_group ::
  "('d, 'e) hw_env_scheme \<Rightarrow> capture_ctx \<Rightarrow> bool \<Rightarrow> dp_port \<Rightarrow> ('d, 'z) hw_scheme \<Rightarrow> int \<times> dp_port \<times> ('d, 'z) hw_scheme" where
  "dp_install_default_rule_in_capture_group env cx capture_on port hw =
     (let sample = (if capture_on then [dp_set_sample_action 1 (dp_configure_pkt_capture_action cx)] else [])
      in case dp_install_rte_flow env (port_port_id port) dp_flow_attr_default_capture_ingress [dp_set_eth_match_all_item, dp_set_end_flow_item]
                (sample @ [dp_set_jump_group_action DP_RTE_FLOW_VNET_GROUP, dp_set_end_action]) hw of
           (None, hw1) \<Rightarrow> (DP_ERROR, port, hw1)
         | (Some flow, hw1) \<Rightarrow> (DP_OK, port\<lparr> port_default_capture_flow := Some flow \<rparr>, hw1))"

text \<open>The two pointers of the port are left as they are.\<close>

definition destroy_if_set :: "('d, 'e) hw_env_scheme \<Rightarrow> u16 \<Rightarrow> ptr option \<Rightarrow> ('d, 'z) hw_scheme \<Rightarrow> (int \<times> ('d, 'z) hw_scheme) option" where
  "destroy_if_set env port_id flow hw = (case flow of None \<Rightarrow> Some (DP_OK, hw) | Some p \<Rightarrow> rte_flow_destroy env port_id p hw)"

definition dp_destroy_default_flow :: "('d, 'e) hw_env_scheme \<Rightarrow> dp_port \<Rightarrow> ('d, 'z) hw_scheme \<Rightarrow> (int \<times> ('d, 'z) hw_scheme) option" where
  "dp_destroy_default_flow env port hw =
     do {
       (ret, hw1) \<leftarrow> destroy_if_set env (port_port_id port) (port_default_jump_flow port) hw;
       (if DP_FAILED ret then Some (DP_ERROR, hw1)
        else
          do {
            (ret, hw2) \<leftarrow> destroy_if_set env (port_port_id port) (port_default_capture_flow port) hw1;
            Some (if DP_FAILED ret then DP_ERROR else DP_OK, hw2)
          })
     }"

text \<open>The rules of a virtual function that is to be captured, with the rollback to the rule without capturing.\<close>

definition enable_vf_capture ::
  "('d, 'e) hw_env_scheme \<Rightarrow> capture_ctx \<Rightarrow> dp_port \<Rightarrow> ('d, 'z) hw_scheme \<Rightarrow> (int \<times> dp_port \<times> ('d, 'z) hw_scheme) option" where
  "enable_vf_capture env cx port hw =
     (case dp_install_jump_rule_in_default_group env DP_RTE_FLOW_CAPTURE_GROUP port hw of
        (ret, port1, hw1) \<Rightarrow>
          if DP_FAILED ret then Some (DP_GRPC_ERR_RTE_RULE_ADD, port1, hw1)
          else
            (case dp_install_default_rule_in_capture_group env cx True port1 hw1 of
               (ret, port2, hw2) \<Rightarrow>
                 if \<not> DP_FAILED ret then Some (DP_GRPC_OK, port2, hw2)
                 else
                   do {
                     (ret, hw3) \<leftarrow> dp_destroy_default_flow env port2 hw2;
                     (if DP_FAILED ret then Some (DP_GRPC_ERR_ROLLBACK, port2, hw3)
                      else
                        case dp_install_jump_rule_in_default_group env DP_RTE_FLOW_VNET_GROUP port2 hw3 of
                          (ret, port4, hw4) \<Rightarrow> Some (if DP_FAILED ret then DP_GRPC_ERR_ROLLBACK else DP_GRPC_ERR_RTE_RULE_ADD, port4, hw4))
                   }))"

definition dp_enable_pkt_capture ::
  "('d, 'e) hw_env_scheme \<Rightarrow> capture_ctx \<Rightarrow> dp_port option \<Rightarrow> ('d, 'z) hw_scheme \<Rightarrow> (int \<times> dp_port option \<times> ('d, 'z) hw_scheme) option" where
  "dp_enable_pkt_capture env cx port hw =
     (case port of
        None \<Rightarrow> Some (DP_GRPC_ERR_NO_VM, None, hw)
      | Some p \<Rightarrow>
          if \<not> port_allocated p then Some (DP_GRPC_ERR_NO_VM, Some p, hw)
          else if port_captured p then Some (DP_GRPC_ERR_ALREADY_ACTIVE, Some p, hw)
          else
            do {
              (ret, hw1) \<leftarrow> dp_destroy_default_flow env p hw;
              (if DP_FAILED ret then Some (DP_GRPC_ERR_RTE_RULE_DEL, Some p, hw1)
               else
                 do {
                   (ret, p2, hw2) \<leftarrow>
                     (if port_is_pf p then
                        case dp_install_default_rule_in_capture_group env cx True p hw1 of
                          (ret, p2, hw2) \<Rightarrow> Some (if DP_FAILED ret then DP_GRPC_ERR_RTE_RULE_ADD else DP_GRPC_OK, p2, hw2)
                      else enable_vf_capture env cx p hw1);
                   Some (if DP_FAILED ret then (ret, Some p2, hw2) else (DP_GRPC_OK, Some (p2\<lparr> port_captured := True \<rparr>), hw2))
                 })
            })"

definition dp_disable_pkt_capture ::
  "('d, 'e) hw_env_scheme \<Rightarrow> capture_ctx \<Rightarrow> dp_port option \<Rightarrow> ('d, 'z) hw_scheme \<Rightarrow> (int \<times> dp_port option \<times> ('d, 'z) hw_scheme) option" where
  "dp_disable_pkt_capture env cx port hw =
     (case port of
        None \<Rightarrow> Some (DP_GRPC_ERR_NO_VM, None, hw)
      | Some p \<Rightarrow>
          if \<not> port_allocated p then Some (DP_GRPC_ERR_NO_VM, Some p, hw)
          else if \<not> port_captured p then Some (DP_GRPC_ERR_NOT_ACTIVE, Some p, hw)
          else
            do {
              (ret, hw1) \<leftarrow> dp_destroy_default_flow env p hw;
              (if DP_FAILED ret then Some (DP_GRPC_ERR_RTE_RULE_DEL, Some p, hw1)
               else
                 case (if port_is_pf p then dp_install_default_rule_in_capture_group env cx False p hw1
                       else dp_install_jump_rule_in_default_group env DP_RTE_FLOW_VNET_GROUP p hw1) of
                   (ret, p2, hw2) \<Rightarrow>
                     Some (if DP_FAILED ret then (DP_GRPC_ERR_RTE_RULE_ADD, Some p2, hw2)
                           else (DP_OK, Some (p2\<lparr> port_captured := False \<rparr>), hw2)))
            })"

text \<open>
  The loop over the ports, given by their ids in the order of \<^verbatim>\<open>_dp_ports\<close>; \<open>tbl\<close> is the port table.  The code calls
  \<^verbatim>\<open>dp_enable_pkt_capture\<close> here.
\<close>

fun disable_capture_on ::
  "('d, 'e) hw_env_scheme \<Rightarrow> capture_ctx \<Rightarrow> u16 list \<Rightarrow> int \<Rightarrow> dp_port option list \<Rightarrow> ('d, 'z) hw_scheme \<Rightarrow>
    (int \<times> dp_port option list \<times> ('d, 'z) hw_scheme) option" where
  "disable_capture_on env cx [] count tbl hw = Some (count, tbl, hw)"
| "disable_capture_on env cx (i # is) count tbl hw =
     do {
       port \<leftarrow> dp_get_port_by_id tbl i;
       (if port_allocated port \<and> port_captured port then
          do {
            (ret, port1, hw1) \<leftarrow> dp_enable_pkt_capture env cx (Some port) hw;
            let tbl1 = tbl[unat i := port1];
            (if DP_FAILED ret then Some (ret, tbl1, hw1) else disable_capture_on env cx is (count + 1) tbl1 hw1)
          }
        else disable_capture_on env cx is count tbl hw)
     }"

definition dp_disable_pkt_capture_on_all_ifaces ::
  "('d, 'e) hw_env_scheme \<Rightarrow> capture_ctx \<Rightarrow> u16 list \<Rightarrow> dp_port option list \<Rightarrow> ('d, 'z) hw_scheme \<Rightarrow>
    (int \<times> dp_port option list \<times> ('d, 'z) hw_scheme) option" where
  "dp_disable_pkt_capture_on_all_ifaces env cx ports tbl hw = disable_capture_on env cx ports 0 tbl hw"

section \<open>Switching capturing off\<close>

lemma port_entry:
  assumes "dp_get_port_by_id tbl i = Some port" shows "tbl[unat i := Some port] = tbl"
proof -
  have "tbl ! unat i = Some port"
    using assms by (simp add: dp_get_port_by_id_def split: if_splits)
  then show ?thesis by (metis list_update_id)
qed

text \<open>
  C35: Capturing is never switched off: the function that is to switch it off on all ports reports an error and changes
  nothing as soon as one port is captured, because it calls the function that switches capturing on.
\<close>

theorem capture_never_stops:
  assumes "\<forall>i \<in> set ports. dp_get_port_by_id tbl i \<noteq> None"
  shows "dp_disable_pkt_capture_on_all_ifaces env cx ports tbl hw =
    Some (if \<exists>i \<in> set ports. \<exists>port. dp_get_port_by_id tbl i = Some port \<and> port_allocated port \<and> port_captured port
          then DP_GRPC_ERR_ALREADY_ACTIVE else 0, tbl, hw)"
  unfolding dp_disable_pkt_capture_on_all_ifaces_def using assms
proof (induction ports)
  case Nil
  show ?case by simp
next
  case (Cons i ports)
  then obtain port where port: "dp_get_port_by_id tbl i = Some port" by auto
  show ?case
  proof (cases "port_allocated port \<and> port_captured port")
    case True
    then show ?thesis
      by (simp add: port dp_enable_pkt_capture_def port_entry)
  next
    case False
    then show ?thesis
      using Cons by (auto simp: port)
  qed
qed

theorem capture_never_stops_witness:
  "\<forall>env cx hw. dp_disable_pkt_capture_on_all_ifaces env cx [0] [Some (zero_port\<lparr> port_allocated := True, port_captured := True \<rparr>)] hw =
     Some (DP_GRPC_ERR_ALREADY_ACTIVE, [Some (zero_port\<lparr> port_allocated := True, port_captured := True \<rparr>)], hw)"
proof (intro allI)
  fix env :: "('a, 'b) hw_env_scheme" and cx :: capture_ctx and hw :: "('a, 'c) hw_scheme"
  let ?tbl = "[Some (zero_port\<lparr> port_allocated := True, port_captured := True \<rparr>)]"
  have "dp_get_port_by_id ?tbl 0 = Some (zero_port\<lparr> port_allocated := True, port_captured := True \<rparr>)"
    by (simp add: dp_get_port_by_id_def)
  then show "dp_disable_pkt_capture_on_all_ifaces env cx [0] ?tbl hw = Some (DP_GRPC_ERR_ALREADY_ACTIVE, ?tbl, hw)"
    using capture_never_stops [of "[0]" ?tbl env cx hw] by simp
qed

end
