(* ===== verification/Dp_Port.thy ===== *)
theory Dp_Port
  imports Dp_Capture Dp_Hash_List
begin

text \<open>
  Ports (\<^verbatim>\<open>src/dp_port.c\<close>, \<^verbatim>\<open>src/dp_hairpin.c\<close>, the rate limit of \<^verbatim>\<open>src/dp_util.c\<close>): initialisation of the port table,
  starting and stopping a port, hairpin queues and metering.  The device driver, the link to the kernel and the files of
  \<^verbatim>\<open>sysfs\<close> are parameters.  The build is the default one, without virtual services and without the settings for testing.
\<close>

section \<open>Environment\<close>

datatype dp_conf_nic_type = DP_CONF_NIC_TYPE_MELLANOX | DP_CONF_NIC_TYPE_TAP | DP_CONF_NIC_TYPE_BLUEFIELD2

record rte_meter_srtcm_params =
  sp_cir :: u64
  sp_cbs :: u64
  sp_ebs :: u64

text \<open>Configuration and the calls into driver and kernel, each with the state of the driver.\<close>

record 'd port_env = "'d hw_env" +
  pe_nic_type :: dp_conf_nic_type
  pe_offload :: bool
  pe_pf0_name :: string
  pe_pf1_name :: string
  pe_vf_pattern :: string
  pe_port_by_name :: "string \<Rightarrow> int \<times> u16"
  pe_devs :: "u16 list"
  pe_dev_info :: "u16 \<Rightarrow> 'd \<Rightarrow> (int \<times> string) option \<times> 'd"
  pe_socket_id :: "u16 \<Rightarrow> int"
  pe_flow_isolate :: "u16 \<Rightarrow> 'd \<Rightarrow> int \<times> 'd"
  pe_configure :: "u16 \<Rightarrow> u16 \<Rightarrow> u16 \<Rightarrow> 'd \<Rightarrow> int \<times> 'd"
  pe_rx_queue_setup :: "u16 \<Rightarrow> u16 \<Rightarrow> int \<Rightarrow> 'd \<Rightarrow> int \<times> 'd"
  pe_tx_queue_setup :: "u16 \<Rightarrow> u16 \<Rightarrow> int \<Rightarrow> 'd \<Rightarrow> int \<times> 'd"
  pe_promiscuous :: "u16 \<Rightarrow> 'd \<Rightarrow> int \<times> 'd"
  pe_macaddr :: "u16 \<Rightarrow> 'd \<Rightarrow> int \<times> mac_addr"
  pe_dev_name :: "u16 \<Rightarrow> string"
  pe_neigh_mac :: "int \<Rightarrow> mac_addr \<Rightarrow> 'd \<Rightarrow> (int \<times> mac_addr) \<times> 'd"
  pe_callback_register :: "u16 \<Rightarrow> 'd \<Rightarrow> int \<times> 'd"
  pe_rx_queue_info :: "u16 \<Rightarrow> 'd \<Rightarrow> int \<times> u16"
  pe_tx_queue_info :: "u16 \<Rightarrow> 'd \<Rightarrow> int \<times> u16"
  pe_rx_hairpin_setup :: "u16 \<Rightarrow> u16 \<Rightarrow> u16 \<Rightarrow> u16 \<Rightarrow> u16 \<Rightarrow> 'd \<Rightarrow> int \<times> 'd"
  pe_tx_hairpin_setup :: "u16 \<Rightarrow> u16 \<Rightarrow> u16 \<Rightarrow> u16 \<Rightarrow> u16 \<Rightarrow> 'd \<Rightarrow> int \<times> 'd"
  pe_hairpin_bind :: "u16 \<Rightarrow> u16 \<Rightarrow> 'd \<Rightarrow> int \<times> 'd"
  pe_dev_start :: "u16 \<Rightarrow> 'd \<Rightarrow> int \<times> 'd"
  pe_dev_stop :: "u16 \<Rightarrow> 'd \<Rightarrow> int \<times> 'd"
  pe_file_exists :: "string \<Rightarrow> 'd \<Rightarrow> bool"
  pe_write_file :: "string \<Rightarrow> u64 \<Rightarrow> 'd \<Rightarrow> bool \<times> 'd"
  pe_meter_reset :: "u16 \<Rightarrow> 'd \<Rightarrow> 'd"
  pe_meter_profile :: "u16 \<Rightarrow> rte_meter_srtcm_params \<Rightarrow> 'd \<Rightarrow> int \<times> 'd"
  pe_meter_config :: "u16 \<Rightarrow> 'd \<Rightarrow> int \<times> 'd"

text \<open>A call of the driver on the hardware state.\<close>

definition drv :: "('d \<Rightarrow> 'a \<times> 'd) \<Rightarrow> ('d, 'z) hw_scheme \<Rightarrow> 'a \<times> ('d, 'z) hw_scheme" where
  "drv f hw = (let (a, d) = f (hw_drv hw) in (a, hw\<lparr> hw_drv := d \<rparr>))"

abbreviation (input) DP_NR_STD_RX_QUEUES :: nat where "DP_NR_STD_RX_QUEUES \<equiv> 1"
abbreviation (input) DP_NR_STD_TX_QUEUES :: nat where "DP_NR_STD_TX_QUEUES \<equiv> 1"
abbreviation (input) DP_NR_PF_HAIRPIN_RX_TX_QUEUES :: nat where "DP_NR_PF_HAIRPIN_RX_TX_QUEUES \<equiv> 1"
abbreviation (input) DP_NR_RESERVED_RX_QUEUES :: nat where "DP_NR_RESERVED_RX_QUEUES \<equiv> DP_NR_STD_RX_QUEUES + DP_NR_PF_HAIRPIN_RX_TX_QUEUES"
abbreviation (input) DP_NR_RESERVED_TX_QUEUES :: nat where "DP_NR_RESERVED_TX_QUEUES \<equiv> DP_NR_STD_TX_QUEUES + DP_NR_PF_HAIRPIN_RX_TX_QUEUES"
abbreviation (input) DP_NR_VF_HAIRPIN_RX_TX_QUEUES :: nat where "DP_NR_VF_HAIRPIN_RX_TX_QUEUES \<equiv> 1"

abbreviation DP_METER_CIR_BASE_VALUE :: u64 where "DP_METER_CIR_BASE_VALUE \<equiv> 1024 * 1024"
abbreviation DP_METER_EBS_BREAK_VALUE :: u64 where "DP_METER_EBS_BREAK_VALUE \<equiv> 100"
abbreviation DP_METER_MBITS_TO_BYTES :: u64 where "DP_METER_MBITS_TO_BYTES \<equiv> 1024 * 1024 div 8"

section \<open>Looking ports up\<close>

definition dp_get_port_by_name :: "('d, 'e) port_env_scheme \<Rightarrow> string \<Rightarrow> dp_port option list \<Rightarrow> dp_port option" where
  "dp_get_port_by_name env pci_name tbl =
     (if pci_name = [] \<or> DP_FAILED (fst (pe_port_by_name env pci_name)) then None
      else dp_get_port_by_id tbl (snd (pe_port_by_name env pci_name)))"

definition dp_load_mac :: "('d, 'e) port_env_scheme \<Rightarrow> dp_port \<Rightarrow> ('d, 'z) hw_scheme \<Rightarrow> int \<times> dp_port" where
  "dp_load_mac env port hw =
     (let (ret, mac) = pe_macaddr env (port_port_id port) (hw_drv hw)
      in (ret, if DP_FAILED ret then port else port\<lparr> port_own_mac := mac \<rparr>))"

section \<open>Hairpin queues\<close>

definition setup_hairpin_rx_tx_queues ::
  "('d, 'e) port_env_scheme \<Rightarrow> u16 \<Rightarrow> u16 \<Rightarrow> u16 \<Rightarrow> u16 \<Rightarrow> ('d, 'z) hw_scheme \<Rightarrow> int \<times> ('d, 'z) hw_scheme" where
  "setup_hairpin_rx_tx_queues env port_id peer_port_id hairpin_queue_id peer_hairpin_queue_id hw =
     (let (ret, rx_desc) = pe_rx_queue_info env port_id (hw_drv hw)
      in if DP_FAILED ret then (DP_ERROR, hw)
         else
           let (ret, hw1) = drv (pe_rx_hairpin_setup env port_id hairpin_queue_id rx_desc peer_port_id peer_hairpin_queue_id) hw
           in if DP_FAILED ret then (DP_ERROR, hw1)
              else
                let (ret, tx_desc) = pe_tx_queue_info env peer_port_id (hw_drv hw1)
                in if DP_FAILED ret then (DP_ERROR, hw1)
                   else
                     let (ret, hw2) = drv (pe_tx_hairpin_setup env peer_port_id peer_hairpin_queue_id tx_desc port_id hairpin_queue_id) hw1
                     in (if DP_FAILED ret then DP_ERROR else DP_OK, hw2))"

definition hairpin_peer_queue :: "dp_port \<Rightarrow> u16" where
  "hairpin_peer_queue port =
     (if port_is_pf port then of_nat DP_NR_STD_TX_QUEUES - 1 + ucast (port_peer_pf_hairpin_tx_rx_queue_offset port)
      else of_nat DP_NR_RESERVED_TX_QUEUES - 1 + ucast (port_peer_pf_hairpin_tx_rx_queue_offset port))"

definition dp_hairpin_setup :: "('d, 'e) port_env_scheme \<Rightarrow> dp_port \<Rightarrow> ('d, 'z) hw_scheme \<Rightarrow> int \<times> ('d, 'z) hw_scheme" where
  "dp_hairpin_setup env port hw =
     (let hairpin_queue_id = of_nat DP_NR_STD_RX_QUEUES;
          (ret, hw1) = setup_hairpin_rx_tx_queues env (port_port_id port) (port_peer_pf_port_id port) hairpin_queue_id (hairpin_peer_queue port) hw
      in if DP_FAILED ret then (DP_ERROR, hw1)
         else if port_is_pf port then (DP_OK, hw1)
         else
           let (ret, hw2) = setup_hairpin_rx_tx_queues env (port_peer_pf_port_id port) (port_port_id port) (hairpin_peer_queue port) hairpin_queue_id hw1
           in (if DP_FAILED ret then DP_ERROR else DP_OK, hw2))"

definition dp_hairpin_bind :: "('d, 'e) port_env_scheme \<Rightarrow> dp_port \<Rightarrow> ('d, 'z) hw_scheme \<Rightarrow> int \<times> ('d, 'z) hw_scheme" where
  "dp_hairpin_bind env port hw =
     (let (ret, hw1) = drv (pe_hairpin_bind env (port_peer_pf_port_id port) (port_port_id port)) hw
      in if DP_FAILED ret then (DP_ERROR, hw1)
         else
           let (ret, hw2) = drv (pe_hairpin_bind env (port_port_id port) (port_peer_pf_port_id port)) hw1
           in (if DP_FAILED ret then DP_ERROR else DP_OK, hw2))"

section \<open>Starting and stopping\<close>

definition dp_stop_eth_port :: "('d, 'e) port_env_scheme \<Rightarrow> u16 \<Rightarrow> ('d, 'z) hw_scheme \<Rightarrow> int \<times> ('d, 'z) hw_scheme" where
  "dp_stop_eth_port env port_id hw = drv (pe_dev_stop env port_id) hw"

definition dp_port_install_isolated_mode ::
  "('d, 'e) port_env_scheme \<Rightarrow> rte_ether_hdr \<Rightarrow> item_ipv6 \<Rightarrow> u16 \<Rightarrow> ('d, 'z) hw_scheme \<Rightarrow> int \<times> ('d, 'z) hw_scheme" where
  "dp_port_install_isolated_mode env eth_spec ipv6_spec port_id hw =
     (let (ret, hw1) = dp_install_isolated_mode_ipip env eth_spec ipv6_spec port_id IPPROTO_IPIP hw
      in if DP_FAILED ret then (DP_ERROR, hw1)
         else
           let (ret, hw2) = dp_install_isolated_mode_ipip env eth_spec ipv6_spec port_id IPPROTO_IPV6 hw1
           in (if DP_FAILED ret then DP_ERROR else DP_OK, hw2))"

definition dp_port_bind_port_hairpins :: "('d, 'e) port_env_scheme \<Rightarrow> u16 \<Rightarrow> dp_port \<Rightarrow> ('d, 'z) hw_scheme \<Rightarrow> int \<times> ('d, 'z) hw_scheme" where
  "dp_port_bind_port_hairpins env pf0 port hw =
     (if port_port_id port = pf0 then (DP_OK, hw)
      else let (ret, hw1) = dp_hairpin_bind env port hw in (if DP_FAILED ret then DP_ERROR else DP_OK, hw1))"

definition dp_install_vf_init_rte_rules ::
  "('d, 'e) port_env_scheme \<Rightarrow> dp_port \<Rightarrow> ('d, 'z) hw_scheme \<Rightarrow> int \<times> dp_port \<times> ('d, 'z) hw_scheme" where
  "dp_install_vf_init_rte_rules env port hw =
     (let (ret, port1, hw1) = dp_install_jump_rule_in_default_group env DP_RTE_FLOW_VNET_GROUP port hw
      in (if DP_FAILED ret then DP_ERROR else DP_OK, port1, hw1))"

text \<open>
  \<open>pf0\<close> is the id of the first physical port, \<open>spec\<close> the uninitialised specifications of the isolation rules.  The failed
  assertion at the end stops the process: the result is \<open>None\<close>.
\<close>

definition dp_init_port ::
  "('d, 'e) port_env_scheme \<Rightarrow> rte_ether_hdr \<times> item_ipv6 \<Rightarrow> u16 \<Rightarrow> dp_port \<Rightarrow> ('d, 'z) hw_scheme \<Rightarrow> (int \<times> dp_port \<times> ('d, 'z) hw_scheme) option" where
  "dp_init_port env spec pf0 port hw =
     (if pe_nic_type env = DP_CONF_NIC_TYPE_TAP then Some (DP_OK, port, hw)
      else
        let (ret, hw1) = (if port_is_pf port then dp_port_install_isolated_mode env (fst spec) (snd spec) (port_port_id port) hw else (DP_OK, hw))
        in if DP_FAILED ret then Some (DP_ERROR, port, hw1)
           else if \<not> pe_offload env then Some (DP_OK, port, hw1)
           else
             let (ret, hw2) = dp_port_bind_port_hairpins env pf0 port hw1
             in if DP_FAILED ret then Some (DP_ERROR, port, hw2)
                else if port_is_pf port then Some (DP_OK, port, hw2)
                else
                  let (ret, port3, hw3) = dp_install_vf_init_rte_rules env port hw2
                  in if DP_FAILED ret then None else Some (DP_OK, port3, hw3))"

abbreviation RTE_ETH_LINK_UP :: u8 where "RTE_ETH_LINK_UP \<equiv> 1"

definition dp_start_port ::
  "('d, 'e) port_env_scheme \<Rightarrow> rte_ether_hdr \<times> item_ipv6 \<Rightarrow> u16 \<Rightarrow> dp_port \<Rightarrow> ('d, 'z) hw_scheme \<Rightarrow> (int \<times> dp_port \<times> ('d, 'z) hw_scheme) option" where
  "dp_start_port env spec pf0 port hw =
     (let (ret, hw1) = drv (pe_dev_start env (port_port_id port)) hw
      in if DP_FAILED ret then Some (ret, port, hw1)
         else
           do {
             (ret, port2, hw2) \<leftarrow> dp_init_port env spec pf0 port hw1;
             Some (if DP_FAILED ret then (ret, port2, snd (dp_stop_eth_port env (port_port_id port2) hw2))
                   else (DP_OK, port2\<lparr> port_link_status := RTE_ETH_LINK_UP, port_allocated := True \<rparr>, hw2))
           })"

definition dp_stop_port :: "('d, 'e) port_env_scheme \<Rightarrow> dp_port \<Rightarrow> ('d, 'z) hw_scheme \<Rightarrow> (int \<times> dp_port \<times> ('d, 'z) hw_scheme) option" where
  "dp_stop_port env port hw =
     do {
       (ret, hw1) \<leftarrow> dp_destroy_default_flow env port hw;
       (if DP_FAILED ret then Some (DP_ERROR, port, hw1)
        else
          let (ret, hw2) = dp_stop_eth_port env (port_port_id port) hw1
          in Some (if DP_FAILED ret then (DP_ERROR, port, hw2) else (DP_OK, port\<lparr> port_allocated := False \<rparr>, hw2)))
     }"

section \<open>Metering\<close>

abbreviation DP_SYSFS_MAX_PATH :: nat where "DP_SYSFS_MAX_PATH \<equiv> 256"

definition vf_rate_file :: "('d, 'e) port_env_scheme \<Rightarrow> dp_port \<Rightarrow> string" where
  "vf_rate_file env port =
     ''/sys/class/net/'' @ pe_pf0_name env @ ''/device/sriov/'' @ drop (length (pe_vf_pattern env)) (port_vf_name port) @ ''/max_tx_rate''"

definition dp_set_vf_rate_limit ::
  "('d, 'e) port_env_scheme \<Rightarrow> dp_port option list \<Rightarrow> u16 \<Rightarrow> u64 \<Rightarrow> ('d, 'z) hw_scheme \<Rightarrow> int \<times> ('d, 'z) hw_scheme" where
  "dp_set_vf_rate_limit env tbl port_id rate hw =
     (case dp_get_port_by_id tbl port_id of
        None \<Rightarrow> (DP_ERROR, hw)
      | Some port \<Rightarrow>
          if DP_SYSFS_MAX_PATH \<le> length (vf_rate_file env port) then (DP_ERROR, hw)
          else if \<not> pe_file_exists env (vf_rate_file env port) (hw_drv hw) then (- ENOENT, hw)
          else
            let (opened, hw1) = drv (pe_write_file env (vf_rate_file env port) rate) hw
            in (if opened then DP_OK else DP_ERROR, hw1))"

definition dp_port_total_flow_meter_config ::
  "('d, 'e) port_env_scheme \<Rightarrow> dp_port option list \<Rightarrow> dp_port \<Rightarrow> u64 \<Rightarrow> ('d, 'z) hw_scheme \<Rightarrow> int \<times> ('d, 'z) hw_scheme" where
  "dp_port_total_flow_meter_config env tbl port total_flow_rate_cap hw = dp_set_vf_rate_limit env tbl (port_port_id port) total_flow_rate_cap hw"

definition public_meter_params :: "u64 \<Rightarrow> rte_meter_srtcm_params" where
  "public_meter_params public_flow_rate_cap =
     \<lparr> sp_cir = DP_METER_CIR_BASE_VALUE * (public_flow_rate_cap div 8), sp_cbs = 4096,
       sp_ebs = (if public_flow_rate_cap < DP_METER_EBS_BREAK_VALUE then public_flow_rate_cap * DP_METER_MBITS_TO_BYTES
                 else DP_METER_EBS_BREAK_VALUE * DP_METER_MBITS_TO_BYTES) \<rparr>"

definition dp_port_public_flow_meter_config ::
  "('d, 'e) port_env_scheme \<Rightarrow> dp_port \<Rightarrow> u64 \<Rightarrow> ('d, 'z) hw_scheme \<Rightarrow> int \<times> ('d, 'z) hw_scheme" where
  "dp_port_public_flow_meter_config env port public_flow_rate_cap hw =
     (let reset = (\<lambda>hw. hw\<lparr> hw_drv := pe_meter_reset env (port_port_id port) (hw_drv hw) \<rparr>)
      in if public_flow_rate_cap = 0 then (DP_OK, reset hw)
         else
           let (ret, hw1) = drv (pe_meter_profile env (port_port_id port) (public_meter_params public_flow_rate_cap)) hw
           in if DP_FAILED ret then (DP_ERROR, hw1)
              else
                let (ret, hw2) = drv (pe_meter_config env (port_port_id port)) hw1
                in if DP_FAILED ret then (DP_ERROR, reset hw2) else (DP_OK, hw2))"

definition dp_port_meter_config ::
  "('d, 'e) port_env_scheme \<Rightarrow> dp_port option list \<Rightarrow> u64 \<Rightarrow> u64 \<Rightarrow> dp_port \<Rightarrow> ('d, 'z) hw_scheme \<Rightarrow> int \<times> dp_port \<times> ('d, 'z) hw_scheme" where
  "dp_port_meter_config env tbl total_flow_rate_cap public_flow_rate_cap port hw =
     (if pe_nic_type env \<noteq> DP_CONF_NIC_TYPE_MELLANOX then (DP_OK, port, hw)
      else if total_flow_rate_cap < public_flow_rate_cap then (DP_ERROR, port, hw)
      else
        let (err, hw1) = dp_port_total_flow_meter_config env tbl port total_flow_rate_cap hw
        in if DP_FAILED err \<and> err \<noteq> - ENOENT then (DP_ERROR, port, hw1)
           else
             let port1 = (if DP_FAILED err then port else upd_iface (\<lambda>i. i\<lparr> iface_total_flow_rate_cap := total_flow_rate_cap \<rparr>) port);
                 (ret, hw2) = dp_port_public_flow_meter_config env port1 public_flow_rate_cap hw1
             in if DP_FAILED ret then
                  let (ret, hw3) = dp_port_total_flow_meter_config env tbl port1 0 hw2
                  in (DP_ERROR, if DP_FAILED ret then port1 else upd_iface (\<lambda>i. i\<lparr> iface_total_flow_rate_cap := 0 \<rparr>) port1, hw3)
                else (DP_OK, upd_iface (\<lambda>i. i\<lparr> iface_public_flow_rate_cap := public_flow_rate_cap \<rparr>) port1, hw2))"

section \<open>Initialisation\<close>

text \<open>
  The globals: the table of \<^verbatim>\<open>DP_MAX_PORTS\<close> pointers, the physical ports, the ports in the order of the allocated array
  \<^verbatim>\<open>_dp_ports\<close> with its capacity, and the last hairpin queue offset, a function-local static.
\<close>

record port_tables =
  pt_table :: "dp_port option list"
  pt_pf_ports :: "u16 option list"
  pt_ports :: "u16 list"
  pt_capacity :: nat
  pt_last_offset :: int

definition register_in_first_free :: "u16 \<Rightarrow> u16 option list \<Rightarrow> u16 option list option" where
  "register_in_first_free port_id pfs =
     (case pfs of
        [None, b] \<Rightarrow> Some [Some port_id, b]
      | [a, None] \<Rightarrow> Some [a, Some port_id]
      | _ \<Rightarrow> None)"

definition dp_port_register_pf :: "u16 \<Rightarrow> port_tables \<Rightarrow> int \<times> port_tables" where
  "dp_port_register_pf port_id t =
     (case register_in_first_free port_id (pt_pf_ports t) of
        None \<Rightarrow> (DP_ERROR, t)
      | Some pfs \<Rightarrow> (DP_OK, t\<lparr> pt_pf_ports := pfs \<rparr>))"

fun setup_queues :: "(u16 \<Rightarrow> 'd \<Rightarrow> int \<times> 'd) \<Rightarrow> nat list \<Rightarrow> ('d, 'z) hw_scheme \<Rightarrow> int \<times> ('d, 'z) hw_scheme" where
  "setup_queues setup [] hw = (DP_OK, hw)"
| "setup_queues setup (i # is) hw =
     (let (ret, hw1) = drv (setup (of_nat i)) hw in if DP_FAILED ret then (DP_ERROR, hw1) else setup_queues setup is hw1)"

definition nr_hairpin_queues :: "('d, 'e) port_env_scheme \<Rightarrow> nat \<Rightarrow> dp_port \<Rightarrow> u16" where
  "nr_hairpin_queues env num_of_vfs port =
     (if pe_nic_type env = DP_CONF_NIC_TYPE_TAP then 0
      else if port_is_pf port then of_nat (DP_NR_PF_HAIRPIN_RX_TX_QUEUES + DP_NR_VF_HAIRPIN_RX_TX_QUEUES * num_of_vfs)
      else of_nat DP_NR_VF_HAIRPIN_RX_TX_QUEUES)"

text \<open>Configuring the device; \<open>if_index\<close> is the index of the kernel's interface.\<close>

definition dp_port_init_ethdev ::
  "('d, 'e) port_env_scheme \<Rightarrow> nat \<Rightarrow> int \<Rightarrow> dp_port \<Rightarrow> ('d, 'z) hw_scheme \<Rightarrow> int \<times> dp_port \<times> ('d, 'z) hw_scheme" where
  "dp_port_init_ethdev env num_of_vfs if_index port hw =
     (let i = port_port_id port; nr = nr_hairpin_queues env num_of_vfs port;
          (ret, hw1) = drv (pe_configure env i (of_nat DP_NR_STD_RX_QUEUES + nr) (of_nat DP_NR_STD_TX_QUEUES + nr)) hw
      in if DP_FAILED ret then (DP_ERROR, port, hw1)
         else
           let (ret, hw2) = setup_queues (\<lambda>q. pe_rx_queue_setup env i q (port_socket_id port)) [0..<DP_NR_STD_RX_QUEUES] hw1
           in if DP_FAILED ret then (DP_ERROR, port, hw2)
              else
                let (ret, hw3) = setup_queues (\<lambda>q. pe_tx_queue_setup env i q (port_socket_id port)) [0..<DP_NR_STD_TX_QUEUES] hw2
                in if DP_FAILED ret then (DP_ERROR, port, hw3)
                   else
                     let (ret, hw4) = (if port_is_pf port then (DP_OK, hw3) else drv (pe_promiscuous env i) hw3)
                     in if DP_FAILED ret then (DP_ERROR, port, hw4)
                        else
                          let (ret, port1) = dp_load_mac env port hw4
                          in if DP_FAILED ret then (DP_ERROR, port1, hw4)
                             else
                               let port2 = port1\<lparr> port_dev_name := pe_dev_name env i \<rparr>
                               in if \<not> port_is_pf port2 then (DP_OK, port2, hw4)
                                  else
                                    let ((ret, mac), hw5) = drv (pe_neigh_mac env if_index (port_own_mac port2)) hw4
                                    in if DP_FAILED ret then (DP_ERROR, port2, hw5) else (DP_OK, port2\<lparr> port_neigh_mac := mac \<rparr>, hw5))"

definition dp_port_flow_isolate :: "('d, 'e) port_env_scheme \<Rightarrow> u16 \<Rightarrow> ('d, 'z) hw_scheme \<Rightarrow> int \<times> ('d, 'z) hw_scheme" where
  "dp_port_flow_isolate env port_id hw = (let (ret, hw1) = drv (pe_flow_isolate env port_id) hw in (if DP_FAILED ret then ret else DP_OK, hw1))"

text \<open>
  A new port takes the next element of the allocated array; beyond its end, and for a missing second physical port, the
  behaviour is undefined.
\<close>

definition set_port :: "u16 \<Rightarrow> dp_port \<Rightarrow> port_tables \<Rightarrow> port_tables" where
  "set_port port_id port t = t\<lparr> pt_table := (pt_table t)[unat port_id := Some port] \<rparr>"

definition new_port :: "bool \<Rightarrow> u16 \<Rightarrow> int \<Rightarrow> dp_port" where
  "new_port is_pf port_id socket_id = zero_port\<lparr> port_is_pf := is_pf, port_port_id := port_id, port_socket_id := socket_id \<rparr>"

definition dp_get_pf1 :: "port_tables \<Rightarrow> u16 option" where
  "dp_get_pf1 t = pt_pf_ports t ! 1"

definition init_new_port ::
  "('d, 'e) port_env_scheme \<Rightarrow> nat \<Rightarrow> int \<Rightarrow> dp_port \<Rightarrow> port_tables \<Rightarrow> ('d, 'z) hw_scheme \<Rightarrow> (u16 option \<times> port_tables \<times> ('d, 'z) hw_scheme) option" where
  "init_new_port env num_of_vfs if_index port t hw =
     (let i = port_port_id port;
          (ret, port1, hw1) = dp_port_init_ethdev env num_of_vfs if_index port hw;
          t1 = set_port i port1 t
      in if DP_FAILED ret then Some (None, t1, hw1)
         else if port_is_pf port1 then
           let (ret, t2) = dp_port_register_pf i t1
           in if DP_FAILED ret then Some (None, t2, hw1)
              else let (ret, hw2) = drv (pe_callback_register env i) hw1 in Some (if DP_FAILED ret then None else Some i, t2, hw2)
         else if pe_offload env then
           do {
             pf1 \<leftarrow> dp_get_pf1 t1;
             let last = pt_last_offset t1;
             let port2 = port1\<lparr> port_peer_pf_port_id := pf1, port_peer_pf_hairpin_tx_rx_queue_offset := of_int last \<rparr>;
             let t2 = (set_port i port2 t1)\<lparr> pt_last_offset := last + 1 \<rparr>;
             Some (if 255 < last + 1 then None else Some i, t2, hw1)
           }
         else Some (Some i, t1, hw1))"

definition dp_port_init_interface ::
  "('d, 'e) port_env_scheme \<Rightarrow> nat \<Rightarrow> u16 \<Rightarrow> int \<Rightarrow> bool \<Rightarrow> port_tables \<Rightarrow> ('d, 'z) hw_scheme \<Rightarrow> (u16 option \<times> port_tables \<times> ('d, 'z) hw_scheme) option" where
  "dp_port_init_interface env num_of_vfs port_id if_index is_pf t hw =
     (if length (pt_table t) \<le> unat port_id then Some (None, t, hw)
      else
        let (ret, hw1) = (if is_pf \<and> pe_nic_type env \<noteq> DP_CONF_NIC_TYPE_TAP then dp_port_flow_isolate env port_id hw else (DP_OK, hw));
            socket_id = pe_socket_id env port_id
        in if DP_FAILED ret then Some (None, t, hw1)
           else if DP_FAILED socket_id \<and> socket_id \<noteq> - 1 then Some (None, t, hw1)
           else if pt_capacity t \<le> length (pt_ports t) then None
           else
             let port = new_port is_pf port_id socket_id;
                 t1 = (set_port port_id port t)\<lparr> pt_ports := pt_ports t @ [port_id] \<rparr>
             in init_new_port env num_of_vfs if_index port t1 hw1)"

definition rename_port :: "(dp_port \<Rightarrow> dp_port) \<Rightarrow> u16 \<Rightarrow> port_tables \<Rightarrow> port_tables" where
  "rename_port f i t = (case pt_table t ! unat i of None \<Rightarrow> t | Some port \<Rightarrow> set_port i (f port) t)"

abbreviation IF_NAMESIZE :: nat where "IF_NAMESIZE \<equiv> 16"

fun init_pf_loop ::
  "('d, 'e) port_env_scheme \<Rightarrow> nat \<Rightarrow> string \<Rightarrow> u16 list \<Rightarrow> port_tables \<Rightarrow> ('d, 'z) hw_scheme \<Rightarrow> (int \<times> port_tables \<times> ('d, 'z) hw_scheme) option" where
  "init_pf_loop env n pf_name [] t hw = Some (DP_ERROR, t, hw)"
| "init_pf_loop env n pf_name (i # is) t hw =
     (case drv (pe_dev_info env i) hw of
        (None, hw1) \<Rightarrow> Some (DP_ERROR, t, hw1)
      | (Some (if_index, ifname), hw1) \<Rightarrow>
          if take IF_NAMESIZE pf_name = take IF_NAMESIZE ifname then
            do {
              (port, t1, hw2) \<leftarrow> dp_port_init_interface env n i if_index True t hw1;
              Some (case port of
                      None \<Rightarrow> (DP_ERROR, t1, hw2)
                    | Some j \<Rightarrow> (DP_OK, rename_port (\<lambda>p. p\<lparr> port_port_name := take (IF_NAMESIZE - 1) pf_name \<rparr>) j t1, hw2))
            }
          else init_pf_loop env n pf_name is t hw1)"

definition dp_port_init_pf ::
  "('d, 'e) port_env_scheme \<Rightarrow> nat \<Rightarrow> string \<Rightarrow> port_tables \<Rightarrow> ('d, 'z) hw_scheme \<Rightarrow> (int \<times> port_tables \<times> ('d, 'z) hw_scheme) option" where
  "dp_port_init_pf env n pf_name t hw = init_pf_loop env n pf_name (pe_devs env) t hw"

fun strstr :: "string \<Rightarrow> string \<Rightarrow> bool" where
  "strstr [] pat = (pat = [])"
| "strstr (c # s) pat = (take (length pat) (c # s) = pat \<or> strstr s pat)"

fun init_vfs_loop ::
  "('d, 'e) port_env_scheme \<Rightarrow> nat \<Rightarrow> string \<Rightarrow> u16 list \<Rightarrow> nat \<Rightarrow> port_tables \<Rightarrow> ('d, 'z) hw_scheme \<Rightarrow>
    (int \<times> nat \<times> port_tables \<times> ('d, 'z) hw_scheme) option" where
  "init_vfs_loop env n vf_pattern [] vf_count t hw = Some (DP_OK, vf_count, t, hw)"
| "init_vfs_loop env n vf_pattern (i # is) vf_count t hw =
     (case drv (pe_dev_info env i) hw of
        (None, hw1) \<Rightarrow> Some (DP_ERROR, vf_count, t, hw1)
      | (Some (if_index, ifname), hw1) \<Rightarrow>
          if strstr ifname vf_pattern then
            if Suc vf_count \<le> n then
              do {
                (port, t1, hw2) \<leftarrow> dp_port_init_interface env n i if_index False t hw1;
                (case port of
                   None \<Rightarrow> Some (DP_ERROR, Suc vf_count, t1, hw2)
                 | Some j \<Rightarrow>
                     let t2 = rename_port (\<lambda>p. p\<lparr> port_port_name := take (IF_NAMESIZE - 1) vf_pattern, port_vf_name := take (IF_NAMESIZE - 1) ifname \<rparr>) j t1
                     in init_vfs_loop env n vf_pattern is (Suc vf_count) t2 hw2)
              }
            else init_vfs_loop env n vf_pattern is (Suc vf_count) t hw1
          else init_vfs_loop env n vf_pattern is vf_count t hw1)"

definition dp_port_init_vfs ::
  "('d, 'e) port_env_scheme \<Rightarrow> nat \<Rightarrow> string \<Rightarrow> port_tables \<Rightarrow> ('d, 'z) hw_scheme \<Rightarrow> (int \<times> port_tables \<times> ('d, 'z) hw_scheme) option" where
  "dp_port_init_vfs env n vf_pattern t hw =
     do {
       (ret, vf_count, t1, hw1) \<leftarrow> init_vfs_loop env n vf_pattern (pe_devs env) 0 t hw;
       Some (if DP_FAILED ret \<or> vf_count = 0 \<or> vf_count < n then (DP_ERROR, t1, hw1) else (DP_OK, t1, hw1))
     }"

text \<open>The second physical port is the peer of the first, and the first of every other.\<close>

fun hairpins_loop ::
  "('d, 'e) port_env_scheme \<Rightarrow> u16 \<Rightarrow> u16 \<Rightarrow> u16 list \<Rightarrow> port_tables \<Rightarrow> ('d, 'z) hw_scheme \<Rightarrow> (int \<times> port_tables \<times> ('d, 'z) hw_scheme) option" where
  "hairpins_loop env pf0 pf1 [] t hw = Some (DP_OK, t, hw)"
| "hairpins_loop env pf0 pf1 (i # is) t hw =
     do {
       port \<leftarrow> pt_table t ! unat i;
       let port1 = (if port_is_pf port
                    then port\<lparr> port_peer_pf_port_id := (if port_port_id port = pf0 then pf1 else pf0), port_peer_pf_hairpin_tx_rx_queue_offset := 1 \<rparr>
                    else port);
       let t1 = set_port i port1 t;
       let (ret, hw1) = dp_hairpin_setup env port1 hw;
       (if DP_FAILED ret then Some (DP_ERROR, t1, hw1) else hairpins_loop env pf0 pf1 is t1 hw1)
     }"

definition dp_port_set_up_hairpins ::
  "('d, 'e) port_env_scheme \<Rightarrow> port_tables \<Rightarrow> ('d, 'z) hw_scheme \<Rightarrow> (int \<times> port_tables \<times> ('d, 'z) hw_scheme) option" where
  "dp_port_set_up_hairpins env t hw =
     do {
       pf0 \<leftarrow> pt_pf_ports t ! 0;
       pf1 \<leftarrow> dp_get_pf1 t;
       hairpins_loop env pf0 pf1 (pt_ports t) t hw
     }"

definition dp_ports_init ::
  "('d, 'e) port_env_scheme \<Rightarrow> nat \<Rightarrow> bool \<Rightarrow> port_tables \<Rightarrow> ('d, 'z) hw_scheme \<Rightarrow> (int \<times> port_tables \<times> ('d, 'z) hw_scheme) option" where
  "dp_ports_init env num_of_vfs alloc t hw =
     (if \<not> alloc then Some (DP_ERROR, t, hw)
      else
        let t0 = t\<lparr> pt_ports := [], pt_capacity := DP_MAX_PF_PORTS + num_of_vfs \<rparr>
        in do {
          (ret, t1, hw1) \<leftarrow> dp_port_init_pf env num_of_vfs (pe_pf0_name env) t0 hw;
          (if DP_FAILED ret then Some (DP_ERROR, t1, hw1)
           else
             do {
               (ret, t2, hw2) \<leftarrow> dp_port_init_pf env num_of_vfs (pe_pf1_name env) t1 hw1;
               (if DP_FAILED ret then Some (DP_ERROR, t2, hw2)
                else
                  do {
                    (ret, t3, hw3) \<leftarrow> dp_port_init_vfs env num_of_vfs (pe_vf_pattern env) t2 hw2;
                    (if DP_FAILED ret then Some (DP_ERROR, t3, hw3)
                     else if pe_offload env then dp_port_set_up_hairpins env t3 hw3
                     else Some (DP_OK, t3, hw3))
                  })
             })
        })"

fun stop_allocated :: "('d, 'e) port_env_scheme \<Rightarrow> u16 list \<Rightarrow> port_tables \<Rightarrow> ('d, 'z) hw_scheme \<Rightarrow> ('d, 'z) hw_scheme option" where
  "stop_allocated env [] t hw = Some hw"
| "stop_allocated env (i # is) t hw =
     do {
       port \<leftarrow> pt_table t ! unat i;
       stop_allocated env is t (if port_allocated port then snd (dp_stop_eth_port env i hw) else hw)
     }"

definition dp_ports_free :: "('d, 'e) port_env_scheme \<Rightarrow> port_tables \<Rightarrow> ('d, 'z) hw_scheme \<Rightarrow> ('d, 'z) hw_scheme option" where
  "dp_ports_free env t hw = stop_allocated env (pt_ports t) t hw"

section \<open>Initialisation is safe\<close>

definition tables_ok :: "port_tables \<Rightarrow> bool" where
  "tables_ok t \<longleftrightarrow> length (pt_table t) = DP_MAX_PORTS \<and> length (pt_pf_ports t) = DP_MAX_PF_PORTS \<and>
     (\<forall>i \<in> set (pt_ports t). unat i < DP_MAX_PORTS \<and> (\<exists>port. pt_table t ! unat i = Some port \<and> port_port_id port = i))"

definition initial_tables :: port_tables where
  "initial_tables = \<lparr> pt_table = replicate DP_MAX_PORTS None, pt_pf_ports = [None, None], pt_ports = [], pt_capacity = 0, pt_last_offset = 1 \<rparr>"

text \<open>The tables after a port was added: \<open>q\<close> is its id, or nothing when its initialisation failed.\<close>

definition added :: "('d, 'e) port_env_scheme \<Rightarrow> bool \<Rightarrow> u16 \<Rightarrow> port_tables \<Rightarrow> u16 option \<Rightarrow> port_tables \<Rightarrow> bool" where
  "added env is_pf i t q t' \<longleftrightarrow>
     tables_ok t' \<and> pt_capacity t' = pt_capacity t \<and> length (pt_ports t') \<le> Suc (length (pt_ports t)) \<and>
     (q \<noteq> None \<longrightarrow>
        q = Some i \<and> pt_ports t' = pt_ports t @ [i] \<and>
        pt_last_offset t' = (if \<not> is_pf \<and> pe_offload env then pt_last_offset t + 1 else pt_last_offset t) \<and>
        (if is_pf then register_in_first_free i (pt_pf_ports t) = Some (pt_pf_ports t') else pt_pf_ports t' = pt_pf_ports t) \<and>
        (\<exists>port. pt_table t' = (pt_table t)[unat i := Some port] \<and> port_is_pf port = is_pf \<and>
           (\<not> is_pf \<and> pe_offload env \<longrightarrow> port_peer_pf_hairpin_tx_rx_queue_offset port = of_int (pt_last_offset t))))"

lemma tables_ok_set:
  assumes "tables_ok t" "unat i < DP_MAX_PORTS" "port_port_id port = i" "set (pt_ports t') \<subseteq> insert i (set (pt_ports t))"
    "length (pt_pf_ports t') = DP_MAX_PF_PORTS" "pt_table t' = (pt_table t)[unat i := Some port]"
  shows "tables_ok t'"
  using assms unfolding tables_ok_def by (auto simp: nth_list_update subset_iff word_unat_eq_iff)

lemma init_ethdev_port:
  assumes "dp_port_init_ethdev env n if_index port hw = (ret, port', hw')"
  shows "port_port_id port' = port_port_id port" "port_is_pf port' = port_is_pf port"
  using assms unfolding dp_port_init_ethdev_def
  by (auto simp: Let_def dp_load_mac_def split: prod.splits if_splits)

lemma register_length: "register_in_first_free i pfs = Some pfs' \<Longrightarrow> length pfs' = DP_MAX_PF_PORTS"
  by (auto simp: register_in_first_free_def split: list.splits option.splits)

lemma addedI:
  assumes ok: "tables_ok t" and i: "unat i < DP_MAX_PORTS" and table: "pt_table t' = (pt_table t)[unat i := Some p]"
    and p: "port_port_id p = i" "port_is_pf p = is_pf" and rest: "pt_ports t' = pt_ports t @ [i]" "pt_capacity t' = pt_capacity t"
    and pfs: "length (pt_pf_ports t') = DP_MAX_PF_PORTS"
    and success: "q = None \<or> q = Some i \<and>
        pt_last_offset t' = (if \<not> is_pf \<and> pe_offload env then pt_last_offset t + 1 else pt_last_offset t) \<and>
        (if is_pf then register_in_first_free i (pt_pf_ports t) = Some (pt_pf_ports t') else pt_pf_ports t' = pt_pf_ports t) \<and>
        (\<not> is_pf \<and> pe_offload env \<longrightarrow> port_peer_pf_hairpin_tx_rx_queue_offset p = of_int (pt_last_offset t))"
  shows "added env is_pf i t q t'"
proof -
  have "tables_ok t'"
    by (rule tables_ok_set [OF ok i p(1) _ pfs table]) (simp add: rest)
  then show ?thesis
    using success p(2) rest table unfolding added_def by auto
qed

lemma init_new_port_added:
  assumes ok: "tables_ok t" and i: "unat i < DP_MAX_PORTS" and pf1: "is_pf \<or> \<not> pe_offload env \<or> dp_get_pf1 t \<noteq> None"
    and port: "port = new_port is_pf i socket_id" and t1: "t1 = (set_port i port t)\<lparr> pt_ports := pt_ports t @ [i] \<rparr>"
  shows "\<exists>q t' hw'. init_new_port env n if_index port t1 hw = Some (q, t', hw') \<and> added env is_pf i t q t'"
proof -
  obtain ret port1 hw1 where eth: "dp_port_init_ethdev env n if_index port hw = (ret, port1, hw1)"
    by (cases "dp_port_init_ethdev env n if_index port hw")
  have id: "port_port_id port = i" "port_port_id port1 = i" "port_is_pf port1 = is_pf"
    using init_ethdev_port [OF eth] by (simp_all add: port new_port_def)
  have pfs: "length (pt_pf_ports t) = DP_MAX_PF_PORTS" "dp_get_pf1 (set_port i port1 t1) = dp_get_pf1 t"
    using ok by (simp_all add: tables_ok_def dp_get_pf1_def set_port_def t1)
  define t2 where "t2 = set_port i port1 t1"
  have t2: "pt_table t2 = (pt_table t)[unat i := Some port1]" "pt_ports t2 = pt_ports t @ [i]" "pt_capacity t2 = pt_capacity t"
      "pt_pf_ports t2 = pt_pf_ports t" "pt_last_offset t2 = pt_last_offset t"
    by (simp_all add: t2_def set_port_def t1)
  note [simp] = id eth t2_def [symmetric] t2 Let_def
  consider "DP_FAILED ret" | "\<not> DP_FAILED ret" "is_pf" | "\<not> DP_FAILED ret" "\<not> is_pf" "pe_offload env" | "\<not> DP_FAILED ret" "\<not> is_pf" "\<not> pe_offload env"
    by blast
  then show ?thesis
  proof cases
    case 1
    then have "init_new_port env n if_index port t1 hw = Some (None, t2, hw1)"
      by (simp add: init_new_port_def)
    moreover have "added env is_pf i t None t2"
      by (rule addedI [OF ok i t2(1)]) (simp_all add: pfs)
    ultimately show ?thesis by blast
  next
    case 2
    obtain r hw2 where reg: "drv (pe_callback_register env i) hw1 = (r, hw2)" by fastforce
    show ?thesis
    proof (cases "register_in_first_free i (pt_pf_ports t)")
      case None
      then have "init_new_port env n if_index port t1 hw = Some (None, t2, hw1)"
        using 2 by (simp add: init_new_port_def dp_port_register_pf_def)
      moreover have "added env is_pf i t None t2"
        by (rule addedI [OF ok i t2(1)]) (simp_all add: pfs)
      ultimately show ?thesis by blast
    next
      case (Some pf')
      then have "init_new_port env n if_index port t1 hw = Some (if DP_FAILED r then None else Some i, t2\<lparr> pt_pf_ports := pf' \<rparr>, hw2)"
        using 2 by (simp add: init_new_port_def dp_port_register_pf_def reg)
      moreover have "added env is_pf i t (if DP_FAILED r then None else Some i) (t2\<lparr> pt_pf_ports := pf' \<rparr>)"
        by (rule addedI [OF ok i, where p = port1]) (use 2 Some register_length [OF Some] in simp_all)
      ultimately show ?thesis by blast
    qed
  next
    case 3
    then obtain p where p: "dp_get_pf1 t = Some p" using pf1 by blast
    define port2 where "port2 = port1\<lparr> port_peer_pf_port_id := p, port_peer_pf_hairpin_tx_rx_queue_offset := of_int (pt_last_offset t) \<rparr>"
    define t3 where "t3 = (set_port i port2 t2)\<lparr> pt_last_offset := pt_last_offset t + 1 \<rparr>"
    have "init_new_port env n if_index port t1 hw = Some (if 255 < pt_last_offset t + 1 then None else Some i, t3, hw1)"
      using 3 p pfs(2) by (simp add: init_new_port_def port2_def t3_def)
    moreover have "added env is_pf i t (if 255 < pt_last_offset t + 1 then None else Some i) t3"
      by (rule addedI [OF ok i, where p = port2]) (use 3 pfs(1) in \<open>simp_all add: t3_def port2_def set_port_def\<close>)
    ultimately show ?thesis by blast
  next
    case 4
    then have "init_new_port env n if_index port t1 hw = Some (Some i, t2, hw1)"
      by (simp add: init_new_port_def)
    moreover have "added env is_pf i t (Some i) t2"
      by (rule addedI [OF ok i t2(1)]) (use 4 in \<open>simp_all add: pfs\<close>)
    ultimately show ?thesis by blast
  qed
qed

lemma dp_port_init_interface_added:
  assumes ok: "tables_ok t" and room: "length (pt_ports t) < pt_capacity t" and pf1: "is_pf \<or> \<not> pe_offload env \<or> dp_get_pf1 t \<noteq> None"
  shows "\<exists>q t' hw'. dp_port_init_interface env n i if_index is_pf t hw = Some (q, t', hw') \<and> added env is_pf i t q t'"
proof -
  obtain r hw1 where isolate: "(if is_pf \<and> pe_nic_type env \<noteq> DP_CONF_NIC_TYPE_TAP then dp_port_flow_isolate env i hw else (DP_OK, hw)) = (r, hw1)"
    by fastforce
  have none: "added env is_pf i t None t"
    using ok by (simp add: added_def)
  show ?thesis
  proof (cases "length (pt_table t) \<le> unat i \<or> DP_FAILED r \<or> DP_FAILED (pe_socket_id env i) \<and> pe_socket_id env i \<noteq> - 1")
    case True
    then have "\<exists>hw'. dp_port_init_interface env n i if_index is_pf t hw = Some (None, t, hw')"
      using isolate by (auto simp: dp_port_init_interface_def Let_def)
    then show ?thesis using none by blast
  next
    case False
    define port where "port = new_port is_pf i (pe_socket_id env i)"
    have "dp_port_init_interface env n i if_index is_pf t hw =
        init_new_port env n if_index port ((set_port i port t)\<lparr> pt_ports := pt_ports t @ [i] \<rparr>) hw1"
      using False room isolate by (auto simp: dp_port_init_interface_def Let_def port_def)
    then show ?thesis
      using init_new_port_added [OF ok _ pf1 port_def refl] False ok by (simp add: tables_ok_def)
  qed
qed

text \<open>
  The tables with \<open>m\<close> virtual functions after the two physical ports: with offloading the \<open>j\<close>-th has hairpin queue offset \<open>j + 1\<close>.
\<close>

definition vfs_ok :: "('d, 'e) port_env_scheme \<Rightarrow> nat \<Rightarrow> port_tables \<Rightarrow> bool" where
  "vfs_ok env m t \<longleftrightarrow> (distinct (pt_ports t) \<longrightarrow>
     (\<forall>j < m. \<exists>port. pt_table t ! unat (pt_ports t ! (DP_MAX_PF_PORTS + j)) = Some port \<and> \<not> port_is_pf port \<and>
        (pe_offload env \<longrightarrow> port_peer_pf_hairpin_tx_rx_queue_offset port = of_nat (Suc j))))"

definition ports_ok :: "('d, 'e) port_env_scheme \<Rightarrow> nat \<Rightarrow> nat \<Rightarrow> port_tables \<Rightarrow> bool" where
  "ports_ok env n m t \<longleftrightarrow> tables_ok t \<and> pt_capacity t = DP_MAX_PF_PORTS + n \<and> m \<le> n \<and> length (pt_ports t) = DP_MAX_PF_PORTS + m \<and>
     pt_last_offset t = (if pe_offload env then int m + 1 else 1) \<and> None \<notin> set (pt_pf_ports t) \<and> vfs_ok env m t"

lemma rename_port_ok:
  assumes "tables_ok t" "i \<in> set (pt_ports t)"
    and f: "\<And>p. port_port_id (f p) = port_port_id p \<and> port_is_pf (f p) = port_is_pf p \<and>
      port_peer_pf_hairpin_tx_rx_queue_offset (f p) = port_peer_pf_hairpin_tx_rx_queue_offset p"
  shows "tables_ok (rename_port f i t)" "vfs_ok env m t \<Longrightarrow> vfs_ok env m (rename_port f i t)"
    "pt_ports (rename_port f i t) = pt_ports t" "pt_capacity (rename_port f i t) = pt_capacity t"
    "pt_last_offset (rename_port f i t) = pt_last_offset t" "pt_pf_ports (rename_port f i t) = pt_pf_ports t"
proof -
  obtain port where port: "pt_table t ! unat i = Some port" "port_port_id port = i" "unat i < DP_MAX_PORTS" "length (pt_table t) = DP_MAX_PORTS"
    using assms(1,2) unfolding tables_ok_def by blast
  have r: "rename_port f i t = set_port i (f port) t"
    using port by (simp add: rename_port_def)
  show "pt_ports (rename_port f i t) = pt_ports t" "pt_capacity (rename_port f i t) = pt_capacity t"
    "pt_last_offset (rename_port f i t) = pt_last_offset t" "pt_pf_ports (rename_port f i t) = pt_pf_ports t"
    by (simp_all add: r set_port_def)
  show "tables_ok (rename_port f i t)"
    by (rule tables_ok_set [OF assms(1) port(3), where port = "f port"]) (use assms(1) f port in \<open>auto simp: r set_port_def tables_ok_def\<close>)
  show "vfs_ok env m (rename_port f i t)" if "vfs_ok env m t"
    using that f port unfolding vfs_ok_def r set_port_def by (auto simp: nth_list_update)
qed

lemma ports_ok_add:
  assumes ok: "ports_ok env n m t" and less: "m < n" and add: "added env False i t (Some i) t'"
  shows "ports_ok env n (Suc m) t'"
proof -
  obtain port where port: "pt_table t' = (pt_table t)[unat i := Some port]" "\<not> port_is_pf port"
      "pe_offload env \<Longrightarrow> port_peer_pf_hairpin_tx_rx_queue_offset port = of_int (pt_last_offset t)"
    and t': "tables_ok t'" "pt_ports t' = pt_ports t @ [i]" "pt_pf_ports t' = pt_pf_ports t" "pt_capacity t' = pt_capacity t"
      "pt_last_offset t' = (if pe_offload env then pt_last_offset t + 1 else pt_last_offset t)"
    using add unfolding added_def by auto
  have len: "length (pt_ports t) = DP_MAX_PF_PORTS + m" "length (pt_table t) = DP_MAX_PORTS"
    using ok by (simp_all add: ports_ok_def tables_ok_def)
  have i: "unat i < DP_MAX_PORTS"
    using t'(1,2) by (simp add: tables_ok_def)
  have "\<exists>port. pt_table t' ! unat (pt_ports t' ! (DP_MAX_PF_PORTS + j)) = Some port \<and> \<not> port_is_pf port \<and>
      (pe_offload env \<longrightarrow> port_peer_pf_hairpin_tx_rx_queue_offset port = of_nat (Suc j))"
    if "distinct (pt_ports t')" "j < Suc m" for j
  proof (cases "j = m")
    case True
    have "pe_offload env \<Longrightarrow> pt_last_offset t = int (Suc m)"
      using ok by (simp add: ports_ok_def)
    then show ?thesis
      using True port i len by (auto simp: t'(2) nth_append)
  next
    case False
    then have j: "j < m" using that by simp
    then have nth: "pt_ports t' ! (DP_MAX_PF_PORTS + j) = pt_ports t ! (DP_MAX_PF_PORTS + j)" "pt_ports t ! (DP_MAX_PF_PORTS + j) \<in> set (pt_ports t)"
      using len by (simp_all add: t'(2) nth_append)
    have "pt_ports t ! (DP_MAX_PF_PORTS + j) \<noteq> i"
      using that(1) nth(2) by (auto simp: t'(2))
    then have "pt_table t' ! unat (pt_ports t' ! (DP_MAX_PF_PORTS + j)) = pt_table t ! unat (pt_ports t ! (DP_MAX_PF_PORTS + j))"
      unfolding nth(1) port(1) by (simp add: word_unat_eq_iff)
    moreover have "distinct (pt_ports t)" using that(1) by (simp add: t'(2))
    ultimately show ?thesis
      using ok j unfolding ports_ok_def vfs_ok_def by simp
  qed
  then have "vfs_ok env (Suc m) t'"
    unfolding vfs_ok_def by blast
  then show ?thesis
    using ok t' less by (auto simp: ports_ok_def)
qed

lemma init_pf_loop_ok:
  assumes "tables_ok t" "length (pt_ports t) < pt_capacity t"
  shows "\<exists>ret t' hw'. init_pf_loop env n pf_name ids t hw = Some (ret, t', hw') \<and> tables_ok t' \<and> pt_capacity t' = pt_capacity t \<and>
    length (pt_ports t') \<le> Suc (length (pt_ports t)) \<and>
    (\<not> DP_FAILED ret \<longrightarrow> (\<exists>i. pt_ports t' = pt_ports t @ [i] \<and> pt_last_offset t' = pt_last_offset t \<and>
       register_in_first_free i (pt_pf_ports t) = Some (pt_pf_ports t')))"
proof (induction ids arbitrary: hw)
  case Nil
  then show ?case using assms(1) by simp
next
  case (Cons i ids)
  obtain q hw1 where info: "drv (pe_dev_info env i) hw = (q, hw1)" by fastforce
  show ?case
  proof (cases "\<exists>x name. q = Some (x, name) \<and> take IF_NAMESIZE pf_name = take IF_NAMESIZE name")
    case False
    then show ?thesis
      using info Cons.IH [of hw1] assms(1) by (cases q) auto
  next
    case True
    then obtain x name where q: "q = Some (x, name)" "take IF_NAMESIZE pf_name = take IF_NAMESIZE name" by blast
    obtain r t' hw' where init: "dp_port_init_interface env n i x True t hw1 = Some (r, t', hw')" and add: "added env True i t r t'"
      using dp_port_init_interface_added [OF assms] by blast
    show ?thesis
    proof (cases r)
      case None
      then show ?thesis
        using info q init add by (simp add: added_def)
    next
      case (Some j)
      then have t': "j = i" "tables_ok t'" "i \<in> set (pt_ports t')" "pt_ports t' = pt_ports t @ [i]" "pt_last_offset t' = pt_last_offset t"
        "register_in_first_free i (pt_pf_ports t) = Some (pt_pf_ports t')" "pt_capacity t' = pt_capacity t"
        using add by (auto simp: added_def)
      define f where "f = (\<lambda>p :: dp_port. p\<lparr> port_port_name := take (IF_NAMESIZE - 1) pf_name \<rparr>)"
      have f: "port_port_id (f p) = port_port_id p \<and> port_is_pf (f p) = port_is_pf p \<and>
          port_peer_pf_hairpin_tx_rx_queue_offset (f p) = port_peer_pf_hairpin_tx_rx_queue_offset p" for p
        by (simp add: f_def)
      have "init_pf_loop env n pf_name (i # ids) t hw = Some (DP_OK, rename_port f i t', hw')"
        using info q init Some t'(1) by (simp add: f_def)
      then show ?thesis
        using rename_port_ok(1,3-) [OF t'(2,3) f] t' by simp
    qed
  qed
qed

lemma both_pfs: "length pfs = DP_MAX_PF_PORTS \<Longrightarrow> None \<notin> set pfs \<Longrightarrow> \<exists>a b. pfs = [Some a, Some b]"
  by (auto simp: numeral_2_eq_2 length_Suc_conv) (metis not_None_eq)+

lemma register_pf [simp]:
  "register_in_first_free i [None, None] = Some [Some i, None]" "register_in_first_free i [Some a, None] = Some [Some a, Some i]"
  by (simp_all add: register_in_first_free_def)

lemma init_vfs_loop_ok:
  assumes "ports_ok env n (min c n) t"
  shows "\<exists>ret c' t' hw'. init_vfs_loop env n vf_pattern ids c t hw = Some (ret, c', t', hw') \<and> length (pt_ports t') \<le> DP_MAX_PF_PORTS + n \<and>
    (\<not> DP_FAILED ret \<longrightarrow> ports_ok env n (min c' n) t')"
  using assms
proof (induction ids arbitrary: c t hw)
  case Nil
  then show ?case by (auto simp: ports_ok_def)
next
  case (Cons i ids)
  obtain q hw1 where info: "drv (pe_dev_info env i) hw = (q, hw1)" by fastforce
  have len: "length (pt_ports t) = DP_MAX_PF_PORTS + min c n"
    using Cons.prems by (simp add: ports_ok_def)
  show ?case
  proof (cases "\<exists>x name. q = Some (x, name) \<and> strstr name vf_pattern \<and> Suc c \<le> n")
    case False
    then consider "q = None" | x name where "q = Some (x, name)" "strstr name vf_pattern" "\<not> Suc c \<le> n"
      | x name where "q = Some (x, name)" "\<not> strstr name vf_pattern"
      by (cases q) auto
    then show ?thesis
    proof cases
      case 1
      then show ?thesis using info len by simp
    next
      case 2
      then have "ports_ok env n (min (Suc c) n) t" using Cons.prems by simp
      then show ?thesis using Cons.IH [of "Suc c" t hw1] info 2 by simp
    next
      case 3
      then show ?thesis using Cons.IH [of c t hw1] Cons.prems info by simp
    qed
  next
    case True
    then obtain x name where q: "q = Some (x, name)" "strstr name vf_pattern" and c: "c < n" by auto
    have room: "tables_ok t" "length (pt_ports t) < pt_capacity t" "dp_get_pf1 t \<noteq> None"
      using Cons.prems c both_pfs [of "pt_pf_ports t"] by (auto simp: ports_ok_def tables_ok_def dp_get_pf1_def)
    obtain r t' hw' where init: "dp_port_init_interface env n i x False t hw1 = Some (r, t', hw')" and add: "added env False i t r t'"
      using dp_port_init_interface_added [OF room(1,2)] room(3) by blast
    show ?thesis
    proof (cases r)
      case None
      then show ?thesis
        using info q init add c len by (simp add: added_def)
    next
      case (Some j)
      then have j: "j = i" "tables_ok t'" "i \<in> set (pt_ports t')" using add by (auto simp: added_def)
      have ok: "ports_ok env n (min (Suc c) n) t'"
        using ports_ok_add [of env n c t i t'] Cons.prems c add Some j(1) by simp
      define f where "f = (\<lambda>p :: dp_port. p\<lparr> port_port_name := take (IF_NAMESIZE - 1) vf_pattern, port_vf_name := take (IF_NAMESIZE - 1) name \<rparr>)"
      have f: "port_port_id (f p) = port_port_id p \<and> port_is_pf (f p) = port_is_pf p \<and>
          port_peer_pf_hairpin_tx_rx_queue_offset (f p) = port_peer_pf_hairpin_tx_rx_queue_offset p" for p
        by (simp add: f_def)
      have "ports_ok env n (min (Suc c) n) (rename_port f i t')"
        using ok rename_port_ok [OF j(2,3) f] unfolding ports_ok_def by auto
      then show ?thesis
        using Cons.IH [of "Suc c" "rename_port f i t'" hw'] info q init Some j(1) c by (simp add: f_def)
    qed
  qed
qed

lemma hairpins_loop_ok:
  assumes "tables_ok t" "vfs_ok env m t" "set ids \<subseteq> set (pt_ports t)"
  shows "\<exists>ret t' hw'. hairpins_loop env pf0 pf1 ids t hw = Some (ret, t', hw') \<and> tables_ok t' \<and> vfs_ok env m t' \<and>
    pt_ports t' = pt_ports t \<and> pt_pf_ports t' = pt_pf_ports t"
  using assms
proof (induction ids arbitrary: t hw)
  case Nil
  then show ?case by simp
next
  case (Cons i ids)
  obtain port where port: "pt_table t ! unat i = Some port" "port_port_id port = i" "unat i < DP_MAX_PORTS" "length (pt_table t) = DP_MAX_PORTS"
    using Cons.prems(1,3) unfolding tables_ok_def by auto
  define port1 where "port1 = (if port_is_pf port
      then port\<lparr> port_peer_pf_port_id := (if port_port_id port = pf0 then pf1 else pf0), port_peer_pf_hairpin_tx_rx_queue_offset := 1 \<rparr>
      else port)"
  define t1 where "t1 = set_port i port1 t"
  obtain r hw1 where hairpin: "dp_hairpin_setup env port1 hw = (r, hw1)" by fastforce
  have t1: "pt_ports t1 = pt_ports t" "pt_pf_ports t1 = pt_pf_ports t" "pt_table t1 = (pt_table t)[unat i := Some port1]"
    by (simp_all add: t1_def set_port_def)
  have tables: "tables_ok t1"
    by (rule tables_ok_set [OF Cons.prems(1) port(3), where port = port1]) (use Cons.prems(1) port(2) in \<open>auto simp: t1 port1_def tables_ok_def\<close>)
  have vfs: "vfs_ok env m t1"
    using Cons.prems(2) port unfolding vfs_ok_def t1 by (auto simp: nth_list_update port1_def)
  have "hairpins_loop env pf0 pf1 (i # ids) t hw = (if DP_FAILED r then Some (DP_ERROR, t1, hw1) else hairpins_loop env pf0 pf1 ids t1 hw1)"
    using port(1) hairpin by (simp add: port1_def t1_def Let_def)
  then show ?case
    using Cons.IH [OF tables vfs, of hw1] Cons.prems(3) tables vfs t1 by simp
qed

lemma hairpin_queue_of_offset:
  assumes "\<not> port_is_pf port" "port_peer_pf_hairpin_tx_rx_queue_offset port = of_nat (Suc j)" "j < DP_MAX_VF_PORTS"
  shows "unat (hairpin_peer_queue port) = DP_NR_RESERVED_TX_QUEUES + j"
proof -
  have "(ucast (of_nat (Suc j) :: u8) :: u16) = of_nat (Suc j)"
    using assms(3) by (simp add: word_unat_eq_iff unat_of_nat unsigned_ucast_eq take_bit_eq_mod del: of_nat_Suc)
  then have "hairpin_peer_queue port = of_nat (DP_NR_RESERVED_TX_QUEUES + j)"
    using assms(1,2) by (simp add: hairpin_peer_queue_def)
  then show ?thesis
    using assms(3) by (simp add: unat_of_nat del: of_nat_add of_nat_Suc)
qed

text \<open>
  C34: Initialising the ports never writes beyond the array of ports that was allocated for the two physical ports and the virtual
  functions and never uses a physical port that was not found, whatever the driver answers.  When it succeeds, both physical
  ports and all virtual functions are registered under their ids, and with offloading the hairpin queues of the virtual functions
  on the second physical port are pairwise different and directly follow the reserved ones.
\<close>

theorem dp_ports_init_safe:
  assumes "n \<le> DP_MAX_VF_PORTS"
  shows "\<exists>ret t hw'. dp_ports_init env n True initial_tables hw = Some (ret, t, hw') \<and> length (pt_ports t) \<le> DP_MAX_PF_PORTS + n \<and>
    (ret = DP_OK \<longrightarrow>
       length (pt_ports t) = DP_MAX_PF_PORTS + n \<and> (\<exists>pf0 pf1. pt_pf_ports t = [Some pf0, Some pf1]) \<and>
       (\<forall>i \<in> set (pt_ports t). \<exists>port. dp_get_port_by_id (pt_table t) i = Some port \<and> port_port_id port = i) \<and>
       (pe_offload env \<and> distinct (pt_ports t) \<longrightarrow>
          (\<forall>j < n. \<exists>port. dp_get_port_by_id (pt_table t) (pt_ports t ! (DP_MAX_PF_PORTS + j)) = Some port \<and>
             unat (hairpin_peer_queue port) = DP_NR_RESERVED_TX_QUEUES + j)))"
  (is "\<exists>ret t hw'. _ = Some (ret, t, hw') \<and> _ \<and> (ret = DP_OK \<longrightarrow> ?good t)")
proof -
  define t0 where "t0 = initial_tables\<lparr> pt_ports := [], pt_capacity := DP_MAX_PF_PORTS + n \<rparr>"
  have t0: "tables_ok t0" "pt_ports t0 = []" "pt_capacity t0 = DP_MAX_PF_PORTS + n" "pt_last_offset t0 = 1" "pt_pf_ports t0 = [None, None]"
    by (simp_all add: t0_def initial_tables_def tables_ok_def)
  obtain r1 t1 hw1 where pf0: "dp_port_init_pf env n (pe_pf0_name env) t0 hw = Some (r1, t1, hw1)" and t1: "tables_ok t1"
      "pt_capacity t1 = DP_MAX_PF_PORTS + n" "length (pt_ports t1) \<le> 1"
      "\<not> DP_FAILED r1 \<Longrightarrow> (\<exists>i. pt_ports t1 = [i] \<and> pt_last_offset t1 = 1 \<and> pt_pf_ports t1 = [Some i, None])"
    using init_pf_loop_ok [OF t0(1), of env n "pe_pf0_name env" "pe_devs env" hw] t0
    by (auto simp: dp_port_init_pf_def)
  obtain r2 t2 hw2 where pf1: "dp_port_init_pf env n (pe_pf1_name env) t1 hw1 = Some (r2, t2, hw2)" and t2: "tables_ok t2"
      "pt_capacity t2 = DP_MAX_PF_PORTS + n" "length (pt_ports t2) \<le> 2"
      "\<not> DP_FAILED r2 \<Longrightarrow> (\<exists>i. pt_ports t2 = pt_ports t1 @ [i] \<and> pt_last_offset t2 = pt_last_offset t1 \<and>
        register_in_first_free i (pt_pf_ports t1) = Some (pt_pf_ports t2))"
    using init_pf_loop_ok [OF t1(1), of env n "pe_pf1_name env" "pe_devs env" hw1] t1(2,3)
    by (auto simp: dp_port_init_pf_def)
  consider "DP_FAILED r1" | "\<not> DP_FAILED r1" "DP_FAILED r2" | "\<not> DP_FAILED r1" "\<not> DP_FAILED r2" by blast
  then show ?thesis
  proof cases
    case 1
    then show ?thesis
      using pf0 t1(3) unfolding dp_ports_init_def Let_def t0_def [symmetric] by simp
  next
    case 2
    then show ?thesis
      using pf0 pf1 t2(3) unfolding dp_ports_init_def Let_def t0_def [symmetric] by simp
  next
    case 3
    have start: "ports_ok env n (min 0 n) t2"
      using t2(1,2) t1(4) [OF 3(1)] t2(4) [OF 3(2)]
      by (auto simp: ports_ok_def vfs_ok_def dest!: sym [where t = "pt_pf_ports t2"])
    obtain r3 c t3 hw3 where vfs: "init_vfs_loop env n (pe_vf_pattern env) (pe_devs env) 0 t2 hw2 = Some (r3, c, t3, hw3)"
        and t3: "length (pt_ports t3) \<le> DP_MAX_PF_PORTS + n" "\<not> DP_FAILED r3 \<Longrightarrow> ports_ok env n (min c n) t3"
      using init_vfs_loop_ok [OF start, of "pe_vf_pattern env" "pe_devs env" hw2] by blast
    show ?thesis
    proof (cases "DP_FAILED r3 \<or> c = 0 \<or> c < n")
      case True
      then show ?thesis
        using 3 pf0 pf1 vfs t3(1) unfolding dp_ports_init_def Let_def t0_def [symmetric] dp_port_init_vfs_def by auto
    next
      case False
      then have "min c n = n" by simp
      then have ok: "ports_ok env n n t3" using False t3(2) by simp
      have good: "?good t" if "tables_ok t" "vfs_ok env n t" "pt_ports t = pt_ports t3" "pt_pf_ports t = pt_pf_ports t3" for t
      proof -
        have look: "dp_get_port_by_id (pt_table t) i = pt_table t ! unat i" if "i \<in> set (pt_ports t)" for i
          using \<open>tables_ok t\<close> that by (auto simp: tables_ok_def dp_get_port_by_id_def)
        have len: "length (pt_ports t) = DP_MAX_PF_PORTS + n"
          using ok that(3) by (simp add: ports_ok_def)
        show ?thesis
          using that ok len look both_pfs [of "pt_pf_ports t"] assms hairpin_queue_of_offset
          by (force simp: ports_ok_def tables_ok_def vfs_ok_def)
      qed
      obtain a b where pfs: "pt_pf_ports t3 = [Some a, Some b]"
        using ok both_pfs [of "pt_pf_ports t3"] by (auto simp: ports_ok_def tables_ok_def)
      obtain r4 t4 hw4 where hair: "hairpins_loop env a b (pt_ports t3) t3 hw3 = Some (r4, t4, hw4)" and t4: "tables_ok t4" "vfs_ok env n t4"
          "pt_ports t4 = pt_ports t3" "pt_pf_ports t4 = pt_pf_ports t3"
        using hairpins_loop_ok [of t3 env n "pt_ports t3" a b hw3] ok unfolding ports_ok_def by blast
      have "dp_ports_init env n True initial_tables hw =
          (if pe_offload env then Some (r4, t4, hw4) else Some (DP_OK, t3, hw3))"
        using 3 pf0 pf1 vfs False pfs hair
        unfolding dp_ports_init_def Let_def t0_def [symmetric] dp_port_init_vfs_def dp_port_set_up_hairpins_def dp_get_pf1_def by simp
      moreover have "?good t3" by (rule good) (use ok in \<open>simp_all add: ports_ok_def\<close>)
      moreover have "?good t4" by (rule good [OF t4])
      ultimately show ?thesis
        using t3(1) t4(3) by auto
    qed
  qed
qed

section \<open>Stopping a captured port\<close>

lemma rte_flow_destroy_gone:
  assumes "rte_flow_destroy env i p hw = Some (r, hw')" "\<not> DP_FAILED r"
  shows "hw_rules hw' = (hw_rules hw)(p := None)"
  using assms by (auto simp: rte_flow_destroy_def Let_def split: bind_splits if_splits prod.splits)

lemma install_jump_rules:
  assumes "dp_install_jump_rule_in_default_group env g port hw = (r, port', hw')" "\<not> DP_FAILED r"
  obtains p rule where "port' = port\<lparr> port_default_jump_flow := Some p \<rparr>" "hw_rules hw' = (hw_rules hw)(p \<mapsto> rule)" "rule_port rule = port_port_id port"
  using assms that
  by (auto simp: dp_install_jump_rule_in_default_group_def dp_install_rte_flow_def rte_flow_create_def Let_def
      split: prod.splits option.splits if_splits)

lemma drv_rules: "drv f hw = (a, hw') \<Longrightarrow> hw_rules hw' = hw_rules hw"
  by (auto simp: drv_def Let_def split: prod.splits)

lemma bind_hairpins_rules: "dp_port_bind_port_hairpins env pf0 port hw = (r, hw') \<Longrightarrow> hw_rules hw' = hw_rules hw"
  by (auto simp: dp_port_bind_port_hairpins_def dp_hairpin_bind_def Let_def dest!: drv_rules split: prod.splits if_splits)

lemma start_vf_rules:
  assumes vf: "\<not> port_is_pf port" "pe_offload env" "pe_nic_type env \<noteq> DP_CONF_NIC_TYPE_TAP"
    and start: "dp_start_port env spec pf0 port hw = Some (DP_OK, port', hw')"
  obtains p rule where "port_default_jump_flow port' = Some p" "port_default_capture_flow port' = port_default_capture_flow port"
    "port_port_id port' = port_port_id port" "hw_rules hw' = (hw_rules hw)(p \<mapsto> rule)" "rule_port rule = port_port_id port"
proof -
  obtain r1 hw1 where dev: "drv (pe_dev_start env (port_port_id port)) hw = (r1, hw1)" by fastforce
  obtain r2 hw2 where bind: "dp_port_bind_port_hairpins env pf0 port hw1 = (r2, hw2)" by fastforce
  obtain r3 port3 hw3 where jump: "dp_install_jump_rule_in_default_group env DP_RTE_FLOW_VNET_GROUP port hw2 = (r3, port3, hw3)"
    by (cases "dp_install_jump_rule_in_default_group env DP_RTE_FLOW_VNET_GROUP port hw2")
  have ok: "\<not> DP_FAILED r3" "port' = port3\<lparr> port_link_status := RTE_ETH_LINK_UP, port_allocated := True \<rparr>" "hw' = hw3"
    using start vf dev bind jump
    by (auto simp: dp_start_port_def dp_init_port_def dp_install_vf_init_rte_rules_def Let_def split: if_splits)
  obtain p rule where "port3 = port\<lparr> port_default_jump_flow := Some p \<rparr>" "hw_rules hw3 = (hw_rules hw2)(p \<mapsto> rule)" "rule_port rule = port_port_id port"
    by (rule install_jump_rules [OF jump ok(1)])
  then show ?thesis
    using that [of p rule] ok(2,3) drv_rules [OF dev] bind_hairpins_rules [OF bind] by simp
qed

text \<open>
  A virtual function that was captured when it was stopped uses a destroyed rule when it is stopped again after a restart:
  stopping destroys the capturing rule but keeps the pointer to it.
\<close>

lemma restarted_port_stale_rule:
  assumes vf: "\<not> port_is_pf port" "pe_offload env" "pe_nic_type env \<noteq> DP_CONF_NIC_TYPE_TAP"
    and captured: "port_default_capture_flow port = Some b"
    and drv_ok: "\<forall>p d. \<not> DP_FAILED (fst (he_flow_destroy env (port_port_id port) p d))"
    and stop: "dp_stop_port env port hw = Some (DP_OK, port1, hw1)"
    and start: "dp_start_port env spec pf0 port1 hw1 = Some (DP_OK, port2, hw2)"
  shows "dp_stop_port env port2 hw2 = None"
proof -
  obtain r1 ha where jump1: "destroy_if_set env (port_port_id port) (port_default_jump_flow port) hw = Some (r1, ha)" and r1: "\<not> DP_FAILED r1"
    using stop by (auto simp: dp_stop_port_def dp_destroy_default_flow_def split: bind_splits if_splits)
  then obtain r2 hb where cap1: "rte_flow_destroy env (port_port_id port) b ha = Some (r2, hb)" and r2: "\<not> DP_FAILED r2"
    using stop captured
    by (auto simp: dp_stop_port_def dp_destroy_default_flow_def destroy_if_set_def split: bind_splits if_splits)
  have stopped: "port1 = port\<lparr> port_allocated := False \<rparr>" "hw_rules hw1 = hw_rules hb"
    using stop captured jump1 r1 cap1 r2
    by (auto simp: dp_stop_port_def dp_destroy_default_flow_def dp_stop_eth_port_def destroy_if_set_def Let_def
        dest!: drv_rules split: prod.splits if_splits)
  have gone: "hw_rules hw1 b = None"
    using stopped rte_flow_destroy_gone [OF cap1 r2] by simp
  obtain p rule where p: "port_default_jump_flow port2 = Some p" "port_default_capture_flow port2 = Some b" "port_port_id port2 = port_port_id port"
      "hw_rules hw2 = (hw_rules hw1)(p \<mapsto> rule)" "rule_port rule = port_port_id port"
    using start_vf_rules [OF _ vf(2,3) start] vf(1) captured by (auto simp: stopped(1))
  obtain r3 d where dest: "he_flow_destroy env (port_port_id port) p (hw_drv hw2) = (r3, d)" by fastforce
  then have "\<not> DP_FAILED r3" using drv_ok by (metis fst_conv)
  then have "rte_flow_destroy env (port_port_id port) p hw2 = Some (r3, hw2\<lparr> hw_rules := (hw_rules hw2)(p := None), hw_drv := d \<rparr>)"
    using dest p(4,5) by (simp add: rte_flow_destroy_def)
  moreover have "((hw_rules hw2)(p := None)) b = None"
    using p(4) gone by simp
  ultimately show ?thesis
    using p \<open>\<not> DP_FAILED r3\<close> by (simp add: dp_stop_port_def dp_destroy_default_flow_def destroy_if_set_def rte_flow_destroy_def)
qed

section \<open>A concrete driver\<close>

text \<open>A driver with two physical ports and a virtual function that accepts everything.\<close>

definition list_port_env :: "unit port_env" where
  "list_port_env =
     \<lparr> he_flow_validate = (\<lambda>_ d. (0, d)), he_flow_create = (\<lambda>_ h d. (first_free h, d)), he_flow_destroy = (\<lambda>_ _ d. (0, d)),
       pe_nic_type = DP_CONF_NIC_TYPE_MELLANOX, pe_offload = True, pe_pf0_name = ''pf0'', pe_pf1_name = ''pf1'', pe_vf_pattern = ''vf_'',
       pe_port_by_name = (\<lambda>s. (0, of_nat (length s))), pe_devs = [0, 1, 2],
       pe_dev_info = (\<lambda>i d. (Some (uint i, if i = 0 then ''pf0'' else if i = 1 then ''pf1'' else ''vf_0''), d)),
       pe_socket_id = (\<lambda>_. 0), pe_flow_isolate = (\<lambda>_ d. (0, d)), pe_configure = (\<lambda>_ _ _ d. (0, d)),
       pe_rx_queue_setup = (\<lambda>_ _ _ d. (0, d)), pe_tx_queue_setup = (\<lambda>_ _ _ d. (0, d)), pe_promiscuous = (\<lambda>_ d. (0, d)),
       pe_macaddr = (\<lambda>i d. (0, ucast i)), pe_dev_name = (\<lambda>_. ''dev''), pe_neigh_mac = (\<lambda>_ _ d. ((0, 1), d)), pe_callback_register = (\<lambda>_ d. (0, d)),
       pe_rx_queue_info = (\<lambda>_ _. (0, 1024)), pe_tx_queue_info = (\<lambda>_ _. (0, 2048)),
       pe_rx_hairpin_setup = (\<lambda>_ _ _ _ _ d. (0, d)), pe_tx_hairpin_setup = (\<lambda>_ _ _ _ _ d. (0, d)), pe_hairpin_bind = (\<lambda>_ _ d. (0, d)),
       pe_dev_start = (\<lambda>_ d. (0, d)), pe_dev_stop = (\<lambda>_ d. (0, d)), pe_file_exists = (\<lambda>_ _. True), pe_write_file = (\<lambda>_ _ d. (True, d)),
       pe_meter_reset = (\<lambda>_ d. d), pe_meter_profile = (\<lambda>_ _ d. (0, d)), pe_meter_config = (\<lambda>_ d. (0, d)) \<rparr>"

lemma list_port_env_ok: "hw_env_ok list_port_env"
  using first_free_ok by (simp add: hw_env_ok_def list_port_env_def rte_malloc_ok_def)

definition empty_hw :: "unit hw" where
  "empty_hw = \<lparr> hw_rules = Map.empty, hw_drv = () \<rparr>"

definition captured_vf :: dp_port where
  "captured_vf = zero_port\<lparr> port_port_id := 2, port_allocated := True, port_captured := True, port_default_jump_flow := Some 1,
     port_default_capture_flow := Some 2 \<rparr>"

definition example_rule :: "u32 \<Rightarrow> rte_flow_rule" where
  "example_rule g = \<lparr> rule_port = 2, rule_attr = dp_flow_attr_default_jump_ingress, rule_pattern = [dp_set_end_flow_item],
     rule_actions = [dp_set_jump_group_action g, dp_set_end_action] \<rparr>"

definition captured_hw :: "unit hw" where
  "captured_hw = empty_hw\<lparr> hw_rules := [1 \<mapsto> example_rule 1, 2 \<mapsto> example_rule 2] \<rparr>"

theorem dp_ports_init_safe_witness:
  "\<exists>ret t hw'. dp_ports_init list_port_env 1 True initial_tables empty_hw = Some (ret, t, hw') \<and> length (pt_ports t) \<le> 3 \<and>
     (ret = DP_OK \<longrightarrow> length (pt_ports t) = 3 \<and> (\<exists>pf0 pf1. pt_pf_ports t = [Some pf0, Some pf1]))"
  using dp_ports_init_safe [of 1 list_port_env empty_hw] by fastforce

lemma restarted_port_stale_rule_witness:
  "\<forall>spec. \<exists>port1 hw1 port2 hw2. dp_stop_port list_port_env captured_vf captured_hw = Some (DP_OK, port1, hw1) \<and>
     dp_start_port list_port_env spec 0 port1 hw1 = Some (DP_OK, port2, hw2) \<and> dp_stop_port list_port_env port2 hw2 = None"
proof
  fix spec
  define hw1 where "hw1 = captured_hw\<lparr> hw_rules := Map.empty \<rparr>"
  have vf: "\<not> port_is_pf captured_vf" "pe_offload list_port_env" "pe_nic_type list_port_env \<noteq> DP_CONF_NIC_TYPE_TAP"
    "port_default_capture_flow captured_vf = Some 2" "\<forall>p d. \<not> DP_FAILED (fst (he_flow_destroy list_port_env (port_port_id captured_vf) p d))"
    by (simp_all add: captured_vf_def zero_port_def list_port_env_def)
  have stop: "dp_stop_port list_port_env captured_vf captured_hw = Some (DP_OK, captured_vf\<lparr> port_allocated := False \<rparr>, hw1)"
    by (simp add: dp_stop_port_def dp_destroy_default_flow_def destroy_if_set_def rte_flow_destroy_def list_port_env_def captured_vf_def
        captured_hw_def hw1_def example_rule_def dp_stop_eth_port_def drv_def empty_hw_def)
  have free: "first_free (Map.empty :: rte_flow_rule heap) = Some 1"
    by (simp add: first_free_def upt_rec [of 1])
  have "\<exists>port2 hw2. dp_start_port list_port_env spec 0 (captured_vf\<lparr> port_allocated := False \<rparr>) hw1 = Some (DP_OK, port2, hw2)"
    using free
    by (simp add: dp_start_port_def dp_init_port_def dp_port_bind_port_hairpins_def dp_hairpin_bind_def dp_install_vf_init_rte_rules_def
        dp_install_jump_rule_in_default_group_def dp_install_rte_flow_def rte_flow_create_def list_port_env_def captured_vf_def zero_port_def
        hw1_def captured_hw_def empty_hw_def drv_def)
  then show "\<exists>port1 hw1 port2 hw2. dp_stop_port list_port_env captured_vf captured_hw = Some (DP_OK, port1, hw1) \<and>
     dp_start_port list_port_env spec 0 port1 hw1 = Some (DP_OK, port2, hw2) \<and> dp_stop_port list_port_env port2 hw2 = None"
    using restarted_port_stale_rule [OF vf stop] stop by blast
qed

text \<open>A limit for public traffic below eight megabits per second gives a meter without any committed rate.\<close>

lemma public_meter_below_8: "cap < 8 \<Longrightarrow> sp_cir (public_meter_params cap) = 0"
proof -
  assume "cap < 8"
  then have "cap div 8 = 0"
    by (simp add: word_less_nat_alt word_unat_eq_iff unat_div)
  then show ?thesis by (simp add: public_meter_params_def)
qed

end
