(* ===== verification/Dp_Iface.thy ===== *)
theory Dp_Iface
  imports Dp_Cntrack Dp_Lb Dp_Lpm Dp_Firewall Dp_Port
begin

text \<open>
  The state of the whole service and the interfaces of virtual machines (\<^verbatim>\<open>src/dp_iface.c\<close>).  The state extends the one of the
  flow table, which holds the NAT and underlay tables and the ports, by the route tables of the networks, the load balancers, the
  hardware and the globals of \<^verbatim>\<open>src/grpc/dp_grpc_impl.c\<close>.  A pointer to a port is the id of the port.
\<close>

section \<open>The state of the service\<close>

record ('t, 'r4, 'r6, 'd) grpc_state = "'t flow_state" +
  gs_iface_id_table :: 't
  gs_vni :: "('t, 'r4, 'r6) vni_state"
  gs_lb :: "'t lb_state"
  gs_hw :: "'d hw"
  gs_dp_ports :: "u16 list"
  gs_pfx_counter :: u32
  gs_capture_hdr_config :: dp_capture_hdr_config
  gs_capture_enabled :: bool

text \<open>
  \<open>ge_rand\<close> is the C library's random number, \<open>ge_alloc\<close> the outcome of an allocation that is not recorded in a heap of its own,
  \<open>ge_specs\<close>, \<open>ge_udp_hdr\<close> and \<open>ge_lb_reply\<close> uninitialised structures; the rest are sizes of structures, the outcomes of the
  mempool for reply buffers and the version text.
\<close>

record ('t, 'r4, 'r6, 'd) grpc_env = "'t flow_env" +
  ge_iface_id :: "(string, 't) rte_hash"
  ge_vni :: "('t, 'r4, 'r6) vni_env"
  ge_lb :: "'t lb_env"
  ge_port :: "'d port_env"
  ge_underlay_ip :: ipv6_addr
  ge_rand :: "'d \<Rightarrow> int \<times> 'd"
  ge_alloc :: "'d \<Rightarrow> bool \<times> 'd"
  ge_specs :: "rte_ether_hdr \<times> item_ipv6"
  ge_udp_hdr :: rte_udp_hdr
  ge_lb_reply :: dpgrpc_lb
  ge_sizeof :: "string \<Rightarrow> nat"
  ge_rep_max_size :: nat
  ge_mempool :: "bool list"
  ge_version :: string

definition port_at :: "u16 \<Rightarrow> ('t, 'r4, 'r6, 'd) grpc_state \<Rightarrow> dp_port option" where
  "port_at i s = dp_get_port_by_id (fs_ports s) i"

definition put_port :: "u16 \<Rightarrow> dp_port \<Rightarrow> ('t, 'r4, 'r6, 'd) grpc_state \<Rightarrow> ('t, 'r4, 'r6, 'd) grpc_state" where
  "put_port i port s = s\<lparr> fs_ports := (fs_ports s)[unat i := Some port] \<rparr>"

text \<open>Operations of the components on the state of the service.\<close>

definition on_vnf :: "('t vnf_state \<Rightarrow> 'a \<times> 't vnf_state) \<Rightarrow> ('t, 'r4, 'r6, 'd) grpc_state \<Rightarrow> 'a \<times> ('t, 'r4, 'r6, 'd) grpc_state" where
  "on_vnf f s = (let (a, v) = f (fs_vnf s) in (a, s\<lparr> fs_vnf := v \<rparr>))"

definition on_nat :: "('t nat_state \<Rightarrow> 'a \<times> 't nat_state) \<Rightarrow> ('t, 'r4, 'r6, 'd) grpc_state \<Rightarrow> 'a \<times> ('t, 'r4, 'r6, 'd) grpc_state" where
  "on_nat f s = (let (a, n) = f (fs_nat s) in (a, s\<lparr> fs_nat := n \<rparr>))"

definition on_neigh ::
  "(network_nat_entry list \<Rightarrow> 'a \<times> network_nat_entry list) \<Rightarrow> ('t, 'r4, 'r6, 'd) grpc_state \<Rightarrow> 'a \<times> ('t, 'r4, 'r6, 'd) grpc_state" where
  "on_neigh f = on_nat (\<lambda>n. let (a, h) = f (ns_nat_headp n) in (a, n\<lparr> ns_nat_headp := h \<rparr>))"

definition on_vni ::
  "(('t, 'r4, 'r6) vni_state \<Rightarrow> ('a \<times> ('t, 'r4, 'r6) vni_state) option) \<Rightarrow> ('t, 'r4, 'r6, 'd) grpc_state \<Rightarrow> ('a \<times> ('t, 'r4, 'r6, 'd) grpc_state) option" where
  "on_vni f s = do { (a, v) \<leftarrow> f (gs_vni s); Some (a, s\<lparr> gs_vni := v \<rparr>) }"

definition on_lb ::
  "('t lb_state \<Rightarrow> ('a \<times> 't lb_state) option) \<Rightarrow> ('t, 'r4, 'r6, 'd) grpc_state \<Rightarrow> ('a \<times> ('t, 'r4, 'r6, 'd) grpc_state) option" where
  "on_lb f s = do { (a, l) \<leftarrow> f (gs_lb s); Some (a, s\<lparr> gs_lb := l \<rparr>) }"

definition on_drv :: "('d \<Rightarrow> 'a \<times> 'd) \<Rightarrow> ('t, 'r4, 'r6, 'd) grpc_state \<Rightarrow> 'a \<times> ('t, 'r4, 'r6, 'd) grpc_state" where
  "on_drv f s = (let (a, hw) = drv f (gs_hw s) in (a, s\<lparr> gs_hw := hw \<rparr>))"

definition delete_vni ::
  "('t, 'r4, 'r6, 'd) grpc_env \<Rightarrow> u32 \<Rightarrow> ('t, 'r4, 'r6, 'd) grpc_state \<Rightarrow> (int \<times> ('t, 'r4, 'r6, 'd) grpc_state) option" where
  "delete_vni env vni s =
     do {
       (ret, v, headp) \<leftarrow> dp_delete_vni_route_tables (ge_vni env) vni (gs_vni s) (ns_nat_headp (fs_nat s));
       Some (ret, s\<lparr> gs_vni := v, fs_nat := (fs_nat s)\<lparr> ns_nat_headp := headp \<rparr> \<rparr>)
     }"

section \<open>Interfaces\<close>

definition dp_ifaces_init :: "(string \<Rightarrow> 't option) \<Rightarrow> int \<times> 't option" where
  "dp_ifaces_init create = (case create ''iface_id_table'' of None \<Rightarrow> (DP_ERROR, None) | Some t \<Rightarrow> (DP_OK, Some t))"

definition dp_map_iface_id ::
  "('t, 'r4, 'r6, 'd) grpc_env \<Rightarrow> string \<Rightarrow> u16 \<Rightarrow> ('t, 'r4, 'r6, 'd) grpc_state \<Rightarrow> (int \<times> ('t, 'r4, 'r6, 'd) grpc_state) option" where
  "dp_map_iface_id env key i s =
     (if rh_lookup (ge_iface_id env) (gs_iface_id_table s) key \<noteq> Inl (- ENOENT) then Some (DP_ERROR, s)
      else
        let (ret, tbl) = rh_add_data (ge_iface_id env) (gs_iface_id_table s) key (unat i);
            s1 = s\<lparr> gs_iface_id_table := tbl \<rparr>
        in if DP_FAILED ret then Some (DP_ERROR, s1)
           else do { port \<leftarrow> port_at i s1; Some (DP_OK, put_port i (upd_iface (\<lambda>f. f\<lparr> iface_id := key \<rparr>) port) s1) })"

definition dp_unmap_iface_id :: "('t, 'r4, 'r6, 'd) grpc_env \<Rightarrow> string \<Rightarrow> ('t, 'r4, 'r6, 'd) grpc_state \<Rightarrow> ('t, 'r4, 'r6, 'd) grpc_state" where
  "dp_unmap_iface_id env key s = s\<lparr> gs_iface_id_table := snd (rh_del (ge_iface_id env) (gs_iface_id_table s) key) \<rparr>"

definition dp_get_port_with_iface_id :: "('t, 'r4, 'r6, 'd) grpc_env \<Rightarrow> string \<Rightarrow> ('t, 'r4, 'r6, 'd) grpc_state \<Rightarrow> u16 option" where
  "dp_get_port_with_iface_id env key s =
     (case rh_lookup (ge_iface_id env) (gs_iface_id_table s) key of Inl _ \<Rightarrow> None | Inr p \<Rightarrow> Some (of_nat p))"

definition dp_setup_iface ::
  "('t, 'r4, 'r6, 'd) grpc_env \<Rightarrow> u16 \<Rightarrow> u32 \<Rightarrow> ('t, 'r4, 'r6, 'd) grpc_state \<Rightarrow> (int \<times> ('t, 'r4, 'r6, 'd) grpc_state) option" where
  "dp_setup_iface env i vni s =
     do {
       port \<leftarrow> port_at i s;
       (ret, s1) \<leftarrow> on_vni (dp_create_vni_route_tables (ge_vni env) vni (port_socket_id port)) s;
       Some (if DP_FAILED ret then (DP_ERROR, s1)
             else (DP_OK, put_port i (upd_iface (\<lambda>f. f\<lparr> iface_vni := vni, iface_ready := True \<rparr>) (dp_init_firewall_rules port)) s1))
     }"

text \<open>The results of removing the routes are ignored; the configuration is cleared with \<^verbatim>\<open>memset\<close>.\<close>

definition dp_delete_iface ::
  "('t, 'r4, 'r6, 'd) grpc_env \<Rightarrow> u16 \<Rightarrow> ('t, 'r4, 'r6, 'd) grpc_state \<Rightarrow> ('t, 'r4, 'r6, 'd) grpc_state option" where
  "dp_delete_iface env i s =
     do {
       port \<leftarrow> port_at i s;
       let vni = iface_vni (port_iface port);
       let cfg = iface_cfg (port_iface port);
       (_, s1) \<leftarrow> on_vni (dp_del_route (ge_vni env) port vni (cfg_own_ip cfg) 32) s;
       (_, s2) \<leftarrow> on_vni (dp_del_route6 (ge_vni env) port vni (cfg_dhcp_ipv6 cfg) 128) s1;
       (_, s3) \<leftarrow> delete_vni env vni s2;
       let port1 = (dp_del_all_firewall_rules port)\<lparr> port_iface := port_iface zero_port \<rparr>;
       Some (put_port i (snd (dp_load_mac (ge_port env) port1 (gs_hw s3))) s3)
     }"

end
