(* ===== verification/Dp_Grpc_Impl.thy ===== *)
theory Dp_Grpc_Impl
  imports Dp_Iface
begin

text \<open>
  The handlers of the gRPC requests (\<^verbatim>\<open>src/grpc/dp_grpc_impl.c\<close>), composed from the operations of all components, with the
  rollbacks of requests that fail half-way.  The result is the return value, the reply and the state; \<open>None\<close> stands for undefined
  behaviour and for loops that do not return.
\<close>

section \<open>Requests and replies\<close>

record dpgrpc_iface =
  gi_iface_id :: string
  gi_ip4_addr :: u32
  gi_ip6_addr :: ipv6_addr
  gi_vni :: u32
  gi_pxe_addr :: dp_ip_address
  gi_pxe_str :: string
  gi_pci_name :: string
  gi_ul_addr6 :: ipv6_addr
  gi_total_flow_rate_cap :: u64
  gi_public_flow_rate_cap :: u64

datatype dpgrpc_vni_type = DP_VNI_IPV4 | DP_VNI_IPV6 | DP_VNI_BOTH

datatype dpgrpc_capture_interface = DP_CAPTURE_IFACE_TYPE_SINGLE_PF u8 | DP_CAPTURE_IFACE_TYPE_SINGLE_VF string

record dpgrpc_capture =
  gc_dst_addr6 :: ipv6_addr
  gc_udp_src_port :: u16
  gc_udp_dst_port :: u16
  gc_interfaces :: "dpgrpc_capture_interface list"
  gc_is_active :: bool

text \<open>The messages of a request; a prefix has interface, address and length.\<close>

datatype dpgrpc_request =
    DP_REQ_TYPE_Initialize
  | DP_REQ_TYPE_GetVersion
  | DP_REQ_TYPE_CreateInterface dpgrpc_iface
  | DP_REQ_TYPE_DeleteInterface string
  | DP_REQ_TYPE_GetInterface string
  | DP_REQ_TYPE_ListInterfaces
  | DP_REQ_TYPE_CreatePrefix string dp_ip_address u8
  | DP_REQ_TYPE_DeletePrefix string dp_ip_address u8
  | DP_REQ_TYPE_ListPrefixes string
  | DP_REQ_TYPE_CreateRoute dpgrpc_route
  | DP_REQ_TYPE_DeleteRoute dpgrpc_route
  | DP_REQ_TYPE_ListRoutes u32
  | DP_REQ_TYPE_CreateVip string dp_ip_address
  | DP_REQ_TYPE_DeleteVip string
  | DP_REQ_TYPE_GetVip string
  | DP_REQ_TYPE_CreateNat string dp_ip_address u16 u16
  | DP_REQ_TYPE_DeleteNat string
  | DP_REQ_TYPE_GetNat string
  | DP_REQ_TYPE_CreateNeighborNat dp_ip_address u32 u16 u16 ipv6_addr
  | DP_REQ_TYPE_DeleteNeighborNat dp_ip_address u32 u16 u16
  | DP_REQ_TYPE_ListLocalNats dp_ip_address
  | DP_REQ_TYPE_ListNeighborNats dp_ip_address
  | DP_REQ_TYPE_CreateLoadBalancer dpgrpc_lb
  | DP_REQ_TYPE_DeleteLoadBalancer string
  | DP_REQ_TYPE_GetLoadBalancer string
  | DP_REQ_TYPE_CreateLoadBalancerTarget string dp_ip_address
  | DP_REQ_TYPE_DeleteLoadBalancerTarget string dp_ip_address
  | DP_REQ_TYPE_ListLoadBalancerTargets string
  | DP_REQ_TYPE_CreateLoadBalancerPrefix string dp_ip_address u8
  | DP_REQ_TYPE_DeleteLoadBalancerPrefix string dp_ip_address u8
  | DP_REQ_TYPE_ListLoadBalancerPrefixes string
  | DP_REQ_TYPE_CreateFirewallRule string dp_fwall_rule
  | DP_REQ_TYPE_DeleteFirewallRule string string
  | DP_REQ_TYPE_GetFirewallRule string string
  | DP_REQ_TYPE_ListFirewallRules string
  | DP_REQ_TYPE_CheckVniInUse u32 dpgrpc_vni_type
  | DP_REQ_TYPE_ResetVni u32 dpgrpc_vni_type
  | DP_REQ_TYPE_CaptureStart dpgrpc_capture
  | DP_REQ_TYPE_CaptureStop
  | DP_REQ_TYPE_CaptureStatus
  | DP_REQ_TYPE_other

text \<open>The part of the reply that a handler fills in; nothing for a handler without a reply.\<close>

datatype dpgrpc_reply_msg =
    No_reply
  | Ul_addr ipv6_addr
  | Vf_pci string ipv6_addr
  | Iface dpgrpc_iface
  | Trgt_addr dp_ip_address
  | Vip dp_ip_address ipv6_addr
  | Nat dp_ip_address u16 u16 ipv6_addr
  | Nat_addr dp_ip_address
  | Lb dpgrpc_lb
  | Fwrule dp_fwall_rule
  | Vni_in_use bool
  | Versions string string
  | Capture_stop u16
  | Capture_get dpgrpc_capture
  | Iface_list "dpgrpc_iface dp_grpc_responder"
  | Route_list "dpgrpc_route dp_grpc_responder"
  | Nat_list "dpgrpc_nat dp_grpc_responder"
  | Target_list "dpgrpc_lb_target dp_grpc_responder"
  | Fwrule_list "dp_fwall_rule dp_grpc_responder"

type_synonym ('t, 'r4, 'r6, 'd) handled = "(int \<times> dpgrpc_reply_msg \<times> ('t, 'r4, 'r6, 'd) grpc_state) option"

abbreviation answer :: "int \<Rightarrow> ('t, 'r4, 'r6, 'd) grpc_state \<Rightarrow> ('t, 'r4, 'r6, 'd) handled" where
  "answer ret s \<equiv> Some (ret, No_reply, s)"

text \<open>The end of a handler that returns the return value of its last call.\<close>

definition finish :: "(int \<times> ('t, 'r4, 'r6, 'd) grpc_state) option \<Rightarrow> ('t, 'r4, 'r6, 'd) handled" where
  "finish x = do { (ret, s) \<leftarrow> x; answer ret s }"

definition responder_of :: "('t, 'r4, 'r6, 'd) grpc_env \<Rightarrow> 'm dp_grpc_responder" where
  "responder_of env = dp_grpc_init_responder (ge_sizeof env ''dpgrpc_reply'') (ge_rep_max_size env) (ge_mempool env)"

text \<open>The ports in the order of \<^verbatim>\<open>_dp_ports\<close>, and the first physical port.\<close>

definition ports_in_order :: "('t, 'r4, 'r6, 'd) grpc_state \<Rightarrow> dp_port list" where
  "ports_in_order s = List.map_filter (\<lambda>i. port_at i s) (gs_dp_ports s)"

definition dp_get_pf0 :: "('t, 'r4, 'r6, 'd) grpc_state \<Rightarrow> dp_port option" where
  "dp_get_pf0 s = port_at (fs_pf_ports s ! 0) s"

section \<open>Underlay addresses\<close>

text \<open>
  Eight bytes of the configured address, three zero bytes, a random byte and the counter in network byte order.  The first number
  that is drawn is the byte, the second, only for a counter of zero, the start of the counter.
\<close>

definition underlay_ipv6 :: "ipv6_addr \<Rightarrow> u8 \<Rightarrow> u32 \<Rightarrow> ipv6_addr" where
  "underlay_ipv6 conf random_byte counter =
     take_bit 64 conf OR push_bit 88 (ucast random_byte) OR push_bit 96 (ucast (htonl counter))"

definition dp_generate_underlay_ipv6 ::
  "('t, 'r4, 'r6, 'd) grpc_env \<Rightarrow> ('t, 'r4, 'r6, 'd) grpc_state \<Rightarrow> ipv6_addr \<times> ('t, 'r4, 'r6, 'd) grpc_state" where
  "dp_generate_underlay_ipv6 env s =
     (let (r, s1) = on_drv (ge_rand env) s;
          (start, s2) = (if gs_pfx_counter s1 = 0 then let (r, s2) = on_drv (ge_rand env) s1 in (of_int (r mod 256), s2)
                         else (gs_pfx_counter s1, s1));
          counter = start + 1
      in (underlay_ipv6 (ge_underlay_ip env) (of_int (r mod 256)) counter, s2\<lparr> gs_pfx_counter := counter \<rparr>))"

definition dp_create_vnf_route ::
  "('t, 'r4, 'r6, 'd) grpc_env \<Rightarrow> dp_vnf_type \<Rightarrow> u32 \<Rightarrow> u16 \<Rightarrow> dp_ip_address \<Rightarrow> u8 \<Rightarrow> ('t, 'r4, 'r6, 'd) grpc_state \<Rightarrow>
    int \<times> ipv6_addr \<times> ('t, 'r4, 'r6, 'd) grpc_state" where
  "dp_create_vnf_route env type vni port_id pfx_ip prefix_len s =
     (let (ul_addr6, s1) = dp_generate_underlay_ipv6 env s;
          (ret, s2) = on_vnf (dp_add_vnf (fe_vnf env) ul_addr6 type port_id vni pfx_ip prefix_len) s1
      in (ret, ul_addr6, s2))"

definition del_vnf :: "('t, 'r4, 'r6, 'd) grpc_env \<Rightarrow> ipv6_addr \<Rightarrow> ('t, 'r4, 'r6, 'd) grpc_state \<Rightarrow> ('t, 'r4, 'r6, 'd) grpc_state" where
  "del_vnf env ul_addr6 s = snd (on_vnf (dp_del_vnf (fe_vnf env) ul_addr6) s)"

definition dp_grpc_add_route ::
  "('t, 'r4, 'r6, 'd) grpc_env \<Rightarrow> dp_port \<Rightarrow> u32 \<Rightarrow> u32 \<Rightarrow> dp_ip_address \<Rightarrow> ipv6_addr option \<Rightarrow> u8 \<Rightarrow> ('t, 'r4, 'r6, 'd) grpc_state \<Rightarrow>
    (int \<times> ('t, 'r4, 'r6, 'd) grpc_state) option" where
  "dp_grpc_add_route env port vni t_vni addr t_ip6 depth s =
     (if ip_is_v6 addr then on_vni (dp_add_route6 (ge_vni env) port vni t_vni (ip_ipv6 addr) t_ip6 depth) s
      else on_vni (dp_add_route (ge_vni env) port vni t_vni (ip_ipv4 addr) t_ip6 depth) s)"

definition dp_grpc_del_route ::
  "('t, 'r4, 'r6, 'd) grpc_env \<Rightarrow> dp_port \<Rightarrow> u32 \<Rightarrow> dp_ip_address \<Rightarrow> u8 \<Rightarrow> ('t, 'r4, 'r6, 'd) grpc_state \<Rightarrow>
    (int \<times> ('t, 'r4, 'r6, 'd) grpc_state) option" where
  "dp_grpc_del_route env port vni addr depth s =
     (if ip_is_v6 addr then on_vni (dp_del_route6 (ge_vni env) port vni (ip_ipv6 addr) depth) s
      else on_vni (dp_del_route (ge_vni env) port vni (ip_ipv4 addr) depth) s)"

section \<open>Load balancers\<close>

definition dp_process_create_lb :: "('t, 'r4, 'r6, 'd) grpc_env \<Rightarrow> dpgrpc_lb \<Rightarrow> ('t, 'r4, 'r6, 'd) grpc_state \<Rightarrow> ('t, 'r4, 'r6, 'd) handled" where
  "dp_process_create_lb env request s =
     do {
       pf0 \<leftarrow> dp_get_pf0 s;
       (case dp_create_vnf_route env DP_VNF_TYPE_LB (gl_vni request) (port_port_id pf0) (zero_ip\<lparr> ip_is_v6 := ip_is_v6 (gl_addr request) \<rparr>) 0 s of
          (ret, ul_addr6, s1) \<Rightarrow>
            if DP_FAILED ret then answer DP_GRPC_ERR_VNF_INSERT s1
            else
              do {
                (ret, s2) \<leftarrow> on_lb (\<lambda>l. Some (dp_create_lb (ge_lb env) request ul_addr6 l)) s1;
                (if DP_FAILED ret then answer ret (del_vnf env ul_addr6 s2)
                 else
                   do {
                     (ret, s3) \<leftarrow> on_vni (dp_create_vni_route_tables (ge_vni env) (gl_vni request) (port_socket_id pf0)) s2;
                     (if DP_FAILED ret then
                        do {
                          (_, s4) \<leftarrow> on_lb (dp_delete_lb (ge_lb env) (gl_lb_id request)) s3;
                          answer DP_GRPC_ERR_VNI_INIT4 (del_vnf env ul_addr6 s4)
                        }
                      else Some (DP_GRPC_OK, Ul_addr ul_addr6, s3))
                   })
              })
     }"

definition dp_process_delete_lb :: "('t, 'r4, 'r6, 'd) grpc_env \<Rightarrow> string \<Rightarrow> ('t, 'r4, 'r6, 'd) grpc_state \<Rightarrow> ('t, 'r4, 'r6, 'd) handled" where
  "dp_process_delete_lb env lb_id s =
     do {
       (ret, lb) \<leftarrow> dp_get_lb (ge_lb env) lb_id (ge_lb_reply env) (gs_lb s);
       (if DP_FAILED ret then answer ret s
        else
          do {
            (ret, s2) \<leftarrow> on_lb (dp_delete_lb (ge_lb env) lb_id) (del_vnf env (gl_ul_addr6 lb) s);
            (if DP_FAILED ret then answer ret s2
             else
               do {
                 (ret, s3) \<leftarrow> delete_vni env (gl_vni lb) s2;
                 answer (if DP_FAILED ret then DP_GRPC_ERR_VNI_FREE4 else DP_GRPC_OK) s3
               })
          })
     }"

definition dp_process_get_lb :: "('t, 'r4, 'r6, 'd) grpc_env \<Rightarrow> string \<Rightarrow> ('t, 'r4, 'r6, 'd) grpc_state \<Rightarrow> ('t, 'r4, 'r6, 'd) handled" where
  "dp_process_get_lb env lb_id s = do { (ret, lb) \<leftarrow> dp_get_lb (ge_lb env) lb_id (ge_lb_reply env) (gs_lb s); Some (ret, Lb lb, s) }"

abbreviation sizeof_ipv6 :: nat where "sizeof_ipv6 \<equiv> 16"

definition dp_process_create_lbtarget ::
  "('t, 'r4, 'r6, 'd) grpc_env \<Rightarrow> string \<Rightarrow> dp_ip_address \<Rightarrow> ('t, 'r4, 'r6, 'd) grpc_state \<Rightarrow> ('t, 'r4, 'r6, 'd) handled" where
  "dp_process_create_lbtarget env lb_id addr s =
     (if \<not> ip_is_v6 addr then answer DP_GRPC_ERR_BAD_IPVER s
      else finish (on_lb (dp_add_lb_back_ip (ge_lb env) lb_id (ip_ipv6 addr) sizeof_ipv6) s))"

definition dp_process_delete_lbtarget ::
  "('t, 'r4, 'r6, 'd) grpc_env \<Rightarrow> string \<Rightarrow> dp_ip_address \<Rightarrow> ('t, 'r4, 'r6, 'd) grpc_state \<Rightarrow> ('t, 'r4, 'r6, 'd) handled" where
  "dp_process_delete_lbtarget env lb_id addr s =
     (if \<not> ip_is_v6 addr then answer DP_GRPC_ERR_BAD_IPVER s
      else finish (on_lb (dp_del_lb_back_ip (ge_lb env) lb_id (ip_ipv6 addr)) s))"

section \<open>Networks\<close>

definition dp_process_initialize :: "('t, 'r4, 'r6, 'd) grpc_env \<Rightarrow> ('t, 'r4, 'r6, 'd) grpc_state \<Rightarrow> ('t, 'r4, 'r6, 'd) handled" where
  "dp_process_initialize env s =
     (let s1 = snd (on_neigh (\<lambda>h. ((), dp_del_all_neigh_nat_entries_in_vni 0 h)) s)
      in finish (on_vni (dp_lpm_reset_all_route_tables (ge_vni env) (ports_in_order s1)) s1))"

definition dp_process_check_vniinuse ::
  "('t, 'r4, 'r6, 'd) grpc_env \<Rightarrow> u32 \<Rightarrow> dpgrpc_vni_type \<Rightarrow> ('t, 'r4, 'r6, 'd) grpc_state \<Rightarrow> ('t, 'r4, 'r6, 'd) handled" where
  "dp_process_check_vniinuse env vni type s =
     (case type of
        DP_VNI_IPV4 \<Rightarrow> do { b \<leftarrow> dp_is_vni_route_table_available (ge_vni env) vni 4 (gs_vni s); Some (DP_GRPC_OK, Vni_in_use b, s) }
      | DP_VNI_IPV6 \<Rightarrow> do { b \<leftarrow> dp_is_vni_route_table_available (ge_vni env) vni 41 (gs_vni s); Some (DP_GRPC_OK, Vni_in_use b, s) }
      | DP_VNI_BOTH \<Rightarrow> answer DP_GRPC_ERR_WRONG_TYPE s)"

definition dp_process_reset_vni ::
  "('t, 'r4, 'r6, 'd) grpc_env \<Rightarrow> u32 \<Rightarrow> dpgrpc_vni_type \<Rightarrow> ('t, 'r4, 'r6, 'd) grpc_state \<Rightarrow> ('t, 'r4, 'r6, 'd) handled" where
  "dp_process_reset_vni env vni type s =
     (if type = DP_VNI_BOTH then finish (on_vni (dp_lpm_reset_route_tables (ge_vni env) (ports_in_order s) vni) s)
      else answer DP_GRPC_ERR_WRONG_TYPE s)"

section \<open>Addresses of interfaces\<close>

abbreviation own_ip :: "dp_port \<Rightarrow> u32" where "own_ip port \<equiv> cfg_own_ip (iface_cfg (port_iface port))"
abbreviation port_vni :: "dp_port \<Rightarrow> u32" where "port_vni port \<equiv> iface_vni (port_iface port)"

text \<open>The port of an interface and its id; a handler without one reports \<open>err\<close>.\<close>

definition with_port ::
  "('t, 'r4, 'r6, 'd) grpc_env \<Rightarrow> string \<Rightarrow> int \<Rightarrow> (u16 \<Rightarrow> dp_port \<Rightarrow> ('t, 'r4, 'r6, 'd) handled) \<Rightarrow> ('t, 'r4, 'r6, 'd) grpc_state \<Rightarrow> ('t, 'r4, 'r6, 'd) handled" where
  "with_port env key err f s =
     (case dp_get_port_with_iface_id env key s of
        None \<Rightarrow> answer err s
      | Some i \<Rightarrow> do { port \<leftarrow> port_at i s; f i port })"

definition dp_process_create_vip ::
  "('t, 'r4, 'r6, 'd) grpc_env \<Rightarrow> string \<Rightarrow> dp_ip_address \<Rightarrow> ('t, 'r4, 'r6, 'd) grpc_state \<Rightarrow> ('t, 'r4, 'r6, 'd) handled" where
  "dp_process_create_vip env key addr s =
     with_port env key DP_GRPC_ERR_NO_VM (\<lambda>i port.
       if ip_is_v6 addr then answer DP_GRPC_ERR_BAD_IPVER s
       else
         let iface_ip = own_ip port; iface_vni = port_vni port; vip = ip_ipv4 addr
         in case dp_create_vnf_route env DP_VNF_TYPE_VIP iface_vni (port_port_id port) zero_ip 0 s of
              (ret, ul_addr6, s1) \<Rightarrow>
                if DP_FAILED ret then answer DP_GRPC_ERR_VNF_INSERT s1
                else
                  let (ret, s2) = on_nat (dp_set_iface_vip_ip (fe_nat env) iface_ip vip iface_vni ul_addr6) s1
                  in if DP_FAILED ret then answer ret (del_vnf env ul_addr6 s2)
                     else
                       let (ret, s3) = on_nat (dp_set_dnat_ip (fe_nat env) vip iface_ip iface_vni) s2
                       in if DP_FAILED ret
                          then answer ret (del_vnf env ul_addr6 (snd (on_nat (dp_del_iface_vip_ip (fe_nat env) iface_ip iface_vni) s3)))
                          else Some (DP_GRPC_OK, Ul_addr ul_addr6, s3)) s"

text \<open>The data of an interface's addresses; without it, or without the address that \<open>sel\<close> reads, a handler reports an error.\<close>

definition with_snat ::
  "('t, 'r4, 'r6, 'd) grpc_env \<Rightarrow> (snat_data \<Rightarrow> u32) \<Rightarrow> dp_port \<Rightarrow> (snat_data \<Rightarrow> ('t, 'r4, 'r6, 'd) handled) \<Rightarrow> ('t, 'r4, 'r6, 'd) grpc_state \<Rightarrow>
    ('t, 'r4, 'r6, 'd) handled" where
  "with_snat env sel port f s =
     (case dp_get_iface_snat_data (fe_nat env) (own_ip port) (port_vni port) (fs_nat s) of
        None \<Rightarrow> answer DP_GRPC_ERR_SNAT_NO_DATA s
      | Some p \<Rightarrow>
          do {
            s_data \<leftarrow> ns_snat_heap (fs_nat s) p;
            (if sel s_data = 0 then answer DP_GRPC_ERR_SNAT_NO_DATA s else f s_data)
          })"

definition joined :: "'a option option \<Rightarrow> 'a option" where
  "joined x = do { y \<leftarrow> x; y }"

definition dp_process_delete_vip ::
  "('t, 'r4, 'r6, 'd) grpc_env \<Rightarrow> string \<Rightarrow> ('t, 'r4, 'r6, 'd) grpc_state \<Rightarrow> ('t, 'r4, 'r6, 'd) handled" where
  "dp_process_delete_vip env key s =
     with_port env key DP_GRPC_ERR_NO_VM (\<lambda>i port.
       with_snat env sd_vip_ip port (\<lambda>s_data.
         let s1 = del_vnf env (sd_ul_vip_ip6 s_data) s;
             s2 = snd (on_nat (dp_del_dnat_ip (fe_nat env) (sd_vip_ip s_data) (port_vni port)) s1);
             s3 = snd (on_nat (dp_del_iface_vip_ip (fe_nat env) (own_ip port) (port_vni port)) s2)
         in do {
           s4 \<leftarrow> joined (dp_remove_nat_flows env (port_port_id port) DP_FLOW_NAT_TYPE_VIP s3);
           Some (DP_GRPC_OK, Nat_addr (DP_SET_IPADDR4 (sd_vip_ip s_data)), s4)
         }) s) s"

definition dp_process_get_vip ::
  "('t, 'r4, 'r6, 'd) grpc_env \<Rightarrow> string \<Rightarrow> ('t, 'r4, 'r6, 'd) grpc_state \<Rightarrow> ('t, 'r4, 'r6, 'd) handled" where
  "dp_process_get_vip env key s =
     with_port env key DP_GRPC_ERR_NO_VM (\<lambda>i port.
       with_snat env sd_vip_ip port (\<lambda>s_data.
         Some (DP_GRPC_OK, Vip (DP_SET_IPADDR4 (sd_vip_ip s_data)) (sd_ul_vip_ip6 s_data), s)) s) s"

section \<open>Prefixes\<close>

definition dp_process_create_lbprefix ::
  "('t, 'r4, 'r6, 'd) grpc_env \<Rightarrow> string \<Rightarrow> dp_ip_address \<Rightarrow> u8 \<Rightarrow> ('t, 'r4, 'r6, 'd) grpc_state \<Rightarrow> ('t, 'r4, 'r6, 'd) handled" where
  "dp_process_create_lbprefix env key addr len s =
     with_port env key DP_GRPC_ERR_NO_VM (\<lambda>i port.
       if dp_vnf_lbprefix_exists (fe_vnf env) (port_port_id port) (port_vni port) addr len (fs_vnf s) then answer DP_GRPC_ERR_ALREADY_EXISTS s
       else case dp_create_vnf_route env DP_VNF_TYPE_LB_ALIAS_PFX (port_vni port) (port_port_id port) addr len s of
              (ret, ul_addr6, s1) \<Rightarrow>
                if DP_FAILED ret then answer DP_GRPC_ERR_VNF_INSERT s1
                else Some (DP_GRPC_OK, Trgt_addr (DP_SET_IPADDR6 ul_addr6), s1)) s"

definition dp_process_delete_lbprefix ::
  "('t, 'r4, 'r6, 'd) grpc_env \<Rightarrow> string \<Rightarrow> dp_ip_address \<Rightarrow> u8 \<Rightarrow> ('t, 'r4, 'r6, 'd) grpc_state \<Rightarrow> ('t, 'r4, 'r6, 'd) handled" where
  "dp_process_delete_lbprefix env key addr len s =
     with_port env key DP_GRPC_ERR_NO_VM (\<lambda>i port.
       finish (Some (on_vnf (dp_del_vnf_by_value (fe_vnf env) DP_VNF_TYPE_LB_ALIAS_PFX (port_port_id port) (port_vni port) addr len) s))) s"

definition dp_process_create_prefix ::
  "('t, 'r4, 'r6, 'd) grpc_env \<Rightarrow> string \<Rightarrow> dp_ip_address \<Rightarrow> u8 \<Rightarrow> ('t, 'r4, 'r6, 'd) grpc_state \<Rightarrow> ('t, 'r4, 'r6, 'd) handled" where
  "dp_process_create_prefix env key addr len s =
     with_port env key DP_GRPC_ERR_NO_VM (\<lambda>i port.
       do {
         (ret, s1) \<leftarrow> dp_grpc_add_route env port (port_vni port) 0 addr None len s;
         (if DP_FAILED ret then answer ret s1
          else case dp_create_vnf_route env DP_VNF_TYPE_ALIAS_PFX (port_vni port) (port_port_id port) addr len s1 of
                 (ret, ul_addr6, s2) \<Rightarrow>
                   if DP_FAILED ret
                   then do { (_, s3) \<leftarrow> dp_grpc_del_route env port (port_vni port) addr len s2; answer DP_GRPC_ERR_VNF_INSERT s3 }
                   else Some (DP_GRPC_OK, Ul_addr ul_addr6, s2))
       }) s"

definition dp_process_delete_prefix ::
  "('t, 'r4, 'r6, 'd) grpc_env \<Rightarrow> string \<Rightarrow> dp_ip_address \<Rightarrow> u8 \<Rightarrow> ('t, 'r4, 'r6, 'd) grpc_state \<Rightarrow> ('t, 'r4, 'r6, 'd) handled" where
  "dp_process_delete_prefix env key addr len s =
     with_port env key DP_GRPC_ERR_NO_VM (\<lambda>i port.
       do {
         (ret, s1) \<leftarrow> dp_grpc_del_route env port (port_vni port) addr len s;
         (let (ret2, s2) = on_vnf (dp_del_vnf_by_value (fe_vnf env) DP_VNF_TYPE_ALIAS_PFX (port_port_id port) (port_vni port) addr len) s1
          in answer (if DP_FAILED ret then ret else ret2) s2)
       }) s"

section \<open>Interfaces\<close>

text \<open>An operation on a port and the hardware.\<close>

definition on_port ::
  "u16 \<Rightarrow> (dp_port \<Rightarrow> 'd hw \<Rightarrow> (int \<times> dp_port \<times> 'd hw) option) \<Rightarrow> ('t, 'r4, 'r6, 'd) grpc_state \<Rightarrow> (int \<times> ('t, 'r4, 'r6, 'd) grpc_state) option" where
  "on_port i f s =
     do {
       port \<leftarrow> port_at i s;
       (ret, port1, hw) \<leftarrow> f port (gs_hw s);
       Some (ret, (put_port i port1 s)\<lparr> gs_hw := hw \<rparr>)
     }"

definition meter_config ::
  "('t, 'r4, 'r6, 'd) grpc_env \<Rightarrow> u16 \<Rightarrow> u64 \<Rightarrow> u64 \<Rightarrow> ('t, 'r4, 'r6, 'd) grpc_state \<Rightarrow> (int \<times> ('t, 'r4, 'r6, 'd) grpc_state) option" where
  "meter_config env i total_cap public_cap s =
     on_port i (\<lambda>port hw. Some (dp_port_meter_config (ge_port env) (fs_ports s) total_cap public_cap port hw)) s"

definition meter_config_vf ::
  "('t, 'r4, 'r6, 'd) grpc_env \<Rightarrow> u16 \<Rightarrow> u64 \<Rightarrow> u64 \<Rightarrow> ('t, 'r4, 'r6, 'd) grpc_state \<Rightarrow> (int \<times> ('t, 'r4, 'r6, 'd) grpc_state) option" where
  "meter_config_vf env i total_cap public_cap s =
     do { port \<leftarrow> port_at i s; (if port_is_pf port then Some (DP_OK, s) else meter_config env i total_cap public_cap s) }"

definition start_port ::
  "('t, 'r4, 'r6, 'd) grpc_env \<Rightarrow> u16 \<Rightarrow> ('t, 'r4, 'r6, 'd) grpc_state \<Rightarrow> (int \<times> ('t, 'r4, 'r6, 'd) grpc_state) option" where
  "start_port env i s = on_port i (dp_start_port (ge_port env) (ge_specs env) (fs_pf_ports s ! 0)) s"

definition stop_port ::
  "('t, 'r4, 'r6, 'd) grpc_env \<Rightarrow> u16 \<Rightarrow> ('t, 'r4, 'r6, 'd) grpc_state \<Rightarrow> (int \<times> ('t, 'r4, 'r6, 'd) grpc_state) option" where
  "stop_port env i s = on_port i (dp_stop_port (ge_port env)) s"

text \<open>The labels at the end of the handler, each falling through to the next.\<close>

definition handle_err ::
  "('t, 'r4, 'r6, 'd) grpc_env \<Rightarrow> dpgrpc_iface \<Rightarrow> ipv6_addr \<Rightarrow> int \<Rightarrow> ('t, 'r4, 'r6, 'd) grpc_state \<Rightarrow> ('t, 'r4, 'r6, 'd) handled" where
  "handle_err env request ul_addr6 ret s = answer ret (del_vnf env ul_addr6 (dp_unmap_iface_id env (gi_iface_id request) s))"

definition iface_err ::
  "('t, 'r4, 'r6, 'd) grpc_env \<Rightarrow> dpgrpc_iface \<Rightarrow> ipv6_addr \<Rightarrow> u16 \<Rightarrow> int \<Rightarrow> ('t, 'r4, 'r6, 'd) grpc_state \<Rightarrow> ('t, 'r4, 'r6, 'd) handled" where
  "iface_err env request ul_addr6 i ret s = do { s1 \<leftarrow> dp_delete_iface env i s; handle_err env request ul_addr6 ret s1 }"

definition route_err ::
  "('t, 'r4, 'r6, 'd) grpc_env \<Rightarrow> dpgrpc_iface \<Rightarrow> ipv6_addr \<Rightarrow> u16 \<Rightarrow> int \<Rightarrow> ('t, 'r4, 'r6, 'd) grpc_state \<Rightarrow> ('t, 'r4, 'r6, 'd) handled" where
  "route_err env request ul_addr6 i ret s =
     do {
       port \<leftarrow> port_at i s;
       (_, s1) \<leftarrow> on_vni (dp_del_route (ge_vni env) port (gi_vni request) (gi_ip4_addr request) 32) s;
       iface_err env request ul_addr6 i ret s1
     }"

definition route6_err ::
  "('t, 'r4, 'r6, 'd) grpc_env \<Rightarrow> dpgrpc_iface \<Rightarrow> ipv6_addr \<Rightarrow> u16 \<Rightarrow> int \<Rightarrow> ('t, 'r4, 'r6, 'd) grpc_state \<Rightarrow> ('t, 'r4, 'r6, 'd) handled" where
  "route6_err env request ul_addr6 i ret s =
     do {
       port \<leftarrow> port_at i s;
       (_, s1) \<leftarrow> on_vni (dp_del_route6 (ge_vni env) port (gi_vni request) (gi_ip6_addr request) 128) s;
       route_err env request ul_addr6 i ret s1
     }"

definition meter_err ::
  "('t, 'r4, 'r6, 'd) grpc_env \<Rightarrow> dpgrpc_iface \<Rightarrow> ipv6_addr \<Rightarrow> u16 \<Rightarrow> int \<Rightarrow> ('t, 'r4, 'r6, 'd) grpc_state \<Rightarrow> ('t, 'r4, 'r6, 'd) handled" where
  "meter_err env request ul_addr6 i ret s =
     do { (_, s1) \<leftarrow> meter_config env i 0 0 s; route6_err env request ul_addr6 i ret s1 }"

definition fill_iface :: "dpgrpc_iface \<Rightarrow> ipv6_addr \<Rightarrow> dp_port \<Rightarrow> dp_port" where
  "fill_iface request ul_addr6 =
     upd_iface (\<lambda>f. f\<lparr> iface_ul_ipv6 := ul_addr6,
       iface_cfg := (iface_cfg f)\<lparr> cfg_own_ip := gi_ip4_addr request, cfg_ip_depth := 32,
         cfg_dhcp_ipv6 := gi_ip6_addr request, cfg_ip6_depth := 128,
         cfg_pxe_str := gi_pxe_str request, cfg_pxe_ip := gi_pxe_addr request \<rparr> \<rparr>)"

text \<open>The handler from the point on where the port has its configuration: routes, meter, start of the port.\<close>

definition iface_routes ::
  "('t, 'r4, 'r6, 'd) grpc_env \<Rightarrow> dpgrpc_iface \<Rightarrow> ipv6_addr \<Rightarrow> u16 \<Rightarrow> ('t, 'r4, 'r6, 'd) grpc_state \<Rightarrow> ('t, 'r4, 'r6, 'd) handled" where
  "iface_routes env request ul_addr6 i s =
     do {
       port \<leftarrow> port_at i s;
       (ret, s1) \<leftarrow> (if gi_ip4_addr request = 0 then Some (DP_GRPC_OK, s)
                     else on_vni (dp_add_route (ge_vni env) port (gi_vni request) 0 (gi_ip4_addr request) None 32) s);
       (if DP_FAILED ret then iface_err env request ul_addr6 i ret s1
        else
          do {
            (ret, s2) \<leftarrow> (if gi_ip6_addr request = 0 then Some (DP_GRPC_OK, s1)
                          else on_vni (dp_add_route6 (ge_vni env) port (gi_vni request) 0 (gi_ip6_addr request) None 128) s1);
            (if DP_FAILED ret then route_err env request ul_addr6 i ret s2
             else
               do {
                 (ret, s3) \<leftarrow> meter_config_vf env i (gi_total_flow_rate_cap request) (gi_public_flow_rate_cap request) s2;
                 (if DP_FAILED ret then route6_err env request ul_addr6 i DP_GRPC_ERR_PORT_METER s3
                  else
                    do {
                      (ret, s4) \<leftarrow> start_port env i s3;
                      (if DP_FAILED ret then meter_err env request ul_addr6 i DP_GRPC_ERR_PORT_START s4
                       else do { port4 \<leftarrow> port_at i s4; Some (DP_GRPC_OK, Vf_pci (port_vf_name port4) (iface_ul_ipv6 (port_iface port4)), s4) })
                    })
               })
          })
     }"

definition dp_process_create_interface ::
  "('t, 'r4, 'r6, 'd) grpc_env \<Rightarrow> dpgrpc_iface \<Rightarrow> ('t, 'r4, 'r6, 'd) grpc_state \<Rightarrow> ('t, 'r4, 'r6, 'd) handled" where
  "dp_process_create_interface env request s =
     (case dp_get_port_by_name (ge_port env) (gi_pci_name request) (fs_ports s) of
        None \<Rightarrow> answer DP_GRPC_ERR_NOT_FOUND s
      | Some port \<Rightarrow>
          if port_allocated port then answer DP_GRPC_ERR_ALREADY_EXISTS s
          else
            let i = port_port_id port
            in case dp_create_vnf_route env DP_VNF_TYPE_INTERFACE_IP (gi_vni request) i zero_ip 0 s of
                 (ret, ul_addr6, s1) \<Rightarrow>
                   if DP_FAILED ret then answer DP_GRPC_ERR_VNF_INSERT s1
                   else
                     do {
                       (ret, s2) \<leftarrow> dp_map_iface_id env (gi_iface_id request) i s1;
                       (if DP_FAILED ret then answer DP_GRPC_ERR_VM_HANDLE (del_vnf env ul_addr6 s2)
                        else
                          do {
                            (ret, s3) \<leftarrow> dp_setup_iface env i (gi_vni request) s2;
                            (if DP_FAILED ret then handle_err env request ul_addr6 DP_GRPC_ERR_VNI_INIT4 s3
                             else
                               do {
                                 port3 \<leftarrow> port_at i s3;
                                 iface_routes env request ul_addr6 i (put_port i (fill_iface request ul_addr6 port3) s3)
                               })
                          })
                     })"

definition dp_process_delete_interface ::
  "('t, 'r4, 'r6, 'd) grpc_env \<Rightarrow> string \<Rightarrow> ('t, 'r4, 'r6, 'd) grpc_state \<Rightarrow> ('t, 'r4, 'r6, 'd) handled" where
  "dp_process_delete_interface env key s =
     with_port env key DP_GRPC_ERR_NOT_FOUND (\<lambda>i port.
       do {
         (mret, s1) \<leftarrow> meter_config_vf env i 0 0 s;
         (sret, s2) \<leftarrow> stop_port env i (del_vnf env (iface_ul_ipv6 (port_iface port)) s1);
         s3 \<leftarrow> dp_delete_iface env i (dp_unmap_iface_id env key s2);
         s4 \<leftarrow> joined (dp_remove_iface_flows env (port_port_id port) (own_ip port) (port_vni port) s3);
         answer (if DP_FAILED sret then DP_GRPC_ERR_PORT_STOP else if DP_FAILED mret then DP_GRPC_ERR_PORT_METER else DP_GRPC_OK) s4
       }) s"

text \<open>Of an interface the two PXE fields of the reply are never set; they are blank here.\<close>

definition iface_reply :: "dp_port \<Rightarrow> dpgrpc_iface" where
  "iface_reply port =
     \<lparr> gi_iface_id = iface_id (port_iface port), gi_ip4_addr = own_ip port, gi_ip6_addr = cfg_dhcp_ipv6 (iface_cfg (port_iface port)),
       gi_vni = port_vni port, gi_pxe_addr = zero_ip, gi_pxe_str = [], gi_pci_name = port_dev_name port,
       gi_ul_addr6 = iface_ul_ipv6 (port_iface port), gi_total_flow_rate_cap = iface_total_flow_rate_cap (port_iface port),
       gi_public_flow_rate_cap = iface_public_flow_rate_cap (port_iface port) \<rparr>"

definition dp_process_get_interface ::
  "('t, 'r4, 'r6, 'd) grpc_env \<Rightarrow> string \<Rightarrow> ('t, 'r4, 'r6, 'd) grpc_state \<Rightarrow> ('t, 'r4, 'r6, 'd) handled" where
  "dp_process_get_interface env key s =
     with_port env key DP_GRPC_ERR_NOT_FOUND (\<lambda>i port. Some (DP_GRPC_OK, Iface (iface_reply port), s)) s"

section \<open>Routes\<close>

definition dp_process_create_route ::
  "('t, 'r4, 'r6, 'd) grpc_env \<Rightarrow> dpgrpc_route \<Rightarrow> ('t, 'r4, 'r6, 'd) grpc_state \<Rightarrow> ('t, 'r4, 'r6, 'd) handled" where
  "dp_process_create_route env request s =
     (if \<not> ip_is_v6 (gr_trgt_addr request) then answer DP_GRPC_ERR_BAD_IPVER s
      else
        do {
          pf0 \<leftarrow> dp_get_pf0 s;
          finish (dp_grpc_add_route env pf0 (gr_vni request) (gr_trgt_vni request) (gr_pfx_addr request)
                    (Some (ip_ipv6 (gr_trgt_addr request))) (gr_pfx_length request) s)
        })"

definition dp_process_delete_route ::
  "('t, 'r4, 'r6, 'd) grpc_env \<Rightarrow> dpgrpc_route \<Rightarrow> ('t, 'r4, 'r6, 'd) grpc_state \<Rightarrow> ('t, 'r4, 'r6, 'd) handled" where
  "dp_process_delete_route env request s =
     do { pf0 \<leftarrow> dp_get_pf0 s; finish (dp_grpc_del_route env pf0 (gr_vni request) (gr_pfx_addr request) (gr_pfx_length request) s) }"

section \<open>Network address translation\<close>

definition set_iface_nat :: "u32 \<Rightarrow> u16 \<Rightarrow> u16 \<Rightarrow> u16 \<Rightarrow> ('t, 'r4, 'r6, 'd) grpc_state \<Rightarrow> ('t, 'r4, 'r6, 'd) grpc_state option" where
  "set_iface_nat nat_ip min_port max_port i s =
     do {
       port \<leftarrow> port_at i s;
       Some (put_port i (upd_iface (\<lambda>f. f\<lparr> iface_nat_ip := nat_ip, iface_nat_port_min := min_port, iface_nat_port_max := max_port \<rparr>) port) s)
     }"

definition dp_process_create_nat ::
  "('t, 'r4, 'r6, 'd) grpc_env \<Rightarrow> string \<Rightarrow> dp_ip_address \<Rightarrow> u16 \<Rightarrow> u16 \<Rightarrow> ('t, 'r4, 'r6, 'd) grpc_state \<Rightarrow> ('t, 'r4, 'r6, 'd) handled" where
  "dp_process_create_nat env key addr min_port max_port s =
     with_port env key DP_GRPC_ERR_NO_VM (\<lambda>i port.
       if ip_is_v6 addr then answer DP_GRPC_ERR_BAD_IPVER s
       else
         let iface_ip = own_ip port; iface_vni = port_vni port
         in case dp_create_vnf_route env DP_VNF_TYPE_NAT iface_vni (port_port_id port) zero_ip 0 s of
              (ret, ul_addr6, s1) \<Rightarrow>
                if DP_FAILED ret then answer DP_GRPC_ERR_VNF_INSERT s1
                else
                  let (ret, s2) = on_nat (dp_set_iface_nat_ip (fe_nat env) iface_ip (ip_ipv4 addr) iface_vni min_port max_port ul_addr6) s1
                  in if DP_FAILED ret then answer ret (del_vnf env ul_addr6 s2)
                     else
                       let (ret, s3) = on_nat (dp_set_dnat_ip (fe_nat env) (ip_ipv4 addr) 0 iface_vni) s2
                       in if DP_FAILED ret \<and> ret \<noteq> DP_GRPC_ERR_DNAT_EXISTS
                          then answer ret (del_vnf env ul_addr6 (snd (on_nat (dp_del_iface_nat_ip (fe_nat env) iface_ip iface_vni) s3)))
                          else do { s4 \<leftarrow> set_iface_nat (ip_ipv4 addr) min_port max_port i s3; Some (DP_GRPC_OK, Ul_addr ul_addr6, s4) }) s"

definition dp_process_delete_nat ::
  "('t, 'r4, 'r6, 'd) grpc_env \<Rightarrow> string \<Rightarrow> ('t, 'r4, 'r6, 'd) grpc_state \<Rightarrow> ('t, 'r4, 'r6, 'd) handled" where
  "dp_process_delete_nat env key s =
     with_port env key DP_GRPC_ERR_NO_VM (\<lambda>i port.
       with_snat env sd_nat_ip port (\<lambda>s_data.
         let s1 = del_vnf env (sd_ul_nat_ip6 s_data) s;
             s2 = snd (on_nat (\<lambda>n. ((), dp_del_vip_from_dnat (fe_nat env) (sd_nat_ip s_data) (port_vni port) n)) s1)
         in do {
           s3 \<leftarrow> set_iface_nat 0 0 0 i s2;
           s4 \<leftarrow> joined (dp_remove_nat_flows env (port_port_id port) DP_FLOW_NAT_TYPE_NETWORK_LOCAL s3);
           let (ret, s5) = on_nat (dp_del_iface_nat_ip (fe_nat env) (own_ip port) (port_vni port)) s4;
           Some (ret, Nat_addr (DP_SET_IPADDR4 (sd_nat_ip s_data)), s5)
         }) s) s"

definition dp_process_get_nat ::
  "('t, 'r4, 'r6, 'd) grpc_env \<Rightarrow> string \<Rightarrow> ('t, 'r4, 'r6, 'd) grpc_state \<Rightarrow> ('t, 'r4, 'r6, 'd) handled" where
  "dp_process_get_nat env key s =
     with_port env key DP_GRPC_ERR_NO_VM (\<lambda>i port.
       with_snat env sd_nat_ip port (\<lambda>s_data.
         Some (DP_GRPC_OK, Nat (DP_SET_IPADDR4 (sd_nat_ip s_data)) (sd_port_min s_data) (sd_port_max s_data) (sd_ul_nat_ip6 s_data), s)) s) s"

definition dp_process_create_neighnat ::
  "('t, 'r4, 'r6, 'd) grpc_env \<Rightarrow> dp_ip_address \<Rightarrow> u32 \<Rightarrow> u16 \<Rightarrow> u16 \<Rightarrow> ipv6_addr \<Rightarrow> ('t, 'r4, 'r6, 'd) grpc_state \<Rightarrow> ('t, 'r4, 'r6, 'd) handled" where
  "dp_process_create_neighnat env addr vni min_port max_port neigh_addr6 s =
     (if ip_is_v6 addr then answer DP_GRPC_ERR_BAD_IPVER s
      else
        let (alloc, s1) = on_drv (ge_alloc env) s;
            (ret, s2) = on_neigh (dp_add_network_nat_entry alloc (ip_ipv4 addr) None vni min_port max_port neigh_addr6) s1
        in if DP_FAILED ret then answer ret s2
           else
             let (ret, s3) = on_nat (dp_set_dnat_ip (fe_nat env) (ip_ipv4 addr) 0 vni) s2
             in if DP_FAILED ret \<and> ret \<noteq> DP_GRPC_ERR_DNAT_EXISTS
                then answer ret (snd (on_neigh (dp_del_network_nat_entry (ip_ipv4 addr) None vni min_port max_port) s3))
                else answer DP_GRPC_OK s3)"

definition dp_process_delete_neighnat ::
  "('t, 'r4, 'r6, 'd) grpc_env \<Rightarrow> dp_ip_address \<Rightarrow> u32 \<Rightarrow> u16 \<Rightarrow> u16 \<Rightarrow> ('t, 'r4, 'r6, 'd) grpc_state \<Rightarrow> ('t, 'r4, 'r6, 'd) handled" where
  "dp_process_delete_neighnat env addr vni min_port max_port s =
     (if ip_is_v6 addr then answer DP_GRPC_ERR_BAD_IPVER s
      else
        let (ret, s1) = on_neigh (dp_del_network_nat_entry (ip_ipv4 addr) None vni min_port max_port) s
        in if ret = DP_GRPC_ERR_NOT_FOUND then answer ret s1
           else
             let s2 = snd (on_nat (\<lambda>n. ((), dp_del_vip_from_dnat (fe_nat env) (ip_ipv4 addr) vni n)) s1)
             in do { s3 \<leftarrow> joined (dp_remove_neighnat_flows env (ip_ipv4 addr) vni min_port max_port s2); answer ret s3 })"

section \<open>Firewall rules\<close>

text \<open>The port is looked up first; the rest of the handlers is in the theory of the firewall.\<close>

definition port_with_iface_id ::
  "('t, 'r4, 'r6, 'd) grpc_env \<Rightarrow> string \<Rightarrow> ('t, 'r4, 'r6, 'd) grpc_state \<Rightarrow> (u16 \<times> dp_port) option option" where
  "port_with_iface_id env key s =
     (case dp_get_port_with_iface_id env key s of
        None \<Rightarrow> Some None
      | Some i \<Rightarrow> do { port \<leftarrow> port_at i s; Some (Some (i, port)) })"

definition put_port_option :: "(u16 \<times> dp_port) option \<Rightarrow> dp_port option \<Rightarrow> ('t, 'r4, 'r6, 'd) grpc_state \<Rightarrow> ('t, 'r4, 'r6, 'd) grpc_state" where
  "put_port_option at port s = (case (at, port) of (Some (i, _), Some p) \<Rightarrow> put_port i p s | _ \<Rightarrow> s)"

definition process_create_fwrule ::
  "('t, 'r4, 'r6, 'd) grpc_env \<Rightarrow> string \<Rightarrow> dp_fwall_rule \<Rightarrow> ('t, 'r4, 'r6, 'd) grpc_state \<Rightarrow> ('t, 'r4, 'r6, 'd) handled" where
  "process_create_fwrule env key rule s =
     do {
       at \<leftarrow> port_with_iface_id env key s;
       let (alloc, s1) = on_drv (ge_alloc env) s;
       let (ret, port) = dp_process_create_fwrule alloc rule (map_option snd at);
       answer ret (put_port_option at port s1)
     }"

definition process_get_fwrule ::
  "('t, 'r4, 'r6, 'd) grpc_env \<Rightarrow> string \<Rightarrow> string \<Rightarrow> ('t, 'r4, 'r6, 'd) grpc_state \<Rightarrow> ('t, 'r4, 'r6, 'd) handled" where
  "process_get_fwrule env key rule_id s =
     do {
       at \<leftarrow> port_with_iface_id env key s;
       (case dp_process_get_fwrule rule_id (map_option snd at) of
          (ret, None) \<Rightarrow> answer ret s
        | (ret, Some rule) \<Rightarrow> Some (ret, Fwrule rule, s))
     }"

definition process_delete_fwrule ::
  "('t, 'r4, 'r6, 'd) grpc_env \<Rightarrow> string \<Rightarrow> string \<Rightarrow> ('t, 'r4, 'r6, 'd) grpc_state \<Rightarrow> ('t, 'r4, 'r6, 'd) handled" where
  "process_delete_fwrule env key rule_id s =
     do {
       at \<leftarrow> port_with_iface_id env key s;
       let (ret, port) = dp_process_delete_fwrule rule_id (map_option snd at);
       answer ret (put_port_option at port s)
     }"

section \<open>Listings\<close>

definition dp_process_list_interfaces :: "('t, 'r4, 'r6, 'd) grpc_env \<Rightarrow> ('t, 'r4, 'r6, 'd) grpc_state \<Rightarrow> ('t, 'r4, 'r6, 'd) handled" where
  "dp_process_list_interfaces env s =
     (let (ok, r) = dp_grpc_add_replies (map iface_reply (filter (\<lambda>port. iface_ready (port_iface port)) (ports_in_order s)))
                      (dp_grpc_set_multireply (ge_sizeof env ''dpgrpc_iface'') (responder_of env))
      in Some (if ok then DP_GRPC_OK else DP_GRPC_ERR_OUT_OF_MEMORY, Iface_list r, s))"

definition dp_process_list_routes :: "('t, 'r4, 'r6, 'd) grpc_env \<Rightarrow> u32 \<Rightarrow> ('t, 'r4, 'r6, 'd) grpc_state \<Rightarrow> ('t, 'r4, 'r6, 'd) handled" where
  "dp_process_list_routes env vni s =
     do {
       (ret, r) \<leftarrow> dp_list_routes (ge_vni env) (ge_sizeof env ''dpgrpc_route'') (fs_ports s) (dp_get_pf0 s) vni True (gs_vni s) (responder_of env);
       Some (ret, Route_list r, s)
     }"

definition dp_process_list_lbtargets :: "('t, 'r4, 'r6, 'd) grpc_env \<Rightarrow> string \<Rightarrow> ('t, 'r4, 'r6, 'd) grpc_state \<Rightarrow> ('t, 'r4, 'r6, 'd) handled" where
  "dp_process_list_lbtargets env lb_id s =
     do {
       (ret, r) \<leftarrow> dp_get_lb_back_ips (ge_lb env) (ge_sizeof env ''dpgrpc_lb_target'') lb_id (gs_lb s) (responder_of env);
       Some (ret, Target_list r, s)
     }"

definition dp_process_list_fwrules :: "('t, 'r4, 'r6, 'd) grpc_env \<Rightarrow> string \<Rightarrow> ('t, 'r4, 'r6, 'd) grpc_state \<Rightarrow> ('t, 'r4, 'r6, 'd) handled" where
  "dp_process_list_fwrules env key s =
     with_port env key DP_GRPC_ERR_NO_VM (\<lambda>i port.
       let (ret, r) = dp_list_firewall_rules (ge_sizeof env ''dpgrpc_fwrule_info'') port (responder_of env)
       in Some (ret, Fwrule_list r, s)) s"

definition list_prefixes_of ::
  "dp_vnf_type \<Rightarrow> ('t, 'r4, 'r6, 'd) grpc_env \<Rightarrow> string \<Rightarrow> ('t, 'r4, 'r6, 'd) grpc_state \<Rightarrow> ('t, 'r4, 'r6, 'd) handled" where
  "list_prefixes_of type env key s =
     with_port env key DP_GRPC_ERR_NO_VM (\<lambda>i port.
       do {
         (ret, r) \<leftarrow> dp_list_vnf_alias_prefixes (fe_vnf env) (ge_sizeof env ''dpgrpc_route'') (port_port_id port) type (fs_vnf s) (responder_of env);
         Some (ret, Route_list r, s)
       }) s"

definition dp_process_list_lbprefixes :: "('t, 'r4, 'r6, 'd) grpc_env \<Rightarrow> string \<Rightarrow> ('t, 'r4, 'r6, 'd) grpc_state \<Rightarrow> ('t, 'r4, 'r6, 'd) handled" where
  "dp_process_list_lbprefixes = list_prefixes_of DP_VNF_TYPE_LB_ALIAS_PFX"

definition dp_process_list_prefixes :: "('t, 'r4, 'r6, 'd) grpc_env \<Rightarrow> string \<Rightarrow> ('t, 'r4, 'r6, 'd) grpc_state \<Rightarrow> ('t, 'r4, 'r6, 'd) handled" where
  "dp_process_list_prefixes = list_prefixes_of DP_VNF_TYPE_ALIAS_PFX"

definition dp_process_list_localnats ::
  "('t, 'r4, 'r6, 'd) grpc_env \<Rightarrow> dp_ip_address \<Rightarrow> ('t, 'r4, 'r6, 'd) grpc_state \<Rightarrow> ('t, 'r4, 'r6, 'd) handled" where
  "dp_process_list_localnats env addr s =
     (if ip_is_v6 addr then answer DP_GRPC_ERR_BAD_IPVER s
      else
        do {
          (ret, r) \<leftarrow> dp_list_nat_local_entries (fe_nat env) (ge_sizeof env ''dpgrpc_nat'') (ip_ipv4 addr) (fs_nat s) (responder_of env);
          Some (ret, Nat_list r, s)
        })"

definition dp_process_list_neighnats ::
  "('t, 'r4, 'r6, 'd) grpc_env \<Rightarrow> dp_ip_address \<Rightarrow> ('t, 'r4, 'r6, 'd) grpc_state \<Rightarrow> ('t, 'r4, 'r6, 'd) handled" where
  "dp_process_list_neighnats env addr s =
     (if ip_is_v6 addr then answer DP_GRPC_ERR_BAD_IPVER s
      else
        let (ret, r) = dp_list_nat_neigh_entries (ge_sizeof env ''dpgrpc_nat'') (ip_ipv4 addr) (ns_nat_headp (fs_nat s)) (responder_of env)
        in Some (ret, Nat_list r, s))"

definition dp_process_get_version :: "('t, 'r4, 'r6, 'd) grpc_env \<Rightarrow> ('t, 'r4, 'r6, 'd) grpc_state \<Rightarrow> ('t, 'r4, 'r6, 'd) handled" where
  "dp_process_get_version env s = Some (DP_GRPC_OK, Versions (ge_version env) (ge_version env), s)"

section \<open>Packet capture\<close>

definition capture_ctx_of :: "('t, 'r4, 'r6, 'd) grpc_env \<Rightarrow> ('t, 'r4, 'r6, 'd) grpc_state \<Rightarrow> capture_ctx option" where
  "capture_ctx_of env s =
     do {
       pf0 \<leftarrow> dp_get_pf0 s;
       Some \<lparr> cx_pf0 = pf0, cx_underlay_ip = ge_underlay_ip env, cx_hdr_config = gs_capture_hdr_config s, cx_udp_hdr = ge_udp_hdr env \<rparr>
     }"

definition dp_get_port_by_pf_index :: "u8 \<Rightarrow> ('t, 'r4, 'r6, 'd) grpc_state \<Rightarrow> u16 option" where
  "dp_get_port_by_pf_index index s = (if unat index < length (fs_pf_ports s) then Some (fs_pf_ports s ! unat index) else None)"

definition capture_port ::
  "('t, 'r4, 'r6, 'd) grpc_env \<Rightarrow> dpgrpc_capture_interface \<Rightarrow> ('t, 'r4, 'r6, 'd) grpc_state \<Rightarrow> u16 option" where
  "capture_port env iface s =
     (case iface of
        DP_CAPTURE_IFACE_TYPE_SINGLE_VF key \<Rightarrow> dp_get_port_with_iface_id env key s
      | DP_CAPTURE_IFACE_TYPE_SINGLE_PF index \<Rightarrow> dp_get_port_by_pf_index index s)"

definition enable_capture ::
  "('t, 'r4, 'r6, 'd) grpc_env \<Rightarrow> u16 \<Rightarrow> ('t, 'r4, 'r6, 'd) grpc_state \<Rightarrow> (int \<times> ('t, 'r4, 'r6, 'd) grpc_state) option" where
  "enable_capture env i s =
     do {
       cx \<leftarrow> capture_ctx_of env s;
       port \<leftarrow> port_at i s;
       (ret, port1, hw) \<leftarrow> dp_enable_pkt_capture (ge_port env) cx (Some port) (gs_hw s);
       Some (ret, s\<lparr> fs_ports := (fs_ports s)[unat i := port1], gs_hw := hw \<rparr>)
     }"

text \<open>
  The warning for an unknown interface reads the id and the socket of the port it has not found, so that the loop does not get to
  the error it is to report.
\<close>

fun capture_interfaces ::
  "('t, 'r4, 'r6, 'd) grpc_env \<Rightarrow> dpgrpc_capture_interface list \<Rightarrow> ('t, 'r4, 'r6, 'd) grpc_state \<Rightarrow> (int \<times> ('t, 'r4, 'r6, 'd) grpc_state) option" where
  "capture_interfaces env [] s = Some (DP_GRPC_OK, s)"
| "capture_interfaces env (iface # ifaces) s =
     (case capture_port env iface s of
        None \<Rightarrow> None
      | Some i \<Rightarrow>
          do {
            (status, s1) \<leftarrow> enable_capture env i s;
            (if DP_FAILED status then Some (status, s1) else capture_interfaces env ifaces s1)
          })"

definition disable_capture ::
  "('t, 'r4, 'r6, 'd) grpc_env \<Rightarrow> ('t, 'r4, 'r6, 'd) grpc_state \<Rightarrow> (int \<times> ('t, 'r4, 'r6, 'd) grpc_state) option" where
  "disable_capture env s =
     do {
       cx \<leftarrow> capture_ctx_of env s;
       (ret, tbl, hw) \<leftarrow> dp_disable_pkt_capture_on_all_ifaces (ge_port env) cx (gs_dp_ports s) (fs_ports s) (gs_hw s);
       Some (ret, s\<lparr> fs_ports := tbl, gs_hw := hw \<rparr>)
     }"

definition dp_process_capture_start ::
  "('t, 'r4, 'r6, 'd) grpc_env \<Rightarrow> dpgrpc_capture \<Rightarrow> ('t, 'r4, 'r6, 'd) grpc_state \<Rightarrow> ('t, 'r4, 'r6, 'd) handled" where
  "dp_process_capture_start env request s =
     (if \<not> pe_offload (ge_port env) then answer DP_GRPC_ERR_NOT_ACTIVE s
      else if gs_capture_enabled s then answer DP_GRPC_ERR_ALREADY_ACTIVE s
      else
        do {
          (status, s1) \<leftarrow> capture_interfaces env (gc_interfaces request)
            (s\<lparr> gs_capture_hdr_config := dp_set_capture_hdr_config (gc_dst_addr6 request) (gc_udp_src_port request) (gc_udp_dst_port request) \<rparr>);
          (if DP_FAILED status
           then do { (ret, s2) \<leftarrow> disable_capture env s1; answer (if DP_FAILED ret then DP_GRPC_ERR_ROLLBACK else status) s2 }
           else answer status (s1\<lparr> gs_capture_enabled := True \<rparr>))
        })"

definition dp_process_capture_stop :: "('t, 'r4, 'r6, 'd) grpc_env \<Rightarrow> ('t, 'r4, 'r6, 'd) grpc_state \<Rightarrow> ('t, 'r4, 'r6, 'd) handled" where
  "dp_process_capture_stop env s =
     (if \<not> gs_capture_enabled s then answer DP_GRPC_ERR_NOT_ACTIVE s
      else
        do {
          (ret, s1) \<leftarrow> disable_capture env s;
          (if DP_FAILED ret then answer ret s1 else Some (DP_GRPC_OK, Capture_stop (of_int ret), s1\<lparr> gs_capture_enabled := False \<rparr>))
        })"

abbreviation DP_CAPTURE_MAX_PORT_NUM :: nat where "DP_CAPTURE_MAX_PORT_NUM \<equiv> 16"

definition capture_interface_of :: "('t, 'r4, 'r6, 'd) grpc_state \<Rightarrow> dp_port \<Rightarrow> dpgrpc_capture_interface" where
  "capture_interface_of s port =
     (if port_is_pf port then DP_CAPTURE_IFACE_TYPE_SINGLE_PF (if port_port_id port = fs_pf_ports s ! 0 then 0 else 1)
      else DP_CAPTURE_IFACE_TYPE_SINGLE_VF (iface_id (port_iface port)))"

fun captured_interfaces ::
  "('t, 'r4, 'r6, 'd) grpc_state \<Rightarrow> dp_port list \<Rightarrow> dpgrpc_capture_interface list \<Rightarrow> int \<times> dpgrpc_capture_interface list" where
  "captured_interfaces s [] acc = (DP_GRPC_OK, acc)"
| "captured_interfaces s (port # ports) acc =
     (if \<not> port_allocated port \<or> \<not> port_captured port then captured_interfaces s ports acc
      else if DP_CAPTURE_MAX_PORT_NUM \<le> length acc then (DP_GRPC_ERR_LIMIT_REACHED, acc)
      else captured_interfaces s ports (acc @ [capture_interface_of s port]))"

definition dp_process_capture_status :: "('t, 'r4, 'r6, 'd) grpc_env \<Rightarrow> ('t, 'r4, 'r6, 'd) grpc_state \<Rightarrow> ('t, 'r4, 'r6, 'd) handled" where
  "dp_process_capture_status env s =
     (if \<not> gs_capture_enabled s
      then Some (DP_GRPC_OK, Capture_get \<lparr> gc_dst_addr6 = 0, gc_udp_src_port = 0, gc_udp_dst_port = 0, gc_interfaces = [], gc_is_active = False \<rparr>, s)
      else
        let (ret, ifaces) = captured_interfaces s (ports_in_order s) []; config = gs_capture_hdr_config s
        in if DP_FAILED ret then answer ret s
           else Some (DP_GRPC_OK,
             Capture_get \<lparr> gc_dst_addr6 = cap_node_ipv6_addr config, gc_udp_src_port = cap_udp_src_port config,
               gc_udp_dst_port = cap_udp_dst_port config, gc_interfaces = ifaces, gc_is_active = True \<rparr>, s))"

section \<open>Dispatching\<close>

definition process_request :: "('t, 'r4, 'r6, 'd) grpc_env \<Rightarrow> dpgrpc_request \<Rightarrow> ('t, 'r4, 'r6, 'd) grpc_state \<Rightarrow> ('t, 'r4, 'r6, 'd) handled" where
  "process_request env request s =
     (case request of
        DP_REQ_TYPE_Initialize \<Rightarrow> dp_process_initialize env s
      | DP_REQ_TYPE_GetVersion \<Rightarrow> dp_process_get_version env s
      | DP_REQ_TYPE_CreateInterface iface \<Rightarrow> dp_process_create_interface env iface s
      | DP_REQ_TYPE_DeleteInterface key \<Rightarrow> dp_process_delete_interface env key s
      | DP_REQ_TYPE_GetInterface key \<Rightarrow> dp_process_get_interface env key s
      | DP_REQ_TYPE_ListInterfaces \<Rightarrow> dp_process_list_interfaces env s
      | DP_REQ_TYPE_CreatePrefix key addr len \<Rightarrow> dp_process_create_prefix env key addr len s
      | DP_REQ_TYPE_DeletePrefix key addr len \<Rightarrow> dp_process_delete_prefix env key addr len s
      | DP_REQ_TYPE_ListPrefixes key \<Rightarrow> dp_process_list_prefixes env key s
      | DP_REQ_TYPE_CreateRoute route \<Rightarrow> dp_process_create_route env route s
      | DP_REQ_TYPE_DeleteRoute route \<Rightarrow> dp_process_delete_route env route s
      | DP_REQ_TYPE_ListRoutes vni \<Rightarrow> dp_process_list_routes env vni s
      | DP_REQ_TYPE_CreateVip key addr \<Rightarrow> dp_process_create_vip env key addr s
      | DP_REQ_TYPE_DeleteVip key \<Rightarrow> dp_process_delete_vip env key s
      | DP_REQ_TYPE_GetVip key \<Rightarrow> dp_process_get_vip env key s
      | DP_REQ_TYPE_CreateNat key addr min_port max_port \<Rightarrow> dp_process_create_nat env key addr min_port max_port s
      | DP_REQ_TYPE_DeleteNat key \<Rightarrow> dp_process_delete_nat env key s
      | DP_REQ_TYPE_GetNat key \<Rightarrow> dp_process_get_nat env key s
      | DP_REQ_TYPE_CreateNeighborNat addr vni min_port max_port neigh \<Rightarrow> dp_process_create_neighnat env addr vni min_port max_port neigh s
      | DP_REQ_TYPE_DeleteNeighborNat addr vni min_port max_port \<Rightarrow> dp_process_delete_neighnat env addr vni min_port max_port s
      | DP_REQ_TYPE_ListLocalNats addr \<Rightarrow> dp_process_list_localnats env addr s
      | DP_REQ_TYPE_ListNeighborNats addr \<Rightarrow> dp_process_list_neighnats env addr s
      | DP_REQ_TYPE_CreateLoadBalancer lb \<Rightarrow> dp_process_create_lb env lb s
      | DP_REQ_TYPE_DeleteLoadBalancer lb_id \<Rightarrow> dp_process_delete_lb env lb_id s
      | DP_REQ_TYPE_GetLoadBalancer lb_id \<Rightarrow> dp_process_get_lb env lb_id s
      | DP_REQ_TYPE_CreateLoadBalancerTarget lb_id addr \<Rightarrow> dp_process_create_lbtarget env lb_id addr s
      | DP_REQ_TYPE_DeleteLoadBalancerTarget lb_id addr \<Rightarrow> dp_process_delete_lbtarget env lb_id addr s
      | DP_REQ_TYPE_ListLoadBalancerTargets lb_id \<Rightarrow> dp_process_list_lbtargets env lb_id s
      | DP_REQ_TYPE_CreateLoadBalancerPrefix key addr len \<Rightarrow> dp_process_create_lbprefix env key addr len s
      | DP_REQ_TYPE_DeleteLoadBalancerPrefix key addr len \<Rightarrow> dp_process_delete_lbprefix env key addr len s
      | DP_REQ_TYPE_ListLoadBalancerPrefixes key \<Rightarrow> dp_process_list_lbprefixes env key s
      | DP_REQ_TYPE_CreateFirewallRule key rule \<Rightarrow> process_create_fwrule env key rule s
      | DP_REQ_TYPE_DeleteFirewallRule key rule_id \<Rightarrow> process_delete_fwrule env key rule_id s
      | DP_REQ_TYPE_GetFirewallRule key rule_id \<Rightarrow> process_get_fwrule env key rule_id s
      | DP_REQ_TYPE_ListFirewallRules key \<Rightarrow> dp_process_list_fwrules env key s
      | DP_REQ_TYPE_CheckVniInUse vni type \<Rightarrow> dp_process_check_vniinuse env vni type s
      | DP_REQ_TYPE_ResetVni vni type \<Rightarrow> dp_process_reset_vni env vni type s
      | DP_REQ_TYPE_CaptureStart capture \<Rightarrow> dp_process_capture_start env capture s
      | DP_REQ_TYPE_CaptureStop \<Rightarrow> dp_process_capture_stop env s
      | DP_REQ_TYPE_CaptureStatus \<Rightarrow> dp_process_capture_status env s
      | DP_REQ_TYPE_other \<Rightarrow> answer DP_GRPC_ERR_BAD_REQUEST s)"

text \<open>The error code of the response, for which a failed assertion stops the service.\<close>

definition dp_process_request :: "('t, 'r4, 'r6, 'd) grpc_env \<Rightarrow> dpgrpc_request \<Rightarrow> ('t, 'r4, 'r6, 'd) grpc_state \<Rightarrow> ('t, 'r4, 'r6, 'd) handled" where
  "dp_process_request env request s =
     do {
       (ret, reply, s1) \<leftarrow> process_request env request s;
       code \<leftarrow> (if DP_FAILED ret then dp_errcode_to_grpc_errcode ret else Some ret);
       Some (code, reply, s1)
     }"

end
