(* ===== verification/Dp_Grpc_Codes.thy ===== *)
theory Dp_Grpc_Codes
  imports Dp_Grpc_Impl
begin

text \<open>
  The return values of the operations and the request handlers: only success and the error codes of the API, so that the
  conversion at the end of a request never fails.
\<close>

section \<open>Return values\<close>

text \<open>The return values the API documents: success and the negated numbers of the list of errors.\<close>

definition grpc_code :: "int \<Rightarrow> bool" where
  "grpc_code r \<longleftrightarrow> r = DP_GRPC_OK \<or> DP_GRPC_ERRCODES - r \<in> fst ` set DP_GRPC_ERRORS"

named_theorems code_rules

lemma grpc_code_numeral [simp]:
  "grpc_code 0" "grpc_code (- numeral k) \<longleftrightarrow> numeral k - 1004 \<in> fst ` set DP_GRPC_ERRORS"
  by (simp_all add: grpc_code_def)

text \<open>Of a handler or an operation, that it returns only such values.\<close>

definition rets :: "(int \<times> 'a) option \<Rightarrow> bool" where
  "rets x \<longleftrightarrow> (\<forall>r y. x = Some (r, y) \<longrightarrow> grpc_code r)"

lemma rets_simps [simp]:
  "rets None" "rets (Some (r, y)) \<longleftrightarrow> grpc_code r" "rets (if b then x else x') \<longleftrightarrow> (b \<longrightarrow> rets x) \<and> (\<not> b \<longrightarrow> rets x')"
  "rets (Option.bind m f) \<longleftrightarrow> (\<forall>z. m = Some z \<longrightarrow> rets (f z))"
  by (auto simp: rets_def bind_eq_Some_conv)

lemma rets_let [simp]: "rets (Let a f) \<longleftrightarrow> rets (f a)"
  by simp

lemma retsD: "rets x \<Longrightarrow> x = Some (r, y) \<Longrightarrow> grpc_code r"
  by (simp add: rets_def)

lemma rets_on_lb [code_rules]: "(\<And>l. rets (f l)) \<Longrightarrow> rets (on_lb f s)"
  by (auto simp: on_lb_def rets_def bind_eq_Some_conv)

lemma rets_on_vni [code_rules]: "(\<And>v. rets (f v)) \<Longrightarrow> rets (on_vni f s)"
  by (auto simp: on_vni_def rets_def bind_eq_Some_conv)

lemma rets_finish [code_rules]: "rets x \<Longrightarrow> rets (finish x)"
  by (auto simp: finish_def rets_def bind_eq_Some_conv)

lemma rets_with_port [code_rules]: "grpc_code err \<Longrightarrow> (\<And>i port. rets (f i port)) \<Longrightarrow> rets (with_port env key err f s)"
  by (auto simp: with_port_def split: option.splits)

lemma rets_with_snat [code_rules]: "(\<And>d. rets (f d)) \<Longrightarrow> rets (with_snat env sel port f s)"
  by (auto simp: with_snat_def DP_GRPC_ERRORS_def split: option.splits)

lemma rh_foreach_inv:
  assumes "rh_foreach H tbl err body i a = Some r" "I a"
    and "\<And>k p a a'. I a \<Longrightarrow> body k p a = Inr a' \<Longrightarrow> I a'" "\<And>k p a x. I a \<Longrightarrow> body k p a = Inl x \<Longrightarrow> Q x" "\<And>e a. I a \<Longrightarrow> Q (err e a)"
  shows "case r of Inl x \<Rightarrow> Q x | Inr a' \<Rightarrow> I a'"
proof -
  let ?P = "\<lambda>_ _ err body _ a r. I a \<longrightarrow> (\<forall>k p a a'. I a \<longrightarrow> body k p a = Inr a' \<longrightarrow> I a') \<longrightarrow>
    (\<forall>k p a x. I a \<longrightarrow> body k p a = Inl x \<longrightarrow> Q x) \<longrightarrow> (\<forall>e a. I a \<longrightarrow> Q (err e a)) \<longrightarrow> (case r of Inl x \<Rightarrow> Q x | Inr a' \<Rightarrow> I a')"
  have "?P H tbl err body i a r"
  proof (rule rh_foreach.raw_induct [where P = ?P, OF _ assms(1)], goal_cases)
    case (1 rec H tbl err body i a r)
    show ?case
    proof (intro impI)
      assume a: "I a" and step: "\<forall>k p a a'. I a \<longrightarrow> body k p a = Inr a' \<longrightarrow> I a'"
        and stop: "\<forall>k p a x. I a \<longrightarrow> body k p a = Inl x \<longrightarrow> Q x" and fail: "\<forall>e a. I a \<longrightarrow> Q (err e a)"
      show "case r of Inl x \<Rightarrow> Q x | Inr a' \<Rightarrow> I a'"
      proof (cases "rh_iterate H (tbl a) i")
        case (Inl e)
        then show ?thesis
          using 1(2) a fail [rule_format, OF a, of e] by (simp split: if_splits) auto
      next
        case (Inr x)
        obtain k p i' where x: "x = (k, p, i')" by (cases x)
        show ?thesis
        proof (cases "body k p a")
          case (Inl y)
          then have "r = Inl y"
            using 1(2) Inr x by simp
          then show ?thesis
            using stop [rule_format, OF a Inl] by simp
        next
          case next': (Inr a')
          have "rec H tbl err body i' a' = Some r"
            using 1(2) Inr x next' by simp
          from 1(1) [OF this] show ?thesis
            using step [rule_format, OF a next'] step stop fail by blast
        qed
      qed
    qed
  qed
  then show ?thesis
    using assms(2-) by blast
qed

lemma rets_foreach:
  assumes "\<And>e a. grpc_code (fst (err e a))" "\<And>k p a x. body k p a = Inl x \<Longrightarrow> grpc_code (fst x)"
    and "rh_foreach H tbl err body i a = Some (Inl (r, y))"
  shows "grpc_code r"
  using rh_foreach_inv [OF assms(3), where I = "\<lambda>_. True" and Q = "\<lambda>x. grpc_code (fst x)"] assms(1,2) by simp

subsection \<open>Routes and networks\<close>

lemmas code_defs = DP_GRPC_ERRORS_def

lemma rets_add_route [code_rules]: "rets (dp_add_route env port vni t_vni ip t_ip6 depth s)"
  "rets (dp_add_route6 env port vni t_vni ip6 t_ip6 depth s)"
  by (auto simp: dp_add_route_def dp_add_route6_def rib_add_route_def Let_def code_defs split: option.splits prod.splits if_splits)

lemma rets_del_route [code_rules]: "rets (dp_del_route env port vni ip depth s)" "rets (dp_del_route6 env port vni ip6 depth s)"
  by (auto simp: dp_del_route_def dp_del_route6_def rib_del_route_def Let_def code_defs split: option.splits prod.splits if_splits)

lemma rets_fill [code_rules]: "rets (dp_lpm_fill_route_tables env port s)"
  by (auto simp: dp_lpm_fill_route_tables_def Let_def dest: retsD [OF rets_add_route(1)] retsD [OF rets_add_route(2)] split: prod.splits)

lemma rets_lpm_fill_ports [code_rules]: "rets (lpm_fill_ports env sel ports s)"
  by (induction env sel ports s rule: lpm_fill_ports.induct) (auto dest: retsD [OF rets_fill] split: prod.splits)

lemma rets_reset [code_rules]: "rets (dp_lpm_reset_all_route_tables env ports s)" "rets (dp_lpm_reset_route_tables env ports vni s)"
  by (auto simp: dp_lpm_reset_all_route_tables_def dp_lpm_reset_route_tables_def rets_lpm_fill_ports code_defs split: prod.splits)

lemma rets_grpc_route [code_rules]: "rets (dp_grpc_add_route env port vni t_vni addr t_ip6 depth s)"
  "rets (dp_grpc_del_route env port vni addr depth s)"
  by (auto simp: dp_grpc_add_route_def dp_grpc_del_route_def intro!: code_rules)

subsection \<open>Listings\<close>

lemma rets_rib_traverse:
  assumes "\<And>n a. rets (body n a)"
  shows "rets (rib_traverse R root body node a)"
proof -
  let ?P = "\<lambda>_ _ body _ _ x. (\<forall>n a. rets (body n a)) \<longrightarrow> grpc_code (fst x)"
  have "?P R root body node a x" if "rib_traverse R root body node a = Some x" for x
  proof (rule rib_traverse.raw_induct [where P = ?P, OF _ that], goal_cases)
    case (1 rec R root body node a x)
    then show ?case
      by (cases x) (auto simp: bind_eq_Some_conv rets_def split: option.splits if_splits, blast+)
  qed
  with assms show ?thesis
    by (auto simp: rets_def)
qed

lemma rets_route_entry: "rets (dp_list_route_entry R tbl root node port ext responder)"
  by (auto simp: dp_list_route_entry_def Let_def code_defs split: option.splits prod.splits)

lemma rets_list_routes [code_rules]: "rets (dp_list_routes env msg_size tbl port vni ext s responder)"
  by (auto simp: dp_list_routes_def Let_def code_defs rets_rib_traverse rets_route_entry dest: retsD [OF rets_route_entry] split: option.splits prod.splits)

lemma rets_list_prefixes [code_rules]: "rets (dp_list_vnf_alias_prefixes env msg_size port_id type s responder)"
  by (auto simp: dp_list_vnf_alias_prefixes_def vnf_prefix_body_def Let_def code_defs rets_def
      dest!: rets_foreach [rotated 2] split: option.splits sum.splits prod.splits if_splits)

lemma rets_list_local_nats [code_rules]: "rets (dp_list_nat_local_entries env msg_size nat_ip s responder)"
  by (auto simp: dp_list_nat_local_entries_def nat_local_body_def Let_def code_defs rets_def
      dest!: rets_foreach [rotated 2] split: option.splits sum.splits prod.splits if_splits)

subsection \<open>Load balancers, functions and translations\<close>

lemma rets_create_lb [code_rules]: "rets (Some (dp_create_lb env lb ul s))"
  by (simp add: dp_create_lb_def Let_def code_defs split: option.splits sum.splits prod.splits)

lemma rets_get_delete_lb [code_rules]: "rets (dp_get_lb env id_key out s)" "rets (dp_delete_lb env id_key s)"
  by (simp_all add: dp_get_lb_def dp_delete_lb_def lb_by_id_def Let_def code_defs split: option.splits sum.splits)

lemma rets_lb_change: "(\<And>v. grpc_code (fst (f v))) \<Longrightarrow> rets (lb_change env id_key f s)"
  by (auto simp: lb_change_def lb_by_id_def Let_def code_defs split: option.splits sum.splits prod.splits) (metis fst_conv)

lemma rets_back_ip [code_rules]: "rets (dp_add_lb_back_ip env id_key ip n s)" "rets (dp_del_lb_back_ip env id_key ip s)"
  by (auto simp: dp_add_lb_back_ip_def dp_del_lb_back_ip_def lb_add_back_ip_def dp_lb_delete_back_ip_def Let_def code_defs
      split: option.splits intro!: rets_lb_change)

lemma rets_back_ips [code_rules]: "rets (dp_get_lb_back_ips env msg_size id_key s responder)"
  by (auto simp: dp_get_lb_back_ips_def lb_by_id_def Let_def code_defs split: option.splits sum.splits prod.splits)

lemma code_del_vnf_by_value [code_rules]: "rets (Some (dp_del_vnf_by_value env type port_id vni ip len s))"
  by (auto simp: dp_del_vnf_by_value_def Let_def code_defs rets_def split: sum.splits prod.splits if_splits)

lemma code_vip [code_rules]: "rets (Some (dp_set_iface_vip_ip env ip vip vni ul s))"
  by (simp add: dp_set_iface_vip_ip_def code_defs split: option.split prod.split)

lemma code_dnat [code_rules]: "rets (Some (dp_set_dnat_ip env d_ip dnat_ip vni s))"
  by (simp add: dp_set_dnat_ip_def Let_def code_defs split: option.split prod.split)

lemma code_netnat [code_rules]: "rets (Some (dp_set_iface_nat_ip env ip nat_ip vni min_port max_port ul s))"
  "rets (Some (dp_del_iface_nat_ip env ip vni s))"
  by (simp_all add: dp_set_iface_nat_ip_def dp_del_iface_nat_ip_def Let_def code_defs split: option.split prod.split)

lemma code_del_neigh: "grpc_code (fst (dp_del_network_nat_entry ip ip6 vni min_port max_port h))"
  by (induction ip ip6 vni min_port max_port h rule: dp_del_network_nat_entry.induct) (auto simp: code_defs split: prod.splits)

lemma code_neigh [code_rules]: "rets (Some (dp_add_network_nat_entry alloc ip ip6 vni min_port max_port ul h))"
  "rets (Some (dp_del_network_nat_entry ip ip6 vni min_port max_port h))"
  "rets (Some (dp_list_nat_neigh_entries msg_size ip h responder))"
  using code_del_neigh [of ip ip6 vni min_port max_port h]
  by (auto simp: dp_add_network_nat_entry_def dp_list_nat_neigh_entries_def Let_def code_defs rets_def split: prod.splits if_splits)

lemma rets_on_nat [code_rules]: "(\<And>n. rets (Some (f n))) \<Longrightarrow> rets (Some (on_nat f s))"
  by (auto simp: on_nat_def rets_def split: prod.splits)

lemma rets_on_neigh [code_rules]: "(\<And>h. rets (Some (f h))) \<Longrightarrow> rets (Some (on_neigh f s))"
  unfolding on_neigh_def by (rule rets_on_nat) (auto simp: rets_def split: prod.splits)

lemma rets_on_vnf [code_rules]: "(\<And>v. rets (Some (f v))) \<Longrightarrow> rets (Some (on_vnf f s))"
  by (auto simp: on_vnf_def rets_def split: prod.splits)

lemma code_fwrule [code_rules]: "rets (Some (dp_process_create_fwrule alloc rule port))" "rets (Some (dp_process_get_fwrule rule_id port))"
  "rets (Some (dp_process_delete_fwrule rule_id port))" "rets (Some (dp_list_firewall_rules msg_size p responder))"
  by (auto simp: dp_process_create_fwrule_def dp_process_get_fwrule_def dp_process_delete_fwrule_def dp_list_firewall_rules_def Let_def code_defs rets_def
      split: option.splits prod.splits if_splits)

subsection \<open>Capture\<close>

lemma rets_enable_vf: "rets (enable_vf_capture env cx p hw)"
  by (simp add: enable_vf_capture_def Let_def code_defs split: prod.splits)

lemma rets_enable [code_rules]: "rets (dp_enable_pkt_capture env cx port hw)"
  by (simp add: dp_enable_pkt_capture_def code_defs split: option.splits prod.splits if_split)
    (auto dest: retsD [OF rets_enable_vf] simp: code_defs split: prod.splits if_splits)

lemma rets_enable_capture [code_rules]: "rets (enable_capture env i s)"
  by (auto simp: enable_capture_def dest: retsD [OF rets_enable])

lemma rets_capture_interfaces [code_rules]: "rets (capture_interfaces env ifaces s)"
  by (induction env ifaces s rule: capture_interfaces.induct) (auto dest: retsD [OF rets_enable_capture] split: option.splits prod.splits)

lemma disable_capture_code:
  "disable_capture_on env cx ports count tbl hw = Some (ret, x) \<Longrightarrow> 0 \<le> count \<Longrightarrow> ret < 0 \<longrightarrow> grpc_code ret"
proof (induction ports arbitrary: count tbl hw)
  case (Cons i js)
  then obtain port where port: "dp_get_port_by_id tbl i = Some port" by (auto simp: bind_eq_Some_conv)
  show ?case
  proof (cases "port_allocated port \<and> port_captured port")
    case True
    with Cons.prems port obtain ret1 port1 hw1 where on: "dp_enable_pkt_capture env cx (Some port) hw = Some (ret1, port1, hw1)"
      by (auto simp: bind_eq_Some_conv)
    show ?thesis
      using Cons.prems port True on retsD [OF rets_enable on] Cons.IH [of "count + 1"] by (auto simp: Let_def split: if_splits)
  next
    case False
    then show ?thesis
      using Cons.prems port Cons.IH by (auto split: if_splits)
  qed
qed simp

lemma disable_capture_failed: "disable_capture env s = Some (ret, s') \<Longrightarrow> ret < 0 \<Longrightarrow> grpc_code ret"
  by (auto simp: disable_capture_def bind_eq_Some_conv dp_disable_pkt_capture_on_all_ifaces_def dest: disable_capture_code)

lemma rets_post: "rets x \<longleftrightarrow> post x (\<lambda>y. grpc_code (fst y))"
  by (auto simp: rets_def post_def)

subsection \<open>Handlers\<close>

lemma code_on_nat: "(\<And>n. rets (Some (f n))) \<Longrightarrow> on_nat f s = (r, s') \<Longrightarrow> grpc_code r"
  "(\<And>h. rets (Some (g h))) \<Longrightarrow> on_neigh g s = (r, s') \<Longrightarrow> grpc_code r"
  "(\<And>v. rets (Some (k v))) \<Longrightarrow> on_vnf k s = (r, s') \<Longrightarrow> grpc_code r"
proof -
  show "grpc_code r" if "\<And>n. rets (Some (f n))" "on_nat f s = (r, s')"
    by (rule retsD [OF rets_on_nat [of f s, OF that(1)]]) (simp add: that(2))
  show "grpc_code r" if "\<And>h. rets (Some (g h))" "on_neigh g s = (r, s')"
    by (rule retsD [OF rets_on_neigh [of g s, OF that(1)]]) (simp add: that(2))
  show "grpc_code r" if "\<And>v. rets (Some (k v))" "on_vnf k s = (r, s')"
    by (rule retsD [OF rets_on_vnf [of k s, OF that(1)]]) (simp add: that(2))
qed

lemmas codeD = retsD [OF rets_on_lb [OF rets_create_lb]] retsD [OF rets_get_delete_lb(1)] retsD [OF rets_on_lb [OF rets_get_delete_lb(2)]]
  retsD [OF rets_back_ips] code_on_nat(1) [OF code_vip] code_on_nat(1) [OF code_dnat] code_on_nat(1) [OF code_netnat(1)]
  code_on_nat(1) [OF code_netnat(2)] code_on_nat(2) [OF code_neigh(1)] code_on_nat(2) [OF code_neigh(2)]
  code_on_nat(3) [OF code_del_vnf_by_value] retsD [OF rets_grpc_route(1)] retsD [OF rets_grpc_route(2)]
  retsD [OF rets_on_vni [OF rets_add_route(1)]] retsD [OF rets_on_vni [OF rets_add_route(2)]]
  retsD [OF rets_capture_interfaces] disable_capture_failed retsD [OF rets_list_routes] retsD [OF rets_list_prefixes]
  retsD [OF rets_list_local_nats]

lemma rets_lb_request [code_rules]: "rets (dp_process_create_lb env lb s)" "rets (dp_process_delete_lb env lb_id s)" "rets (dp_process_get_lb env lb_id s)"
  unfolding rets_post dp_process_create_lb_def dp_process_delete_lb_def dp_process_get_lb_def
  by (intro vcg; simp add: code_defs; (erule codeD)?)+

lemma rets_lbtarget_request [code_rules]: "rets (dp_process_create_lbtarget env lb_id addr s)" "rets (dp_process_delete_lbtarget env lb_id addr s)"
  "rets (dp_process_list_lbtargets env lb_id s)"
  by (auto simp: dp_process_create_lbtarget_def dp_process_delete_lbtarget_def dp_process_list_lbtargets_def code_defs
      dest: codeD intro!: rets_finish rets_on_lb rets_back_ip)

lemma rets_network_request [code_rules]: "rets (dp_process_initialize env s)" "rets (dp_process_reset_vni env vni type s)"
  "rets (dp_process_check_vniinuse env vni type s)"
  by (auto simp: dp_process_initialize_def dp_process_reset_vni_def dp_process_check_vniinuse_def Let_def code_defs
      intro!: rets_finish rets_on_vni rets_reset split: dpgrpc_vni_type.splits)

lemma rets_vip_request [code_rules]: "rets (dp_process_create_vip env key addr s)" "rets (dp_process_get_vip env key s)" "rets (dp_process_delete_vip env key s)"
  unfolding dp_process_create_vip_def dp_process_get_vip_def dp_process_delete_vip_def
  by (rule rets_with_port, simp add: code_defs, (rule rets_with_snat)?, unfold rets_post; intro vcg; simp add: code_defs; (erule codeD)?)+

lemma rets_lbprefix_request [code_rules]: "rets (dp_process_create_lbprefix env key addr len s)" "rets (dp_process_create_prefix env key addr len s)"
  "rets (dp_process_delete_prefix env key addr len s)"
  unfolding dp_process_create_lbprefix_def dp_process_create_prefix_def dp_process_delete_prefix_def
  by (rule rets_with_port, simp add: code_defs, unfold rets_post; intro vcg; simp add: code_defs split: if_split; (erule codeD | (intro impI conjI; erule codeD))?)+

lemma rets_delete_lbprefix_request [code_rules]: "rets (dp_process_delete_lbprefix env key addr len s)"
  unfolding dp_process_delete_lbprefix_def
  by (intro rets_with_port rets_finish rets_on_vnf code_del_vnf_by_value) (simp add: code_defs)

lemma rets_rollback [code_rules]:
  assumes "grpc_code ret"
  shows "rets (handle_err env request ul ret s)" "rets (iface_err env request ul i ret s)" "rets (route_err env request ul i ret s)"
    "rets (route6_err env request ul i ret s)" "rets (meter_err env request ul i ret s)"
  unfolding meter_err_def route6_err_def route_err_def iface_err_def handle_err_def rets_post
  by (intro vcg; simp add: assms)+

lemma rets_iface_routes: "rets (iface_routes env request ul i s)"
  unfolding iface_routes_def rets_post
  by (intro vcg rets_rollback [unfolded rets_post]; auto simp: code_defs split: if_splits dest: codeD)

lemma rets_interface_request [code_rules]: "rets (dp_process_create_interface env request s)" "rets (dp_process_delete_interface env key s)"
  "rets (dp_process_get_interface env key s)"
  subgoal unfolding dp_process_create_interface_def rets_post
    by (intro vcg rets_rollback [unfolded rets_post] rets_iface_routes [unfolded rets_post]; simp add: code_defs)
  subgoal unfolding dp_process_delete_interface_def
    by (rule rets_with_port, simp add: code_defs, unfold rets_post; intro vcg; simp add: code_defs)
  subgoal unfolding dp_process_get_interface_def
    by (rule rets_with_port) (simp_all add: code_defs)
  done

lemma rets_route_request [code_rules]: "rets (dp_process_create_route env route s)" "rets (dp_process_delete_route env route s)" "rets (dp_process_list_routes env vni s)"
  by (auto simp: dp_process_create_route_def dp_process_delete_route_def dp_process_list_routes_def code_defs dest: codeD
      intro!: rets_finish rets_grpc_route)

lemma rets_nat_request [code_rules]: "rets (dp_process_create_nat env key addr min_port max_port s)" "rets (dp_process_get_nat env key s)"
  "rets (dp_process_delete_nat env key s)"
  unfolding dp_process_create_nat_def dp_process_get_nat_def dp_process_delete_nat_def
  by (rule rets_with_port, simp add: code_defs, (rule rets_with_snat)?, unfold rets_post; intro vcg; simp add: code_defs; (elim conjE)?; (erule codeD)?)+

lemma rets_neighnat_request [code_rules]: "rets (dp_process_create_neighnat env addr vni min_port max_port neigh s)"
  "rets (dp_process_delete_neighnat env addr vni min_port max_port s)"
  unfolding dp_process_create_neighnat_def dp_process_delete_neighnat_def rets_post
  by (intro vcg; simp add: code_defs; (elim conjE)?; (erule codeD)?)+

lemma rets_fwrule_request [code_rules]: "rets (process_create_fwrule env key rule s)" "rets (process_get_fwrule env key rule_id s)"
  "rets (process_delete_fwrule env key rule_id s)" "rets (dp_process_list_fwrules env key s)"
  unfolding process_create_fwrule_def process_get_fwrule_def process_delete_fwrule_def
  subgoal unfolding rets_post by (intro vcg) (auto dest: retsD [OF code_fwrule(1), simplified])
  subgoal unfolding rets_post by (intro vcg) (auto dest: retsD [OF code_fwrule(2), simplified])
  subgoal unfolding rets_post by (intro vcg) (auto dest: retsD [OF code_fwrule(3), simplified])
  subgoal unfolding dp_process_list_fwrules_def
    by (rule rets_with_port, simp add: code_defs, unfold rets_post; intro vcg) (auto dest: retsD [OF code_fwrule(4), simplified])
  done

lemma rets_listing_request [code_rules]: "rets (dp_process_list_interfaces env s)" "rets (dp_process_list_lbprefixes env key s)"
  "rets (dp_process_list_prefixes env key s)" "rets (dp_process_list_localnats env addr s)" "rets (dp_process_list_neighnats env addr s)"
  "rets (dp_process_get_version env s)"
  unfolding dp_process_list_interfaces_def dp_process_list_lbprefixes_def dp_process_list_prefixes_def list_prefixes_of_def
    dp_process_list_localnats_def dp_process_list_neighnats_def dp_process_get_version_def
  by ((rule rets_with_port, simp add: code_defs)?, unfold rets_post; intro vcg; simp add: code_defs;
    (erule codeD | erule retsD [OF code_neigh(3), simplified])?)+

lemma captured_interfaces_code: "grpc_code (fst (captured_interfaces s ports acc))"
  by (induction s ports acc rule: captured_interfaces.induct) (simp_all add: code_defs)

lemma rets_capture_request [code_rules]: "rets (dp_process_capture_start env request s)" "rets (dp_process_capture_stop env s)"
  "rets (dp_process_capture_status env s)"
  subgoal unfolding dp_process_capture_start_def rets_post
    by (intro vcg; simp add: code_defs; (intro impI)?; (erule retsD [OF rets_capture_interfaces])?)
  subgoal unfolding dp_process_capture_stop_def rets_post by (intro vcg; simp add: code_defs; (erule (1) codeD)?)
  subgoal unfolding dp_process_capture_status_def rets_post
    by (intro vcg; simp add: code_defs) (metis captured_interfaces_code fst_conv)
  done

lemma rets_process_request: "rets (process_request env request s)"
  by (cases request) (simp_all add: process_request_def code_rules, simp add: code_defs)

end
