(* ===== verification/Dp_Grpc_Correct.thy ===== *)
theory Dp_Grpc_Correct
  imports Dp_Grpc_Codes
begin

text \<open>
  Correctness of the request handlers: the addresses that requests hand out and take back, the rollback of requests that fail,
  and what a client reads back.
\<close>

section \<open>What an operation leaves alone\<close>

named_theorems vnf_frame

lemma put_port_fields [simp]:
  "fs_vnf (put_port i port s) = fs_vnf s" "fs_nat (put_port i port s) = fs_nat s" "gs_iface_id_table (put_port i port s) = gs_iface_id_table s"
  "gs_hw (put_port i port s) = gs_hw s" "gs_vni (put_port i port s) = gs_vni s" "fs_pf_ports (put_port i port s) = fs_pf_ports s"
  "gs_dp_ports (put_port i port s) = gs_dp_ports s"
  by (simp_all add: put_port_def)

lemma on_nat_frame [vnf_frame]: "on_nat f s = (a, s') \<Longrightarrow> fs_vnf s' = fs_vnf s" "on_neigh g s = (a, s') \<Longrightarrow> fs_vnf s' = fs_vnf s"
  by (auto simp: on_nat_def on_neigh_def split: prod.splits)

lemma snd_on_nat_frame [simp]: "fs_vnf (snd (on_nat f s)) = fs_vnf s" "fs_vnf (snd (on_neigh g s)) = fs_vnf s"
  by (simp_all add: on_nat_def on_neigh_def split: prod.splits)

lemma on_table_frame [vnf_frame]: "on_vni f s = Some (a, s') \<Longrightarrow> fs_vnf s' = fs_vnf s" "on_lb g s = Some (a, s') \<Longrightarrow> fs_vnf s' = fs_vnf s"
  "delete_vni env vni s = Some (b, s') \<Longrightarrow> fs_vnf s' = fs_vnf s"
  by (auto simp: on_vni_def on_lb_def delete_vni_def bind_eq_Some_conv)

lemma on_drv_frame [vnf_frame]: "on_drv f s = (a, s') \<Longrightarrow> fs_vnf s' = fs_vnf s"
  by (auto simp: on_drv_def split: prod.splits)

lemma on_port_frame [vnf_frame]: "on_port i f s = Some (a, s') \<Longrightarrow> fs_vnf s' = fs_vnf s"
  by (auto simp: on_port_def bind_eq_Some_conv)

lemma port_request_frame [vnf_frame]: "meter_config env i total_cap public_cap s = Some (a, s') \<Longrightarrow> fs_vnf s' = fs_vnf s"
  "meter_config_vf env i total_cap public_cap s = Some (a, s') \<Longrightarrow> fs_vnf s' = fs_vnf s"
  "start_port env i s = Some (a, s') \<Longrightarrow> fs_vnf s' = fs_vnf s" "stop_port env i s = Some (a, s') \<Longrightarrow> fs_vnf s' = fs_vnf s"
  by (auto simp: meter_config_def meter_config_vf_def start_port_def stop_port_def bind_eq_Some_conv dest: on_port_frame split: if_splits)

lemma set_iface_nat_frame [vnf_frame]: "set_iface_nat ip min_port max_port i s = Some s' \<Longrightarrow> fs_vnf s' = fs_vnf s"
  by (auto simp: set_iface_nat_def bind_eq_Some_conv)

lemma dp_map_iface_id_frame [vnf_frame]: "dp_map_iface_id env key i s = Some (a, s') \<Longrightarrow> fs_vnf s' = fs_vnf s"
  by (auto simp: dp_map_iface_id_def Let_def bind_eq_Some_conv split: if_splits prod.splits)

lemma dp_unmap_iface_id_frame [simp]: "fs_vnf (dp_unmap_iface_id env key s) = fs_vnf s"
  by (simp add: dp_unmap_iface_id_def)

lemma dp_setup_iface_frame [vnf_frame]: "dp_setup_iface env i vni s = Some (a, s') \<Longrightarrow> fs_vnf s' = fs_vnf s"
  by (auto simp: dp_setup_iface_def bind_eq_Some_conv dest: on_table_frame split: if_splits)

lemma dp_delete_iface_frame [vnf_frame]: "dp_delete_iface env i s = Some s' \<Longrightarrow> fs_vnf s' = fs_vnf s"
  by (auto simp: dp_delete_iface_def Let_def bind_eq_Some_conv dest!: on_table_frame)

lemma capture_frame [vnf_frame]: "enable_capture env i s = Some (a, s') \<Longrightarrow> fs_vnf s' = fs_vnf s"
  "disable_capture env s = Some (a, s') \<Longrightarrow> fs_vnf s' = fs_vnf s"
  by (auto simp: enable_capture_def disable_capture_def bind_eq_Some_conv)

lemma capture_interfaces_frame [vnf_frame]: "capture_interfaces env ifaces s = Some (a, s') \<Longrightarrow> fs_vnf s' = fs_vnf s"
proof (induction ifaces arbitrary: s)
  case (Cons iface ifaces)
  then obtain i status s1 where "enable_capture env i s = Some (status, s1)" "s' = s1 \<or> capture_interfaces env ifaces s1 = Some (a, s')"
    by (auto simp: bind_eq_Some_conv split: option.splits if_splits)
  then show ?case
    using Cons.IH capture_frame(1) by metis
qed simp

lemma route_frame [vnf_frame]: "dp_grpc_add_route env port vni t_vni addr t_ip6 depth s = Some (a, s') \<Longrightarrow> fs_vnf s' = fs_vnf s"
  "dp_grpc_del_route env port vni addr depth s = Some (a, s') \<Longrightarrow> fs_vnf s' = fs_vnf s"
  by (auto simp: dp_grpc_add_route_def dp_grpc_del_route_def dest: on_table_frame split: if_splits)

lemma put_port_option_frame [simp]: "fs_vnf (put_port_option at port s) = fs_vnf s"
  by (simp add: put_port_option_def split: option.splits prod.splits)

text \<open>The flows that are removed release hardware rules, NAT ports and table entries.\<close>

lemma dp_free_flow_frame: "dp_free_flow env p s = Some s' \<Longrightarrow> fs_vnf s' = fs_vnf s"
proof (rule postD [where Q = "\<lambda>s'. fs_vnf s' = fs_vnf s"])
  show "post (dp_free_flow env p s) (\<lambda>s'. fs_vnf s' = fs_vnf s)"
    unfolding dp_free_flow_def dp_delete_flow_no_flush_def dp_cntrack_flush_cache_def
    by (intro vcg) (simp add: dp_free_network_nat_port_def split: prod.split)
qed

lemma flow_ref_dec_frame: "flow_ref_dec env p s = Some s' \<Longrightarrow> fs_vnf s' = fs_vnf s"
proof (rule postD [where Q = "\<lambda>s'. fs_vnf s' = fs_vnf s"])
  show "post (flow_ref_dec env p s) (\<lambda>s'. fs_vnf s' = fs_vnf s)"
    unfolding flow_ref_dec_def by (intro vcg) (auto simp: post_def dest: dp_free_flow_frame)
qed

lemma agectx_frame: "dp_destroy_rte_flow_agectx env c s = Some s' \<Longrightarrow> fs_vnf s' = fs_vnf s"
proof (rule postD [where Q = "\<lambda>s'. fs_vnf s' = fs_vnf s"])
  have del: "dp_del_rte_age_ctx p ctx s = Some (r, s') \<Longrightarrow> fs_vnf s' = fs_vnf s" for p ctx r and s s' :: "('a, 'b) flow_state_scheme"
    by (auto simp: dp_del_rte_age_ctx_def bind_eq_Some_conv split: if_splits)
  show "post (dp_destroy_rte_flow_agectx env c s) (\<lambda>s'. fs_vnf s' = fs_vnf s)"
    unfolding dp_destroy_rte_flow_agectx_def
    by (intro vcg) (auto simp: bind_eq_Some_conv dest!: del flow_ref_dec_frame split: option.splits)
qed

lemma remove_slots_frame: "remove_slots env p js s = Some s' \<Longrightarrow> fs_vnf s' = fs_vnf s"
proof (induction js arbitrary: s)
  case (Cons j js)
  then obtain v :: flow_value and s1 where "dp_destroy_rte_flow_agectx env (fv_rte_age_ctxs v ! j) s = Some s1" "remove_slots env p js s1 = Some s'"
    by (fastforce simp: bind_eq_Some_conv)
  then show ?case
    using Cons.IH agectx_frame by metis
qed simp

lemma dp_remove_flow_frame: "dp_remove_flow env p s = Some s' \<Longrightarrow> fs_vnf s' = fs_vnf s"
  by (auto simp: dp_remove_flow_def dp_rte_flow_remove_def dp_age_out_flow_def bind_eq_Some_conv dest!: remove_slots_frame flow_ref_dec_frame
      split: if_splits)

lemma remove_flows_frame:
  assumes "remove_flows env sel s = Some (Some s')"
  shows "fs_vnf s' = fs_vnf s"
proof -
  let ?body = "\<lambda>k p s'. case fs_flow_heap s' p \<bind> (\<lambda>v. if sel k v then dp_remove_flow env p s' else Some s') of None \<Rightarrow> Inl None | Some x \<Rightarrow> Inr x"
  obtain z where z: "rh_foreach (fe_flow env) fs_flow_tbl (\<lambda>_. Some) ?body 0 s = Some z"
      "(case z of Inl res \<Rightarrow> res | Inr s' \<Rightarrow> Some s') = Some s'"
    using assms by (auto simp: remove_flows_def flow_foreach_def)
  have "case z of Inl x \<Rightarrow> \<forall>s'. x = Some s' \<longrightarrow> fs_vnf s' = fs_vnf s | Inr s' \<Rightarrow> fs_vnf s' = fs_vnf s"
    by (rule rh_foreach_inv [OF z(1), where I = "\<lambda>x. fs_vnf x = fs_vnf s"])
      (auto simp: bind_eq_Some_conv dest: dp_remove_flow_frame split: option.splits if_splits)
  with z(2) show ?thesis
    by (cases z) auto
qed

lemma flows_frame [vnf_frame]: "joined (dp_remove_nat_flows env port_id type s) = Some s' \<Longrightarrow> fs_vnf s' = fs_vnf s"
  "joined (dp_remove_neighnat_flows env ip vni min_port max_port s) = Some s' \<Longrightarrow> fs_vnf s' = fs_vnf s"
  "joined (dp_remove_iface_flows env port_id ip vni s) = Some s' \<Longrightarrow> fs_vnf s' = fs_vnf s"
  by (auto simp: joined_def bind_eq_Some_conv dp_remove_nat_flows_def dp_remove_neighnat_flows_def dp_remove_iface_flows_def dest: remove_flows_frame)

section \<open>Underlay addresses\<close>

text \<open>The underlay addresses in use, with the function each stands for.\<close>

definition uls :: "('t, 'r4, 'r6, 'd) grpc_env \<Rightarrow> ('t, 'r4, 'r6, 'd) grpc_state \<Rightarrow> ipv6_addr \<rightharpoonup> dp_vnf" where
  "uls env s = handle_view (fe_vnf env) (fs_vnf s)"

definition uls_ok :: "('t, 'r4, 'r6, 'd) grpc_env \<Rightarrow> ('t, 'r4, 'r6, 'd) grpc_state \<Rightarrow> bool" where
  "uls_ok env s \<longleftrightarrow> vnf_tables_ok (fe_vnf env) (fs_vnf s)"

lemma uls_cong: "fs_vnf s' = fs_vnf s \<Longrightarrow> uls env s' = uls env s" "fs_vnf s' = fs_vnf s \<Longrightarrow> uls_ok env s' = uls_ok env s"
  by (simp_all add: uls_def uls_ok_def)

text \<open>The requests that hand out an address, and the address in a reply.\<close>

definition hands_out :: "dpgrpc_request \<Rightarrow> bool" where
  "hands_out request =
     (case request of
        DP_REQ_TYPE_CreateInterface _ \<Rightarrow> True | DP_REQ_TYPE_CreatePrefix _ _ _ \<Rightarrow> True | DP_REQ_TYPE_CreateVip _ _ \<Rightarrow> True
      | DP_REQ_TYPE_CreateNat _ _ _ _ \<Rightarrow> True | DP_REQ_TYPE_CreateLoadBalancer _ \<Rightarrow> True | DP_REQ_TYPE_CreateLoadBalancerPrefix _ _ _ \<Rightarrow> True
      | _ \<Rightarrow> False)"

fun reply_ul :: "dpgrpc_reply_msg \<Rightarrow> ipv6_addr option" where
  "reply_ul (Ul_addr ul) = Some ul"
| "reply_ul (Vf_pci name ul) = Some ul"
| "reply_ul (Trgt_addr addr) = Some (ip_ipv6 addr)"
| "reply_ul _ = None"

definition ul_new :: "('t, 'r4, 'r6, 'd) grpc_env \<Rightarrow> ('t, 'r4, 'r6, 'd) grpc_state \<Rightarrow> int \<Rightarrow> ipv6_addr option \<Rightarrow> ('t, 'r4, 'r6, 'd) grpc_state \<Rightarrow> bool" where
  "ul_new env s ret ul s' \<longleftrightarrow> uls_ok env s' \<and>
     (if ret < 0 then uls env s' = uls env s
      else \<exists>a v. ul = Some a \<and> uls env s a = None \<and> uls env s' = (uls env s)(a \<mapsto> v))"

definition ul_less :: "('t, 'r4, 'r6, 'd) grpc_env \<Rightarrow> ('t, 'r4, 'r6, 'd) grpc_state \<Rightarrow> ('t, 'r4, 'r6, 'd) grpc_state \<Rightarrow> bool" where
  "ul_less env s s' \<longleftrightarrow> uls_ok env s' \<and> uls env s' \<subseteq>\<^sub>m uls env s"

lemma generate_frame: "fs_vnf (snd (dp_generate_underlay_ipv6 env s)) = fs_vnf s"
  by (auto simp: dp_generate_underlay_ipv6_def on_drv_def Let_def split: prod.splits)

lemma create_vnf_route_ul:
  assumes ok: "uls_ok env s" and route: "dp_create_vnf_route env type vni port_id ip len s = (ret, ul, s1)"
  shows "ul_new env s ret (Some ul) s1"
proof -
  obtain s0 where gen: "dp_generate_underlay_ipv6 env s = (ul, s0)" and vnf: "fs_vnf s0 = fs_vnf s"
      and add: "dp_add_vnf (fe_vnf env) ul type port_id vni ip len (fs_vnf s0) = (ret, fs_vnf s1)"
    using route generate_frame [of env s] by (auto simp: dp_create_vnf_route_def on_vnf_def Let_def split: prod.splits)
  from ok have "vnf_tables_ok (fe_vnf env) (fs_vnf s)" by (simp add: uls_ok_def)
  from this add [unfolded vnf] refl show ?thesis
    by (cases rule: dp_add_vnf_cases) (auto simp: ul_new_def uls_def uls_ok_def)
qed

lemma del_vnf_ul:
  assumes "uls_ok env s"
  shows "uls_ok env (del_vnf env ul s)" "uls env (del_vnf env ul s) = (uls env s)(ul := None)"
proof -
  obtain r v where d: "dp_del_vnf (fe_vnf env) ul (fs_vnf s) = (r, v)" by fastforce
  from dp_del_vnf_eq [OF _ d] assms show "uls_ok env (del_vnf env ul s)" "uls env (del_vnf env ul s) = (uls env s)(ul := None)"
    by (simp_all add: uls_ok_def uls_def del_vnf_def on_vnf_def d)
qed

lemma ul_new_undo:
  assumes "ul_new env s ret (Some ul) s1" "\<not> ret < 0" "fs_vnf s2 = fs_vnf s1" "e < 0"
  shows "ul_new env s e x (del_vnf env ul s2)"
proof -
  obtain v where v: "uls_ok env s2" "uls env s ul = None" "uls env s2 = (uls env s)(ul \<mapsto> v)"
    using assms by (auto simp: ul_new_def uls_def uls_ok_def)
  then show ?thesis
    using del_vnf_ul [OF v(1), of ul] assms(4) by (auto simp: ul_new_def)
qed

lemma ul_new_failed: "ul_new env s ret ul s1 \<Longrightarrow> ret < 0 \<Longrightarrow> fs_vnf s2 = fs_vnf s1 \<Longrightarrow> e < 0 \<Longrightarrow> ul_new env s e x s2"
  by (simp add: ul_new_def uls_def uls_ok_def)

lemma ul_new_done: "ul_new env s ret ul s1 \<Longrightarrow> \<not> ret < 0 \<Longrightarrow> fs_vnf s2 = fs_vnf s1 \<Longrightarrow> 0 \<le> e \<Longrightarrow> ul_new env s e ul s2"
  by (auto simp: ul_new_def uls_def uls_ok_def)

lemma ul_new_same: "uls_ok env s \<Longrightarrow> fs_vnf s2 = fs_vnf s \<Longrightarrow> e < 0 \<Longrightarrow> ul_new env s e x s2"
  by (simp add: ul_new_def uls_def uls_ok_def)

lemma ul_new_start: "fs_vnf s1 = fs_vnf s \<Longrightarrow> ul_new env s1 ret ul s2 \<Longrightarrow> ul_new env s ret ul s2"
  using uls_cong(1) [of s1 s env] by (auto simp: ul_new_def split: if_splits)

lemma ul_less_same: "uls_ok env s \<Longrightarrow> fs_vnf s' = fs_vnf s \<Longrightarrow> ul_less env s s'"
  by (simp add: ul_less_def uls_def uls_ok_def)

lemma ul_less_del: "uls_ok env s \<Longrightarrow> fs_vnf s1 = fs_vnf s \<Longrightarrow> fs_vnf s2 = fs_vnf (del_vnf env ul s1) \<Longrightarrow> ul_less env s s2"
  using del_vnf_ul [of env s1 ul] by (auto simp: ul_less_def uls_def uls_ok_def map_le_def)

subsection \<open>Handlers\<close>

lemma with_port_post:
  "Q (err, No_reply, s) \<Longrightarrow> (\<And>i port. port_at i s = Some port \<Longrightarrow> post (f i port) Q) \<Longrightarrow> post (with_port env key err f s) Q"
  unfolding with_port_def by (intro vcg) auto

lemma with_snat_post:
  "Q (DP_GRPC_ERR_SNAT_NO_DATA, No_reply, s) \<Longrightarrow> (\<And>d. post (f d) Q) \<Longrightarrow> post (with_snat env sel port f s) Q"
  unfolding with_snat_def by (intro vcg) auto

abbreviation new_post :: "('t, 'r4, 'r6, 'd) grpc_env \<Rightarrow> ('t, 'r4, 'r6, 'd) grpc_state \<Rightarrow> int \<times> dpgrpc_reply_msg \<times> ('t, 'r4, 'r6, 'd) grpc_state \<Rightarrow> bool" where
  "new_post env s x \<equiv> ul_new env s (fst x) (reply_ul (fst (snd x))) (snd (snd x))"

abbreviation less_post :: "('t, 'r4, 'r6, 'd) grpc_env \<Rightarrow> ('t, 'r4, 'r6, 'd) grpc_state \<Rightarrow> int \<times> dpgrpc_reply_msg \<times> ('t, 'r4, 'r6, 'd) grpc_state \<Rightarrow> bool" where
  "less_post env s x \<equiv> ul_less env s (snd (snd x))"

lemmas ul_rules = ul_new_failed [OF create_vnf_route_ul] ul_new_undo [OF create_vnf_route_ul] ul_new_done [OF create_vnf_route_ul] ul_new_same

lemma create_lb_ul: "uls_ok env s \<Longrightarrow> post (dp_process_create_lb env lb s) (new_post env s)"
  unfolding dp_process_create_lb_def
  by (intro vcg; simp; rule ul_rules; assumption?; auto dest!: vnf_frame)

lemma create_vip_ul: "uls_ok env s \<Longrightarrow> post (dp_process_create_vip env key addr s) (new_post env s)"
  unfolding dp_process_create_vip_def
  by (rule with_port_post, simp add: ul_new_same, intro vcg; simp; rule ul_rules; assumption?; auto dest!: vnf_frame)

lemma create_nat_ul: "uls_ok env s \<Longrightarrow> post (dp_process_create_nat env key addr min_port max_port s) (new_post env s)"
  unfolding dp_process_create_nat_def
  by (rule with_port_post, simp add: ul_new_same, intro vcg; simp; rule ul_rules; assumption?; auto dest!: vnf_frame)

lemma create_lbprefix_ul: "uls_ok env s \<Longrightarrow> post (dp_process_create_lbprefix env key addr len s) (new_post env s)"
  unfolding dp_process_create_lbprefix_def
  by (rule with_port_post, simp add: ul_new_same, intro vcg; simp; rule ul_rules; assumption?; auto dest!: vnf_frame)

lemma create_vnf_route_ul_after:
  "uls_ok env s \<Longrightarrow> fs_vnf s0 = fs_vnf s \<Longrightarrow> dp_create_vnf_route env type vni port_id ip len s0 = (ret, ul, s1) \<Longrightarrow> ul_new env s ret (Some ul) s1"
  using ul_new_start create_vnf_route_ul uls_cong(2) by metis

lemma create_prefix_ul: "uls_ok env s \<Longrightarrow> post (dp_process_create_prefix env key addr len s) (new_post env s)"
  unfolding dp_process_create_prefix_def
  apply (rule with_port_post, simp add: ul_new_same)
  apply (intro vcg; simp)
  subgoal by (erule ul_new_same) (auto dest!: vnf_frame)
  subgoal by (frule route_frame(1), rule ul_new_failed [OF create_vnf_route_ul_after]; assumption?; auto dest!: vnf_frame)
  subgoal by (frule route_frame(1), rule ul_new_done [OF create_vnf_route_ul_after]; assumption?; auto dest!: vnf_frame)
  done

lemma fs_vnf_del_vnf [simp]: "fs_vnf (del_vnf env ul s) = snd (dp_del_vnf (fe_vnf env) ul (fs_vnf s))"
  by (simp add: del_vnf_def on_vnf_def split: prod.splits)

lemma rollback_vnf:
  "handle_err env request ul e s = Some (r, m, s') \<Longrightarrow> r = e \<and> fs_vnf s' = fs_vnf (del_vnf env ul s)"
  "iface_err env request ul i e s = Some (r, m, s') \<Longrightarrow> r = e \<and> fs_vnf s' = fs_vnf (del_vnf env ul s)"
  "route_err env request ul i e s = Some (r, m, s') \<Longrightarrow> r = e \<and> fs_vnf s' = fs_vnf (del_vnf env ul s)"
  "route6_err env request ul i e s = Some (r, m, s') \<Longrightarrow> r = e \<and> fs_vnf s' = fs_vnf (del_vnf env ul s)"
  "meter_err env request ul i e s = Some (r, m, s') \<Longrightarrow> r = e \<and> fs_vnf s' = fs_vnf (del_vnf env ul s)"
  by (auto simp: meter_err_def route6_err_def route_err_def iface_err_def handle_err_def bind_eq_Some_conv dest!: vnf_frame)

lemma ul_new_rollback:
  assumes "uls_ok env s" "dp_create_vnf_route env type vni port_id ip len s = (ret, ul, s1)" "\<not> ret < 0" "fs_vnf s2 = fs_vnf s1" "e < 0"
  shows "post (handle_err env request ul e s2) (new_post env s)" "post (iface_err env request ul i e s2) (new_post env s)"
    "post (route_err env request ul i e s2) (new_post env s)" "post (route6_err env request ul i e s2) (new_post env s)"
    "post (meter_err env request ul i e s2) (new_post env s)"
proof -
  have undo: "ul_new env s e x s'" if "fs_vnf s' = fs_vnf (del_vnf env ul s2)" for x s'
    using ul_new_undo [OF create_vnf_route_ul, OF assms] that by (auto simp: ul_new_def uls_def uls_ok_def)
  show "post (handle_err env request ul e s2) (new_post env s)" "post (iface_err env request ul i e s2) (new_post env s)"
    "post (route_err env request ul i e s2) (new_post env s)" "post (route6_err env request ul i e s2) (new_post env s)"
    "post (meter_err env request ul i e s2) (new_post env s)"
    by (auto simp: post_def dest!: rollback_vnf intro!: undo)
qed

lemma ul_new_trans: "ul_new env s r (Some ul) s1 \<Longrightarrow> \<not> r < 0 \<Longrightarrow> fs_vnf s2 = fs_vnf s1 \<Longrightarrow> ul_new env s 0 (Some ul) s2"
  by (auto simp: ul_new_def uls_def uls_ok_def)

subsection \<open>The port of an interface\<close>

text \<open>What metering, starting and stopping leave alone: everything of the interface but the limits.\<close>

definition same_iface :: "dp_port \<Rightarrow> dp_port \<Rightarrow> bool" where
  "same_iface p q \<longleftrightarrow>
     iface_cfg (port_iface q) = iface_cfg (port_iface p) \<and> iface_vni (port_iface q) = iface_vni (port_iface p)
     \<and> iface_id (port_iface q) = iface_id (port_iface p) \<and> iface_ul_ipv6 (port_iface q) = iface_ul_ipv6 (port_iface p)
     \<and> port_port_id q = port_port_id p \<and> port_is_pf q = port_is_pf p \<and> port_dev_name q = port_dev_name p \<and> port_vf_name q = port_vf_name p"

lemma same_iface_refl [simp]: "same_iface p p"
  by (simp add: same_iface_def)

lemma same_iface_trans: "same_iface p q \<Longrightarrow> same_iface q r \<Longrightarrow> same_iface p r"
  by (simp add: same_iface_def)

lemma meter_same_iface: "dp_port_meter_config env tbl total_cap public_cap p hw = (r, q, hw') \<Longrightarrow> same_iface p q"
  unfolding dp_port_meter_config_def Let_def
  by (auto simp: same_iface_def split: if_splits prod.splits)

lemma vf_init_same_iface: "dp_install_vf_init_rte_rules env p hw = (r, q, hw') \<Longrightarrow> same_iface p q"
  unfolding dp_install_vf_init_rte_rules_def dp_install_jump_rule_in_default_group_def
  by (auto simp: same_iface_def split: option.splits prod.splits)

lemma init_same_iface: "post (dp_init_port env spec pf0 p hw) (\<lambda>(r, q, hw'). same_iface p q)"
  unfolding dp_init_port_def by (intro vcg) (auto dest: vf_init_same_iface)

lemma start_same_iface: "post (dp_start_port env spec pf0 p hw) (\<lambda>(r, q, hw'). same_iface p q)"
  unfolding dp_start_port_def
  by (intro vcg; (drule postD [OF init_same_iface])?; simp add: same_iface_def split: prod.splits if_splits)

lemma port_at_put [simp]: "port_at i s = Some p \<Longrightarrow> port_at i (put_port i q s) = Some q"
  by (auto simp: port_at_def put_port_def dp_get_port_by_id_def split: if_splits)

lemma port_at_hw [simp]: "port_at i (s\<lparr> gs_hw := hw \<rparr>) = port_at i s"
  by (simp add: port_at_def)

lemma on_port_at: "on_port i f s = Some (r, s') \<Longrightarrow> port_at i s = Some p \<Longrightarrow> \<exists>q hw. f p (gs_hw s) = Some (r, q, hw) \<and> port_at i s' = Some q"
  by (auto simp: on_port_def bind_eq_Some_conv)

lemma meter_config_at:
  "meter_config_vf env i total_cap public_cap s = Some (r, s') \<Longrightarrow> port_at i s = Some p \<Longrightarrow> \<exists>q. port_at i s' = Some q \<and> same_iface p q"
  by (auto simp: meter_config_vf_def meter_config_def dest!: on_port_at meter_same_iface split: if_splits)

lemma start_port_at:
  assumes "start_port env i s = Some (r, s')" "port_at i s = Some p"
  shows "\<exists>q. port_at i s' = Some q \<and> same_iface p q"
  using on_port_at [OF assms(1) [unfolded start_port_def] assms(2)] postD [OF start_same_iface] by fastforce

lemma on_vni_at: "on_vni f s = Some (r, s') \<Longrightarrow> port_at i s' = port_at i s"
  by (auto simp: on_vni_def port_at_def bind_eq_Some_conv)

lemma route_step:
  "(if b then Some (r0, s) else on_vni f s) = Some (r, s') \<Longrightarrow> fs_vnf s' = fs_vnf s \<and> (\<forall>i. port_at i s' = port_at i s)"
  by (auto dest: on_table_frame on_vni_at split: if_splits)

lemma meter_step:
  "meter_config_vf env i total_cap public_cap s = Some (r, s') \<Longrightarrow> fs_vnf s' = fs_vnf s \<and> (\<forall>p. port_at i s = Some p \<longrightarrow> (\<exists>q. port_at i s' = Some q \<and> same_iface p q))"
  by (auto dest: vnf_frame meter_config_at)

lemma start_step:
  "start_port env i s = Some (r, s') \<Longrightarrow> fs_vnf s' = fs_vnf s \<and> (\<forall>p. port_at i s = Some p \<longrightarrow> (\<exists>q. port_at i s' = Some q \<and> same_iface p q))"
  by (auto dest: vnf_frame start_port_at)

lemma iface_routes_ul:
  assumes "uls_ok env s0" "dp_create_vnf_route env type vni port_id ip len s0 = (ret, ul, s1)" "\<not> ret < 0" "fs_vnf s = fs_vnf s1"
    and port: "port_at i s = Some p" "iface_ul_ipv6 (port_iface p) = ul"
  shows "post (iface_routes env request ul i s) (new_post env s0)"
proof -
  note rollback = ul_new_rollback [OF assms(1-3)] and new = ul_new_done [OF create_vnf_route_ul, OF assms(1-3)]
  show ?thesis
    unfolding iface_routes_def
    apply (intro vcg; hypsubst; (drule route_step meter_step start_step)+)
    subgoal by (rule rollback) (simp_all add: assms)
    subgoal by (rule rollback) (simp_all add: assms)
    subgoal by (rule rollback) (simp_all add: assms)
    subgoal by (rule rollback) (simp_all add: assms)
    subgoal using port new by (fastforce simp: assms same_iface_def)
    done
qed

lemma create_interface_ul:
  assumes ok: "uls_ok env s"
  shows "post (dp_process_create_interface env request s) (new_post env s)"
  unfolding dp_process_create_interface_def
  apply (intro vcg; hypsubst?; ((drule dp_map_iface_id_frame dp_setup_iface_frame)+)?)
  subgoal by (simp add: ul_new_same ok)
  subgoal by (simp add: ul_new_same ok)
  subgoal by (simp, rule ul_new_failed [OF create_vnf_route_ul, OF ok]) simp_all
  subgoal by (simp, rule ul_new_undo [OF create_vnf_route_ul, OF ok]) simp_all
  subgoal by (rule ul_new_rollback [OF ok]) simp_all
  subgoal by (rule iface_routes_ul [OF ok _ _ _ port_at_put], assumption) (simp_all add: fill_iface_def)
  done

subsection \<open>The other requests\<close>

abbreviation keep_post :: "('t, 'r4, 'r6, 'd) grpc_state \<Rightarrow> int \<times> dpgrpc_reply_msg \<times> ('t, 'r4, 'r6, 'd) grpc_state \<Rightarrow> bool" where
  "keep_post s x \<equiv> fs_vnf (snd (snd x)) = fs_vnf s"

lemma finish_post: "(\<And>r s'. x = Some (r, s') \<Longrightarrow> Q (r, No_reply, s')) \<Longrightarrow> post (finish x) Q"
  unfolding finish_def by (intro vcg) auto

lemma lb_keep:
  "post (dp_process_get_lb env lb_id s) (keep_post s)" "post (dp_process_create_lbtarget env lb_id addr s) (keep_post s)"
  "post (dp_process_delete_lbtarget env lb_id addr s) (keep_post s)" "post (dp_process_list_lbtargets env lb_id s) (keep_post s)"
  unfolding dp_process_get_lb_def dp_process_create_lbtarget_def dp_process_delete_lbtarget_def dp_process_list_lbtargets_def
  by (intro vcg finish_post; auto dest: vnf_frame)+

lemma network_keep:
  "post (dp_process_initialize env s) (keep_post s)" "post (dp_process_check_vniinuse env vni type s) (keep_post s)"
  "post (dp_process_reset_vni env vni type s) (keep_post s)" "post (dp_process_list_routes env vni s) (keep_post s)"
  "post (dp_process_create_route env route s) (keep_post s)" "post (dp_process_delete_route env route s) (keep_post s)"
  unfolding dp_process_initialize_def dp_process_reset_vni_def dp_process_list_routes_def dp_process_create_route_def dp_process_delete_route_def
  subgoal by (intro vcg finish_post) (auto dest: vnf_frame)
  subgoal by (cases type; simp add: dp_process_check_vniinuse_def; intro vcg; simp)
  subgoal by (intro vcg finish_post) (auto dest: vnf_frame)
  subgoal by (intro vcg finish_post) (auto dest: vnf_frame)
  subgoal by (intro vcg finish_post) (auto dest: vnf_frame)
  subgoal by (intro vcg finish_post) (auto dest: vnf_frame)
  done

lemma iface_keep:
  "post (dp_process_get_interface env key s) (keep_post s)" "post (dp_process_list_interfaces env s) (keep_post s)"
  "post (dp_process_list_prefixes env key s) (keep_post s)" "post (dp_process_list_lbprefixes env key s) (keep_post s)"
  "post (dp_process_get_vip env key s) (keep_post s)" "post (dp_process_get_nat env key s) (keep_post s)"
  "post (dp_process_list_fwrules env key s) (keep_post s)" "post (dp_process_get_version env s) (keep_post s)"
  unfolding dp_process_get_interface_def dp_process_list_interfaces_def dp_process_list_prefixes_def dp_process_list_lbprefixes_def
    list_prefixes_of_def dp_process_get_vip_def dp_process_get_nat_def dp_process_list_fwrules_def dp_process_get_version_def
  by (intro vcg with_port_post with_snat_post; simp)+

lemma nat_keep:
  "post (dp_process_create_neighnat env addr vni min_port max_port neigh s) (keep_post s)"
  "post (dp_process_delete_neighnat env addr vni min_port max_port s) (keep_post s)"
  "post (dp_process_list_localnats env addr s) (keep_post s)" "post (dp_process_list_neighnats env addr s) (keep_post s)"
  unfolding dp_process_create_neighnat_def dp_process_delete_neighnat_def dp_process_list_localnats_def dp_process_list_neighnats_def
  by (intro vcg; auto dest!: vnf_frame)+

lemma fwrule_keep:
  "post (process_create_fwrule env key rule s) (keep_post s)" "post (process_delete_fwrule env key rule_id s) (keep_post s)"
  "post (process_get_fwrule env key rule_id s) (keep_post s)"
  unfolding process_create_fwrule_def process_delete_fwrule_def process_get_fwrule_def
  by (intro vcg; auto dest!: vnf_frame)+

lemma capture_keep:
  "post (dp_process_capture_start env capture s) (keep_post s)" "post (dp_process_capture_stop env s) (keep_post s)"
  "post (dp_process_capture_status env s) (keep_post s)"
  unfolding dp_process_capture_start_def dp_process_capture_stop_def dp_process_capture_status_def
  by (intro vcg; auto dest!: vnf_frame)+

text \<open>A request that gives back an address gives back at most that one.\<close>

lemma by_value_ul:
  "on_vnf (dp_del_vnf_by_value (fe_vnf env) type port_id vni prefix len) s = (r, s') \<Longrightarrow> fs_vnf s' = fs_vnf s \<or> (\<exists>ul. fs_vnf s' = fs_vnf (del_vnf env ul s))"
  by (auto simp: on_vnf_def dp_del_vnf_by_value_def Let_def split: prod.splits sum.splits if_splits) (metis snd_conv)+

lemma by_value_less:
  "uls_ok env s \<Longrightarrow> fs_vnf s1 = fs_vnf s \<Longrightarrow> on_vnf (dp_del_vnf_by_value (fe_vnf env) type port_id vni prefix len) s1 = (r, s') \<Longrightarrow> ul_less env s s'"
  by (drule by_value_ul) (auto intro: ul_less_same ul_less_del simp del: fs_vnf_del_vnf)

lemma delete_prefix_ul:
  assumes "uls_ok env s"
  shows "post (dp_process_delete_prefix env key addr len s) (less_post env s)" "post (dp_process_delete_lbprefix env key addr len s) (less_post env s)"
  unfolding dp_process_delete_prefix_def dp_process_delete_lbprefix_def
  subgoal by (intro vcg with_port_post; hypsubst?; simp add: assms ul_less_same; (drule vnf_frame, rule by_value_less [OF assms])?; simp)
  subgoal by (intro vcg with_port_post finish_post; hypsubst?; simp add: assms ul_less_same; (rule by_value_less [OF assms refl])?; simp)
  done

lemma delete_lb_ul: "uls_ok env s \<Longrightarrow> post (dp_process_delete_lb env lb_id s) (less_post env s)"
  unfolding dp_process_delete_lb_def
  by (intro vcg; hypsubst?; simp add: ul_less_same; erule ul_less_del [OF _ refl]; auto dest!: vnf_frame)

lemma delete_vip_ul: "uls_ok env s \<Longrightarrow> post (dp_process_delete_vip env key s) (less_post env s)"
  unfolding dp_process_delete_vip_def
  by (intro vcg with_port_post with_snat_post; hypsubst?; simp add: ul_less_same; erule ul_less_del [OF _ refl]; auto dest!: vnf_frame)

lemma delete_nat_ul: "uls_ok env s \<Longrightarrow> post (dp_process_delete_nat env key s) (less_post env s)"
  unfolding dp_process_delete_nat_def
  by (intro vcg with_port_post with_snat_post; hypsubst?; simp add: ul_less_same; erule ul_less_del [OF _ refl]; auto dest!: vnf_frame)

lemma delete_interface_ul: "uls_ok env s \<Longrightarrow> post (dp_process_delete_interface env key s) (less_post env s)"
  unfolding dp_process_delete_interface_def
  by (intro vcg with_port_post; hypsubst?; simp add: ul_less_same; drule port_request_frame(2), erule (1) ul_less_del; auto dest!: vnf_frame)

lemma post_less: "post x (keep_post s) \<Longrightarrow> uls_ok env s \<Longrightarrow> post x (less_post env s)"
  by (auto simp: post_def intro: ul_less_same)

lemmas keeps = lb_keep network_keep iface_keep nat_keep fwrule_keep capture_keep

lemma process_request_ul:
  assumes "uls_ok env s"
  shows "post (process_request env request s) (if hands_out request then new_post env s else less_post env s)"
  using assms
  by (cases request; simp add: process_request_def hands_out_def create_interface_ul create_prefix_ul create_vip_ul create_nat_ul create_lb_ul
      create_lbprefix_ul delete_prefix_ul delete_lb_ul delete_vip_ul delete_nat_ul delete_interface_ul keeps [THEN post_less] post_Some ul_less_same)

section \<open>The tables of network functions\<close>

text \<open>
  The tie between the two tables that every request keeps: a load balancer prefix is the one type of function that is only added
  after a test of the value table.
\<close>

definition vnf_tied :: "('t, 'r4, 'r6, 'd) grpc_env \<Rightarrow> ('t, 'r4, 'r6, 'd) grpc_state \<Rightarrow> bool" where
  "vnf_tied env s \<longleftrightarrow> vnf_ok (fe_vnf env) {DP_VNF_TYPE_LB_ALIAS_PFX} (fs_vnf s)"

abbreviation tied_post :: "('t, 'r4, 'r6, 'd) grpc_env \<Rightarrow> int \<times> dpgrpc_reply_msg \<times> ('t, 'r4, 'r6, 'd) grpc_state \<Rightarrow> bool" where
  "tied_post env x \<equiv> vnf_tied env (snd (snd x))"

lemma tied_same: "vnf_tied env s \<Longrightarrow> fs_vnf s' = fs_vnf s \<Longrightarrow> vnf_tied env s'"
  by (simp add: vnf_tied_def)

lemma tied_del: "vnf_tied env s \<Longrightarrow> fs_vnf s' = fs_vnf (del_vnf env ul s) \<Longrightarrow> vnf_tied env s'"
  using dp_del_vnf_ok [of "fe_vnf env" _ "fs_vnf s" ul] by (auto simp: vnf_tied_def intro: prod.collapse [symmetric])

lemma tied_by_value: "vnf_tied env s \<Longrightarrow> on_vnf (dp_del_vnf_by_value (fe_vnf env) type port_id vni prefix len) s = (r, s') \<Longrightarrow> vnf_tied env s'"
  by (drule by_value_ul) (auto intro: tied_same tied_del simp del: fs_vnf_del_vnf)

lemma tied_create:
  assumes "vnf_tied env s" "type = DP_VNF_TYPE_LB_ALIAS_PFX \<longrightarrow> \<not> dp_vnf_lbprefix_exists (fe_vnf env) port_id vni ip len (fs_vnf s)"
    and "dp_create_vnf_route env type vni port_id ip len s = (ret, ul, s1)" "fs_vnf s2 = fs_vnf s1"
  shows "vnf_tied env s2"
proof -
  have add: "dp_add_vnf (fe_vnf env) ul type port_id vni ip len (fs_vnf s) = (ret, fs_vnf s1)"
    using assms(3) generate_frame [of env s] by (auto simp: dp_create_vnf_route_def on_vnf_def Let_def split: prod.splits)
  have "vnf_step (fe_vnf env) {DP_VNF_TYPE_LB_ALIAS_PFX} (fs_vnf s) (fs_vnf s1)"
    using assms(2) by (intro vnf_step.added [OF _ add]) (auto simp: dp_vnf_lbprefix_exists_def)
  from vnf_step_ok [OF this] assms(1,4) show ?thesis
    by (simp add: vnf_tied_def)
qed

lemma tied_undo:
  assumes "vnf_tied env s" "type = DP_VNF_TYPE_LB_ALIAS_PFX \<longrightarrow> \<not> dp_vnf_lbprefix_exists (fe_vnf env) port_id vni ip len (fs_vnf s)"
    and "dp_create_vnf_route env type vni port_id ip len s = (ret, ul, s1)" "fs_vnf s2 = fs_vnf (del_vnf env ul' s3)" "fs_vnf s3 = fs_vnf s1"
  shows "vnf_tied env s2"
  using tied_del [OF tied_create [OF assms(1,2,3,5)] assms(4)] .

lemma create_tied:
  assumes "vnf_tied env s"
  shows "post (dp_process_create_lb env lb s) (tied_post env)" "post (dp_process_create_vip env key addr s) (tied_post env)"
    "post (dp_process_create_nat env key addr min_port max_port s) (tied_post env)"
    "post (dp_process_create_lbprefix env key addr len s) (tied_post env)"
  unfolding dp_process_create_lb_def dp_process_create_vip_def dp_process_create_nat_def dp_process_create_lbprefix_def
  subgoal by (intro vcg; simp; (rule tied_same [OF assms] tied_create [OF assms] tied_undo [OF assms]; assumption?; auto dest!: vnf_frame; fail))
  by (rule with_port_post, simp add: assms, intro vcg; simp; (rule tied_same [OF assms] tied_create [OF assms] tied_undo [OF assms]; assumption?; auto dest!: vnf_frame; fail))+

lemma create_prefix_tied:
  assumes "vnf_tied env s"
  shows "post (dp_process_create_prefix env key addr len s) (tied_post env)"
  unfolding dp_process_create_prefix_def
  apply (rule with_port_post, simp add: assms)
  apply (intro vcg; simp)
  subgoal by (rule tied_same [OF assms]) (auto dest!: vnf_frame)
  subgoal by (frule route_frame(1), rule tied_create [OF tied_same [OF assms]]; assumption?; auto dest!: vnf_frame)
  subgoal by (frule route_frame(1), rule tied_create [OF tied_same [OF assms]]; assumption?; auto dest!: vnf_frame)
  done

lemma tied_rollback:
  assumes "vnf_tied env s"
  shows "post (handle_err env request ul e s) (tied_post env)" "post (iface_err env request ul i e s) (tied_post env)"
    "post (route_err env request ul i e s) (tied_post env)" "post (route6_err env request ul i e s) (tied_post env)"
    "post (meter_err env request ul i e s) (tied_post env)"
  by (auto simp: post_def dest!: rollback_vnf intro!: tied_del [OF assms] simp del: fs_vnf_del_vnf)

lemma iface_routes_tied:
  assumes tied: "vnf_tied env s" and port: "port_at i s = Some p"
  shows "post (iface_routes env request ul i s) (tied_post env)"
  unfolding iface_routes_def
  apply (intro vcg; hypsubst; (drule route_step meter_step start_step)+)
  subgoal by (rule tied_rollback, rule tied_same [OF tied]) (simp_all add: port)
  subgoal by (rule tied_rollback, rule tied_same [OF tied]) (simp_all add: port)
  subgoal by (rule tied_rollback, rule tied_same [OF tied]) (simp_all add: port)
  subgoal by (rule tied_rollback, rule tied_same [OF tied]) (simp_all add: port)
  subgoal using port by (fastforce intro: tied_same [OF tied])
  done

lemma create_interface_tied:
  assumes tied: "vnf_tied env s"
  shows "post (dp_process_create_interface env request s) (tied_post env)"
  unfolding dp_process_create_interface_def
  apply (intro vcg; hypsubst?; ((drule dp_map_iface_id_frame dp_setup_iface_frame)+)?)
  subgoal by (simp add: tied)
  subgoal by (simp add: tied)
  subgoal by (simp, rule tied_create [OF tied]) simp_all
  subgoal by (simp, rule tied_undo [OF tied]) simp_all
  subgoal by (rule tied_rollback, rule tied_create [OF tied]) simp_all
  subgoal by (rule iface_routes_tied [OF tied_create [OF tied] port_at_put]) simp_all
  done

lemma delete_tied:
  assumes tied: "vnf_tied env s"
  shows "post (dp_process_delete_prefix env key addr len s) (tied_post env)" "post (dp_process_delete_lbprefix env key addr len s) (tied_post env)"
    "post (dp_process_delete_lb env lb_id s) (tied_post env)" "post (dp_process_delete_vip env key s) (tied_post env)"
    "post (dp_process_delete_nat env key s) (tied_post env)" "post (dp_process_delete_interface env key s) (tied_post env)"
  unfolding dp_process_delete_prefix_def dp_process_delete_lbprefix_def dp_process_delete_lb_def dp_process_delete_vip_def
    dp_process_delete_nat_def dp_process_delete_interface_def
  subgoal by (intro vcg with_port_post; hypsubst?; simp add: tied; (drule vnf_frame, rule tied_by_value [OF tied_same [OF tied]])?; simp)
  subgoal by (intro vcg with_port_post finish_post; hypsubst?; simp add: tied; (rule tied_by_value [OF tied])?; simp)
  subgoal by (intro vcg; hypsubst?; simp add: tied; rule tied_del [OF tied]; auto dest!: vnf_frame)
  subgoal by (intro vcg with_port_post with_snat_post; hypsubst?; simp add: tied; rule tied_del [OF tied]; auto dest!: vnf_frame)
  subgoal by (intro vcg with_port_post with_snat_post; hypsubst?; simp add: tied; rule tied_del [OF tied]; auto dest!: vnf_frame)
  subgoal by (intro vcg with_port_post; hypsubst?; simp add: tied; drule port_request_frame(2), rule tied_del [OF tied_same [OF tied]]; auto dest!: vnf_frame)
  done

lemma post_tied: "post x (keep_post s) \<Longrightarrow> vnf_tied env s \<Longrightarrow> post x (tied_post env)"
  by (auto simp: post_def intro: tied_same)

lemma process_request_tied:
  assumes "vnf_tied env s"
  shows "post (process_request env request s) (tied_post env)"
  using assms
  by (cases request; simp add: process_request_def create_interface_tied create_prefix_tied create_tied delete_tied keeps [THEN post_tied] post_Some)

text \<open>The histories of the service: requests answered one after the other.\<close>

inductive request_step :: "('t, 'r4, 'r6, 'd) grpc_env \<Rightarrow> ('t, 'r4, 'r6, 'd) grpc_state \<Rightarrow> ('t, 'r4, 'r6, 'd) grpc_state \<Rightarrow> bool" for env where
  "process_request env request s = Some (ret, reply, s') \<Longrightarrow> request_step env s s'"

lemma request_steps_tied: "(request_step env)\<^sup>*\<^sup>* s s' \<Longrightarrow> vnf_tied env s \<Longrightarrow> vnf_tied env s'"
  by (induction rule: rtranclp_induct) (auto elim!: request_step.cases dest: postD [OF process_request_tied])

section \<open>Reading back\<close>

lemma id_table_frame:
  "on_vni f s = Some (a, s') \<Longrightarrow> gs_iface_id_table s' = gs_iface_id_table s"
  "on_port i g s = Some (r, s') \<Longrightarrow> gs_iface_id_table s' = gs_iface_id_table s"
  by (auto simp: on_vni_def on_port_def bind_eq_Some_conv)

lemma id_table_step:
  "(if b then Some (r0, s) else on_vni f s) = Some (r, s') \<Longrightarrow> gs_iface_id_table s' = gs_iface_id_table s"
  "meter_config_vf env i total_cap public_cap s = Some (r, s') \<Longrightarrow> gs_iface_id_table s' = gs_iface_id_table s"
  "start_port env i s = Some (r, s') \<Longrightarrow> gs_iface_id_table s' = gs_iface_id_table s"
  by (auto simp: meter_config_vf_def meter_config_def start_port_def bind_eq_Some_conv dest: id_table_frame split: if_splits)

lemma iface_routes_ok:
  "post (iface_routes env request ul i s) (\<lambda>(r, m, s'). \<not> r < 0 \<longrightarrow> gs_iface_id_table s' = gs_iface_id_table s \<and>
     (\<forall>p. port_at i s = Some p \<longrightarrow> (\<exists>q. port_at i s' = Some q \<and> same_iface p q \<and> reply_ul m = Some (iface_ul_ipv6 (port_iface q)))))"
  unfolding iface_routes_def
  apply (intro vcg; hypsubst; (frule id_table_step, drule route_step meter_step start_step)+)
  subgoal by (auto simp: post_def dest!: rollback_vnf)
  subgoal by (auto simp: post_def dest!: rollback_vnf)
  subgoal by (auto simp: post_def dest!: rollback_vnf)
  subgoal by (auto simp: post_def dest!: rollback_vnf)
  subgoal by (auto intro: same_iface_trans)
  done

lemma dp_map_iface_id_ok:
  assumes "rte_hash_ok (ge_iface_id env)" "dp_map_iface_id env key i s = Some (r, s')" "\<not> r < 0"
  shows "rh_view (ge_iface_id env) (gs_iface_id_table s') key = Some (unat i) \<and> (\<exists>p. port_at i s' = Some p \<and> iface_id (port_iface p) = key)"
proof -
  obtain r0 tbl where add: "rh_add_data (ge_iface_id env) (gs_iface_id_table s) key (unat i) = (r0, tbl)"
    by fastforce
  with assms(2,3) obtain p where "\<not> r0 < 0" "port_at i s = Some p"
      "s' = put_port i (upd_iface (\<lambda>f. f\<lparr> iface_id := key \<rparr>) p) (s\<lparr> gs_iface_id_table := tbl \<rparr>)"
    by (auto simp: dp_map_iface_id_def Let_def bind_eq_Some_conv port_at_def split: if_splits)
  moreover from this have "port_at i (s\<lparr> gs_iface_id_table := tbl \<rparr>) = Some p"
    by (simp add: port_at_def)
  moreover have "r0 = 0 \<and> rh_view (ge_iface_id env) tbl = (rh_view (ge_iface_id env) (gs_iface_id_table s))(key \<mapsto> unat i)"
    using rh_add_data_cases [OF assms(1) add] \<open>\<not> r0 < 0\<close> by metis
  ultimately show ?thesis
    by simp
qed

lemma dp_setup_iface_ok:
  assumes "dp_setup_iface env i vni s = Some (r, s')" "\<not> r < 0" "port_at i s = Some p"
  shows "gs_iface_id_table s' = gs_iface_id_table s \<and>
    port_at i s' = Some (upd_iface (\<lambda>f. f\<lparr> iface_vni := vni, iface_ready := True \<rparr>) (dp_init_firewall_rules p))"
  using assms by (auto simp: dp_setup_iface_def bind_eq_Some_conv on_vni_at id_table_frame split: if_splits)

text \<open>The port of an interface as the request for it wants it.\<close>

definition serves_iface :: "('t, 'r4, 'r6, 'd) grpc_env \<Rightarrow> dpgrpc_iface \<Rightarrow> int \<times> dpgrpc_reply_msg \<times> ('t, 'r4, 'r6, 'd) grpc_state \<Rightarrow> bool" where
  "serves_iface env request = (\<lambda>(r, m, s').
     \<exists>i q. dp_get_port_with_iface_id env (gi_iface_id request) s' = Some i \<and> port_at i s' = Some q \<and> iface_id (port_iface q) = gi_iface_id request \<and>
       port_vni q = gi_vni request \<and> own_ip q = gi_ip4_addr request \<and> cfg_dhcp_ipv6 (iface_cfg (port_iface q)) = gi_ip6_addr request \<and>
       reply_ul m = Some (iface_ul_ipv6 (port_iface q)))"

lemma iface_routes_serves:
  fixes env :: "('t, 'r4, 'r6, 'd) grpc_env"
  assumes ids: "rte_hash_ok (ge_iface_id env)"
    and map: "dp_map_iface_id env (gi_iface_id request) i s1 = Some (r2, s2)" "\<not> r2 < 0"
    and iface: "dp_setup_iface env i (gi_vni request) s2 = Some (r3, s3)" "\<not> r3 < 0" "port_at i s3 = Some port3"
  shows "post (iface_routes env request ul i (put_port i (fill_iface request ul port3) s3)) (\<lambda>x. \<not> fst x < 0 \<longrightarrow> serves_iface env request x)"
proof (rule post_mono [OF iface_routes_ok], clarify)
  obtain p2 where p2: "port_at i s2 = Some p2" "iface_id (port_iface p2) = gi_iface_id request"
      "rh_view (ge_iface_id env) (gs_iface_id_table s2) (gi_iface_id request) = Some (unat i)"
    using dp_map_iface_id_ok [OF ids map] by blast
  note p3 = dp_setup_iface_ok [OF iface(1,2) p2(1)]
  fix r :: int and m and s' :: "('t, 'r4, 'r6, 'd) grpc_state"
  assume ok: "\<not> r < 0 \<longrightarrow> gs_iface_id_table s' = gs_iface_id_table (put_port i (fill_iface request ul port3) s3) \<and>
       (\<forall>p. port_at i (put_port i (fill_iface request ul port3) s3) = Some p \<longrightarrow>
          (\<exists>q. port_at i s' = Some q \<and> same_iface p q \<and> reply_ul m = Some (iface_ul_ipv6 (port_iface q))))"
    and r: "\<not> fst (r, m, s') < 0"
  then obtain q where q: "port_at i s' = Some q" "same_iface (fill_iface request ul port3) q" "reply_ul m = Some (iface_ul_ipv6 (port_iface q))"
    using iface(3) by (auto simp del: put_port_fields)
  moreover have "dp_get_port_with_iface_id env (gi_iface_id request) s' = Some i"
    using ok r p2(3) p3 by (simp add: dp_get_port_with_iface_id_def rh_lookup_view [OF ids])
  ultimately show "serves_iface env request (r, m, s')"
    using p2(2) p3 iface(3) by (auto simp: serves_iface_def same_iface_def fill_iface_def dp_init_firewall_rules_def)
qed

lemma dp_process_create_interface_ok:
  assumes ids: "rte_hash_ok (ge_iface_id env)"
  shows "post (dp_process_create_interface env request s) (\<lambda>x. \<not> fst x < 0 \<longrightarrow> serves_iface env request x)"
  unfolding dp_process_create_interface_def
  apply (intro vcg; hypsubst?)
  subgoal by simp
  subgoal by simp
  subgoal by simp
  subgoal by simp
  subgoal by (auto simp: post_def dest!: rollback_vnf)
  subgoal by (rule iface_routes_serves [OF ids]; (assumption | simp))
  done

section \<open>A concrete service\<close>

text \<open>Two physical ports and a virtual function, all of them software ports without hardware rules.\<close>

definition tap_port_env :: "unit port_env" where
  "tap_port_env = list_port_env\<lparr> pe_nic_type := DP_CONF_NIC_TYPE_TAP, pe_offload := False \<rparr>"

definition list_grpc_env :: "(list_table, u32 list_rib, ipv6_addr list_rib, unit) grpc_env" where
  "list_grpc_env = \<lparr> fe_flow = list_hash enc_flow_key dec_flow_key, fe_flow_malloc = first_free,
     fe_nat = list_nat_env, fe_vnf = list_vnf_env, fe_age_query = (\<lambda>_ _. (0, 0)),
     ge_iface_id = list_hash enc_string dec_string, ge_vni = list_vni_env, ge_lb = list_lb_env, ge_port = tap_port_env,
     ge_underlay_ip = 0xFD000000000000000000000000000001, ge_rand = (\<lambda>d. (7, d)), ge_alloc = (\<lambda>d. (True, d)),
     ge_specs = (\<lparr> eth_dst_addr = 0, eth_src_addr = 0, eth_ether_type = 0 \<rparr>, \<lparr> i6_src_addr = 0, i6_dst_addr = 0, i6_proto = 0 \<rparr>),
     ge_udp_hdr = \<lparr> uh_src_port = 0, uh_dst_port = 0, uh_dgram_len = 0, uh_dgram_cksum = 0 \<rparr>, ge_lb_reply = example_lb, ge_sizeof = (\<lambda>_. 64), ge_rep_max_size = 1500, ge_mempool = [],
     ge_version = ''1'' \<rparr>"

definition example_grpc_state :: "(list_table, u32 list_rib, ipv6_addr list_rib, unit) grpc_state" where
  "example_grpc_state = \<lparr> fs_flow_tbl = [], fs_flow_heap = Map.empty, fs_age_heap = Map.empty, fs_offload = True,
     fs_cache = empty_cache, fs_nat = empty_nat_state, fs_vnf = empty_vnf_state,
     fs_ports = [Some (zero_port\<lparr> port_is_pf := True \<rparr>), Some (zero_port\<lparr> port_is_pf := True, port_port_id := 1 \<rparr>),
       Some (zero_port\<lparr> port_port_id := 2, port_vf_name := ''vf_0'', port_dev_name := ''vf'' \<rparr>)],
     fs_pf_ports = [0, 1],
     gs_iface_id_table = [], gs_vni = no_vnis [], gs_lb = empty_lb_state, gs_hw = empty_hw, gs_dp_ports = [0, 1, 2], gs_pfx_counter = 0,
     gs_capture_hdr_config = dp_set_capture_hdr_config 0 0 0, gs_capture_enabled = False \<rparr>"

definition example_iface :: dpgrpc_iface where
  "example_iface = \<lparr> gi_iface_id = ''vm'', gi_ip4_addr = 10, gi_ip6_addr = 0, gi_vni = 100, gi_pxe_addr = zero_ip, gi_pxe_str = [],
     gi_pci_name = ''vf'', gi_ul_addr6 = 0, gi_total_flow_rate_cap = 0, gi_public_flow_rate_cap = 0 \<rparr>"

definition example_vf :: dp_port where
  "example_vf = zero_port\<lparr> port_port_id := 2, port_vf_name := ''vf_0'', port_dev_name := ''vf'' \<rparr>"

lemma example_env [simp]: "ge_port list_grpc_env = tap_port_env" "ge_vni list_grpc_env = list_vni_env" "fe_vnf list_grpc_env = list_vnf_env"
  "ge_lb list_grpc_env = list_lb_env" "ge_iface_id list_grpc_env = list_hash enc_string dec_string"
  by (simp_all add: list_grpc_env_def)

lemma example_state: "port_at 2 example_grpc_state = Some example_vf" "gs_vni example_grpc_state = no_vnis []" "gs_iface_id_table example_grpc_state = []"
   "gs_hw example_grpc_state = empty_hw" "fs_pf_ports example_grpc_state = [0, 1]" "fs_vnf example_grpc_state = empty_vnf_state"
  "gs_lb example_grpc_state = empty_lb_state" "dp_get_port_by_name tap_port_env ''vf'' (fs_ports example_grpc_state) = Some example_vf"
  by (simp_all add: example_grpc_state_def port_at_def dp_get_port_by_id_def example_vf_def dp_get_port_by_name_def tap_port_env_def list_port_env_def)

lemma example_vnf_route:
  "\<exists>ul v c. dp_create_vnf_route list_grpc_env type vni port_id ip len example_grpc_state
   = (0, ul, example_grpc_state\<lparr> fs_vnf := v, gs_pfx_counter := c \<rparr>)"
  by (simp add: dp_create_vnf_route_def dp_generate_underlay_ipv6_def on_vnf_def on_drv_def list_grpc_env_def example_grpc_state_def
    dp_add_vnf_def list_vnf_env_def empty_vnf_state_def dp_fill_vnf_data_def Let_def empty_hw_def underlay_ipv6_def drv_def dp_add_vnf_value_def)

lemma example_route: "\<exists>v. dp_add_route list_vni_env port 100 0 10 None 32 example_vni_state = Some (0, v)"
  by (simp add: dp_add_route_def example_vni_state_def dp_create_vni_route_tables_def dp_allocate_vni_route_tables_def dp_create_rib_def
      dp_create_rib6_def list_vni_env_def list_rib_def DP_FAILED_def Let_def dp_get_vni_route4_table_def dp_get_vni_data_def rib_add_route_def lr_exact_def
      vd_rib4_def zero_vni_data_def DP_SOCKETID_def)

lemma example_create_interface:
  "\<exists>name ul s'. process_request list_grpc_env (DP_REQ_TYPE_CreateInterface example_iface) example_grpc_state = Some (0, Vf_pci name ul, s')"
proof -
  obtain ul v c where v: "dp_create_vnf_route list_grpc_env DP_VNF_TYPE_INTERFACE_IP 100 2 zero_ip 0 example_grpc_state
   = (0, ul, example_grpc_state\<lparr> fs_vnf := v, gs_pfx_counter := c \<rparr>)" (is "_ = (_, _, ?s1)") using example_vnf_route by blast
  define port2 where "port2 = upd_iface (\<lambda>f. f\<lparr> iface_id := ''vm'' \<rparr>) example_vf"
  have "\<exists>t. dp_map_iface_id list_grpc_env ''vm'' 2 ?s1 = Some (0, put_port 2 port2 (?s1\<lparr> gs_iface_id_table := t \<rparr>))"
    using example_state
    by (intro exI [of _ "[Some (enc_string ''vm'', 2)]"]) (simp add: dp_map_iface_id_def port_at_def port2_def Let_def)
  then obtain s2 where s2: "dp_map_iface_id list_grpc_env ''vm'' 2 ?s1 = Some (0, s2)" "port_at 2 s2 = Some port2" "gs_vni s2 = no_vnis []" 
     "gs_hw s2 = empty_hw" "fs_pf_ports s2 = [0, 1]"
    using example_state  by (auto simp: port_at_def put_port_def dp_get_port_by_id_def split: if_splits)
  define port3 where "port3 = fill_iface example_iface ul (upd_iface (\<lambda>f. f\<lparr> iface_vni := 100, iface_ready := True \<rparr>) (dp_init_firewall_rules port2))"
  obtain r where r: "dp_add_route list_vni_env port3 100 0 10 None 32 example_vni_state = Some (0, r)"
    using example_route by blast
  obtain s3 where s3: "dp_setup_iface list_grpc_env 2 100 s2 = Some (0, s3)"
    "port_at 2 s3 = Some (upd_iface (\<lambda>f. f\<lparr> iface_vni := 100, iface_ready := True \<rparr>) (dp_init_firewall_rules port2))"
    "gs_vni s3 = example_vni_state" "gs_hw s3 = empty_hw" "fs_pf_ports s3 = [0, 1]"
    using s2 example_vni_create
    by (auto simp: dp_setup_iface_def on_vni_def port_at_def put_port_def dp_get_port_by_id_def port2_def example_vf_def zero_port_def split: if_splits)
  define s4 where "s4 = put_port 2 port3 s3"
  have s4: "port_at 2 s4 = Some port3"  "gs_vni s4 = example_vni_state" "gs_hw s4 = empty_hw" "fs_pf_ports s4 = [0, 1]"
    using s3 by (simp_all add: s4_def port3_def put_port_def port_at_def dp_get_port_by_id_def split: if_splits)
  define s5 where "s5 = s4\<lparr> gs_vni := r \<rparr>"
  have s5: "port_at 2 s5 = Some port3" "gs_hw s5 = empty_hw" "fs_pf_ports s5 = [0, 1]" "\<not> port_is_pf port3"
    using s4 by (simp_all add: s5_def port_at_def port3_def port2_def example_vf_def zero_port_def fill_iface_def dp_init_firewall_rules_def)
  have m: "meter_config_vf list_grpc_env 2 0 0 s5 = Some (0, (put_port 2 port3 s5)\<lparr> gs_hw := empty_hw \<rparr>)"
    using s5 by (simp add: meter_config_vf_def meter_config_def on_port_def dp_port_meter_config_def tap_port_env_def)
  have "\<exists>q s6. start_port list_grpc_env 2 ((put_port 2 port3 s5)\<lparr> gs_hw := empty_hw \<rparr>) = Some (0, s6) \<and> port_at 2 s6 = Some q"
    using s5 by (simp add: start_port_def on_port_def dp_start_port_def dp_init_port_def tap_port_env_def list_port_env_def drv_def empty_hw_def)
  then obtain q s6 where s6: "start_port list_grpc_env 2 ((put_port 2 port3 s5)\<lparr> gs_hw := empty_hw \<rparr>) = Some (0, s6)" "port_at 2 s6 = Some q"
    by blast
  have "iface_routes list_grpc_env example_iface ul 2 s4 = Some (0, Vf_pci (port_vf_name q) (iface_ul_ipv6 (port_iface q)), s6)"
    using s4 r m s6 by (simp add: iface_routes_def example_iface_def on_vni_def s5_def)
  then show ?thesis
    using example_state v s2 s3 by (simp add: process_request_def dp_process_create_interface_def example_iface_def port3_def s4_def example_vf_def zero_port_def)
qed

section \<open>Properties\<close>

text \<open>
  C6: Every response carries 0 or one of the error numbers of the API: whatever the request, the state and the answers of the
  driver, a handler that returns returns success or a documented error, and the assertion in the conversion of the error code
  never fails.
\<close>

theorem reply_code_documented:
  assumes "process_request env request s = Some (ret, reply, s')"
  shows "\<exists>code. dp_process_request env request s = Some (code, reply, s') \<and> (code = 0 \<or> code \<in> fst ` set DP_GRPC_ERRORS)"
  using retsD [OF rets_process_request assms] assms
  by (auto simp: dp_process_request_def dp_errcode_to_grpc_errcode_def grpc_code_def code_defs)

theorem reply_code_documented_witness:
  "\<exists>reply s'. dp_process_request list_grpc_env (DP_REQ_TYPE_CreateInterface example_iface) example_grpc_state = Some (0, reply, s')"
proof -
  obtain name ul s' where run: "process_request list_grpc_env (DP_REQ_TYPE_CreateInterface example_iface) example_grpc_state = Some (0, Vf_pci name ul, s')"
    using example_create_interface by blast
  from reply_code_documented [OF run] run show ?thesis
    by (auto simp: dp_process_request_def)
qed

text \<open>
  C5: Underlay addresses are accounted for, whatever the request and whatever fails in it.  A request that hands out an address and
  succeeds replies with an address not in use before, which is then the only new one; if it fails, at any step, the addresses in use
  and what they stand for are as before.  Any other request adds none and redirects none.  The tables stay well-formed.
\<close>

theorem underlay_addresses_accounted:
  assumes "vnf_tables_ok (fe_vnf env) (fs_vnf s)" "process_request env request s = Some (ret, reply, s')"
  shows "vnf_tables_ok (fe_vnf env) (fs_vnf s') \<and>
    (if hands_out request
     then if DP_FAILED ret then uls env s' = uls env s
          else \<exists>ul vnf. reply_ul reply = Some ul \<and> uls env s ul = None \<and> uls env s' = (uls env s)(ul \<mapsto> vnf)
     else uls env s' \<subseteq>\<^sub>m uls env s)"
  using postD [OF process_request_ul assms(2)] assms(1) by (auto simp: uls_ok_def ul_new_def ul_less_def split: if_splits)

theorem underlay_addresses_accounted_witness:
  "\<exists>reply s' ul. process_request list_grpc_env (DP_REQ_TYPE_CreateInterface example_iface) example_grpc_state = Some (0, reply, s') \<and>
     reply_ul reply = Some ul \<and> dom (uls list_grpc_env s') = {ul}"
proof -
  obtain name ul s' where run: "process_request list_grpc_env (DP_REQ_TYPE_CreateInterface example_iface) example_grpc_state = Some (0, Vf_pci name ul, s')"
    using example_create_interface by blast
  have "vnf_tables_ok (fe_vnf list_grpc_env) (fs_vnf example_grpc_state)" "uls list_grpc_env example_grpc_state = Map.empty"
    using vnf_ok_tables [OF empty_vnf_ok] empty_vnf_views by (simp_all add: example_state uls_def)
  with underlay_addresses_accounted [OF _ run] run show ?thesis
    by (auto simp: hands_out_def split: if_splits)
qed

text \<open>
  C16: The two tables of network functions stay tied to one another through every history of requests, failing ones included, that
  starts with empty tables.  Every entry of the value table names an underlay address that has exactly this function.  For load
  balancer prefixes, the functions that are only added after a test of the value table, the two tables are inverse to each other, so
  the test is right: it says that a prefix exists exactly when one underlay address, and only one, stands for it.  (Functions of other
  types may share a value: the load balancers of a network do.)
\<close>

theorem vnf_tables_tied:
  assumes "vnf_env_ok (fe_vnf env)" "dp_vnf_init create = (DP_OK, Some (fs_vnf s0))"
    and "\<And>name t. create name = Some t \<Longrightarrow> rh_view (env_vnf_handle (fe_vnf env)) t = Map.empty \<and> rh_view (env_vnf_value (fe_vnf env)) t = Map.empty"
    and "(request_step env)\<^sup>*\<^sup>* s0 s"
  shows "(value_view (fe_vnf env) (fs_vnf s) v = Some ul \<longrightarrow> dp_get_vnf (fe_vnf env) ul (fs_vnf s) = Some v) \<and>
    (vnf_type v = DP_VNF_TYPE_LB_ALIAS_PFX \<longrightarrow>
       (dp_get_vnf (fe_vnf env) ul (fs_vnf s) = Some v \<longleftrightarrow> value_view (fe_vnf env) (fs_vnf s) v = Some ul)) \<and>
    (dp_vnf_lbprefix_exists (fe_vnf env) port_id vni ip len (fs_vnf s) \<longleftrightarrow>
       (\<exists>!ul. dp_get_vnf (fe_vnf env) ul (fs_vnf s) = Some (dp_fill_vnf_data DP_VNF_TYPE_LB_ALIAS_PFX port_id vni ip len)))"
proof -
  have "vnf_tied env s0"
    using dp_vnf_init_ok [OF assms(1,2,3)] by (simp add: vnf_tied_def)
  from request_steps_tied [OF assms(4) this] show ?thesis
    unfolding vnf_tied_def dp_vnf_lbprefix_exists_def by (rule vnf_tables_inverse)
qed

theorem vnf_tables_tied_witness:
  "\<exists>reply s'. process_request list_grpc_env (DP_REQ_TYPE_CreateInterface example_iface) example_grpc_state = Some (0, reply, s') \<and>
     (dp_vnf_lbprefix_exists list_vnf_env 2 100 (DP_SET_IPADDR4 10) 24 (fs_vnf s') \<longleftrightarrow>
       (\<exists>!ul. dp_get_vnf list_vnf_env ul (fs_vnf s') = Some (dp_fill_vnf_data DP_VNF_TYPE_LB_ALIAS_PFX 2 100 (DP_SET_IPADDR4 10) 24)))"
proof -
  obtain reply s' where run: "process_request list_grpc_env (DP_REQ_TYPE_CreateInterface example_iface) example_grpc_state = Some (0, reply, s')"
    using example_create_interface by blast
  have "dp_vnf_init (\<lambda>_. Some []) = (DP_OK, Some (fs_vnf example_grpc_state))"
    by (simp add: dp_vnf_init_def example_state empty_vnf_state_def)
  moreover have "vnf_env_ok list_vnf_env"
    using empty_vnf_ok by (simp add: vnf_ok_def)
  ultimately show ?thesis
    using run vnf_tables_tied [of list_grpc_env "\<lambda>_. Some []", OF _ _ _ r_into_rtranclp [of "request_step list_grpc_env", OF request_step.intros [OF run]]]
    by (auto simp: list_vnf_env_def)
qed

text \<open>
  C7: A created interface is served.  When the request to create an interface succeeds, a request for the interface of that id is
  answered from the port it was given, with the id, addresses and network of the request and with the underlay address of the reply,
  and changes nothing.
\<close>

theorem interface_create_get:
  assumes "rte_hash_ok (ge_iface_id env)" "process_request env (DP_REQ_TYPE_CreateInterface iface) s = Some (ret, reply, s')" "\<not> DP_FAILED ret"
  shows "\<exists>info. process_request env (DP_REQ_TYPE_GetInterface (gi_iface_id iface)) s' = Some (DP_GRPC_OK, Iface info, s') \<and>
    gi_iface_id info = gi_iface_id iface \<and> gi_vni info = gi_vni iface \<and> gi_ip4_addr info = gi_ip4_addr iface \<and>
    gi_ip6_addr info = gi_ip6_addr iface \<and> reply_ul reply = Some (gi_ul_addr6 info)"
  using postD [OF dp_process_create_interface_ok [OF assms(1)], of iface s "(ret, reply, s')"] assms(2,3)
  by (auto simp: process_request_def dp_process_get_interface_def with_port_def serves_iface_def iface_reply_def)

theorem interface_create_get_witness:
  "\<exists>s' info. process_request list_grpc_env (DP_REQ_TYPE_GetInterface ''vm'') s' = Some (DP_GRPC_OK, Iface info, s') \<and> gi_vni info = 100"
proof -
  obtain name ul s' where run: "process_request list_grpc_env (DP_REQ_TYPE_CreateInterface example_iface) example_grpc_state = Some (0, Vf_pci name ul, s')"
    using example_create_interface by blast
  have "rte_hash_ok (ge_iface_id list_grpc_env)"
    by (simp add: list_hash_ok)
  from interface_create_get [OF this run] show ?thesis
    by (auto simp: example_iface_def)
qed

text \<open>Starting a capture on an interface that does not exist stops the service instead of reporting the error.\<close>

lemma capture_start_unknown_interface:
  assumes "pe_offload (ge_port env)" "\<not> gs_capture_enabled s" "gc_interfaces capture = DP_CAPTURE_IFACE_TYPE_SINGLE_VF key # ifaces"
    "rte_hash_ok (ge_iface_id env)" "rh_view (ge_iface_id env) (gs_iface_id_table s) key = None"
  shows "process_request env (DP_REQ_TYPE_CaptureStart capture) s = None"
  using assms
  by (simp add: process_request_def dp_process_capture_start_def capture_port_def dp_get_port_with_iface_id_def rh_lookup_view)

end
