(* ===== verification/Dp_Dhcp.thy ===== *)
theory Dp_Dhcp
  imports Dp_Lpm "HOL-Library.Sublist"
begin

text \<open>
  The answers to DHCP requests of virtual machines: \<^verbatim>\<open>src/nodes/dhcp_node.c\<close> with its configuration of name servers in
  \<^verbatim>\<open>src/dp_conf.c\<close>.  Options are lists of bytes.  Reading or writing past the end of the packet buffer is the result \<open>None\<close>;
  the bytes of the buffer behind the packet are part of the list of options, since the parser can read them.
\<close>

section \<open>Bytes\<close>

text \<open>The bytes of an integer in the memory of a little-endian host.\<close>

definition mem16 :: "u16 \<Rightarrow> u8 list" where
  "mem16 x = [ucast x, ucast (drop_bit 8 x)]"

definition mem32 :: "u32 \<Rightarrow> u8 list" where
  "mem32 x = [ucast x, ucast (drop_bit 8 x), ucast (drop_bit 16 x), ucast (drop_bit 24 x)]"

definition mem_mac :: "mac_addr \<Rightarrow> u8 list" where
  "mem_mac x = map (\<lambda>i. ucast (drop_bit (8 * i) x)) [0, 1, 2, 3, 4, 5]"

definition bytes_of :: "string \<Rightarrow> u8 list" where
  "bytes_of s = map (of_nat \<circ> of_char) s"

definition byte_at :: "u8 list \<Rightarrow> nat \<Rightarrow> u8 option" where
  "byte_at mem i = (if i < length mem then Some (mem ! i) else None)"

definition bytes_at :: "u8 list \<Rightarrow> nat \<Rightarrow> nat \<Rightarrow> u8 list option" where
  "bytes_at mem i n = (if i + n \<le> length mem then Some (take n (drop i mem)) else None)"

text \<open>Writing at the start of a buffer, and \<^verbatim>\<open>snprintf\<close> into an array of \<open>n\<close> characters.\<close>

definition write_front :: "u8 list \<Rightarrow> u8 list \<Rightarrow> u8 list option" where
  "write_front bs mem = (if length bs \<le> length mem then Some (bs @ drop (length bs) mem) else None)"

definition snprintf :: "nat \<Rightarrow> string \<Rightarrow> u8 list \<Rightarrow> u8 list" where
  "snprintf n s mem = (let out = bytes_of (take (n - 1) s) @ [0] in out @ drop (length out) mem)"

text \<open>Decimal numbers and \<^verbatim>\<open>inet_ntop\<close> for an address in network byte order.\<close>

fun decimal :: "nat \<Rightarrow> string" where
  "decimal n = (if n < 10 then [char_of (48 + n)] else decimal (n div 10) @ [char_of (48 + n mod 10)])"

declare decimal.simps [simp del]

definition inet_ntop4 :: "u32 \<Rightarrow> string" where
  "inet_ntop4 ip = (case map (\<lambda>b. decimal (unat b)) (mem32 ip) of
     [a, b, c, d] \<Rightarrow> a @ ''.'' @ b @ ''.'' @ c @ ''.'' @ d | _ \<Rightarrow> [])"

section \<open>Configuration\<close>

text \<open>
  \<open>addr\<close> is the address \<^verbatim>\<open>inet_aton\<close> or \<^verbatim>\<open>inet_pton\<close> reads from the argument, \<open>None\<close> if it is none; \<open>alloc\<close> the outcome of the
  allocation.  The addresses configured so far are a list of bytes, its length a \<^verbatim>\<open>uint8_t\<close>.
\<close>

definition add_dhcp_dns :: "u32 option \<Rightarrow> bool \<Rightarrow> u8 list \<Rightarrow> int \<times> u8 list" where
  "add_dhcp_dns addr alloc dns =
     (case addr of
        None \<Rightarrow> (DP_ERROR, dns)
      | Some a \<Rightarrow>
          if 255 < length dns + 4 then (DP_ERROR, dns)
          else if \<not> alloc then (DP_ERROR, dns)
          else (DP_OK, dns @ mem32 a))"

section \<open>The node\<close>

abbreviation DP_BOOTP_SRV_PORT :: u16 where "DP_BOOTP_SRV_PORT \<equiv> 67"
abbreviation DP_BOOTP_CLI_PORT :: u16 where "DP_BOOTP_CLI_PORT \<equiv> 68"
abbreviation DP_BOOTP_REQUEST :: u8 where "DP_BOOTP_REQUEST \<equiv> 1"
abbreviation DP_BOOTP_REPLY :: u8 where "DP_BOOTP_REPLY \<equiv> 2"

abbreviation DHCP_OPT_PAD :: u8 where "DHCP_OPT_PAD \<equiv> 0"
abbreviation DHCP_OPT_SUBNET_MASK :: u8 where "DHCP_OPT_SUBNET_MASK \<equiv> 1"
abbreviation DHCP_OPT_ROUTER :: u8 where "DHCP_OPT_ROUTER \<equiv> 3"
abbreviation DHCP_OPT_DNS :: u8 where "DHCP_OPT_DNS \<equiv> 6"
abbreviation DHCP_OPT_INTERFACE_MTU :: u8 where "DHCP_OPT_INTERFACE_MTU \<equiv> 26"
abbreviation DHCP_OPT_IP_LEASE_TIME :: u8 where "DHCP_OPT_IP_LEASE_TIME \<equiv> 51"
abbreviation DHCP_OPT_MESSAGE_TYPE :: u8 where "DHCP_OPT_MESSAGE_TYPE \<equiv> 53"
abbreviation DHCP_OPT_SERVER_ID :: u8 where "DHCP_OPT_SERVER_ID \<equiv> 54"
abbreviation DHCP_OPT_VENDOR_CLASS_ID :: u8 where "DHCP_OPT_VENDOR_CLASS_ID \<equiv> 60"
abbreviation DHCP_OPT_USER_CLASS :: u8 where "DHCP_OPT_USER_CLASS \<equiv> 77"
abbreviation DHCP_OPT_CLASSLESS_ROUTE :: u8 where "DHCP_OPT_CLASSLESS_ROUTE \<equiv> 121"
abbreviation DHCP_OPT_END :: u8 where "DHCP_OPT_END \<equiv> 255"

abbreviation DHCPDISCOVER :: u8 where "DHCPDISCOVER \<equiv> 1"
abbreviation DHCPOFFER :: u8 where "DHCPOFFER \<equiv> 2"
abbreviation DHCPREQUEST :: u8 where "DHCPREQUEST \<equiv> 3"
abbreviation DHCPACK :: u8 where "DHCPACK \<equiv> 5"

abbreviation DHCP_MAGIC_COOKIE :: u32 where "DHCP_MAGIC_COOKIE \<equiv> 0x63825363"

text \<open>Sizes of the headers; \<open>dhcp_fixed_len\<close> is the offset of the options.\<close>

abbreviation sizeof_ether_hdr :: nat where "sizeof_ether_hdr \<equiv> 14"
abbreviation sizeof_ipv4_hdr :: nat where "sizeof_ipv4_hdr \<equiv> 20"
abbreviation sizeof_udp_hdr :: nat where "sizeof_udp_hdr \<equiv> 8"
abbreviation dhcp_fixed_len :: nat where "dhcp_fixed_len \<equiv> 240"

definition DHCP_MAX_OPTIONS_LEN :: nat where
  "DHCP_MAX_OPTIONS_LEN = 1500 - sizeof_ether_hdr - sizeof_ipv4_hdr - sizeof_udp_hdr - dhcp_fixed_len"

definition DP_USER_CLASS_INF_COMP_STR :: string where "DP_USER_CLASS_INF_COMP_STR = ''iPXE''"
definition DP_VND_CLASS_ID_COMP_STR :: string where "DP_VND_CLASS_ID_COMP_STR = ''PXEClient:Arch:00007''"
definition DP_PXE_TFTP_PATH :: string where "DP_PXE_TFTP_PATH = ''ipxe/x86_64/ipxe.new''"

record dp_dhcp_header =
  dh_op :: u8
  dh_htype :: u8
  dh_hlen :: u8
  dh_hops :: u8
  dh_xid :: u32
  dh_secs :: u16
  dh_flags :: u16
  dh_ciaddr :: u32
  dh_yiaddr :: u32
  dh_siaddr :: u32
  dh_giaddr :: u32
  dh_chaddr :: "u8 list"
  dh_sname :: "u8 list"
  dh_file :: "u8 list"
  dh_magic :: u32
  dh_options :: "u8 list"

datatype dp_pxe_mode = DP_PXE_MODE_NONE | DP_PXE_MODE_TFTP | DP_PXE_MODE_HTTP

text \<open>What the initialisation precomputes; the rest are constants.\<close>

record dhcp_node =
  dn_server_ip :: u32
  dn_iface_mtu :: u16
  dn_classless_route :: "u8 list"

abbreviation dhcp_lease :: u32 where "dhcp_lease \<equiv> 0xffffffff"
abbreviation net_mask :: u32 where "net_mask \<equiv> 0xffffffff"

definition classless_route_prefix :: "u8 list" where
  "classless_route_prefix = [16, 169, 254, 0, 0, 0, 0, 0]"

definition dhcp_node_init :: "int \<Rightarrow> dhcp_node" where
  "dhcp_node_init mtu =
     (let server_ip = htonl dp_get_gw_ip4
      in \<lparr> dn_server_ip = server_ip, dn_iface_mtu = htons (of_int mtu), dn_classless_route = classless_route_prefix @ mem32 server_ip \<rparr>)"

text \<open>\<open>out\<close> are the bytes written so far, \<open>end\<close> how many there may be.\<close>

definition add_dhcp_option :: "nat \<Rightarrow> u8 \<Rightarrow> u8 list \<Rightarrow> u8 list \<Rightarrow> u8 list option" where
  "add_dhcp_option limit opt val out =
     (if limit \<le> length out + 2 + length val then None else Some (out @ [opt, of_nat (length val)] @ val))"

definition add_dhcp_options :: "dhcp_node \<Rightarrow> u8 list \<Rightarrow> u8 \<Rightarrow> dp_pxe_mode \<Rightarrow> u8 list option" where
  "add_dhcp_options node dns msg_type pxe_mode =
     (let add = add_dhcp_option DHCP_MAX_OPTIONS_LEN
      in do {
        o1 \<leftarrow> add DHCP_OPT_MESSAGE_TYPE [msg_type] [];
        o2 \<leftarrow> add DHCP_OPT_IP_LEASE_TIME (mem32 dhcp_lease) o1;
        o3 \<leftarrow> add DHCP_OPT_SERVER_ID (mem32 (dn_server_ip node)) o2;
        o4 \<leftarrow> add DHCP_OPT_CLASSLESS_ROUTE (dn_classless_route node) o3;
        o5 \<leftarrow> add DHCP_OPT_SUBNET_MASK (mem32 net_mask) o4;
        o6 \<leftarrow> add DHCP_OPT_INTERFACE_MTU (mem16 (dn_iface_mtu node)) o5;
        o7 \<leftarrow> (if pxe_mode \<noteq> DP_PXE_MODE_NONE then add DHCP_OPT_ROUTER (mem32 (dn_server_ip node)) o6 else Some o6);
        o8 \<leftarrow> (if dns \<noteq> [] then add DHCP_OPT_DNS dns o7 else Some o7);
        (if DHCP_MAX_OPTIONS_LEN \<le> length o8 then None else Some (o8 @ [DHCP_OPT_END]))
      })"

section \<open>Parsing a request\<close>

text \<open>The body of the loop for an option with its data at \<open>j\<close>; the state is the result so far, the message type and the boot mode.\<close>

type_synonym dhcp_parse = "int \<times> u8 \<times> dp_pxe_mode"

definition parse_option :: "u8 list \<Rightarrow> nat \<Rightarrow> u8 \<Rightarrow> u8 \<Rightarrow> dhcp_parse \<Rightarrow> dhcp_parse option" where
  "parse_option options j op_type op_len = (\<lambda>(result, msg_type, pxe_mode).
     if op_type = DHCP_OPT_MESSAGE_TYPE then map_option (\<lambda>b. (DP_OK, b, pxe_mode)) (byte_at options j)
     else if op_type = DHCP_OPT_USER_CLASS \<and> unat op_len = length DP_USER_CLASS_INF_COMP_STR then
       map_option (\<lambda>v. (result, msg_type, if v = bytes_of DP_USER_CLASS_INF_COMP_STR then DP_PXE_MODE_HTTP else pxe_mode))
         (bytes_at options j (unat op_len))
     else if op_type = DHCP_OPT_VENDOR_CLASS_ID \<and> length DP_VND_CLASS_ID_COMP_STR \<le> unat op_len then
       map_option (\<lambda>v. (result, msg_type, if sublist (bytes_of DP_VND_CLASS_ID_COMP_STR) v then DP_PXE_MODE_TFTP else pxe_mode))
         (bytes_at options j (unat op_len))
     else Some (result, msg_type, pxe_mode))"

text \<open>\<open>op_len\<close> keeps its value from one round to the next.\<close>

function parse_loop :: "u8 list \<Rightarrow> nat \<Rightarrow> nat \<Rightarrow> u8 \<Rightarrow> dhcp_parse \<Rightarrow> dhcp_parse option" where
  "parse_loop options options_len i op_len st =
     (if options_len \<le> i then Some st
      else
        do {
          op_type \<leftarrow> byte_at options i;
          (if op_type = DHCP_OPT_PAD then parse_loop options options_len (i + 1 + unat op_len) op_len st
           else if op_type = DHCP_OPT_END then Some st
           else if options_len \<le> i + 1 then Some (DP_ERROR, snd st)
           else
             do {
               op_len \<leftarrow> byte_at options (i + 1);
               (if options_len < i + 2 + unat op_len then Some (DP_ERROR, snd st)
                else
                  do {
                    st1 \<leftarrow> parse_option options (i + 2) op_type op_len st;
                    parse_loop options options_len (i + 2 + unat op_len) op_len st1
                  })
             })
        })"
  by pat_completeness auto
termination
  by (relation "measure (\<lambda>(options, n, i, _). n - i)") auto

declare parse_loop.simps [simp del]

definition parse_options :: "u8 list \<Rightarrow> nat \<Rightarrow> u8 \<Rightarrow> dp_pxe_mode \<Rightarrow> dhcp_parse option" where
  "parse_options options options_len msg_type pxe_mode = parse_loop options options_len 0 0 (DP_ERROR, msg_type, pxe_mode)"

section \<open>Answering\<close>

text \<open>
  The packet with its Ethernet, IPv4, UDP and DHCP headers; the offload flags and header lengths that tell the driver to compute the
  checksums are left out.
\<close>

record dhcp_packet =
  dk_port :: u16
  dk_data_len :: u16
  dk_pkt_len :: u32
  dk_eth_src :: mac_addr
  dk_eth_dst :: mac_addr
  dk_ip_src :: u32
  dk_ip_dst :: u32
  dk_ip_total_length :: u16
  dk_ip_cksum :: u16
  dk_udp_src :: u16
  dk_udp_dst :: u16
  dk_udp_len :: u16
  dk_udp_cksum :: u16
  dk_dhcp :: dp_dhcp_header

abbreviation upd_dhcp :: "(dp_dhcp_header \<Rightarrow> dp_dhcp_header) \<Rightarrow> dhcp_packet \<Rightarrow> dhcp_packet" where
  "upd_dhcp f m \<equiv> m\<lparr> dk_dhcp := f (dk_dhcp m) \<rparr>"

datatype dhcp_next = DHCP_NEXT_DROP | DHCP_NEXT_TX u16

abbreviation dhcp_own_ip :: "dp_port \<Rightarrow> u32" where "dhcp_own_ip port \<equiv> cfg_own_ip (iface_cfg (port_iface port))"
abbreviation dhcp_pxe_ip :: "dp_port \<Rightarrow> u32" where "dhcp_pxe_ip port \<equiv> ip_ipv4 (cfg_pxe_ip (iface_cfg (port_iface port)))"

text \<open>The packet as the response to be sent back; learning the address of the virtual machine is up to the caller.\<close>

definition dhcp_rewrite :: "dhcp_node \<Rightarrow> dp_port \<Rightarrow> dhcp_packet \<Rightarrow> dhcp_packet" where
  "dhcp_rewrite node port m =
     upd_dhcp (\<lambda>h. h\<lparr> dh_op := DP_BOOTP_REPLY, dh_magic := htonl DHCP_MAGIC_COOKIE, dh_yiaddr := htonl (dhcp_own_ip port),
         dh_giaddr := dn_server_ip node, dh_chaddr := mem_mac (dk_eth_src m) @ drop 6 (dh_chaddr h) \<rparr>)
       (m\<lparr> dk_eth_dst := dk_eth_src m, dk_eth_src := port_own_mac port, dk_ip_src := dn_server_ip node,
           dk_udp_dst := htons DP_BOOTP_CLI_PORT, dk_udp_src := htons DP_BOOTP_SRV_PORT \<rparr>)"

definition dhcp_boot :: "dhcp_node \<Rightarrow> dp_port \<Rightarrow> dp_pxe_mode \<Rightarrow> dhcp_packet \<Rightarrow> dhcp_packet" where
  "dhcp_boot node port pxe_mode m =
     (let pxe_srv_ip = htonl (dhcp_pxe_ip port);
          boot = (\<lambda>path. upd_dhcp (\<lambda>h. h\<lparr> dh_siaddr := pxe_srv_ip, dh_file := snprintf 128 path (dh_file h) \<rparr>)
                   (m\<lparr> dk_eth_dst := - 1, dk_ip_dst := 0xFFFFFFFF \<rparr>))
      in case pxe_mode of
           DP_PXE_MODE_NONE \<Rightarrow> upd_dhcp (\<lambda>h. h\<lparr> dh_siaddr := dn_server_ip node \<rparr>) (m\<lparr> dk_ip_dst := htonl (dhcp_own_ip port) \<rparr>)
         | DP_PXE_MODE_TFTP \<Rightarrow> boot DP_PXE_TFTP_PATH
         | DP_PXE_MODE_HTTP \<Rightarrow> boot (''http://'' @ inet_ntop4 pxe_srv_ip @ cfg_pxe_str (iface_cfg (port_iface port))))"

text \<open>The lengths of the packet that carries \<open>n\<close> bytes of options.\<close>

definition dhcp_envelope :: "nat \<Rightarrow> dhcp_packet \<Rightarrow> dhcp_packet" where
  "dhcp_envelope n m =
     (let header_size = dhcp_fixed_len + n
      in m\<lparr> dk_pkt_len := of_nat (sizeof_ether_hdr + sizeof_ipv4_hdr + sizeof_udp_hdr + header_size),
            dk_ip_cksum := 0, dk_ip_total_length := htons (of_nat (sizeof_ipv4_hdr + sizeof_udp_hdr + header_size)),
            dk_udp_len := htons (of_nat (sizeof_udp_hdr + header_size)), dk_udp_cksum := 0,
            dk_data_len := of_nat (sizeof_ether_hdr + sizeof_ipv4_hdr + sizeof_udp_hdr + header_size) \<rparr>)"

text \<open>
  The handler; \<open>pxe_mode\<close> is a static variable of it, \<open>msg_type\<close> the uninitialised one.  The result has the next node, the packet,
  the port and the new boot mode.
\<close>

definition dhcp_get_next_index ::
  "dhcp_node \<Rightarrow> u8 list \<Rightarrow> u8 \<Rightarrow> dhcp_packet \<Rightarrow> dp_port \<Rightarrow> dp_pxe_mode \<Rightarrow> (dhcp_next \<times> dhcp_packet \<times> dp_port \<times> dp_pxe_mode) option" where
  "dhcp_get_next_index node dns msg_type m port pxe_mode =
     (let options_len = int (unat (dk_data_len m)) - int (sizeof_ether_hdr + sizeof_ipv4_hdr + sizeof_udp_hdr) - int dhcp_fixed_len
      in if options_len < 0 then Some (DHCP_NEXT_DROP, m, port, pxe_mode)
         else if dhcp_own_ip port = 0 then Some (DHCP_NEXT_DROP, m, port, pxe_mode)
         else if dh_op (dk_dhcp m) \<noteq> DP_BOOTP_REQUEST then Some (DHCP_NEXT_DROP, m, port, pxe_mode)
         else
           do {
             (result, msg_type, pxe_mode) \<leftarrow> parse_options (dh_options (dk_dhcp m)) (nat options_len) msg_type pxe_mode;
             (if DP_FAILED result then Some (DHCP_NEXT_DROP, m, port, pxe_mode)
              else if msg_type \<noteq> DHCPDISCOVER \<and> msg_type \<noteq> DHCPREQUEST then Some (DHCP_NEXT_DROP, m, port, pxe_mode)
              else
                let response_type = (if msg_type = DHCPDISCOVER then DHCPOFFER else DHCPACK);
                    port1 = (if response_type = DHCPACK then port\<lparr> port_neigh_mac := dk_eth_src m \<rparr> else port);
                    m1 = dhcp_boot node port1 pxe_mode (dhcp_rewrite node port m)
                in case add_dhcp_options node dns response_type pxe_mode of
                     None \<Rightarrow> Some (DHCP_NEXT_DROP, m1, port1, pxe_mode)
                   | Some out \<Rightarrow>
                       do {
                         options \<leftarrow> write_front out (dh_options (dk_dhcp m1));
                         let m2 = dhcp_envelope (length out) (upd_dhcp (\<lambda>h. h\<lparr> dh_options := options \<rparr>) m1);
                         (if 65535 < dk_pkt_len m2 then Some (DHCP_NEXT_DROP, m2, port1, pxe_mode)
                          else Some (DHCP_NEXT_TX (dk_port m2), m2, port1, pxe_mode))
                       })
           })"

section \<open>Options\<close>

text \<open>Options of the standard: a type that is neither padding nor the end, a length of one byte and the data.\<close>

definition enc_option :: "u8 \<times> u8 list \<Rightarrow> u8 list" where
  "enc_option opt = fst opt # of_nat (length (snd opt)) # snd opt"

definition valid_option :: "u8 \<times> u8 list \<Rightarrow> bool" where
  "valid_option opt \<longleftrightarrow> fst opt \<noteq> DHCP_OPT_PAD \<and> fst opt \<noteq> DHCP_OPT_END \<and> length (snd opt) \<le> 255 \<and> (fst opt = DHCP_OPT_MESSAGE_TYPE \<longrightarrow> snd opt \<noteq> [])"

abbreviation enc_options :: "(u8 \<times> u8 list) list \<Rightarrow> u8 list" where
  "enc_options os \<equiv> concat (map enc_option os)"

text \<open>What an option of a request means to the server.\<close>

definition apply_option :: "u8 \<times> u8 list \<Rightarrow> dhcp_parse \<Rightarrow> dhcp_parse" where
  "apply_option opt = (\<lambda>(result, msg_type, pxe_mode).
     if fst opt = DHCP_OPT_MESSAGE_TYPE then (DP_OK, hd (snd opt), pxe_mode)
     else if fst opt = DHCP_OPT_USER_CLASS \<and> snd opt = bytes_of DP_USER_CLASS_INF_COMP_STR then (result, msg_type, DP_PXE_MODE_HTTP)
     else if fst opt = DHCP_OPT_VENDOR_CLASS_ID \<and> sublist (bytes_of DP_VND_CLASS_ID_COMP_STR) (snd opt) then (result, msg_type, DP_PXE_MODE_TFTP)
     else (result, msg_type, pxe_mode))"

lemma byte_at_append [simp]: "byte_at (xs @ b # ys) (length xs) = Some b"
  by (simp add: byte_at_def nth_append)

lemma bytes_at_append: "bytes_at (xs @ ys @ zs) (length xs) (length ys) = Some ys"
  by (simp add: bytes_at_def)

lemma length_bytes_of [simp]: "length (bytes_of s) = length s"
  by (simp add: bytes_of_def)

lemma unat_length: "length v \<le> 255 \<Longrightarrow> unat (of_nat (length v) :: u8) = length v"
  by (simp add: unat_of_nat take_bit_eq_mod)

lemma parse_option_apply:
  assumes "valid_option (t, v)"
  shows "parse_option (pre @ v @ suf) (length pre) t (of_nat (length v)) st = Some (apply_option (t, v) st)"
proof -
  obtain r m p where st: "st = (r, m, p)" by (cases st)
  have len: "unat (of_nat (length v) :: u8) = length v"
    using assms by (simp add: valid_option_def unat_length)
  have msg: "byte_at (pre @ v @ suf) (length pre) = Some (hd v)" if "t = DHCP_OPT_MESSAGE_TYPE"
    using assms that by (cases v) (simp_all add: valid_option_def)
  have data: "bytes_at (pre @ v @ suf) (length pre) (unat (of_nat (length v) :: u8)) = Some v"
    unfolding len by (rule bytes_at_append)
  have long: "length DP_VND_CLASS_ID_COMP_STR \<le> length v" if "sublist (bytes_of DP_VND_CLASS_ID_COMP_STR) v"
    using sublist_length_le [OF that] by simp
  have same: "length v = length DP_USER_CLASS_INF_COMP_STR" if "v = bytes_of DP_USER_CLASS_INF_COMP_STR"
    using that by simp
  consider "t = DHCP_OPT_MESSAGE_TYPE" | "t = DHCP_OPT_USER_CLASS" | "t = DHCP_OPT_VENDOR_CLASS_ID"
    | "t \<noteq> DHCP_OPT_MESSAGE_TYPE" "t \<noteq> DHCP_OPT_USER_CLASS" "t \<noteq> DHCP_OPT_VENDOR_CLASS_ID"
    by blast
  then show ?thesis
  proof cases
    case 1
    then show ?thesis
      using msg by (simp add: parse_option_def apply_option_def st)
  next
    case 2
    then show ?thesis
      using same unfolding parse_option_def data by (auto simp: apply_option_def st len)
  next
    case 3
    then show ?thesis
      using long unfolding parse_option_def data by (auto simp: apply_option_def st len)
  next
    case 4
    then show ?thesis
      by (simp add: parse_option_def apply_option_def st)
  qed
qed

lemma parse_loop_option:
  assumes valid: "valid_option (t, v)" and n: "length pre + 2 + length v \<le> n"
  shows "parse_loop (pre @ enc_option (t, v) @ suf) n (length pre) op_len st =
    parse_loop (pre @ enc_option (t, v) @ suf) n (length pre + length (enc_option (t, v))) (of_nat (length v)) (apply_option (t, v) st)"
proof -
  let ?mem = "pre @ enc_option (t, v) @ suf" and ?len = "of_nat (length v) :: u8"
  have len: "unat ?len = length v"
    using valid by (simp add: valid_option_def unat_length)
  have mem: "?mem = pre @ t # ?len # v @ suf" "?mem = (pre @ [t]) @ ?len # v @ suf" "?mem = (pre @ [t, ?len]) @ v @ suf"
    by (simp_all add: enc_option_def)
  have at: "byte_at ?mem (length pre) = Some t" "byte_at ?mem (length pre + 1) = Some ?len"
    using byte_at_append [of pre t] byte_at_append [of "pre @ [t]" ?len] unfolding mem(1) by simp_all
  have opt: "parse_option ?mem (length pre + 2) t ?len st = Some (apply_option (t, v) st)"
    using parse_option_apply [OF valid, of "pre @ [t, ?len]" suf st] unfolding mem(3) by simp
  have "\<not> n \<le> length pre" "\<not> n \<le> length pre + 1" "\<not> n < length pre + 2 + unat ?len"
    using n len by simp_all
  moreover have "length pre + length (enc_option (t, v)) = length pre + 2 + unat ?len"
    using len by (simp add: enc_option_def)
  ultimately show ?thesis
    using valid by (subst parse_loop.simps) (simp only: at opt bind.bind_lunit if_False valid_option_def fst_conv if_cancel simp_thms)
qed

definition last_len :: "u8 \<Rightarrow> (u8 \<times> u8 list) list \<Rightarrow> u8" where
  "last_len op_len os = (if os = [] then op_len else of_nat (length (snd (last os))))"

lemma parse_loop_options:
  assumes "list_all valid_option os" "length pre + length (enc_options os) \<le> n"
  shows "parse_loop (pre @ enc_options os @ suf) n (length pre) op_len st =
    parse_loop (pre @ enc_options os @ suf) n (length pre + length (enc_options os)) (last_len op_len os) (fold apply_option os st)"
  using assms
proof (induction os arbitrary: pre op_len st)
  case (Cons opt os)
  obtain t v where opt: "opt = (t, v)" by fastforce
  have n: "length pre + 2 + length v \<le> n"
    using Cons.prems(2) by (simp add: opt enc_option_def)
  have "parse_loop (pre @ enc_options (opt # os) @ suf) n (length pre) op_len st =
      parse_loop ((pre @ enc_option opt) @ enc_options os @ suf) n (length (pre @ enc_option opt)) (of_nat (length v)) (apply_option opt st)"
    using parse_loop_option [of t v pre n "enc_options os @ suf" op_len st] Cons.prems(1) n by (simp add: opt)
  also have "\<dots> = parse_loop ((pre @ enc_option opt) @ enc_options os @ suf) n (length (pre @ enc_option opt) + length (enc_options os))
      (last_len (of_nat (length v)) os) (fold apply_option os (apply_option opt st))"
    by (rule Cons.IH) (use Cons.prems in simp_all)
  finally show ?case
    by (simp add: opt last_len_def add.assoc)
qed (simp add: last_len_def)

lemma parse_loop_done: "n \<le> i \<or> byte_at mem i = Some DHCP_OPT_END \<Longrightarrow> parse_loop mem n i op_len st = Some st"
  by (subst parse_loop.simps) auto

lemma parse_loop_pad: "byte_at mem i = Some DHCP_OPT_PAD \<Longrightarrow> i < n \<Longrightarrow> parse_loop mem n i op_len st = parse_loop mem n (i + 1 + unat op_len) op_len st"
  by (subst parse_loop.simps) auto

text \<open>The bytes of memory before the position do not matter.\<close>

lemma byte_at_shift: "byte_at (xs @ ys) (length xs + i) = byte_at ys i" "bytes_at (xs @ ys) (length xs + i) k = bytes_at ys i k"
  by (simp_all add: byte_at_def bytes_at_def nth_append)

lemma parse_option_shift: "parse_option (xs @ ys) (length xs + i) t l st = parse_option ys i t l st"
  by (cases st) (simp add: parse_option_def byte_at_shift)

lemma parse_loop_shift: "parse_loop (xs @ ys) (length xs + n) (length xs + i) op_len st = parse_loop ys n i op_len st"
proof (induction ys n i op_len st rule: parse_loop.induct)
  case (1 ys n i op_len st)
  have *: "length xs + i + 2 + k = length xs + (i + 2 + k)" "length xs + i + 1 + k = length xs + (i + 1 + k)" "length xs + i + 1 = length xs + (i + 1)"
     "length xs + i + 2 = length xs + (i + 2)" for k
    by simp_all
  show ?case
    apply (subst parse_loop.simps, subst (2) parse_loop.simps)
    unfolding * byte_at_shift parse_option_shift add_le_cancel_left add_less_cancel_left
    using 1 by (auto simp: add.assoc intro!: Option.bind_cong if_cong)
qed

lemma parse_loop_rest: "n = length pre + length rest \<Longrightarrow> parse_loop (pre @ rest @ behind) n (length pre) op_len st = parse_loop (rest @ behind) (length rest) 0 op_len st"
  using parse_loop_shift [of pre "rest @ behind" "length rest" 0] by simp

lemma parse_options_prefix:
  assumes "list_all valid_option os"
  shows "parse_options (enc_options os @ rest @ behind) (length (enc_options os @ rest)) msg_type pxe_mode =
    parse_loop (rest @ behind) (length rest) 0 (last_len 0 os) (fold apply_option os (DP_ERROR, msg_type, pxe_mode))"
  using parse_loop_options [OF assms, of "[]" "length (enc_options os @ rest)" "rest @ behind"] parse_loop_rest [of "length (enc_options os @ rest)" "enc_options os"]
  by (simp add: parse_options_def)

text \<open>The options of a response.\<close>

definition reply_options :: "dhcp_node \<Rightarrow> u8 list \<Rightarrow> u8 \<Rightarrow> dp_pxe_mode \<Rightarrow> (u8 \<times> u8 list) list" where
  "reply_options node dns msg_type pxe_mode =
     [(DHCP_OPT_MESSAGE_TYPE, [msg_type]), (DHCP_OPT_IP_LEASE_TIME, mem32 dhcp_lease), (DHCP_OPT_SERVER_ID, mem32 (dn_server_ip node)),
      (DHCP_OPT_CLASSLESS_ROUTE, dn_classless_route node), (DHCP_OPT_SUBNET_MASK, mem32 net_mask), (DHCP_OPT_INTERFACE_MTU, mem16 (dn_iface_mtu node))]
     @ (if pxe_mode \<noteq> DP_PXE_MODE_NONE then [(DHCP_OPT_ROUTER, mem32 (dn_server_ip node))] else [])
     @ (if dns \<noteq> [] then [(DHCP_OPT_DNS, dns)] else [])"

lemma length_mem [simp]: "length (mem16 x) = 2" "length (mem32 y) = 4" "length (mem_mac z) = 6"
  by (simp_all add: mem16_def mem32_def mem_mac_def)

lemma length_classless_route [simp]: "length (dn_classless_route (dhcp_node_init mtu)) = 12"
  by (simp add: dhcp_node_init_def classless_route_prefix_def Let_def)

text \<open>
  The same options byte for byte, as they stand in the packet: the type of the message, an unlimited lease, the gateway 169.254.0.1 as the
  server, a route to 169.254.0.0/16 and the default route through the gateway, a mask of 32 bits and the MTU; the gateway as the router
  for a client that boots; the name servers if there are any.
\<close>

definition answer_options :: "int \<Rightarrow> u8 list \<Rightarrow> u8 \<Rightarrow> bool \<Rightarrow> (u8 \<times> u8 list) list" where
  "answer_options mtu dns msg_type boots =
     (let gateway = [169, 254, 0, 1]; unlimited = [255, 255, 255, 255]
      in [(DHCP_OPT_MESSAGE_TYPE, [msg_type]), (DHCP_OPT_IP_LEASE_TIME, unlimited), (DHCP_OPT_SERVER_ID, gateway),
          (DHCP_OPT_CLASSLESS_ROUTE, [16, 169, 254] @ [0, 0, 0, 0] @ [0] @ gateway), (DHCP_OPT_SUBNET_MASK, [255, 255, 255, 255]),
          (DHCP_OPT_INTERFACE_MTU, [of_int (mtu div 256), of_int mtu])]
         @ (if boots then [(DHCP_OPT_ROUTER, gateway)] else [])
         @ (if dns = [] then [] else [(DHCP_OPT_DNS, dns)]))"

lemma mem_gateway: "mem32 (htonl dp_get_gw_ip4) = [169, 254, 0, 1]" "mem32 0xffffffff = [255, 255, 255, 255]"
  by code_simp+

lemma mem_mtu: "mem16 (htons (of_int mtu)) = [of_int (mtu div 256), of_int mtu]"
proof -
  have "ucast (htons w) = (ucast (drop_bit 8 w) :: u8)" "ucast (drop_bit 8 (htons w)) = (ucast w :: u8)" for w :: u16
    by (rule bit_word_eqI; auto simp: bit_ntohs bit_simps ac_simps)+
  moreover have "mtu div 256 = drop_bit 8 mtu"
    by (simp add: drop_bit_eq_div)
  then have "ucast (drop_bit 8 (of_int mtu :: u16)) = (of_int (mtu div 256) :: u8)" "ucast (of_int mtu :: u16) = (of_int mtu :: u8)"
    by (simp_all, (intro bit_word_eqI, auto simp: bit_simps ac_simps)+)
  ultimately show ?thesis
    by (simp only: mem16_def)
qed

lemma reply_options_answer: "reply_options (dhcp_node_init mtu) dns msg_type pxe_mode = answer_options mtu dns msg_type (pxe_mode \<noteq> DP_PXE_MODE_NONE)"
  by (simp add: reply_options_def answer_options_def dhcp_node_init_def classless_route_prefix_def mem_gateway mem_mtu Let_def)

lemma add_dhcp_options_enc:
  assumes "length dns \<le> 255" and node: "node = dhcp_node_init mtu"
  shows "add_dhcp_options node dns msg_type pxe_mode = Some (enc_options (reply_options node dns msg_type pxe_mode) @ [DHCP_OPT_END])"
    "length (enc_options (reply_options node dns msg_type pxe_mode) @ [DHCP_OPT_END]) \<le> 303"
    "list_all valid_option (reply_options node dns msg_type pxe_mode)"
proof -
  have "length (dn_classless_route node) = 12" by (simp add: node)
  with assms(1) show "add_dhcp_options node dns msg_type pxe_mode = Some (enc_options (reply_options node dns msg_type pxe_mode) @ [DHCP_OPT_END])"
    "length (enc_options (reply_options node dns msg_type pxe_mode) @ [DHCP_OPT_END]) \<le> 303"
    "list_all valid_option (reply_options node dns msg_type pxe_mode)"
    by (simp_all add: add_dhcp_options_def add_dhcp_option_def DHCP_MAX_OPTIONS_LEN_def reply_options_def enc_option_def valid_option_def)
qed

lemma boot_options [simp]: "dh_options (dk_dhcp (dhcp_boot node port1 pxe_mode (dhcp_rewrite node port m))) = dh_options (dk_dhcp m)"
  "dk_port (dhcp_boot node port1 pxe_mode (dhcp_rewrite node port m)) = dk_port m"
  by (simp_all add: dhcp_boot_def dhcp_rewrite_def Let_def split: dp_pxe_mode.split)

lemma parse_options_all:
  assumes "list_all valid_option os" "rest = [] \<or> hd rest = DHCP_OPT_END"
  shows "parse_options (enc_options os @ rest @ behind) (length (enc_options os @ rest)) msg_type pxe_mode =
    Some (fold apply_option os (DP_ERROR, msg_type, pxe_mode))"
  unfolding parse_options_prefix [OF assms(1)]
  by (rule parse_loop_done) (use assms(2) in \<open>cases rest; simp add: byte_at_def\<close>)

lemma parse_option_boots: "parse_option mem j t l (r, m, p) = Some (r', m', p') \<Longrightarrow> p \<noteq> DP_PXE_MODE_NONE \<Longrightarrow> p' \<noteq> DP_PXE_MODE_NONE"
  by (auto simp: parse_option_def split: if_splits)

lemma parse_loop_boots: "parse_loop mem n i op_len st = Some st' \<Longrightarrow> snd (snd st) \<noteq> DP_PXE_MODE_NONE \<Longrightarrow> snd (snd st') \<noteq> DP_PXE_MODE_NONE"
proof (induction mem n i op_len st rule: parse_loop.induct)
  case (1 mem n i op_len st)
  have opt: "parse_option mem j t l st = Some st1 \<Longrightarrow> snd (snd st1) \<noteq> DP_PXE_MODE_NONE" for j t l st1
    using parse_option_boots 1(4) by (metis prod.collapse)
  from 1(3) consider "snd st' = snd st" | "\<not> n \<le> i" "byte_at mem i = Some DHCP_OPT_PAD" "parse_loop mem n (i + 1 + unat op_len) op_len st = Some st'"
    | t l st1 where "\<not> n \<le> i" "byte_at mem i = Some t" "t \<noteq> DHCP_OPT_PAD" "t \<noteq> DHCP_OPT_END" "\<not> n \<le> i + 1" "byte_at mem (i + 1) = Some l"
        "\<not> n < i + 2 + unat l" "parse_option mem (i + 2) t l st = Some st1" "parse_loop mem n (i + 2 + unat l) l st1 = Some st'"
    by (subst (asm) parse_loop.simps) (auto simp: bind_eq_Some_conv split: if_splits)
  then show ?case
  proof cases
    case 1
    then show ?thesis using \<open>snd (snd st) \<noteq> DP_PXE_MODE_NONE\<close> by simp
  next
    case 2
    then show ?thesis using 1(1,4) by blast
  next
    case 3
    then show ?thesis using 1(2) opt by blast
  qed
qed

lemma dhcp_answer:
  assumes "list_all valid_option os" "rest = [] \<or> hd rest = DHCP_OPT_END" "dh_options (dk_dhcp m) = enc_options os @ rest @ behind"
    and "unat (dk_data_len m) = sizeof_ether_hdr + sizeof_ipv4_hdr + sizeof_udp_hdr + dhcp_fixed_len + length (enc_options os @ rest)"
    and "fold apply_option os (DP_ERROR, msg0, pxe0) = (DP_OK, msg, pxe)" "msg = DHCPDISCOVER \<or> msg = DHCPREQUEST"
    and "dh_op (dk_dhcp m) = DP_BOOTP_REQUEST" "dhcp_own_ip port \<noteq> 0" "length dns \<le> 255" "DHCP_MAX_OPTIONS_LEN \<le> length (dh_options (dk_dhcp m))"
  shows "\<exists>m' port' n. dhcp_get_next_index (dhcp_node_init mtu) dns msg0 m port pxe0 = Some (DHCP_NEXT_TX (dk_port m), m', port', pxe) \<and>
    take n (dh_options (dk_dhcp m')) =
      enc_options (answer_options mtu dns (if msg = DHCPDISCOVER then DHCPOFFER else DHCPACK) (pxe \<noteq> DP_PXE_MODE_NONE)) @ [DHCP_OPT_END] \<and>
    dh_yiaddr (dk_dhcp m') = htonl (dhcp_own_ip port) \<and> dh_xid (dk_dhcp m') = dh_xid (dk_dhcp m) \<and> dh_op (dk_dhcp m') = DP_BOOTP_REPLY \<and>
    take 6 (dh_chaddr (dk_dhcp m')) = mem_mac (dk_eth_src m) \<and> dk_udp_dst m' = htons DP_BOOTP_CLI_PORT \<and> dk_udp_src m' = htons DP_BOOTP_SRV_PORT \<and>
    dk_eth_dst m' = (if pxe = DP_PXE_MODE_NONE then dk_eth_src m else - 1) \<and>
    dk_ip_dst m' = (if pxe = DP_PXE_MODE_NONE then htonl (dhcp_own_ip port) else 0xFFFFFFFF) \<and>
    port' = (if msg = DHCPDISCOVER then port else port\<lparr> port_neigh_mac := dk_eth_src m \<rparr>) \<and>
    n \<le> DHCP_MAX_OPTIONS_LEN \<and> unat (dk_data_len m') = sizeof_ether_hdr + sizeof_ipv4_hdr + sizeof_udp_hdr + dhcp_fixed_len + n \<and>
    unat (ntohs (dk_ip_total_length m')) + sizeof_ether_hdr = unat (dk_data_len m') \<and>
    unat (ntohs (dk_udp_len m')) + sizeof_ether_hdr + sizeof_ipv4_hdr = unat (dk_data_len m')"
proof -
  define node where "node = dhcp_node_init mtu"
  define resp where "resp = (if msg = DHCPDISCOVER then DHCPOFFER else DHCPACK)"
  define out where "out = enc_options (reply_options node dns resp pxe) @ [DHCP_OPT_END]"
  define port1 where "port1 = (if resp = DHCPACK then port\<lparr> port_neigh_mac := dk_eth_src m \<rparr> else port)"
  define m1 where "m1 = dhcp_boot node port1 pxe (dhcp_rewrite node port m)"
  note enc = add_dhcp_options_enc [OF assms(9) node_def, of resp pxe]
  have out: "add_dhcp_options node dns resp pxe = Some out" "length out \<le> 303"
    using enc by (simp_all add: out_def)
  have options: "dh_options (dk_dhcp m1) = dh_options (dk_dhcp m)" "dk_port m1 = dk_port m"
    by (simp_all add: m1_def)
  define m2 where "m2 = dhcp_envelope (length out) (upd_dhcp (\<lambda>h. h\<lparr> dh_options := out @ drop (length out) (dh_options (dk_dhcp m)) \<rparr>) m1)"
  define len where "len = length (enc_options os @ rest)"
  have parsed: "parse_options (dh_options (dk_dhcp m)) len msg0 pxe0 = Some (DP_OK, msg, pxe)"
    unfolding len_def assms(3) parse_options_all [OF assms(1,2)] assms(5) ..
  have room: "write_front out (dh_options (dk_dhcp m)) = Some (out @ drop (length out) (dh_options (dk_dhcp m)))"
    using assms(10) out(2) by (simp add: write_front_def DHCP_MAX_OPTIONS_LEN_def)
  have lens: "unat (dk_data_len m2) = 282 + length out" "unat (dk_pkt_len m2) = 282 + length out"
    "unat (ntohs (dk_ip_total_length m2)) = 268 + length out" "unat (ntohs (dk_udp_len m2)) = 248 + length out"
    using out(2) by (simp_all add: m2_def dhcp_envelope_def Let_def unat_of_nat take_bit_eq_mod del: of_nat_add of_nat_numeral)
  have run: "dhcp_get_next_index node dns msg0 m port pxe0 = Some (DHCP_NEXT_TX (dk_port m), m2, port1, pxe)"
  proof -
    have "\<not> 65535 < dk_pkt_len m2"
      using lens(2) out(2) by (simp add: word_less_nat_alt)
    moreover have "dk_port m2 = dk_port m"
      by (simp add: m2_def dhcp_envelope_def options Let_def)
    ultimately show ?thesis
      using assms(4) [folded len_def] assms(6-8) parsed out(1) room
      by (auto simp: dhcp_get_next_index_def options resp_def port1_def [unfolded resp_def] m1_def m2_def Let_def)
  qed
  have "take (length out) (dh_options (dk_dhcp m2)) = out"
    by (simp add: m2_def dhcp_envelope_def Let_def)
  moreover have "dh_yiaddr (dk_dhcp m2) = htonl (dhcp_own_ip port)" "dh_xid (dk_dhcp m2) = dh_xid (dk_dhcp m)" "dh_op (dk_dhcp m2) = DP_BOOTP_REPLY"
    "take 6 (dh_chaddr (dk_dhcp m2)) = mem_mac (dk_eth_src m)" "dk_udp_dst m2 = htons DP_BOOTP_CLI_PORT" "dk_udp_src m2 = htons DP_BOOTP_SRV_PORT"
    "dk_eth_dst m2 = (if pxe = DP_PXE_MODE_NONE then dk_eth_src m else - 1)"
    "dk_ip_dst m2 = (if pxe = DP_PXE_MODE_NONE then htonl (dhcp_own_ip port) else 0xFFFFFFFF)"
    by (simp_all add: m2_def m1_def port1_def dhcp_envelope_def dhcp_boot_def dhcp_rewrite_def Let_def split: dp_pxe_mode.split)
  moreover have "port1 = (if msg = DHCPDISCOVER then port else port\<lparr> port_neigh_mac := dk_eth_src m \<rparr>)" "length out \<le> DHCP_MAX_OPTIONS_LEN"
    using out(2) by (simp_all add: port1_def resp_def DHCP_MAX_OPTIONS_LEN_def)
  moreover have "enc_options (answer_options mtu dns (if msg = DHCPDISCOVER then DHCPOFFER else DHCPACK) (pxe \<noteq> DP_PXE_MODE_NONE)) @ [DHCP_OPT_END] = out"
    by (simp only: out_def node_def resp_def reply_options_answer)
  ultimately show ?thesis
    using run lens unfolding node_def by (intro exI [of _ m2] exI [of _ port1] exI [of _ "length out"]) simp
qed

definition example_dhcp_packet :: dhcp_packet where
  "example_dhcp_packet =
     \<lparr> dk_port = 2, dk_data_len = 286, dk_pkt_len = 286, dk_eth_src = 7, dk_eth_dst = - 1, dk_ip_src = 0, dk_ip_dst = - 1, dk_ip_total_length = htons 272,
       dk_ip_cksum = 0, dk_udp_src = htons 68, dk_udp_dst = htons 67, dk_udp_len = htons 252, dk_udp_cksum = 0,
       dk_dhcp = \<lparr> dh_op = 1, dh_htype = 1, dh_hlen = 6, dh_hops = 0, dh_xid = 42, dh_secs = 0, dh_flags = 0, dh_ciaddr = 0, dh_yiaddr = 0, dh_siaddr = 0,
         dh_giaddr = 0, dh_chaddr = replicate 16 0, dh_sname = replicate 64 0, dh_file = replicate 128 0, dh_magic = htonl DHCP_MAGIC_COOKIE,
         dh_options = [53, 1, 1, 255] @ replicate 1500 0 \<rparr> \<rparr>"

definition example_dhcp_port :: dp_port where
  "example_dhcp_port = upd_iface (\<lambda>i. i\<lparr> iface_cfg := (iface_cfg i)\<lparr> cfg_own_ip := 10 \<rparr> \<rparr>) zero_port"

lemma example_dhcp_request:
  "dh_options (dk_dhcp example_dhcp_packet) = enc_options [(53, [1])] @ [255] @ replicate 1500 0"
  "fold apply_option [(53, [1])] (DP_ERROR, 0, pxe_mode) = (DP_OK, DHCPDISCOVER, pxe_mode)" "list_all valid_option [(53, [1])]"
  "unat (dk_data_len example_dhcp_packet) = sizeof_ether_hdr + sizeof_ipv4_hdr + sizeof_udp_hdr + dhcp_fixed_len + length (enc_options [(53, [1])] @ [255])"
  "DHCP_MAX_OPTIONS_LEN \<le> length (dh_options (dk_dhcp example_dhcp_packet))" "dh_op (dk_dhcp example_dhcp_packet) = 1" "dhcp_own_ip example_dhcp_port \<noteq> 0"
  "dk_port example_dhcp_packet = 2" "dh_xid (dk_dhcp example_dhcp_packet) = 42"
  by (simp_all add: example_dhcp_packet_def enc_option_def apply_option_def valid_option_def DHCP_MAX_OPTIONS_LEN_def example_dhcp_port_def)

lemma example_dhcp_answer:
  "enc_options (answer_options 1450 [] DHCPOFFER False) @ [DHCP_OPT_END] =
     [53, 1, 2, 51, 4, 255, 255, 255, 255, 54, 4, 169, 254, 0, 1, 121, 12, 16, 169, 254, 0, 0, 0, 0, 0, 169, 254, 0, 1,
       1, 4, 255, 255, 255, 255, 26, 2, 5, 170, 255]"
  by code_simp

section \<open>Properties\<close>

text \<open>
  C37: A request without padding is read as the standard says.  For every list of options (message types not empty), followed by the
  end marker or the end of the packet, the parser returns the last message type and the boot mode of the last class option, an error
  exactly if there is no message type, and reads nothing behind the packet.
\<close>

theorem dhcp_options_parsed:
  assumes "list_all valid_option os" "rest = [] \<or> hd rest = DHCP_OPT_END"
  shows "parse_options (enc_options os @ rest @ behind) (length (enc_options os @ rest)) msg_type pxe_mode =
    Some (fold apply_option os (DP_ERROR, msg_type, pxe_mode))"
  by (rule parse_options_all [OF assms])

theorem dhcp_options_parsed_witness:
  "parse_options [12, 2, 104, 105, 53, 1, 1, 255, 7] 8 0 DP_PXE_MODE_NONE = Some (DP_OK, DHCPDISCOVER, DP_PXE_MODE_NONE)"
  using dhcp_options_parsed [of "[(12, [104, 105]), (53, [1])]" "[255]" "[7]" 0 DP_PXE_MODE_NONE]
  by (simp add: valid_option_def enc_option_def apply_option_def, simp add: eval_nat_numeral)

text \<open>
  C39: Padding hides options.  A padding byte behind an option with \<open>n\<close> bytes of data makes the parser skip the next \<open>n\<close> bytes:
  whatever they are, the request is read as if neither they nor the padding were there.
\<close>

theorem dhcp_padding_hides_options:
  assumes "list_all valid_option (os @ [(t, v)])" "length skipped = length v"
  shows "parse_options (enc_options (os @ [(t, v)]) @ (DHCP_OPT_PAD # skipped @ rest) @ behind)
      (length (enc_options (os @ [(t, v)]) @ DHCP_OPT_PAD # skipped @ rest)) msg_type pxe_mode =
    parse_options (enc_options (os @ [(t, v)]) @ rest @ behind) (length (enc_options (os @ [(t, v)]) @ rest)) msg_type pxe_mode"
proof -
  have "unat (last_len 0 (os @ [(t, v)])) = length skipped"
    using assms by (simp add: last_len_def valid_option_def unat_length)
  then have "parse_loop ((DHCP_OPT_PAD # skipped @ rest) @ behind) (length (DHCP_OPT_PAD # skipped @ rest)) 0 (last_len 0 (os @ [(t, v)])) st =
      parse_loop (rest @ behind) (length rest) 0 (last_len 0 (os @ [(t, v)])) st" for st
    using parse_loop_rest [of "length (DHCP_OPT_PAD # skipped @ rest)" "DHCP_OPT_PAD # skipped" rest behind "last_len 0 (os @ [(t, v)])" st]
    by (subst parse_loop_pad) (simp_all add: byte_at_def)
  then show ?thesis
    unfolding parse_options_prefix [OF assms(1)] by simp
qed

text \<open>A host name, padding and the message type: the request is taken for one without a message type.\<close>

theorem dhcp_padding_hides_options_witness:
  "parse_options [12, 3, 97, 98, 99, 0, 53, 1, 1, 255] 10 0 DP_PXE_MODE_NONE = Some (DP_ERROR, 0, DP_PXE_MODE_NONE)"
proof -
  have "parse_options [12, 3, 97, 98, 99, 255] 6 0 DP_PXE_MODE_NONE = Some (DP_ERROR, 0, DP_PXE_MODE_NONE)"
    by code_simp
  then show ?thesis
    using dhcp_padding_hides_options [of "[]" 12 "[97, 98, 99]" "[53, 1, 1]" "[255]" "[]" 0 DP_PXE_MODE_NONE]
    by (simp add: valid_option_def enc_option_def, simp add: eval_nat_numeral)
qed

text \<open>
  C36: A request without padding is answered.  A discovery or request of a virtual machine with an address, whose options are laid out
  one behind the other without padding bytes (what padding does is a property of its own) and which sits in a buffer of the usual size, is sent back to
  the port it came from as the offer or acknowledgement with the address of the interface, the transaction and the hardware address of
  the client.  The options are, byte for byte, those of \<open>answer_options\<close> with the end marker, they never leave the space for them,
  and the lengths of the packet, the IP header and the UDP header agree with them.  An acknowledgement makes the port learn the
  address of the virtual machine; an offer does not.
\<close>

theorem dhcp_request_answered:
  assumes "list_all valid_option os" "rest = [] \<or> hd rest = DHCP_OPT_END" "dh_options (dk_dhcp m) = enc_options os @ rest @ behind"
    and "unat (dk_data_len m) = sizeof_ether_hdr + sizeof_ipv4_hdr + sizeof_udp_hdr + dhcp_fixed_len + length (enc_options os @ rest)"
    and "fold apply_option os (DP_ERROR, msg0, pxe0) = (DP_OK, msg, pxe)" "msg = DHCPDISCOVER \<or> msg = DHCPREQUEST"
    and "dh_op (dk_dhcp m) = DP_BOOTP_REQUEST" "dhcp_own_ip port \<noteq> 0" "length dns \<le> 255" "DHCP_MAX_OPTIONS_LEN \<le> length (dh_options (dk_dhcp m))"
  shows "\<exists>m' port' n. dhcp_get_next_index (dhcp_node_init mtu) dns msg0 m port pxe0 = Some (DHCP_NEXT_TX (dk_port m), m', port', pxe) \<and>
    take n (dh_options (dk_dhcp m')) =
      enc_options (answer_options mtu dns (if msg = DHCPDISCOVER then DHCPOFFER else DHCPACK) (pxe \<noteq> DP_PXE_MODE_NONE)) @ [DHCP_OPT_END] \<and>
    dh_yiaddr (dk_dhcp m') = htonl (dhcp_own_ip port) \<and> dh_xid (dk_dhcp m') = dh_xid (dk_dhcp m) \<and> dh_op (dk_dhcp m') = DP_BOOTP_REPLY \<and>
    take 6 (dh_chaddr (dk_dhcp m')) = mem_mac (dk_eth_src m) \<and> dk_udp_dst m' = htons DP_BOOTP_CLI_PORT \<and> dk_udp_src m' = htons DP_BOOTP_SRV_PORT \<and>
    dk_eth_dst m' = (if pxe = DP_PXE_MODE_NONE then dk_eth_src m else - 1) \<and>
    dk_ip_dst m' = (if pxe = DP_PXE_MODE_NONE then htonl (dhcp_own_ip port) else 0xFFFFFFFF) \<and>
    port' = (if msg = DHCPDISCOVER then port else port\<lparr> port_neigh_mac := dk_eth_src m \<rparr>) \<and>
    n \<le> DHCP_MAX_OPTIONS_LEN \<and> unat (dk_data_len m') = sizeof_ether_hdr + sizeof_ipv4_hdr + sizeof_udp_hdr + dhcp_fixed_len + n \<and>
    unat (ntohs (dk_ip_total_length m')) + sizeof_ether_hdr = unat (dk_data_len m') \<and>
    unat (ntohs (dk_udp_len m')) + sizeof_ether_hdr + sizeof_ipv4_hdr = unat (dk_data_len m')"
  by (rule dhcp_answer [OF assms])

theorem dhcp_request_answered_witness:
  "\<exists>m' port' n. dhcp_get_next_index (dhcp_node_init 1450) [] 0 example_dhcp_packet example_dhcp_port DP_PXE_MODE_NONE =
       Some (DHCP_NEXT_TX 2, m', port', DP_PXE_MODE_NONE) \<and>
     take n (dh_options (dk_dhcp m')) = [53, 1, 2, 51, 4, 255, 255, 255, 255, 54, 4, 169, 254, 0, 1, 121, 12, 16, 169, 254, 0, 0, 0, 0, 0, 169, 254, 0, 1,
       1, 4, 255, 255, 255, 255, 26, 2, 5, 170, 255] \<and> dh_xid (dk_dhcp m') = 42"
  using dhcp_request_answered [OF example_dhcp_request(3) _ example_dhcp_request(1,4,2) _ example_dhcp_request(6,7) _ example_dhcp_request(5), of "[]" 1450 DP_PXE_MODE_NONE]
  unfolding example_dhcp_request(8,9) by (simp only: list.sel simp_thms if_True example_dhcp_answer list.size) blast

text \<open>
  C40: The boot mode is remembered for everybody.  Once a client has announced that it boots over the network, every later answer, to
  whatever port, is a boot answer: broadcast, and naming the boot server of the interface.
\<close>

theorem dhcp_boot_mode_sticks:
  assumes "pxe0 \<noteq> DP_PXE_MODE_NONE" "dhcp_get_next_index node dns msg0 m port pxe0 = Some (next, m', port', pxe)"
  shows "pxe \<noteq> DP_PXE_MODE_NONE \<and>
    (\<forall>i. next = DHCP_NEXT_TX i \<longrightarrow> dk_eth_dst m' = - 1 \<and> dk_ip_dst m' = 0xFFFFFFFF \<and> dh_siaddr (dk_dhcp m') = htonl (dhcp_pxe_ip port))"
proof -
  have boot: "dk_eth_dst (dhcp_boot node p pxe m1) = - 1 \<and> dk_ip_dst (dhcp_boot node p pxe m1) = 0xFFFFFFFF \<and>
      dh_siaddr (dk_dhcp (dhcp_boot node p pxe m1)) = htonl (dhcp_pxe_ip p)" if "pxe \<noteq> DP_PXE_MODE_NONE" for p pxe m1
    using that by (cases pxe) (simp_all add: dhcp_boot_def Let_def)
  have "post (dhcp_get_next_index node dns msg0 m port pxe0) (\<lambda>(next, m', port', pxe). pxe \<noteq> DP_PXE_MODE_NONE \<and>
      (\<forall>i. next = DHCP_NEXT_TX i \<longrightarrow> dk_eth_dst m' = - 1 \<and> dk_ip_dst m' = 0xFFFFFFFF \<and> dh_siaddr (dk_dhcp m') = htonl (dhcp_pxe_ip port)))"
    unfolding dhcp_get_next_index_def parse_options_def
    by (intro vcg; hypsubst?; (frule parse_loop_boots)?; simp add: assms(1) boot dhcp_envelope_def Let_def)
  with assms(2) show ?thesis
    by (simp add: post_def)
qed

theorem dhcp_boot_mode_sticks_witness:
  "\<exists>m' port' pxe. dhcp_get_next_index (dhcp_node_init 1450) [] 0 example_dhcp_packet example_dhcp_port DP_PXE_MODE_TFTP =
       Some (DHCP_NEXT_TX 2, m', port', pxe) \<and> dk_ip_dst m' = 0xFFFFFFFF"
proof -
  obtain m' port' where "dhcp_get_next_index (dhcp_node_init 1450) [] 0 example_dhcp_packet example_dhcp_port DP_PXE_MODE_TFTP =
      Some (DHCP_NEXT_TX 2, m', port', DP_PXE_MODE_TFTP)"
    using dhcp_answer [OF example_dhcp_request(3) _ example_dhcp_request(1,4,2) _ example_dhcp_request(6,7) _ example_dhcp_request(5), of "[]" 1450 DP_PXE_MODE_TFTP]
    by (fastforce simp: example_dhcp_request(8))
  from dhcp_boot_mode_sticks [OF _ this] this show ?thesis
    by auto
qed

end
