(* ===== verification/Dp_Dhcpv6.thy ===== *)
theory Dp_Dhcpv6
  imports Dp_Dhcp
begin

text \<open>
  The answers to DHCPv6 requests of virtual machines: \<^verbatim>\<open>src/nodes/dhcpv6_node.c\<close> and \<^verbatim>\<open>include/protocols/dp_dhcpv6.h\<close>.  The options
  are the bytes of the buffer from the first option on, those behind the packet included; reading or writing past the buffer is \<open>None\<close>.
\<close>

section \<open>Bytes\<close>

definition mem128 :: "ipv6_addr \<Rightarrow> u8 list" where
  "mem128 x = map (\<lambda>i. ucast (drop_bit (8 * i) x)) [0..<16]"

text \<open>A 16-bit field in network byte order, as it is in memory and as a number.\<close>

definition be16 :: "u16 \<Rightarrow> u8 list" where
  "be16 x = mem16 (htons x)"

definition le16_at :: "u8 list \<Rightarrow> nat \<Rightarrow> u16 option" where
  "le16_at mem i = do { lo \<leftarrow> byte_at mem i; hi \<leftarrow> byte_at mem (i + 1); Some (push_bit 8 (ucast hi) OR ucast lo) }"

definition be16_at :: "u8 list \<Rightarrow> nat \<Rightarrow> u16 option" where
  "be16_at mem i = map_option ntohs (le16_at mem i)"

definition write_at :: "nat \<Rightarrow> u8 list \<Rightarrow> u8 list \<Rightarrow> u8 list option" where
  "write_at i bs mem = (if i + length bs \<le> length mem then Some (take i mem @ bs @ drop (i + length bs) mem) else None)"

section \<open>Configuration\<close>

definition add_dhcpv6_dns :: "ipv6_addr option \<Rightarrow> bool \<Rightarrow> u8 list \<Rightarrow> int \<times> u8 list" where
  "add_dhcpv6_dns addr alloc dns =
     (case addr of
        None \<Rightarrow> (DP_ERROR, dns)
      | Some a \<Rightarrow>
          if 255 < length dns + 16 then (DP_ERROR, dns)
          else if \<not> alloc then (DP_ERROR, dns)
          else (DP_OK, dns @ mem128 a))"

section \<open>Options\<close>

abbreviation DHCPV6_CLIENT_PORT :: u16 where "DHCPV6_CLIENT_PORT \<equiv> 546"
abbreviation DHCPV6_SERVER_PORT :: u16 where "DHCPV6_SERVER_PORT \<equiv> 547"
abbreviation DHCPV6_INFINITY :: u32 where "DHCPV6_INFINITY \<equiv> 0xffffffff"
abbreviation DHCPV6_BOOT_FILE_BUF_LEN :: nat where "DHCPV6_BOOT_FILE_BUF_LEN \<equiv> 96"

abbreviation DHCPV6_SOLICIT :: u8 where "DHCPV6_SOLICIT \<equiv> 1"
abbreviation DHCPV6_ADVERTISE :: u8 where "DHCPV6_ADVERTISE \<equiv> 2"
abbreviation DHCPV6_REQUEST :: u8 where "DHCPV6_REQUEST \<equiv> 3"
abbreviation DHCPV6_CONFIRM :: u8 where "DHCPV6_CONFIRM \<equiv> 4"
abbreviation DHCPV6_REPLY :: u8 where "DHCPV6_REPLY \<equiv> 7"
abbreviation DHCPV6_RELEASE :: u8 where "DHCPV6_RELEASE \<equiv> 8"

abbreviation DHCPV6_DUID_LL :: u16 where "DHCPV6_DUID_LL \<equiv> 3"
abbreviation DP_DHCPV6_HW_ID :: u16 where "DP_DHCPV6_HW_ID \<equiv> 0xabcd"

abbreviation DHCPV6_OPT_CLIENTID :: u16 where "DHCPV6_OPT_CLIENTID \<equiv> 1"
abbreviation DHCPV6_OPT_SERVERID :: u16 where "DHCPV6_OPT_SERVERID \<equiv> 2"
abbreviation DHCPV6_OPT_IA_NA :: u16 where "DHCPV6_OPT_IA_NA \<equiv> 3"
abbreviation DHCPV6_OPT_IAADDR :: u16 where "DHCPV6_OPT_IAADDR \<equiv> 5"
abbreviation DHCPV6_OPT_STATUS_CODE :: u16 where "DHCPV6_OPT_STATUS_CODE \<equiv> 13"
abbreviation DHCPV6_OPT_RAPID_COMMIT :: u16 where "DHCPV6_OPT_RAPID_COMMIT \<equiv> 14"
abbreviation DHCPV6_OPT_USER_CLASS :: u16 where "DHCPV6_OPT_USER_CLASS \<equiv> 15"
abbreviation DHCPV6_OPT_VENDOR_CLASS :: u16 where "DHCPV6_OPT_VENDOR_CLASS \<equiv> 16"
abbreviation DHCPV6_OPT_DNS :: u16 where "DHCPV6_OPT_DNS \<equiv> 23"
abbreviation DHCPV6_OPT_BOOT_FILE :: u16 where "DHCPV6_OPT_BOOT_FILE \<equiv> 59"

abbreviation sizeof_ipv6_hdr :: nat where "sizeof_ipv6_hdr \<equiv> 40"
abbreviation DP_DHCPV6_HDR_FIXED_LEN :: nat where "DP_DHCPV6_HDR_FIXED_LEN \<equiv> 4"
abbreviation DP_DHCPV6_PKT_FIXED_LEN :: nat where
  "DP_DHCPV6_PKT_FIXED_LEN \<equiv> sizeof_ether_hdr + sizeof_ipv6_hdr + sizeof_udp_hdr + DP_DHCPV6_HDR_FIXED_LEN"

text \<open>\<^verbatim>\<open>sizeof(struct dhcpv6_option)\<close>, the code and the length; the data follows.\<close>

abbreviation sizeof_option :: nat where "sizeof_option \<equiv> 4"

definition enc6_option :: "u16 \<times> u8 list \<Rightarrow> u8 list" where
  "enc6_option opt = be16 (fst opt) @ be16 (of_nat (length (snd opt))) @ snd opt"

text \<open>The identity of the server, filled with the address of the sender, and the address assignment.\<close>

definition opt_sid :: "mac_addr \<Rightarrow> u8 list" where
  "opt_sid mac = be16 DHCPV6_OPT_SERVERID @ be16 10 @ be16 DHCPV6_DUID_LL @ be16 DP_DHCPV6_HW_ID @ mem_mac mac"

definition opt_iana :: "u8 list \<Rightarrow> ipv6_addr \<Rightarrow> u8 list" where
  "opt_iana iaid ip =
     be16 DHCPV6_OPT_IA_NA @ be16 46 @ iaid @ mem32 DHCPV6_INFINITY @ mem32 DHCPV6_INFINITY
     @ be16 DHCPV6_OPT_IAADDR @ be16 30 @ mem128 ip @ mem32 DHCPV6_INFINITY @ mem32 DHCPV6_INFINITY
     @ be16 DHCPV6_OPT_STATUS_CODE @ be16 2 @ mem16 0"

text \<open>
  The options collected from the request.  Each is a list of bytes that is empty as long as its length field is 0, except for the boot
  file, of which the whole structure and the length to be copied are kept.
\<close>

record dp_dhcpv6_reply_options =
  ro_iana :: "u8 list"
  ro_cid :: "u8 list"
  ro_boot_file_len :: nat
  ro_boot_file_url :: "u8 list"
  ro_pxe_mode :: dp_pxe_mode
  ro_rapid :: "u8 list"

definition no_reply_options :: dp_dhcpv6_reply_options where
  "no_reply_options = \<lparr> ro_iana = [], ro_cid = [], ro_boot_file_len = 0, ro_boot_file_url = replicate (4 + DHCPV6_BOOT_FILE_BUF_LEN) 0,
     ro_pxe_mode = DP_PXE_MODE_NONE, ro_rapid = [] \<rparr>"

text \<open>\<open>ntop\<close> is \<^verbatim>\<open>inet_ntop\<close> for IPv6 addresses.  The length is what \<^verbatim>\<open>snprintf\<close> would have written.\<close>

definition dp_fill_boot_file_option ::
  "(ipv6_addr \<Rightarrow> string) \<Rightarrow> dp_port \<Rightarrow> dp_pxe_mode \<Rightarrow> string \<Rightarrow> dp_dhcpv6_reply_options \<Rightarrow> dp_dhcpv6_reply_options" where
  "dp_fill_boot_file_option ntop port mode sfx ro =
     (let url = (if mode = DP_PXE_MODE_TFTP then ''tftp://['' else ''http://['')
                @ ntop (ip_ipv6 (cfg_pxe_ip (iface_cfg (port_iface port)))) @ '']/'' @ sfx;
          url_len = (of_nat (length url) :: u16)
      in ro\<lparr> ro_pxe_mode := mode,
             ro_boot_file_url := be16 DHCPV6_OPT_BOOT_FILE @ be16 url_len @ snprintf DHCPV6_BOOT_FILE_BUF_LEN url (drop 4 (ro_boot_file_url ro)),
             ro_boot_file_len := 4 + unat url_len \<rparr>)"

section \<open>Parsing a request\<close>

text \<open>One round of the loop, for the option at \<open>i\<close>; \<open>Inl\<close> is a malformed option.\<close>

definition parse6_option ::
  "(ipv6_addr \<Rightarrow> string) \<Rightarrow> dp_port \<Rightarrow> u8 list \<Rightarrow> nat \<Rightarrow> u16 \<Rightarrow> u16 \<Rightarrow> dp_dhcpv6_reply_options \<Rightarrow> (unit + dp_dhcpv6_reply_options) option" where
  "parse6_option ntop port options i op_code op_len ro =
     (if op_code = DHCPV6_OPT_CLIENTID then
        if 128 < unat op_len then Some (Inl ())
        else do { hdr \<leftarrow> bytes_at options i 4; id \<leftarrow> bytes_at options (i + 4) (unat op_len); Some (Inr (ro\<lparr> ro_cid := hdr @ id \<rparr>)) }
      else if op_code = DHCPV6_OPT_IA_NA then
        if unat op_len < 12 then Some (Inl ())
        else do { iaid \<leftarrow> bytes_at options (i + 4) 4; Some (Inr (ro\<lparr> ro_iana := opt_iana iaid (cfg_dhcp_ipv6 (iface_cfg (port_iface port))) \<rparr>)) }
      else if op_code = DHCPV6_OPT_RAPID_COMMIT then
        if op_len \<noteq> 0 then Some (Inl ())
        else do { code \<leftarrow> bytes_at options i 2; Some (Inr (ro\<lparr> ro_rapid := code @ [0, 0] \<rparr>)) }
      else if op_code = DHCPV6_OPT_VENDOR_CLASS then
        do {
          opq_data_len \<leftarrow> le16_at options (i + 8);
          (if unat opq_data_len < length DP_VND_CLASS_ID_COMP_STR then Some (Inr ro)
           else
             do {
               opq_data \<leftarrow> bytes_at options (i + 10) (unat op_len);
               Some (Inr (if sublist (bytes_of DP_VND_CLASS_ID_COMP_STR) opq_data
                          then dp_fill_boot_file_option ntop port DP_PXE_MODE_TFTP DP_PXE_TFTP_PATH ro else ro))
             })
        }
      else if op_code = DHCPV6_OPT_USER_CLASS then
        do {
          sub_opt_len \<leftarrow> be16_at options (i + 4);
          (if unat sub_opt_len \<noteq> length DP_USER_CLASS_INF_COMP_STR then Some (Inr ro)
           else
             do {
               sub_opt_data \<leftarrow> bytes_at options (i + 6) (length DP_USER_CLASS_INF_COMP_STR);
               Some (Inr (if sub_opt_data = bytes_of DP_USER_CLASS_INF_COMP_STR
                          then dp_fill_boot_file_option ntop port DP_PXE_MODE_HTTP (cfg_pxe_str (iface_cfg (port_iface port))) ro else ro))
             })
        }
      else Some (Inr ro))"

function parse6_loop ::
  "(ipv6_addr \<Rightarrow> string) \<Rightarrow> dp_port \<Rightarrow> u8 list \<Rightarrow> nat \<Rightarrow> nat \<Rightarrow> dp_dhcpv6_reply_options \<Rightarrow> (unit + dp_dhcpv6_reply_options) option" where
  "parse6_loop ntop port options options_len i ro =
     (if \<not> i + sizeof_option < options_len then Some (Inr ro)
      else
        do {
          op_code \<leftarrow> be16_at options i;
          op_len \<leftarrow> be16_at options (i + 2);
          (if options_len < i + unat op_len then Some (Inl ())
           else
             do {
               r \<leftarrow> parse6_option ntop port options i op_code op_len ro;
               (case r of
                  Inl e \<Rightarrow> Some (Inl e)
                | Inr ro1 \<Rightarrow> parse6_loop ntop port options options_len (i + sizeof_option + unat op_len) ro1)
             })
        })"
  by pat_completeness auto
termination
  by (relation "measure (\<lambda>(_, _, _, n, i, _). n - i)") auto

declare parse6_loop.simps [simp del]

section \<open>The reply\<close>

text \<open>
  The space for options: the bytes from the first option to the end of the buffer, and how many of them belong to the packet.
  \<^verbatim>\<open>rte_pktmbuf_append\<close> fails if there is not enough room behind the packet, \<^verbatim>\<open>rte_pktmbuf_trim\<close> if the packet is too short.
\<close>

definition resize_packet :: "nat \<Rightarrow> int \<Rightarrow> nat \<Rightarrow> nat option" where
  "resize_packet room delta len =
     (if 0 < delta then if 65535 < delta \<or> int (room - len) < delta then None else Some (len + nat delta)
      else if delta < 0 then if delta < - 65535 \<or> int len < - delta then None else Some (len - nat (- delta))
      else Some len)"

definition strip_options :: "nat \<Rightarrow> nat \<Rightarrow> (int \<times> nat) option" where
  "strip_options room options_len =
     Some (case resize_packet room (- int options_len) options_len of None \<Rightarrow> (DP_ERROR, options_len) | Some len \<Rightarrow> (0, len))"

text \<open>
  Length and bytes of the boot file option are used only with a boot mode set.  The result is the length of the options or an error,
  and the new number of option bytes of the packet and the buffer.
\<close>

definition generate_reply_options ::
  "(ipv6_addr \<Rightarrow> string) \<Rightarrow> dp_port \<Rightarrow> mac_addr \<Rightarrow> u8 list \<Rightarrow> u8 list \<Rightarrow> nat \<Rightarrow> (int \<times> nat \<times> u8 list) option" where
  "generate_reply_options ntop port mac dns options options_len =
     do {
       r \<leftarrow> parse6_loop ntop port options options_len 0 no_reply_options;
       (case r of
          Inl _ \<Rightarrow> Some (DP_ERROR, options_len, options)
        | Inr ro \<Rightarrow>
            let dns_opt = be16 DHCPV6_OPT_DNS @ be16 (of_nat (length dns));
                boots = (ro_pxe_mode ro \<noteq> DP_PXE_MODE_NONE);
                reply_options_len = length (opt_sid mac) + length (ro_cid ro) + length (ro_iana ro) + length (ro_rapid ro)
                  + (length dns_opt + length dns) + (if boots then ro_boot_file_len ro else 0)
            in case resize_packet (length options) (int reply_options_len - int options_len) options_len of
                 None \<Rightarrow> Some (DP_ERROR, options_len, options)
               | Some len \<Rightarrow>
                   let p1 = length (opt_sid mac); p2 = p1 + length (ro_cid ro); p3 = p2 + length (ro_iana ro);
                       p4 = p3 + length dns_opt; p5 = p4 + length dns
                   in do {
                     o1 \<leftarrow> write_at 0 (opt_sid mac) options;
                     o2 \<leftarrow> write_at p1 (ro_cid ro) o1;
                     o3 \<leftarrow> write_at p2 (ro_iana ro) o2;
                     o4 \<leftarrow> write_at p3 (ro_rapid ro) o3;
                     o5 \<leftarrow> write_at p3 dns_opt o4;
                     o6 \<leftarrow> write_at p4 dns o5;
                     o7 \<leftarrow> (if boots then do { url \<leftarrow> bytes_at (ro_boot_file_url ro) 0 (ro_boot_file_len ro); write_at p5 url o6 } else Some o6);
                     Some (int reply_options_len, len, o7)
                   })
     }"

record dhcpv6_packet =
  d6_port :: u16
  d6_data_len :: u16
  d6_eth_src :: mac_addr
  d6_eth_dst :: mac_addr
  d6_ip_src :: ipv6_addr
  d6_ip_dst :: ipv6_addr
  d6_payload_len :: u16
  d6_udp_src :: u16
  d6_udp_dst :: u16
  d6_udp_len :: u16
  d6_udp_cksum :: u16
  d6_msg_type :: u8
  d6_transaction_id :: "u8 list"
  d6_options :: "u8 list"

text \<open>Turning the packet round.\<close>

definition dhcpv6_turn :: "dp_port \<Rightarrow> dhcpv6_packet \<Rightarrow> dhcpv6_packet" where
  "dhcpv6_turn port m = m\<lparr> d6_eth_dst := d6_eth_src m, d6_eth_src := port_own_mac port, d6_ip_dst := d6_ip_src m, d6_ip_src := dp_get_gw_ip6,
     d6_udp_src := htons DHCPV6_SERVER_PORT, d6_udp_dst := htons DHCPV6_CLIENT_PORT \<rparr>"

definition dhcpv6_get_next_index ::
  "(ipv6_addr \<Rightarrow> string) \<Rightarrow> u8 list \<Rightarrow> dp_port \<Rightarrow> dhcpv6_packet \<Rightarrow> (dhcp_next \<times> dhcpv6_packet) option" where
  "dhcpv6_get_next_index ntop dns port m =
     (let req_options_len = int (unat (d6_data_len m)) - int DP_DHCPV6_PKT_FIXED_LEN
      in if dp_is_ipv6_addr_zero (cfg_dhcp_ipv6 (iface_cfg (port_iface port))) then Some (DHCP_NEXT_DROP, m)
         else if req_options_len < 0 then Some (DHCP_NEXT_DROP, m)
         else
           let m1 = dhcpv6_turn port m; n = nat req_options_len;
               answer = (\<lambda>(ret, len, options) t.
                 let payload_len = nat ret + DP_DHCPV6_HDR_FIXED_LEN + sizeof_udp_hdr;
                     m2 = m1\<lparr> d6_msg_type := t, d6_data_len := of_nat (DP_DHCPV6_PKT_FIXED_LEN + len), d6_options := options \<rparr>
                 in if DP_FAILED ret then (DHCP_NEXT_DROP, m2)
                    else if 65535 < payload_len then (DHCP_NEXT_DROP, m2)
                    else (DHCP_NEXT_TX (d6_port m2),
                          m2\<lparr> d6_payload_len := htons (of_nat payload_len), d6_udp_len := htons (of_nat payload_len), d6_udp_cksum := 0 \<rparr>))
           in if d6_msg_type m = DHCPV6_SOLICIT then
                do { r \<leftarrow> generate_reply_options ntop port (d6_eth_dst m1) dns (d6_options m1) n; Some (answer r DHCPV6_ADVERTISE) }
              else if d6_msg_type m = DHCPV6_REQUEST \<or> d6_msg_type m = DHCPV6_RELEASE then
                do { r \<leftarrow> generate_reply_options ntop port (d6_eth_dst m1) dns (d6_options m1) n; Some (answer r DHCPV6_REPLY) }
              else if d6_msg_type m = DHCPV6_CONFIRM then
                do { (ret, len) \<leftarrow> strip_options (length (d6_options m1)) n; Some (answer (ret, len, d6_options m1) DHCPV6_REPLY) }
              else Some (DHCP_NEXT_DROP, m1))"

section \<open>Reading options\<close>

abbreviation enc6_options :: "(u16 \<times> u8 list) list \<Rightarrow> u8 list" where
  "enc6_options os \<equiv> concat (map enc6_option os)"

text \<open>The two options that announce a client booting over the network: the user class of iPXE and the vendor class of a PXE client.\<close>

definition ipxe_option :: "u16 \<times> u8 list \<Rightarrow> bool" where
  "ipxe_option opt \<longleftrightarrow> fst opt = DHCPV6_OPT_USER_CLASS \<and> take 6 (snd opt) = be16 4 @ bytes_of DP_USER_CLASS_INF_COMP_STR"

definition pxe_option :: "u16 \<times> u8 list \<Rightarrow> bool" where
  "pxe_option opt \<longleftrightarrow> fst opt = DHCPV6_OPT_VENDOR_CLASS \<and> sublist (bytes_of DP_VND_CLASS_ID_COMP_STR) (drop 6 (snd opt))"

text \<open>
  A vendor class: the number of the enterprise and one item of at most 255 bytes behind its length.  The code searches six bytes more
  than the item has, so the item is not to end in a part of the text searched for that the bytes behind it could complete.
\<close>

definition vendor_class_ok :: "u8 list \<Rightarrow> bool" where
  "vendor_class_ok data \<longleftrightarrow> 6 \<le> length data \<and> length data \<le> 261 \<and> take 2 (drop 4 data) = be16 (of_nat (length data - 6))
     \<and> (sublist (bytes_of DP_VND_CLASS_ID_COMP_STR) (drop 6 data)
        \<or> (\<forall>k \<in> {14..19}. \<not> suffix (take k (bytes_of DP_VND_CLASS_ID_COMP_STR)) (drop 6 data)))"

text \<open>Options a client may send: the lengths are those the code asks for, and the classes are well-formed.\<close>

definition valid6_option :: "u16 \<times> u8 list \<Rightarrow> bool" where
  "valid6_option opt \<longleftrightarrow> length (snd opt) \<le> 65535
     \<and> (fst opt = DHCPV6_OPT_CLIENTID \<longrightarrow> length (snd opt) \<le> 128) \<and> (fst opt = DHCPV6_OPT_IA_NA \<longrightarrow> 12 \<le> length (snd opt))
     \<and> (fst opt = DHCPV6_OPT_RAPID_COMMIT \<longrightarrow> snd opt = []) \<and> (fst opt = DHCPV6_OPT_VENDOR_CLASS \<longrightarrow> vendor_class_ok (snd opt))
     \<and> (fst opt = DHCPV6_OPT_USER_CLASS \<longrightarrow> 2 \<le> length (snd opt) \<and> (take 2 (snd opt) = be16 4 \<longrightarrow> 6 \<le> length (snd opt)))"

text \<open>What an option asks for.\<close>

definition apply6_option :: "(ipv6_addr \<Rightarrow> string) \<Rightarrow> dp_port \<Rightarrow> u16 \<times> u8 list \<Rightarrow> dp_dhcpv6_reply_options \<Rightarrow> dp_dhcpv6_reply_options" where
  "apply6_option ntop port opt ro =
     (if fst opt = DHCPV6_OPT_CLIENTID then ro\<lparr> ro_cid := enc6_option opt \<rparr>
      else if fst opt = DHCPV6_OPT_IA_NA then ro\<lparr> ro_iana := opt_iana (take 4 (snd opt)) (cfg_dhcp_ipv6 (iface_cfg (port_iface port))) \<rparr>
      else if fst opt = DHCPV6_OPT_RAPID_COMMIT then ro\<lparr> ro_rapid := enc6_option opt \<rparr>
      else if pxe_option opt then dp_fill_boot_file_option ntop port DP_PXE_MODE_TFTP DP_PXE_TFTP_PATH ro
      else if ipxe_option opt then dp_fill_boot_file_option ntop port DP_PXE_MODE_HTTP (cfg_pxe_str (iface_cfg (port_iface port))) ro
      else ro)"

lemma length_be16 [simp]: "length (be16 x) = 2"
  by (simp add: be16_def)

lemma length_enc6_option [simp]: "length (enc6_option opt) = 4 + length (snd opt)"
  by (simp add: enc6_option_def)

lemma le16_join: "push_bit 8 (ucast (ucast (drop_bit 8 x) :: u8)) OR ucast (ucast x :: u8) = (x :: u16)"
  by (rule bit_word_eqI) (auto simp: bit_or_iff bit_push_bit_iff bit_ucast_iff bit_drop_bit_eq)

lemma le16_at_append: "le16_at (xs @ [a, b] @ ys) (length xs) = Some (push_bit 8 (ucast b) OR ucast a)"
  by (simp add: le16_at_def byte_at_def nth_append)

lemma be16_at_append: "be16_at (xs @ be16 v @ ys) (length xs) = Some v"
  unfolding be16_at_def be16_def mem16_def le16_at_append le16_join by simp

lemma be16_inj: "be16 v = be16 w \<longleftrightarrow> v = w"
  using be16_at_append [of "[]" v "[]"] be16_at_append [of "[]" w "[]"] by (metis option.inject)

lemma be16_bytes: "be16 (ntohs (push_bit 8 (ucast b) OR ucast a)) = [a, b]" for a b :: u8
proof -
  have "ucast (push_bit 8 (ucast b) OR ucast a :: u16) = a"
    by (rule bit_word_eqI) (auto simp: bit_or_iff bit_push_bit_iff bit_ucast_iff)
  moreover have "ucast (drop_bit 8 (push_bit 8 (ucast b) OR ucast a :: u16)) = b"
    by (rule bit_word_eqI) (auto simp: bit_or_iff bit_push_bit_iff bit_ucast_iff bit_drop_bit_eq dest: bit_imp_le_length)
  ultimately show ?thesis
    by (simp only: be16_def mem16_def ntohs_ntohs)
qed

lemma be16_at_take: "2 \<le> length d \<Longrightarrow> \<exists>v. be16_at (xs @ d @ ys) (length xs) = Some v \<and> be16 v = take 2 d"
proof -
  assume "2 \<le> length d"
  then obtain a b e where d: "d = [a, b] @ e"
    by (cases d rule: list.exhaust [case_product list.exhaust]) (auto simp: Suc_le_length_iff numeral_2_eq_2)
  have "be16_at (xs @ d @ ys) (length xs) = Some (ntohs (push_bit 8 (ucast b) OR ucast a))"
    unfolding be16_at_def d append_assoc le16_at_append by simp
  then show ?thesis
    using be16_bytes d by fastforce
qed

lemma unat_swapped: "k \<le> 255 \<Longrightarrow> unat (ntohs (of_nat k)) = 256 * k"
proof -
  assume k: "k \<le> 255"
  then have "unat (of_nat k :: u16) = k"
    by (simp add: unat_of_nat take_bit_eq_mod)
  then have "drop_bit 8 (of_nat k :: u16) = 0"
    using k by (simp add: word_unat_eq_iff unat_drop_bit_eq drop_bit_eq_div unat_div)
  then have "ntohs (of_nat k) = push_bit 8 (of_nat k)"
    by (simp add: ntohs_def)
  then show ?thesis
    using k by (simp add: push_bit_eq_mult unat_word_ariths unat_of_nat take_bit_eq_mod)
qed

lemma sublist_behind:
  assumes "sublist xs (ys @ zs)" "length zs \<le> 6" "length xs = 20" "\<forall>k \<in> {14..19}. \<not> suffix (take k xs) ys"
  shows "sublist xs ys"
proof -
  consider "sublist xs ys" | "sublist xs zs" | xs1 xs2 where "xs = xs1 @ xs2" "suffix xs1 ys" "prefix xs2 zs"
    using assms(1) by (auto simp: sublist_append)
  then show ?thesis
  proof cases
    case 2
    then show ?thesis using sublist_length_le [OF 2] assms(2,3) by simp
  next
    case 3
    then have "length xs1 = 20 - length xs2" "length xs2 \<le> 6" "take (length xs1) xs = xs1"
      using assms(2,3) prefix_length_le [OF 3(3)] by simp_all
    moreover from this have "\<not> length xs1 \<in> {14..19}"
      using assms(4) 3(2) by metis
    ultimately have "\<not> 0 < length xs2"
      unfolding atLeastAtMost_iff by linarith
    then show ?thesis using 3 by auto
  qed
qed

lemma vendor_class_parsed:
  assumes ok: "vendor_class_ok d" and suf: "6 \<le> length suf" and mem: "mem = pre @ d @ suf"
  shows "\<exists>len. le16_at mem (length pre + 4) = Some len \<and> bytes_at mem (length pre + 6) (length d) = Some (drop 6 d @ take 6 suf) \<and>
    (length DP_VND_CLASS_ID_COMP_STR \<le> unat len \<and> sublist (bytes_of DP_VND_CLASS_ID_COMP_STR) (drop 6 d @ take 6 suf) \<longleftrightarrow>
     sublist (bytes_of DP_VND_CLASS_ID_COMP_STR) (drop 6 d))"
proof -
  let ?id = "bytes_of DP_VND_CLASS_ID_COMP_STR"
  define n where "n = length d - 6"
  have size: "length DP_VND_CLASS_ID_COMP_STR = 20"
    by (simp add: DP_VND_CLASS_ID_COMP_STR_def)
  have d: "length d = n + 6" "n \<le> 255" "take 2 (drop 4 d) = be16 (of_nat n)"
    using ok unfolding vendor_class_ok_def n_def by simp_all linarith
  have "d = take 4 d @ be16 (of_nat n) @ drop 6 d"
    using append_take_drop_id [of 2 "drop 4 d"] by (simp add: d(3))
  then have "mem = (pre @ take 4 d) @ be16 (of_nat n) @ drop 6 d @ suf"
    unfolding mem by (metis append.assoc)
  then have "le16_at mem (length pre + 4) = Some (ntohs (of_nat n))"
    using le16_at_append [of "pre @ take 4 d"] d(1) by (simp add: be16_def mem16_def le16_join)
  moreover have "bytes_at mem (length pre + 6) (length d) = Some (drop 6 d @ take 6 suf)"
    using d(1) suf by (simp add: mem bytes_at_def)
  moreover have "sublist ?id (drop 6 d @ take 6 suf) \<longleftrightarrow> sublist ?id (drop 6 d)"
    using ok sublist_behind [of ?id "drop 6 d" "take 6 suf"] size by (auto simp: vendor_class_ok_def sublist_append)
  moreover have "n \<noteq> 0" if "sublist ?id (drop 6 d)"
    using sublist_length_le [OF that] d(1) size by auto
  ultimately show ?thesis
    using unat_swapped [OF d(2)] size by auto
qed

lemma parse6_option_apply:
  assumes valid: "valid6_option opt" and suf: "fst opt = DHCPV6_OPT_VENDOR_CLASS \<Longrightarrow> 6 \<le> length suf"
  shows "parse6_option ntop port (pre @ enc6_option opt @ suf) (length pre) (fst opt) (of_nat (length (snd opt))) ro = Some (Inr (apply6_option ntop port opt ro))"
proof -
  obtain c d where opt: "opt = (c, d)" by fastforce
  let ?mem = "pre @ enc6_option opt @ suf" and ?len = "of_nat (length d) :: u16"
  have len: "unat ?len = length d"
    using valid by (simp add: valid6_option_def opt unat_of_nat take_bit_eq_mod)
  have mem: "?mem = (pre @ be16 c @ be16 ?len) @ d @ suf"
    by (simp add: enc6_option_def opt)
  have data: "bytes_at ?mem (length pre + 4) k = Some (take k d)" if "k \<le> length d" for k
    using that by (simp add: mem bytes_at_def)
  have hdr: "bytes_at ?mem (length pre) 4 = Some (be16 c @ be16 ?len)" "bytes_at ?mem (length pre) 2 = Some (be16 c)"
    by (simp_all add: mem bytes_at_def)
  have sub: "bytes_at ?mem (length pre + 6) 4 = Some (take 4 (drop 2 d))" if "6 \<le> length d"
    using that by (simp add: mem bytes_at_def)
  have size: "length DP_USER_CLASS_INF_COMP_STR = 4"
    by (simp add: DP_USER_CLASS_INF_COMP_STR_def)
  consider "c = DHCPV6_OPT_CLIENTID" | "c = DHCPV6_OPT_IA_NA" | "c = DHCPV6_OPT_RAPID_COMMIT" | "c = DHCPV6_OPT_USER_CLASS" | "c = DHCPV6_OPT_VENDOR_CLASS"
    | "c \<noteq> DHCPV6_OPT_CLIENTID" "c \<noteq> DHCPV6_OPT_IA_NA" "c \<noteq> DHCPV6_OPT_RAPID_COMMIT" "c \<noteq> DHCPV6_OPT_USER_CLASS" "c \<noteq> DHCPV6_OPT_VENDOR_CLASS"
    by blast
  then show ?thesis
  proof cases
    case 1
    then show ?thesis
      using valid data [of "length d"] hdr by (simp add: parse6_option_def apply6_option_def opt len valid6_option_def enc6_option_def)
  next
    case 2
    then show ?thesis
      using valid data [of 4] by (simp add: parse6_option_def apply6_option_def opt len valid6_option_def enc6_option_def)
  next
    case 3
    have "be16 0 = [0, 0]" by (simp add: be16_def mem16_def)
    with 3 show ?thesis
      using valid hdr by (simp add: parse6_option_def apply6_option_def opt len valid6_option_def enc6_option_def)
  next
    case 4
    then have d: "2 \<le> length d" "take 2 d = be16 4 \<Longrightarrow> 6 \<le> length d" using valid by (simp_all add: opt valid6_option_def)
    then obtain v where v: "be16_at ?mem (length pre + 4) = Some v" "be16 v = take 2 d"
      using be16_at_take [of d "pre @ be16 c @ be16 ?len" suf] unfolding mem by auto
    have "unat v = 4 \<longleftrightarrow> v = 4" by (simp add: word_unat_eq_iff)
    moreover have "take 6 d = be16 v @ take 4 (drop 2 d)"
      using take_add [of 2 4 d] v(2) by simp
    then have "take 6 d = be16 4 @ bytes_of DP_USER_CLASS_INF_COMP_STR \<longleftrightarrow> v = 4 \<and> take 4 (drop 2 d) = bytes_of DP_USER_CLASS_INF_COMP_STR"
      by (simp add: append_eq_append_conv be16_inj)
    moreover have "v = 4 \<Longrightarrow> 6 \<le> length d"
      using d(2) v(2) by simp
    ultimately show ?thesis
      using 4 v(1) sub size by (auto simp: parse6_option_def apply6_option_def opt ipxe_option_def pxe_option_def)
  next
    case 5
    have ok: "vendor_class_ok d" "6 \<le> length suf"
      using valid suf 5 by (simp_all add: valid6_option_def opt)
    have pos: "length (pre @ be16 c @ be16 ?len) + 4 = length pre + 8" "length (pre @ be16 c @ be16 ?len) + 6 = length pre + 10"
      by simp_all
    obtain v where "le16_at ?mem (length pre + 8) = Some v" "bytes_at ?mem (length pre + 10) (length d) = Some (drop 6 d @ take 6 suf)"
        "length DP_VND_CLASS_ID_COMP_STR \<le> unat v \<and> sublist (bytes_of DP_VND_CLASS_ID_COMP_STR) (drop 6 d @ take 6 suf) \<longleftrightarrow>
          sublist (bytes_of DP_VND_CLASS_ID_COMP_STR) (drop 6 d)"
      using vendor_class_parsed [OF ok mem] unfolding pos by blast
    then show ?thesis
      using 5 by (auto simp: parse6_option_def apply6_option_def opt len ipxe_option_def pxe_option_def not_less)
  next
    case 6
    then show ?thesis
      by (simp add: parse6_option_def apply6_option_def opt ipxe_option_def pxe_option_def)
  qed
qed

text \<open>The loop stops before an option without data at the end of the packet.\<close>

definition seen6 :: "(u16 \<times> u8 list) list \<Rightarrow> (u16 \<times> u8 list) list" where
  "seen6 os = (if os \<noteq> [] \<and> snd (last os) = [] then butlast os else os)"

lemma parse6_loop_done: "n \<le> i + 4 \<Longrightarrow> parse6_loop ntop port mem n i ro = Some (Inr ro)"
  by (subst parse6_loop.simps) simp

lemma parse6_loop_option:
  assumes valid: "valid6_option opt" and suf: "fst opt = DHCPV6_OPT_VENDOR_CLASS \<Longrightarrow> 6 \<le> length suf" and n: "length pre + length (enc6_option opt) \<le> n" "length pre + 4 < n"
  shows "parse6_loop ntop port (pre @ enc6_option opt @ suf) n (length pre) ro =
    parse6_loop ntop port (pre @ enc6_option opt @ suf) n (length pre + length (enc6_option opt)) (apply6_option ntop port opt ro)"
proof -
  let ?mem = "pre @ enc6_option opt @ suf" and ?len = "of_nat (length (snd opt)) :: u16"
  have len: "unat ?len = length (snd opt)"
    using valid by (simp add: valid6_option_def unat_of_nat take_bit_eq_mod)
  have at: "be16_at ?mem (length pre) = Some (fst opt)" "be16_at ?mem (length pre + 2) = Some ?len"
    using be16_at_append [of pre "fst opt"] be16_at_append [of "pre @ be16 (fst opt)" ?len] by (simp_all add: enc6_option_def)
  have "\<not> n < length pre + unat ?len" "length pre + length (enc6_option opt) = length pre + 4 + unat ?len"
    using n len by simp_all
  then show ?thesis
    using n(2) by (subst parse6_loop.simps) (simp only: at parse6_option_apply [OF valid suf] bind.bind_lunit if_False if_True not_True_eq_False sum.case)
qed

text \<open>The six bytes behind a vendor class are the only ones read behind an option, so the buffer must have them.\<close>

abbreviation room_behind :: "(u16 \<times> u8 list) list \<Rightarrow> u8 list \<Rightarrow> bool" where
  "room_behind os behind \<equiv> list_ex (\<lambda>opt. fst opt = DHCPV6_OPT_VENDOR_CLASS) os \<longrightarrow> 6 \<le> length behind"

lemma parse6_loop_options:
  assumes "list_all valid6_option os" "room_behind os suf" "n = length pre + length (enc6_options os)"
  shows "parse6_loop ntop port (pre @ enc6_options os @ suf) n (length pre) ro = Some (Inr (fold (apply6_option ntop port) (seen6 os) ro))"
  using assms
proof (induction os arbitrary: pre ro)
  case Nil
  then show ?case by (simp add: parse6_loop_done seen6_def)
next
  case (Cons opt os)
  show ?case
  proof (cases "os = [] \<and> snd opt = []")
    case True
    with Cons.prems(3) show ?thesis
      by (simp add: parse6_loop_done seen6_def)
  next
    case False
    then have n: "length pre + length (enc6_option opt) \<le> n" "length pre + 4 < n"
      using Cons.prems(3) by (cases os; simp; cases "snd opt"; simp)+
    have "parse6_loop ntop port (pre @ enc6_options (opt # os) @ suf) n (length pre) ro =
        parse6_loop ntop port ((pre @ enc6_option opt) @ enc6_options os @ suf) n (length (pre @ enc6_option opt)) (apply6_option ntop port opt ro)"
      using parse6_loop_option [of opt "enc6_options os @ suf" pre n ntop port ro] Cons.prems(1,2) n by auto
    also have "\<dots> = Some (Inr (fold (apply6_option ntop port) (seen6 os) (apply6_option ntop port opt ro)))"
      by (rule Cons.IH) (use Cons.prems in auto)
    finally show ?thesis
      using False by (auto simp: seen6_def)
  qed
qed

section \<open>The options of the reply\<close>

text \<open>The last option with a code, if there is one.\<close>

definition last_opt :: "u16 \<Rightarrow> (u16 \<times> u8 list) list \<Rightarrow> (u16 \<times> u8 list) list" where
  "last_opt c os = (let xs = filter (\<lambda>opt. fst opt = c) os in if xs = [] then [] else [last xs])"

definition iana_data :: "u8 list \<Rightarrow> ipv6_addr \<Rightarrow> u8 list" where
  "iana_data iaid ip = iaid @ mem32 DHCPV6_INFINITY @ mem32 DHCPV6_INFINITY
     @ be16 DHCPV6_OPT_IAADDR @ be16 30 @ mem128 ip @ mem32 DHCPV6_INFINITY @ mem32 DHCPV6_INFINITY
     @ be16 DHCPV6_OPT_STATUS_CODE @ be16 2 @ mem16 0"

text \<open>The boot mode of a client is that of the last option that announces one.\<close>

definition boot_kind :: "u16 \<times> u8 list \<Rightarrow> dp_pxe_mode" where
  "boot_kind opt = (if pxe_option opt then DP_PXE_MODE_TFTP else if ipxe_option opt then DP_PXE_MODE_HTTP else DP_PXE_MODE_NONE)"

definition boot_mode :: "(u16 \<times> u8 list) list \<Rightarrow> dp_pxe_mode" where
  "boot_mode os = (let modes = filter (\<lambda>mode. mode \<noteq> DP_PXE_MODE_NONE) (map boot_kind os) in if modes = [] then DP_PXE_MODE_NONE else last modes)"

definition boot_url :: "(ipv6_addr \<Rightarrow> string) \<Rightarrow> dp_port \<Rightarrow> dp_pxe_mode \<Rightarrow> string" where
  "boot_url ntop port mode =
     (let server = ''['' @ ntop (ip_ipv6 (cfg_pxe_ip (iface_cfg (port_iface port)))) @ '']/''
      in case mode of
           DP_PXE_MODE_NONE \<Rightarrow> []
         | DP_PXE_MODE_TFTP \<Rightarrow> ''tftp://'' @ server @ ''ipxe/x86_64/ipxe.new''
         | DP_PXE_MODE_HTTP \<Rightarrow> ''http://'' @ server @ cfg_pxe_str (iface_cfg (port_iface port)))"

text \<open>What a server is to send for the options \<open>os\<close> of a request, apart from the rapid commit.\<close>

definition reply6_options :: "(ipv6_addr \<Rightarrow> string) \<Rightarrow> dp_port \<Rightarrow> mac_addr \<Rightarrow> u8 list \<Rightarrow> (u16 \<times> u8 list) list \<Rightarrow> (u16 \<times> u8 list) list" where
  "reply6_options ntop port mac dns os =
     [(DHCPV6_OPT_SERVERID, be16 DHCPV6_DUID_LL @ be16 DP_DHCPV6_HW_ID @ mem_mac mac)]
     @ last_opt DHCPV6_OPT_CLIENTID os
     @ map (\<lambda>opt. (DHCPV6_OPT_IA_NA, iana_data (take 4 (snd opt)) (cfg_dhcp_ipv6 (iface_cfg (port_iface port))))) (last_opt DHCPV6_OPT_IA_NA os)
     @ [(DHCPV6_OPT_DNS, dns)]
     @ (if boot_mode os = DP_PXE_MODE_NONE then [] else [(DHCPV6_OPT_BOOT_FILE, bytes_of (boot_url ntop port (boot_mode os)))])"

lemma last_opt_snoc: "last_opt c (os @ [opt]) = (if fst opt = c then [opt] else last_opt c os)"
  by (simp add: last_opt_def Let_def)

lemma boot_mode_snoc: "boot_mode (os @ [opt]) = (if boot_kind opt = DP_PXE_MODE_NONE then boot_mode os else boot_kind opt)"
  by (simp add: boot_mode_def Let_def)

lemma length_mem128 [simp]: "length (mem128 ip) = 16"
  by (simp add: mem128_def)

lemma length_snprintf: "length mem = n \<Longrightarrow> 0 < n \<Longrightarrow> length (snprintf n s mem) = n"
  by (simp add: snprintf_def Let_def)

lemma opt_iana_enc: "length iaid = 4 \<Longrightarrow> opt_iana iaid ip = enc6_option (DHCPV6_OPT_IA_NA, iana_data iaid ip)"
  by (simp add: opt_iana_def enc6_option_def iana_data_def)

text \<open>The collected options are those of the reply; the address of the boot file fits.\<close>

definition collected :: "(ipv6_addr \<Rightarrow> string) \<Rightarrow> dp_port \<Rightarrow> (u16 \<times> u8 list) list \<Rightarrow> dp_dhcpv6_reply_options \<Rightarrow> bool" where
  "collected ntop port os ro \<longleftrightarrow>
     ro_cid ro = enc6_options (last_opt DHCPV6_OPT_CLIENTID os)
     \<and> ro_iana ro = enc6_options (map (\<lambda>opt. (DHCPV6_OPT_IA_NA, iana_data (take 4 (snd opt)) (cfg_dhcp_ipv6 (iface_cfg (port_iface port))))) (last_opt DHCPV6_OPT_IA_NA os))
     \<and> ro_rapid ro = enc6_options (last_opt DHCPV6_OPT_RAPID_COMMIT os)
     \<and> length (ro_boot_file_url ro) = 100
     \<and> ro_pxe_mode ro = boot_mode os
     \<and> (boot_mode os \<noteq> DP_PXE_MODE_NONE \<longrightarrow> length (boot_url ntop port (boot_mode os)) \<le> 95 \<longrightarrow>
          ro_boot_file_len ro \<le> 100 \<and>
          take (ro_boot_file_len ro) (ro_boot_file_url ro) = enc6_option (DHCPV6_OPT_BOOT_FILE, bytes_of (boot_url ntop port (boot_mode os))))"

lemma boot_file_collected:
  fixes ntop :: "ipv6_addr \<Rightarrow> string"
  assumes "length (ro_boot_file_url ro) = 100" and mode: "mode = DP_PXE_MODE_TFTP \<and> sfx = DP_PXE_TFTP_PATH \<or> mode = DP_PXE_MODE_HTTP \<and> sfx = cfg_pxe_str (iface_cfg (port_iface port))"
  defines "ro' \<equiv> dp_fill_boot_file_option ntop port mode sfx ro"
  shows "length (boot_url ntop port mode) \<le> 95 \<Longrightarrow> ro_boot_file_len ro' \<le> 100 \<and>
      take (ro_boot_file_len ro') (ro_boot_file_url ro') = enc6_option (DHCPV6_OPT_BOOT_FILE, bytes_of (boot_url ntop port mode))"
    "length (ro_boot_file_url ro') = 100" "ro_pxe_mode ro' = mode" "ro_cid ro' = ro_cid ro" "ro_iana ro' = ro_iana ro" "ro_rapid ro' = ro_rapid ro"
proof -
  define url where "url = boot_url ntop port mode"
  have ro': "ro_boot_file_url ro' = be16 DHCPV6_OPT_BOOT_FILE @ be16 (of_nat (length url)) @ snprintf 96 url (drop 4 (ro_boot_file_url ro))"
    "ro_boot_file_len ro' = 4 + unat (of_nat (length url) :: u16)"
    using mode by (auto simp: ro'_def dp_fill_boot_file_option_def url_def boot_url_def DP_PXE_TFTP_PATH_def Let_def)
  show "ro_boot_file_len ro' \<le> 100 \<and> take (ro_boot_file_len ro') (ro_boot_file_url ro') = enc6_option (DHCPV6_OPT_BOOT_FILE, bytes_of (boot_url ntop port mode))"
    if "length (boot_url ntop port mode) \<le> 95"
  proof -
    have "unat (of_nat (length url) :: u16) = length url"
      using that by (simp add: unat_of_nat take_bit_eq_mod url_def)
    moreover have "take (length url) (snprintf 96 url (drop 4 (ro_boot_file_url ro))) = bytes_of url"
      using that by (simp add: snprintf_def Let_def url_def)
    ultimately show ?thesis
      using that ro' by (simp add: enc6_option_def url_def)
  qed
  show "length (ro_boot_file_url ro') = 100" "ro_pxe_mode ro' = mode" "ro_cid ro' = ro_cid ro" "ro_iana ro' = ro_iana ro" "ro_rapid ro' = ro_rapid ro"
    using assms(1) ro'(1) by (simp_all add: length_snprintf) (simp_all add: ro'_def dp_fill_boot_file_option_def Let_def)
qed

lemma fold_collected:
  assumes valid: "list_all valid6_option os"
  shows "collected ntop port os (fold (apply6_option ntop port) os no_reply_options)"
  using valid
proof (induction os rule: rev_induct)
  case Nil
  then show ?case by (simp add: collected_def no_reply_options_def last_opt_def boot_mode_def)
next
  case (snoc opt os)
  define ro where "ro = fold (apply6_option ntop port) os no_reply_options"
  have IH: "collected ntop port os ro" and valid: "valid6_option opt"
    using snoc by (simp_all add: ro_def)
  note boot = boot_file_collected [of ro _ _ port ntop]
  have iana: "opt_iana (take 4 (snd opt)) ip = enc6_option (DHCPV6_OPT_IA_NA, iana_data (take 4 (snd opt)) ip)" if "fst opt = DHCPV6_OPT_IA_NA" for ip
    using that valid by (intro opt_iana_enc) (simp add: valid6_option_def)
  have "collected ntop port (os @ [opt]) (apply6_option ntop port opt ro)"
    using IH boot iana unfolding collected_def apply6_option_def last_opt_snoc boot_mode_snoc boot_kind_def
    by (auto simp: ipxe_option_def pxe_option_def)
  then show ?case by (simp add: ro_def)
qed

lemma write_at_front: "length a = i \<Longrightarrow> i + length b \<le> length m \<Longrightarrow> write_at i b (a @ drop i m) = Some ((a @ b) @ drop (i + length b) m)"
  by (auto simp: write_at_def add.commute)

lemma write_at_over:
  "length a = i \<Longrightarrow> length b \<le> length d \<Longrightarrow> i + length d \<le> length m \<Longrightarrow> write_at i d ((a @ b) @ drop (i + length b) m) = Some ((a @ d) @ drop (i + length d) m)"
  by (auto simp: write_at_def add.commute)

lemma resize_packet_to: "n \<le> room \<Longrightarrow> len \<le> room \<Longrightarrow> n \<le> 65535 \<Longrightarrow> len \<le> 65535 \<Longrightarrow> resize_packet room (int n - int len) len = Some n"
  by (auto simp: resize_packet_def)

lemma generate_reply_options_layout:
  assumes parsed: "parse6_loop ntop port options options_len 0 no_reply_options = Some (Inr ro)" and ro: "collected ntop port os ro"
    and room: "length (enc6_options (reply6_options ntop port mac dns os)) + 4 \<le> length options" "options_len \<le> length options"
      "length (enc6_options (reply6_options ntop port mac dns os)) + 4 \<le> 65535" "options_len \<le> 65535" "length dns \<le> 255"
    and rapid: "length (ro_rapid ro) \<le> 4" and url: "length (boot_url ntop port (boot_mode os)) \<le> 95"
  defines "body \<equiv> enc6_options (reply6_options ntop port mac dns os)"
  defines "n \<equiv> length body + length (ro_rapid ro)"
  shows "generate_reply_options ntop port mac dns options options_len = Some (int n, n, body @ drop (length body) options)"
proof -
  define sid dns_opt boot where "sid = opt_sid mac" "dns_opt = be16 DHCPV6_OPT_DNS @ be16 (of_nat (length dns))"
    "boot = (if boot_mode os = DP_PXE_MODE_NONE then [] else enc6_option (DHCPV6_OPT_BOOT_FILE, bytes_of (boot_url ntop port (boot_mode os))))"
  note defs = sid_dns_opt_boot_def
  have body: "body = sid @ ro_cid ro @ ro_iana ro @ dns_opt @ dns @ boot"
    using ro by (simp add: body_def reply6_options_def collected_def defs opt_sid_def enc6_option_def)
  have boots: "ro_pxe_mode ro = boot_mode os" "boot_mode os \<noteq> DP_PXE_MODE_NONE \<Longrightarrow> bytes_at (ro_boot_file_url ro) 0 (ro_boot_file_len ro) = Some boot"
    "boot_mode os \<noteq> DP_PXE_MODE_NONE \<Longrightarrow> length boot = ro_boot_file_len ro"
    using ro url by (auto simp: collected_def bytes_at_def defs min_def dest: arg_cong [where f = length])
  have len: "length body + 4 \<le> length options"
    using room(1) by (simp add: body_def)
  define n0 where "n0 = length sid + length (ro_cid ro) + length (ro_iana ro) + length (ro_rapid ro) + (length dns_opt + length dns)
      + (if ro_pxe_mode ro \<noteq> DP_PXE_MODE_NONE then ro_boot_file_len ro else 0)"
  have n0: "n0 = n"
    using boots by (auto simp: n0_def n_def body defs(3))
  have "resize_packet (length options) (int n0 - int options_len) options_len = Some n"
    unfolding n0 by (rule resize_packet_to) (use room rapid len in \<open>simp_all add: n_def body_def\<close>)
  moreover
  have "length dns_opt = 4" "write_at 0 sid options = Some (sid @ drop (length sid) options)"
    using write_at_front [of "[]" 0 sid options] len by (simp_all add: body defs)
  moreover
  have "write_at (length sid) (ro_cid ro) (sid @ drop (length sid) options) = Some ((sid @ ro_cid ro) @ drop (length sid + length (ro_cid ro)) options)"
    by (rule write_at_front) (use len in \<open>simp_all add: body\<close>)
  moreover
  let ?p3 = "length sid + length (ro_cid ro) + length (ro_iana ro)" and ?a3 = "(sid @ ro_cid ro) @ ro_iana ro"
  have "write_at (length sid + length (ro_cid ro)) (ro_iana ro) ((sid @ ro_cid ro) @ drop (length sid + length (ro_cid ro)) options)
      = Some (?a3 @ drop ?p3 options)"
    by (rule write_at_front) (use len in \<open>simp_all add: body\<close>)
  moreover
  have "write_at ?p3 (ro_rapid ro) (?a3 @ drop ?p3 options) = Some ((?a3 @ ro_rapid ro) @ drop (?p3 + length (ro_rapid ro)) options)"
    by (rule write_at_front) (use len rapid in \<open>simp_all add: body\<close>)
  moreover
  have "write_at ?p3 dns_opt ((?a3 @ ro_rapid ro) @ drop (?p3 + length (ro_rapid ro)) options) = Some ((?a3 @ dns_opt) @ drop (?p3 + length dns_opt) options)"
    by (rule write_at_over) (use len rapid in \<open>simp_all add: body defs\<close>)
  moreover
  let ?p5 = "?p3 + length dns_opt + length dns" and ?a5 = "(?a3 @ dns_opt) @ dns"
  have "write_at (?p3 + length dns_opt) dns ((?a3 @ dns_opt) @ drop (?p3 + length dns_opt) options) = Some (?a5 @ drop ?p5 options)"
    by (rule write_at_front) (use len in \<open>simp_all add: body\<close>)
  moreover
  have "write_at ?p5 boot (?a5 @ drop ?p5 options) = Some ((?a5 @ boot) @ drop (?p5 + length boot) options)"
    by (rule write_at_front) (use len in \<open>simp_all add: body\<close>)
  moreover
  have "length body = ?p5 + length boot" "body = ?a5 @ boot"
    by (simp_all add: body)
  moreover
  have "boot = []" if "boot_mode os = DP_PXE_MODE_NONE"
    using that by (simp add: defs)
  ultimately
  show ?thesis
    unfolding generate_reply_options_def parsed bind.bind_lunit sum.case Let_def
    using boots n0 unfolding n0_def defs(1,2)
    by (cases "boot_mode os = DP_PXE_MODE_NONE") (simp_all only: bind.bind_lunit option.case if_True if_False append_Nil2 list.size add_0_right not_False_eq_True simp_thms)
qed

lemma seen6_valid: "list_all valid6_option os \<Longrightarrow> list_all valid6_option (seen6 os)"
  by (auto simp: seen6_def list_all_iff dest: in_set_butlastD)

lemma last_opt_valid: "list_all valid6_option os \<Longrightarrow> list_all valid6_option (last_opt c os)"
  by (auto simp: last_opt_def Let_def list_all_iff dest!: last_in_set)

lemma rapid_commit_enc:
  "list_all valid6_option os \<Longrightarrow> enc6_options (last_opt DHCPV6_OPT_RAPID_COMMIT os) = (if list_ex (\<lambda>opt. fst opt = DHCPV6_OPT_RAPID_COMMIT) os then enc6_option (DHCPV6_OPT_RAPID_COMMIT, []) else [])"
  by (induction os rule: rev_induct) (auto simp: last_opt_snoc valid6_option_def last_opt_def [of _ "[]"] prod_eq_iff)

section \<open>Properties\<close>

abbreviation reply_bytes :: "(ipv6_addr \<Rightarrow> string) \<Rightarrow> u8 list \<Rightarrow> dp_port \<Rightarrow> dhcpv6_packet \<Rightarrow> (u16 \<times> u8 list) list \<Rightarrow> u8 list" where
  "reply_bytes ntop dns port m os \<equiv> enc6_options (reply6_options ntop port (d6_eth_src m) dns (seen6 os))"

abbreviation wants_rapid_commit :: "(u16 \<times> u8 list) list \<Rightarrow> bool" where
  "wants_rapid_commit os \<equiv> list_ex (\<lambda>opt. fst opt = DHCPV6_OPT_RAPID_COMMIT) (seen6 os)"

lemma generate_reply_options_request:
  assumes "list_all valid6_option os" "length (boot_url ntop port (boot_mode (seen6 os))) \<le> 95" "room_behind os behind" "length dns \<le> 255" "length (enc6_options os @ behind) \<le> 65535"
    and "length (enc6_options (reply6_options ntop port mac dns (seen6 os))) + 4 \<le> length (enc6_options os @ behind)"
  defines "body \<equiv> enc6_options (reply6_options ntop port mac dns (seen6 os))"
  defines "n \<equiv> length body + (if wants_rapid_commit os then 4 else 0)"
  shows "generate_reply_options ntop port mac dns (enc6_options os @ behind) (length (enc6_options os)) =
    Some (int n, n, body @ drop (length body) (enc6_options os @ behind))"
proof -
  define ro where "ro = fold (apply6_option ntop port) (seen6 os) no_reply_options"
  have parsed: "parse6_loop ntop port (enc6_options os @ behind) (length (enc6_options os)) 0 no_reply_options = Some (Inr ro)"
    using parse6_loop_options [OF assms(1,3), of _ "[]"] by (simp add: ro_def)
  have ro: "collected ntop port (seen6 os) ro"
    unfolding ro_def by (rule fold_collected [OF seen6_valid [OF assms(1)]])
  have rapid: "length (ro_rapid ro) = (if wants_rapid_commit os then 4 else 0)"
    using ro rapid_commit_enc [OF seen6_valid [OF assms(1)]] by (simp add: collected_def)
  have "generate_reply_options ntop port mac dns (enc6_options os @ behind) (length (enc6_options os)) =
      Some (int (length body + length (ro_rapid ro)), length body + length (ro_rapid ro), body @ drop (length body) (enc6_options os @ behind))"
    unfolding body_def
    by (rule generate_reply_options_layout [OF parsed ro assms(6)]) (use assms(2,4,5,6) rapid in \<open>simp_all split: if_splits\<close>)
  then show ?thesis
    by (simp only: n_def rapid)
qed

definition example_dhcpv6_options :: "(u16 \<times> u8 list) list" where
  "example_dhcpv6_options = [(DHCPV6_OPT_RAPID_COMMIT, []), (DHCPV6_OPT_IA_NA, replicate 12 9),
     (DHCPV6_OPT_VENDOR_CLASS, [0, 0, 1, 87, 0, 20] @ bytes_of ''PXEClient:Arch:00007''), (DHCPV6_OPT_CLIENTID, [7, 8])]"

definition example_dhcpv6_packet :: dhcpv6_packet where
  "example_dhcpv6_packet = \<lparr> d6_port = 2, d6_data_len = 122, d6_eth_src = 3, d6_eth_dst = 4, d6_ip_src = 5, d6_ip_dst = 6, d6_payload_len = 0,
     d6_udp_src = 0, d6_udp_dst = 0, d6_udp_len = 0, d6_udp_cksum = 0, d6_msg_type = DHCPV6_SOLICIT, d6_transaction_id = [1, 2, 3],
     d6_options = enc6_options example_dhcpv6_options @ replicate 200 0 \<rparr>"

definition example_dhcpv6_port :: dp_port where
  "example_dhcpv6_port = upd_iface (\<lambda>i. i\<lparr> iface_cfg := (iface_cfg i)\<lparr> cfg_dhcp_ipv6 := 10 \<rparr> \<rparr>) zero_port"

lemma example_vendor_class: "vendor_class_ok ([0, 0, 1, 87, 0, 20] @ bytes_of ''PXEClient:Arch:00007'')"
proof -
  have "be16 20 = [0, 20]" by code_simp
  then show ?thesis by (simp add: vendor_class_ok_def DP_VND_CLASS_ID_COMP_STR_def)
qed

lemma example_boot_mode: "boot_mode (seen6 example_dhcpv6_options) = DP_PXE_MODE_TFTP"
  by (simp add: example_dhcpv6_options_def seen6_def boot_mode_def boot_kind_def pxe_option_def ipxe_option_def DP_VND_CLASS_ID_COMP_STR_def)

lemma example_dhcpv6_request:
  "d6_options example_dhcpv6_packet = enc6_options example_dhcpv6_options @ replicate 200 0" "list_all valid6_option example_dhcpv6_options"
  "room_behind example_dhcpv6_options (replicate 200 0)"
  "unat (d6_data_len example_dhcpv6_packet) = DP_DHCPV6_PKT_FIXED_LEN + length (enc6_options example_dhcpv6_options)"
  "DP_DHCPV6_PKT_FIXED_LEN + length (d6_options example_dhcpv6_packet) \<le> 65535"
  "length (reply_bytes (\<lambda>_. ''::'') [] example_dhcpv6_port example_dhcpv6_packet example_dhcpv6_options) + 4 \<le> length (d6_options example_dhcpv6_packet)"
  "d6_msg_type example_dhcpv6_packet \<in> {DHCPV6_SOLICIT, DHCPV6_REQUEST, DHCPV6_RELEASE}"
  "cfg_dhcp_ipv6 (iface_cfg (port_iface example_dhcpv6_port)) \<noteq> 0"
  "length (boot_url (\<lambda>_. ''::'') example_dhcpv6_port (boot_mode (seen6 example_dhcpv6_options))) \<le> 95"
  using example_vendor_class
  by (simp_all add: reply6_options_def example_boot_mode)
    (simp_all add: example_dhcpv6_packet_def example_dhcpv6_options_def example_dhcpv6_port_def valid6_option_def seen6_def
      last_opt_def iana_data_def boot_url_def zero_port_def)

text \<open>
  C38: A DHCPv6 request is answered.  A solicitation, request or release of a virtual machine with an address goes back to the port it
  came from as the advertisement or reply, to the sender, with the transaction of the request, provided that its options are
  well-formed (\<open>valid6_option\<close>: client identifiers of at most 128 bytes, address associations of at least 12, empty rapid commits, user
  classes with a complete first item, vendor classes of one item), that the answer fits the buffer, and that there are six bytes
  behind the options if one of them is a vendor class, since the code searches that far.  The options of the answer are a server
  identifier, the last client identifier sent, the leased address under the identifier of the last association asked for, the name
  servers, and for a client that boots over the network the boot file of the last class that says so: over TFTP for the vendor
  class of a PXE client, over HTTP for the user class of iPXE.  The server identifier has the hardware address of the client that
  asks, not one of the server.  An empty last option is not looked at; a rapid commit option counts for the length but is
  overwritten, so four bytes of the buffer end the packet in its place.  All lengths agree.
\<close>

theorem dhcpv6_request_answered:
  assumes "d6_options m = enc6_options os @ behind" "list_all valid6_option os" "room_behind os behind"
    and "unat (d6_data_len m) = DP_DHCPV6_PKT_FIXED_LEN + length (enc6_options os)"
    and "DP_DHCPV6_PKT_FIXED_LEN + length (d6_options m) \<le> 65535" "length (reply_bytes ntop dns port m os) + 4 \<le> length (d6_options m)"
    and "d6_msg_type m \<in> {DHCPV6_SOLICIT, DHCPV6_REQUEST, DHCPV6_RELEASE}" "cfg_dhcp_ipv6 (iface_cfg (port_iface port)) \<noteq> 0"
    and "length (boot_url ntop port (boot_mode (seen6 os))) \<le> 95" "length dns \<le> 255"
  shows "\<exists>m' n. dhcpv6_get_next_index ntop dns port m = Some (DHCP_NEXT_TX (d6_port m), m') \<and>
    d6_msg_type m' = (if d6_msg_type m = DHCPV6_SOLICIT then DHCPV6_ADVERTISE else DHCPV6_REPLY) \<and>
    d6_transaction_id m' = d6_transaction_id m \<and> d6_eth_dst m' = d6_eth_src m \<and> d6_ip_dst m' = d6_ip_src m \<and> d6_eth_src m' = port_own_mac port \<and>
    n = length (reply_bytes ntop dns port m os) + (if wants_rapid_commit os then 4 else 0) \<and>
    take n (d6_options m') = reply_bytes ntop dns port m os @
      (if wants_rapid_commit os then take 4 (drop (length (reply_bytes ntop dns port m os)) (d6_options m)) else []) \<and>
    unat (d6_data_len m') = DP_DHCPV6_PKT_FIXED_LEN + n \<and>
    unat (ntohs (d6_payload_len m')) + sizeof_ether_hdr + sizeof_ipv6_hdr = unat (d6_data_len m') \<and> d6_udp_len m' = d6_payload_len m'"
proof -
  define body n where "body = reply_bytes ntop dns port m os" "n = length body + (if wants_rapid_commit os then 4 else 0)"
  note defs = body_n_def
  define bytes where "bytes = body @ drop (length body) (d6_options m)"
  have gen: "generate_reply_options ntop port (d6_eth_src m) dns (d6_options m) (length (enc6_options os)) = Some (int n, n, bytes)"
    unfolding bytes_def defs assms(1)
    by (rule generate_reply_options_request [OF assms(2,9,3,10)]) (use assms(1,5,6) in simp_all)
  have n: "n + 66 \<le> 65535" "take n bytes = body @ (if wants_rapid_commit os then take 4 (drop (length body) (d6_options m)) else [])"
    using assms(5,6) by (auto simp: defs bytes_def)
  then have "unat (66 + of_nat n :: u16) = 66 + n" "unat (12 + of_nat n :: u16) = 12 + n"
    using unat_of_nat [of "66 + n", where 'a = 16] unat_of_nat [of "12 + n", where 'a = 16] by (simp_all add: take_bit_eq_mod)
  then show ?thesis
    using n gen assms(4,7,8) unfolding defs(1) [symmetric] defs(2) [symmetric]
    by (auto simp: dhcpv6_get_next_index_def dhcpv6_turn_def Let_def dp_is_ipv6_addr_zero_def DP_FAILED_def unat_of_nat take_bit_eq_mod)
qed

theorem dhcpv6_request_answered_witness:
  "\<exists>m'. dhcpv6_get_next_index (\<lambda>_. ''::'') [] example_dhcpv6_port example_dhcpv6_packet = Some (DHCP_NEXT_TX 2, m') \<and>
     d6_msg_type m' = DHCPV6_ADVERTISE \<and> d6_transaction_id m' = [1, 2, 3] \<and>
     unat (d6_data_len m') = 66 + length (reply_bytes (\<lambda>_. ''::'') [] example_dhcpv6_port example_dhcpv6_packet example_dhcpv6_options) + 4"
proof -
  have "wants_rapid_commit example_dhcpv6_options"
    by (simp add: example_dhcpv6_options_def seen6_def)
  moreover have "d6_msg_type example_dhcpv6_packet = DHCPV6_SOLICIT" "d6_port example_dhcpv6_packet = 2" "d6_transaction_id example_dhcpv6_packet = [1, 2, 3]"
    by (simp_all add: example_dhcpv6_packet_def)
  ultimately show ?thesis
    using dhcpv6_request_answered [OF example_dhcpv6_request] by fastforce
qed

end
