(* ===== verification/Spec2Isabelle.thy ===== *)
theory Spec2Isabelle
  imports Dp_Grpc_Conv Dp_Grpc_Correct Dp_Dhcpv6
begin

text \<open>
  A verification library for dpservice, the DPDK-based dataplane of virtual networks under \<^verbatim>\<open>src/\<close>.  The service connects the
  interfaces of virtual machines (ports of a network card) to virtual networks (VNIs) that are tunnelled over an IPv6 underlay.
  A gRPC client configures it; worker nodes forward the packets with the tables that the requests fill.

  \<^bold>\<open>Parts and theories\<close>

  \<^item> \<open>Dp_Prelude\<close>, \<open>Dp_Hash_List\<close>, \<open>Dp_Store\<close>: foundations.  C integers as words, return codes as \<open>int\<close>, the DPDK hash table and
    allocator as parameters with their documented laws (\<open>rte_hash_ok\<close>, \<open>rte_iter_ok\<close>, \<open>rte_malloc_ok\<close>), object tables (a hash table
    of pointers into a heap) with their invariant \<open>obj_ok\<close> and abstract content \<open>obj_view\<close>, and the rules \<open>vcg\<close> for the partial
    correctness of \<open>do\<close> blocks.  \<open>Dp_Hash_List\<close> keeps the laws with a concrete table.  The locales \<open>keyed_store\<close> and \<open>framed_store\<close>
    are the contract of a table that requests add to and delete from; what follows for histories of requests is proved there once.
  \<^item> \<open>Dp_Error\<close>, \<open>Dp_Types\<close>: error numbers and texts; addresses, packet metadata, flow keys and values, rules, ports.
  \<^item> \<open>Dp_Responder\<close>: the reply buffers of \<^verbatim>\<open>src/grpc/dp_grpc_responder.c\<close>.
  \<^item> \<open>Dp_Firewall\<close>, \<open>Dp_Grpc_Conv\<close>: \<^verbatim>\<open>src/dp_firewall.c\<close> and the masks of \<^verbatim>\<open>src/grpc/dp_grpc_conv.cpp\<close>.  The decision is that of the
    first matching rule, default policies included; the matcher tests prefixes and port ranges, and for ICMP type and code before and
    instead of the addresses; the rule requests implement a finite map.
  \<^item> \<open>Dp_Nat\<close>, \<open>Dp_Nat_Correct\<close>: \<^verbatim>\<open>src/dp_nat.c\<close>, virtual IPs, network NAT and neighbour NATs.  No two live flows share a translated
    address, port, destination and protocol; a free port is found whenever there is one, unless the
    hash the search starts from wraps around or the range starts at 0; releasing what was allocated restores the tables; each of the tables implements a finite map.
  \<^item> \<open>Dp_Vnf\<close>: \<^verbatim>\<open>src/dp_vnf.c\<close>, the underlay addresses of network functions.  Every value entry names an address with that
    function; for load balancer prefixes the two tables are inverse to each other (other functions may share a value).
  \<^item> \<open>Dp_Lb\<close>: \<^verbatim>\<open>src/dp_lb.c\<close>.  Selection is a fair round robin, targets are a set, deletion undoes creation under an id not in use
    (a second load balancer under a used id takes it over for good); a creation that runs out of memory leaves a dangling entry.
  \<^item> \<open>Dp_Rib\<close>, \<open>Dp_Vni\<close>, \<open>Dp_Lpm\<close>: \<^verbatim>\<open>src/dp_vni.c\<close>, \<^verbatim>\<open>src/dp_lpm.c\<close>.  Reference-counted route tables, longest-prefix lookup, the
    route requests as a finite map, and the life of a network without use of freed tables, as long as resets find memory.
  \<^item> \<open>Dp_Flow_Key\<close>, \<open>Dp_Flow\<close>, \<open>Dp_Cntrack\<close>: \<^verbatim>\<open>src/dp_flow.c\<close>, \<^verbatim>\<open>src/dp_cntrack.c\<close>, \<^verbatim>\<open>src/rte_flow/dp_rte_flow.c\<close>.  Keys of packets and
    of their replies, the reference-counted flow table with aging and removal, connection tracking with its cache and the TCP states,
    which are described by the packets seen.  Removal and aging are exact without offloading.
  \<^item> \<open>Dp_Rte_Flow\<close>, \<open>Dp_Capture\<close>, \<open>Dp_Port\<close>, \<open>Dp_Iface\<close>: hardware rules and their helpers, packet capture, \<^verbatim>\<open>src/dp_port.c\<close> with
    hairpins and meters, \<^verbatim>\<open>src/dp_iface.c\<close>.  \<open>Dp_Iface\<close> composes the states of all components to the one of the service.
  \<^item> \<open>Dp_Grpc_Impl\<close>, \<open>Dp_Grpc_Codes\<close>, \<open>Dp_Grpc_Correct\<close>: \<^verbatim>\<open>src/grpc/dp_grpc_impl.c\<close>, every request handler with its rollbacks and the
    dispatcher.  Every reply carries a documented code; the underlay addresses handed out are those in the tables, whatever fails
    half-way; the tables of network functions stay tied through every history of requests; an interface that was created is read back as requested.
  \<^item> \<open>Dp_Dhcp\<close>, \<open>Dp_Dhcpv6\<close>: \<^verbatim>\<open>src/nodes/dhcp_node.c\<close>, \<^verbatim>\<open>src/nodes/dhcpv6_node.c\<close> and the name servers of \<^verbatim>\<open>src/dp_conf.c\<close>.  Parsers of
    options against their meaning, the answers with their exact options and lengths (to requests without padding, for DHCPv6 with
    well-formed classes), and where the code departs from the standards.

  \<^bold>\<open>How state and operations correspond\<close>

  A structure is a record, an enumeration a datatype, a static variable a field of the state that an operation takes and returns.
  Operations keep the names of the C functions; parts of a long function that are definitions of their own are composed in its order.
  Pointers to heap objects are addresses of a heap; a use of freed memory, an access outside an array or a failed assertion is the
  result \<open>None\<close>, so that a theorem with the result \<open>Some\<close> shows their absence.  DPDK, the drivers, the clock, random numbers and the
  kernel are parameters; an operation that may fail there fails on every branch the code has.  The build is the default one, without
  \<^verbatim>\<open>ENABLE_VIRTSVC\<close>, \<^verbatim>\<open>ENABLE_STATIC_UNDERLAY_IP\<close> and \<^verbatim>\<open>ENABLE_PYTEST\<close>.  Logging is left out, unless its arguments are undefined.

  \<^bold>\<open>Loops and bounds\<close>

  There is no fuel.  Loops are total functions, except for the iterations over a hash table (\<open>rh_foreach\<close>) and a route table
  (\<open>rib_traverse\<close>), which are partial functions, as the iterators are library code; under \<open>rte_iter_ok\<close> and \<open>rib_iter_ok\<close> they return.
  Sizes (ports, slots of a load balancer, options of a packet) are those of the source.  Words keep their width.

  \<^bold>\<open>Not modelled\<close>

  \<^item> The remaining nodes of the packet graph under \<^verbatim>\<open>src/nodes\<close> and the header rewriting of \<^verbatim>\<open>src/dp_nat.c\<close> (lines 265 to 479): they
    need a model of whole packets, while the model of a packet here has the fields that tables and flow keys are built from.
  \<^item> \<^verbatim>\<open>src/rte_flow/dp_rte_flow_traffic_forward.c\<close>, which assembles hardware rules for tracked flows, and \<^verbatim>\<open>src/dp_multi_path.c\<close>.
  \<^item> Virtual services, which the default build does not contain.
  \<^item> Configuration, start-up, the graph, timers, logging, telemetry, monitoring, netlink and the tools: input and output, generated
    code, or calls of a library in order.
  \<^item> The C++ gRPC server: generated classes and the completion queue of a library.  The handlers start where it hands over a request.
  \<^item> Interleaving of the control thread with the workers: a request is one step, as \<^verbatim>\<open>src/nodes/rx_periodic_node.c\<close> runs it on
    the worker that owns the tables.
\<close>

end
